(* ===== verification/Ferry_Prelude.thy ===== *)
theory Ferry_Prelude
  imports
    Main
    "HOL-Library.Word"
    "HOL-Library.Sublist"
    "HOL-Library.Char_ord"
    "HOL-Library.List_Lexorder"
    "HOL-Library.Multiset"
begin

text \<open>
  Shared vocabulary of the development: Rust's machine integers as words, \<open>Result\<close> as a sum,
  sequences of fallible checks, UTF-8 text as byte lists, the parts of \<open>str\<close> and \<open>slice\<close> the
  sources use, big-endian encodings, and the interface of self-delimiting encoders.

  A Rust \<open>String\<close> is a byte vector that holds valid UTF-8, so text and bytes share the type
  \<open>char list\<close> (a HOL \<open>char\<close> is one byte). Operations that the sources apply to scalar values
  (\<open>chars()\<close>, \<open>char::is_control\<close>, \<open>trim\<close>) go through the decoder \<open>chars\<close> below.
\<close>

named_theorems result_simps \<open>equations for sequences of checks\<close>
named_theorems text_simps \<open>equations for text predicates\<close>

section \<open>Machine integers and results\<close>

type_synonym u16 = "16 word"
type_synonym u32 = "32 word"
type_synonym u64 = "64 word"
type_synonym bytes = "char list"

text \<open>Two size limits of the protocol and of the source transport that several components share.\<close>

definition MAX_SOURCE_BUNDLE_DESCRIPTOR_BYTES :: u64 where
  "MAX_SOURCE_BUNDLE_DESCRIPTOR_BYTES = 128 * 1024 * 1024"

definition MAX_EVENT_LINE_BYTES :: nat where
  "MAX_EVENT_LINE_BYTES = 1024 * 1024"

text \<open>\<open>Result<T, E>\<close> is the sum \<open>'e + 'a\<close>: \<open>Inl\<close> carries the error.\<close>

abbreviation Err :: "'e \<Rightarrow> 'e + 'a" where
  "Err e \<equiv> Inl e"

abbreviation Ok :: "'a \<Rightarrow> 'e + 'a" where
  "Ok x \<equiv> Inr x"

definition is_ok :: "'e + 'a \<Rightarrow> bool" where
  "is_ok r \<longleftrightarrow> (case r of Inl _ \<Rightarrow> False | Inr _ \<Rightarrow> True)"

definition and_then :: "'e + 'a \<Rightarrow> ('a \<Rightarrow> 'e + 'b) \<Rightarrow> 'e + 'b" where
  "and_then r f = (case r of Inl e \<Rightarrow> Inl e | Inr x \<Rightarrow> f x)"

definition map_err :: "('e \<Rightarrow> 'f) \<Rightarrow> 'e + 'a \<Rightarrow> 'f + 'a" where
  "map_err g r = (case r of Inl e \<Rightarrow> Inl (g e) | Inr x \<Rightarrow> Inr x)"

text \<open>\<open>return Err(e)\<close> under a condition, the \<open>if\<close> guards of the validators.\<close>

definition reject_if :: "bool \<Rightarrow> 'e \<Rightarrow> 'e + unit" where
  "reject_if b e = (if b then Inl e else Inr ())"

text \<open>
  A validator body is a sequence of statements \<open>check?;\<close> that have no effect beyond returning
  early. \<open>run_checks\<close> runs them in order and returns the first error.
\<close>

fun run_checks :: "('e + unit) list \<Rightarrow> 'e + unit" where
  "run_checks [] = Inr ()"
| "run_checks (c # cs) = (case c of Inl e \<Rightarrow> Inl e | Inr _ \<Rightarrow> run_checks cs)"

lemma is_ok_simps [simp]: "is_ok (Inr x)" "\<not> is_ok (Inl e)"
  by (simp_all add: is_ok_def)

lemma is_ok_unit: "is_ok (r :: 'e + unit) \<longleftrightarrow> r = Inr ()"
  by (cases r) simp_all

lemma is_ok_conv: "is_ok r \<longleftrightarrow> (\<exists>x. r = Inr x)"
  by (cases r) simp_all

lemma and_then_simps [simp]: "and_then (Inl e) f = Inl e" "and_then (Inr x) f = f x"
  by (simp_all add: and_then_def)

lemma and_then_Inr_iff: "and_then r f = Inr y \<longleftrightarrow> (\<exists>x. r = Inr x \<and> f x = Inr y)"
  by (cases r) simp_all

lemma map_err_simps [simp]: "map_err g (Inl e) = Inl (g e)" "map_err g (Inr x) = Inr x"
  by (simp_all add: map_err_def)

lemma is_ok_map_err [simp]: "is_ok (map_err g r) \<longleftrightarrow> is_ok r"
  by (cases r) simp_all

lemma map_err_Inr_iff [simp]: "map_err g r = Inr x \<longleftrightarrow> r = Inr x"
  by (cases r) simp_all

lemma reject_if_Inr [result_simps]: "reject_if b e = Inr u \<longleftrightarrow> \<not> b"
  by (simp add: reject_if_def)

lemma reject_if_Inl [result_simps]: "reject_if b e = Inl e' \<longleftrightarrow> b \<and> e = e'"
  by (simp add: reject_if_def)

lemma is_ok_reject_if [simp]: "is_ok (reject_if b e) \<longleftrightarrow> \<not> b"
  by (simp add: reject_if_def)

lemma run_checks_ok_iff: "is_ok (run_checks cs) \<longleftrightarrow> (\<forall>c \<in> set cs. is_ok c)"
  by (induction cs) (auto split: sum.splits)

lemma run_checks_Inr_iff [result_simps]: "run_checks cs = Inr u \<longleftrightarrow> (\<forall>c \<in> set cs. is_ok c)"
  using run_checks_ok_iff [of cs] by (simp add: is_ok_unit)

lemma run_checks_Inl_mem: "run_checks cs = Inl e \<Longrightarrow> Inl e \<in> set cs"
  by (induction cs) (auto split: sum.splits)

lemma run_checks_first_error:
  "(\<forall>c \<in> set pre. is_ok c) \<Longrightarrow> run_checks (pre @ Inl e # post) = Inl e"
  by (induction pre) (auto split: sum.splits)

lemma run_checks_append:
  "run_checks (xs @ ys) = (case run_checks xs of Inl e \<Rightarrow> Inl e | Inr _ \<Rightarrow> run_checks ys)"
  by (induction xs) (auto split: sum.splits)

text \<open>A \<open>for\<close> loop whose body may return early, threading the loop's local state.\<close>

fun try_fold :: "('s \<Rightarrow> 'a \<Rightarrow> 'e + 's) \<Rightarrow> 's \<Rightarrow> 'a list \<Rightarrow> 'e + 's" where
  "try_fold f s [] = Inr s"
| "try_fold f s (x # xs) = (case f s x of Inl e \<Rightarrow> Inl e | Inr s' \<Rightarrow> try_fold f s' xs)"

lemma try_fold_append:
  "try_fold f s (xs @ ys) = and_then (try_fold f s xs) (\<lambda>s'. try_fold f s' ys)"
  by (induction xs arbitrary: s) (auto split: sum.splits)

text \<open>An invariant of the loop state that every successful iteration keeps.\<close>

lemma try_fold_invariant:
  assumes "try_fold f s xs = Inr t" and "I [] s"
    and "\<And>done x a b. I done a \<Longrightarrow> x \<in> set xs \<Longrightarrow> f a x = Inr b \<Longrightarrow> I (done @ [x]) b"
  shows "I xs t"
  using assms
proof (induction xs arbitrary: t rule: rev_induct)
  case Nil
  then show ?case by simp
next
  case (snoc x xs)
  from snoc.prems(1) obtain m where m: "try_fold f s xs = Inr m" and x: "f m x = Inr t"
    by (cases "try_fold f s xs") (auto simp: try_fold_append split: sum.splits)
  have "I xs m"
    using m snoc.prems(2) by (rule snoc.IH) (use snoc.prems(3) in auto)
  with x show ?case by (auto intro: snoc.prems(3))
qed

text \<open>
  The contract of a checked lifecycle: a transition ends in the requested state, every transition to
  another state moves up in rank, and an absorbing state is never left.
\<close>

locale lifecycle =
  fixes step :: "'s \<Rightarrow> 's \<Rightarrow> 'e + 's"
    and rank :: "'s \<Rightarrow> nat"
    and absorbing :: "'s \<Rightarrow> bool"
  assumes step_target: "step s t = Inr u \<Longrightarrow> u = t"
    and step_rank: "step s t = Inr u \<Longrightarrow> s \<noteq> t \<Longrightarrow> rank s < rank t"
    and step_absorbing: "absorbing s \<Longrightarrow> step s t = Inr u \<Longrightarrow> t = s"
begin

lemma run_last: "try_fold step s ts = Inr u \<Longrightarrow> u = last (s # ts)"
proof (induction ts arbitrary: s)
  case (Cons t ts)
  then obtain v where v: "step s t = Inr v" "try_fold step v ts = Inr u"
    by (cases "step s t") auto
  with Cons.IH step_target show ?case by force
qed simp

lemma run_rank: "try_fold step s ts = Inr u \<Longrightarrow> t \<in> set ts \<Longrightarrow> rank s \<le> rank t"
proof (induction ts arbitrary: s)
  case (Cons a ts)
  then obtain v where v: "step s a = Inr v" "try_fold step v ts = Inr u"
    by (cases "step s a") auto
  then have "v = a" "rank s \<le> rank a" using step_target step_rank by (fastforce, cases "s = a") fastforce+
  with Cons v show ?case by fastforce
qed simp

text \<open>A state that was left is never entered again.\<close>

lemma run_never_returns:
  assumes "try_fold step s (t # ts) = Inr u" "t \<noteq> s"
  shows "s \<notin> set (t # ts)"
proof
  assume "s \<in> set (t # ts)"
  from assms obtain v where v: "step s t = Inr v" "try_fold step v ts = Inr u"
    by (cases "step s t") auto
  with assms(2) have "rank s < rank t" "v = t" using step_rank step_target by blast+
  with \<open>s \<in> set (t # ts)\<close> assms(2) v run_rank [of t ts u s] show False by auto
qed

lemma run_absorbed: "absorbing s \<Longrightarrow> try_fold step s ts = Inr u \<Longrightarrow> u = s"
proof (induction ts arbitrary: s)
  case (Cons t ts)
  then obtain v where v: "step s t = Inr v" "try_fold step v ts = Inr u"
    by (cases "step s t") auto
  with Cons step_target step_absorbing show ?case by blast
qed simp

end

text \<open>
  Feeding a stateful filter a sequence of chunks and then finishing it. The outer \<open>None\<close> is a call
  that does not return, \<open>Inl\<close> a panic.
\<close>

fun feed ::
    "('s \<Rightarrow> 'i \<Rightarrow> ('p + 'o list \<times> 's) option) \<Rightarrow> ('s \<Rightarrow> ('o list \<times> 's) option) \<Rightarrow> 's \<Rightarrow> 'i list
     \<Rightarrow> ('p + 'o list \<times> 's) option" where
  "feed push fin st [] = map_option Inr (fin st)"
| "feed push fin st (c # cs) =
     (case push st c of
        None \<Rightarrow> None
      | Some (Inl p) \<Rightarrow> Some (Inl p)
      | Some (Inr (out, st')) \<Rightarrow>
          (case feed push fin st' cs of
             Some (Inr (rest, st'')) \<Rightarrow> Some (Inr (out @ rest, st''))
           | other \<Rightarrow> other))"

text \<open>
  The contract of a chunk-safe filter: every live state means a function from the input still to
  come to the output still to come, pushing a chunk emits a beginning of that output, and
  finishing emits what is left.
\<close>

locale chunked_filter =
  fixes push :: "'s \<Rightarrow> 'i list \<Rightarrow> ('p + 'o list \<times> 's) option"
    and fin :: "'s \<Rightarrow> ('o list \<times> 's) option"
    and meaning :: "'s \<Rightarrow> 'i list \<Rightarrow> 'o list"
    and live :: "'s \<Rightarrow> bool"
    and closed :: "'s \<Rightarrow> bool"
  assumes push_law: "live st \<Longrightarrow> \<exists>out st'. push st c = Some (Inr (out, st')) \<and> live st'
      \<and> (\<forall>x. meaning st (c @ x) = out @ meaning st' x)"
    and fin_law: "live st \<Longrightarrow> \<exists>st'. fin st = Some (meaning st [], st') \<and> closed st'"
begin

lemma feed_meaning:
  "live st \<Longrightarrow> \<exists>st'. feed push fin st cs = Some (Inr (meaning st (concat cs), st')) \<and> closed st'"
proof (induction cs arbitrary: st)
  case Nil
  then show ?case using fin_law by fastforce
next
  case (Cons c cs)
  obtain out st' where p: "push st c = Some (Inr (out, st'))" "live st'"
    and m: "\<forall>x. meaning st (c @ x) = out @ meaning st' x"
    using push_law [OF Cons.prems] by blast
  from Cons.IH [OF p(2)] p m show ?case by auto
qed

lemma feed_chunking_irrelevant:
  "live st \<Longrightarrow> concat cs = concat ds \<Longrightarrow>
   map_option (map_sum id fst) (feed push fin st cs) = map_option (map_sum id fst) (feed push fin st ds)"
  using feed_meaning [of st cs] feed_meaning [of st ds] by auto

end

text \<open>\<open>u64::checked_add\<close>.\<close>

definition checked_add :: "'n::len word \<Rightarrow> 'n word \<Rightarrow> 'n word option" where
  "checked_add a b = (if unat a + unat b < 2 ^ LENGTH('n) then Some (a + b) else None)"

lemma checked_add_Some: "checked_add a b = Some c \<Longrightarrow> unat c = unat a + unat b"
  by (auto simp: checked_add_def unat_word_ariths split: if_splits)

lemma checked_add_None:
  "checked_add (a :: 'n::len word) b = None \<longleftrightarrow> 2 ^ LENGTH('n) \<le> unat a + unat b"
  by (auto simp: checked_add_def)

end
