(* ===== verification/Rust_Text.thy ===== *)
theory Rust_Text
  imports Ferry_Prelude
begin

text \<open>
  The operations of Rust's \<open>str\<close>, \<open>u8\<close>, \<open>char\<close> and unsigned integers that the sources call on
  text: scalar-value decoding, ASCII classification and case mapping, splitting, stripping,
  searching, decimal parsing and printing, big-endian bytes and lowercase hexadecimal.
\<close>

section \<open>Bytes and ASCII classes\<close>

abbreviation byte :: "char \<Rightarrow> nat" where
  "byte c \<equiv> of_char c"

definition is_ascii_digit :: "char \<Rightarrow> bool" where
  "is_ascii_digit c \<longleftrightarrow> 48 \<le> byte c \<and> byte c \<le> 57"

definition is_ascii_uppercase :: "char \<Rightarrow> bool" where
  "is_ascii_uppercase c \<longleftrightarrow> 65 \<le> byte c \<and> byte c \<le> 90"

definition is_ascii_lowercase :: "char \<Rightarrow> bool" where
  "is_ascii_lowercase c \<longleftrightarrow> 97 \<le> byte c \<and> byte c \<le> 122"

definition is_ascii_alphabetic :: "char \<Rightarrow> bool" where
  "is_ascii_alphabetic c \<longleftrightarrow> is_ascii_uppercase c \<or> is_ascii_lowercase c"

definition is_ascii_alphanumeric :: "char \<Rightarrow> bool" where
  "is_ascii_alphanumeric c \<longleftrightarrow> is_ascii_alphabetic c \<or> is_ascii_digit c"

definition is_ascii_hexdigit :: "char \<Rightarrow> bool" where
  "is_ascii_hexdigit c \<longleftrightarrow> is_ascii_digit c \<or> (65 \<le> byte c \<and> byte c \<le> 70) \<or> (97 \<le> byte c \<and> byte c \<le> 102)"

definition is_ascii_graphic :: "char \<Rightarrow> bool" where
  "is_ascii_graphic c \<longleftrightarrow> 33 \<le> byte c \<and> byte c \<le> 126"

definition is_ascii_whitespace :: "char \<Rightarrow> bool" where
  "is_ascii_whitespace c \<longleftrightarrow> byte c \<in> {9, 10, 12, 13, 32}"

text \<open>A byte that is an ASCII digit or one of \<open>a..=f\<close>.\<close>

definition is_lower_hex :: "char \<Rightarrow> bool" where
  "is_lower_hex c \<longleftrightarrow> is_ascii_digit c \<or> (97 \<le> byte c \<and> byte c \<le> 102)"

definition to_ascii_lower :: "char \<Rightarrow> char" where
  "to_ascii_lower c = (if is_ascii_uppercase c then char_of (byte c + 32) else c)"

definition to_ascii_upper :: "char \<Rightarrow> char" where
  "to_ascii_upper c = (if is_ascii_lowercase c then char_of (byte c - 32) else c)"

definition to_ascii_lowercase :: "string \<Rightarrow> string" where
  "to_ascii_lowercase s = map to_ascii_lower s"

definition to_ascii_uppercase :: "string \<Rightarrow> string" where
  "to_ascii_uppercase s = map to_ascii_upper s"

lemmas ascii_class_defs =
  is_ascii_digit_def is_ascii_uppercase_def is_ascii_lowercase_def is_ascii_alphabetic_def
  is_ascii_alphanumeric_def is_ascii_hexdigit_def is_ascii_graphic_def is_ascii_whitespace_def
  is_lower_hex_def

lemma byte_less_256 [simp]: "byte c < 256"
  using of_char_mod_256 [of c, where ?'a = nat]
  by (metis mod_less_divisor zero_less_numeral)

lemma byte_char_of [simp]: "n < 256 \<Longrightarrow> byte (char_of n) = n"
  by (simp add: of_char_of)

lemma byte_inject: "byte c = byte d \<longleftrightarrow> c = d"
  by (simp add: of_char_eq_iff)

lemma byte_to_ascii_lower:
  "byte (to_ascii_lower c) = (if 65 \<le> byte c \<and> byte c \<le> 90 then byte c + 32 else byte c)"
  by (auto simp: to_ascii_lower_def is_ascii_uppercase_def)

lemma byte_to_ascii_upper:
  "byte (to_ascii_upper c) = (if 97 \<le> byte c \<and> byte c \<le> 122 then byte c - 32 else byte c)"
  by (auto simp: to_ascii_upper_def is_ascii_lowercase_def)

lemma to_ascii_lower_idem [simp]: "to_ascii_lower (to_ascii_lower c) = to_ascii_lower c"
  by (simp add: byte_to_ascii_lower flip: byte_inject)

lemma to_ascii_lowercase_idem [simp]:
  "to_ascii_lowercase (to_ascii_lowercase s) = to_ascii_lowercase s"
  by (simp add: to_ascii_lowercase_def)

section \<open>Scalar values\<close>

text \<open>
  \<open>chars()\<close> decodes UTF-8. Rust guarantees that a \<open>str\<close> is valid UTF-8; the decoder is total, and
  what it returns on a truncated sequence is never observed on a valid string.
\<close>

fun chars :: "bytes \<Rightarrow> nat list" where
  "chars [] = []"
| "chars (a # s) =
     (let n = byte a in
      if n < 128 then n # chars s
      else if n < 224 then
        (case s of b # s1 \<Rightarrow> ((n - 192) * 64 + (byte b - 128)) # chars s1 | [] \<Rightarrow> [n])
      else if n < 240 then
        (case s of b # c # s2 \<Rightarrow>
             ((n - 224) * 4096 + (byte b - 128) * 64 + (byte c - 128)) # chars s2
         | _ \<Rightarrow> [n])
      else
        (case s of b # c # d # s3 \<Rightarrow>
             ((n - 240) * 262144 + (byte b - 128) * 4096 + (byte c - 128) * 64 + (byte d - 128))
               # chars s3
         | _ \<Rightarrow> [n]))"

definition is_scalar :: "nat \<Rightarrow> bool" where
  "is_scalar c \<longleftrightarrow> c < 55296 \<or> (57344 \<le> c \<and> c < 1114112)"

definition utf8_char :: "nat \<Rightarrow> bytes" where
  "utf8_char c =
     (if c < 128 then [char_of c]
      else if c < 2048 then [char_of (192 + c div 64), char_of (128 + c mod 64)]
      else if c < 65536 then
        [char_of (224 + c div 4096), char_of (128 + c div 64 mod 64), char_of (128 + c mod 64)]
      else
        [char_of (240 + c div 262144), char_of (128 + c div 4096 mod 64),
         char_of (128 + c div 64 mod 64), char_of (128 + c mod 64)])"

definition utf8_encode :: "nat list \<Rightarrow> bytes" where
  "utf8_encode cs = concat (map utf8_char cs)"

text \<open>\<open>std::str::from_utf8\<close>: the bytes are the encoding of some sequence of scalar values.\<close>

definition utf8_valid :: "bytes \<Rightarrow> bool" where
  "utf8_valid s \<longleftrightarrow> (\<forall>c \<in> set (chars s). is_scalar c) \<and> utf8_encode (chars s) = s"

lemma chars_utf8_char: "is_scalar c \<Longrightarrow> chars (utf8_char c @ s) = c # chars s"
proof -
  assume c: "is_scalar c"
  then have "c < 1114112" by (auto simp: is_scalar_def)
  then have b: "c div 262144 < 5" "c div 4096 < 272" by auto
  have e2: "c div 64 * 64 + c mod 64 = c"
    by (rule div_mult_mod_eq)
  have "c div 4096 = c div 64 div 64" "c div 262144 = c div 4096 div 64"
    by (simp_all flip: div_mult2_eq)
  then have s3: "c div 4096 * 64 + c div 64 mod 64 = c div 64"
    and s4: "c div 262144 * 64 + c div 4096 mod 64 = c div 4096"
    by (simp_all only: div_mult_mod_eq)
  have e3: "c div 4096 * 4096 + c div 64 mod 64 * 64 + c mod 64 = c"
    using s3 e2 by linarith
  have e4: "c div 262144 * 262144 + c div 4096 mod 64 * 4096 + c div 64 mod 64 * 64 + c mod 64 = c"
    using s4 e3 by linarith
  have tail: "(128 + x mod 64) mod 256 = 128 + x mod 64" for x :: nat
    by (rule mod_less) (use mod_less_divisor [of 64 x] in linarith)
  consider "c < 128" | "128 \<le> c" "c < 2048" | "2048 \<le> c" "c < 65536" | "65536 \<le> c"
    by linarith
  then show ?thesis
  proof cases
    case 1
    then show ?thesis by (simp add: utf8_char_def)
  next
    case 2
    then have "c div 64 < 32" by auto
    with 2 e2 show ?thesis by (simp add: utf8_char_def Let_def)
  next
    case 3
    then have "c div 4096 < 16" by auto
    with 3 e3 show ?thesis by (simp add: utf8_char_def Let_def)
  next
    case 4
    with b e4 show ?thesis by (simp add: utf8_char_def Let_def tail)
  qed
qed

lemma chars_utf8_encode: "\<forall>c \<in> set cs. is_scalar c \<Longrightarrow> chars (utf8_encode cs) = cs"
  by (induction cs) (simp_all add: utf8_encode_def chars_utf8_char)

lemma utf8_valid_iff: "utf8_valid s \<longleftrightarrow> (\<exists>cs. (\<forall>c \<in> set cs. is_scalar c) \<and> s = utf8_encode cs)"
proof
  assume "\<exists>cs. (\<forall>c \<in> set cs. is_scalar c) \<and> s = utf8_encode cs"
  then obtain cs where cs: "\<forall>c \<in> set cs. is_scalar c" "s = utf8_encode cs" by blast
  with chars_utf8_encode [OF cs(1)] show "utf8_valid s" by (simp add: utf8_valid_def)
qed (auto simp: utf8_valid_def)

definition is_ascii :: "string \<Rightarrow> bool" where
  "is_ascii s \<longleftrightarrow> (\<forall>c \<in> set s. byte c < 128)"

lemma chars_ascii: "is_ascii s \<Longrightarrow> chars s = map byte s"
  by (induction s) (simp_all add: is_ascii_def)

text \<open>\<open>char::is_control\<close> (general category Cc) and \<open>char::is_whitespace\<close> (White_Space).\<close>

definition is_control :: "nat \<Rightarrow> bool" where
  "is_control c \<longleftrightarrow> c < 32 \<or> (127 \<le> c \<and> c < 160)"

definition is_whitespace :: "nat \<Rightarrow> bool" where
  "is_whitespace c \<longleftrightarrow> (9 \<le> c \<and> c \<le> 13) \<or> c = 32 \<or> c = 133 \<or> c = 160 \<or> c = 5760
     \<or> (8192 \<le> c \<and> c \<le> 8202) \<or> c = 8232 \<or> c = 8233 \<or> c = 8239 \<or> c = 8287 \<or> c = 12288"

definition has_control :: "string \<Rightarrow> bool" where
  "has_control s \<longleftrightarrow> (\<exists>c \<in> set (chars s). is_control c)"

text \<open>\<open>value.trim() == value\<close> and \<open>value.trim().is_empty()\<close>.\<close>

definition is_trimmed :: "string \<Rightarrow> bool" where
  "is_trimmed s \<longleftrightarrow>
     (case chars s of [] \<Rightarrow> True
      | c # cs \<Rightarrow> \<not> is_whitespace c \<and> \<not> is_whitespace (last (c # cs)))"

definition is_blank :: "string \<Rightarrow> bool" where
  "is_blank s \<longleftrightarrow> (\<forall>c \<in> set (chars s). is_whitespace c)"

text \<open>
  \<open>String::from_utf8_lossy\<close>: \<open>utf8_step\<close> says whether the bytes start with a whole scalar value and
  how many bytes that value, or the maximal broken part, takes; every broken part becomes U+FFFD.
\<close>

definition is_continuation :: "char \<Rightarrow> bool" where
  "is_continuation c \<longleftrightarrow> 128 \<le> byte c \<and> byte c < 192"

fun continuations :: "nat \<Rightarrow> nat \<Rightarrow> bytes \<Rightarrow> bool \<times> nat" where
  "continuations 0 used s = (True, used)"
| "continuations (Suc n) used s =
     (case s of c # t \<Rightarrow> if is_continuation c then continuations n (Suc used) t else (False, used)
      | [] \<Rightarrow> (False, used))"

fun second_between :: "nat \<Rightarrow> nat \<Rightarrow> nat \<Rightarrow> bytes \<Rightarrow> bool \<times> nat" where
  "second_between lo hi more [] = (False, 1)"
| "second_between lo hi more (c # t) =
     (if lo \<le> byte c \<and> byte c \<le> hi then continuations more 2 t else (False, 1))"

definition utf8_step :: "char \<Rightarrow> bytes \<Rightarrow> bool \<times> nat" where
  "utf8_step a s =
     (let n = byte a in
      if n < 128 then (True, 1)
      else if 194 \<le> n \<and> n \<le> 223 then continuations 1 1 s
      else if n = 224 then second_between 160 191 1 s
      else if 225 \<le> n \<and> n \<le> 236 then second_between 128 191 1 s
      else if n = 237 then second_between 128 159 1 s
      else if 238 \<le> n \<and> n \<le> 239 then second_between 128 191 1 s
      else if n = 240 then second_between 144 191 2 s
      else if 241 \<le> n \<and> n \<le> 243 then second_between 128 191 2 s
      else if n = 244 then second_between 128 143 2 s
      else (False, 1))"

function from_utf8_lossy :: "bytes \<Rightarrow> string" where
  "from_utf8_lossy [] = []"
| "from_utf8_lossy (a # s) =
     (let (whole, n) = utf8_step a s in
      (if whole then take n (a # s) else [CHR 0xEF, CHR 0xBF, CHR 0xBD])
        @ from_utf8_lossy (drop (n - 1) s))"
  by pat_completeness auto
termination
  by (relation "measure length") auto

lemma from_utf8_lossy_ascii: "is_ascii s \<Longrightarrow> from_utf8_lossy s = s"
  by (induction s) (simp_all add: is_ascii_def utf8_step_def)

lemma continuations_high:
  "continuations k u s = (True, n) \<Longrightarrow> n = u + k \<and> (\<forall>c \<in> set (take k s). 128 \<le> byte c)"
  by (induction k u s rule: continuations.induct)
    (auto split: list.splits if_splits simp: is_continuation_def)

lemma second_between_high:
  "second_between lo hi k s = (True, n) \<Longrightarrow> 128 \<le> lo \<Longrightarrow>
   n = k + 2 \<and> (\<forall>c \<in> set (take (k + 1) s). 128 \<le> byte c)"
  by (cases s) (auto split: if_splits dest!: continuations_high)

lemma utf8_step_high:
  assumes "utf8_step a s = (True, n)" "128 \<le> byte a"
  shows "n > 0 \<and> (\<forall>c \<in> set (take (n - 1) s). 128 \<le> byte c)"
  using assms unfolding utf8_step_def Let_def
  by (auto split: if_splits list.splits simp: is_continuation_def dest!: second_between_high)

text \<open>Lossy decoding invents no ASCII text: what it shows of it was in the bytes.\<close>

lemma lossy_piece:
  "\<exists>piece n. from_utf8_lossy (a # s) = piece @ from_utf8_lossy (drop n s)
     \<and> (if byte a < 128 then piece = [a] \<and> n = 0 else piece \<noteq> [] \<and> (\<forall>c \<in> set piece. 128 \<le> byte c))"
proof (cases "byte a < 128")
  case True
  then have "from_utf8_lossy (a # s) = [a] @ from_utf8_lossy (drop 0 s)"
    by (simp add: utf8_step_def)
  with True show ?thesis by (metis (full_types))
next
  case False
  obtain whole n where st: "utf8_step a s = (whole, n)" by fastforce
  show ?thesis
  proof (cases whole)
    case True
    with st False have "n > 0" "\<forall>c \<in> set (take (n - 1) s). 128 \<le> byte c"
      using utf8_step_high by auto
    with False True st show ?thesis
      by (intro exI [of _ "take n (a # s)"] exI [of _ "n - 1"]) (auto simp: take_Cons')
  next
    case False
    with \<open>\<not> byte a < 128\<close> st show ?thesis
      by (intro exI [of _ "[CHR 0xEF, CHR 0xBF, CHR 0xBD]"] exI [of _ "n - 1"]) simp
  qed
qed

lemma lossy_prefix_ascii: "is_ascii t \<Longrightarrow> prefix t (from_utf8_lossy s) \<Longrightarrow> prefix t s"
proof (induction s arbitrary: t)
  case Nil
  then show ?case by simp
next
  case (Cons a s)
  obtain piece n where p: "from_utf8_lossy (a # s) = piece @ from_utf8_lossy (drop n s)"
    and shape: "if byte a < 128 then piece = [a] \<and> n = 0 else piece \<noteq> [] \<and> (\<forall>c \<in> set piece. 128 \<le> byte c)"
    using lossy_piece [of a s] by blast
  show ?case
  proof (cases t)
    case (Cons b t')
    with \<open>is_ascii t\<close> have b: "byte b < 128" "is_ascii t'" by (auto simp: is_ascii_def)
    with Cons Cons.prems(2) p shape have "byte a < 128"
      by (cases piece) (auto split: if_splits)
    with b Cons Cons.prems p shape Cons.IH [of t'] show ?thesis by simp
  qed simp
qed

lemma lossy_sublist_ascii:
  "is_ascii t \<Longrightarrow> sublist t (from_utf8_lossy s) \<Longrightarrow> sublist t s"
proof (induction s rule: length_induct)
  case (1 s)
  show ?case
  proof (cases s)
    case Nil
    with 1 show ?thesis by simp
  next
    case (Cons a s')
    obtain piece n where p: "from_utf8_lossy (a # s') = piece @ from_utf8_lossy (drop n s')"
      and shape: "if byte a < 128 then piece = [a] \<and> n = 0 else piece \<noteq> [] \<and> (\<forall>c \<in> set piece. 128 \<le> byte c)"
      using lossy_piece [of a s'] by blast
    have skip: "sublist t u \<or> t = []"
      if "sublist t (v @ u)" "\<forall>c \<in> set v. 128 \<le> byte c" for u v
      using that \<open>is_ascii t\<close>
    proof (induction v)
      case (Cons x xs)
      then show ?case
        by (cases t) (auto simp: sublist_Cons_right is_ascii_def)
    qed simp
    have rest: "sublist t s" if "sublist t (from_utf8_lossy (drop n s'))"
    proof -
      have "length (drop n s') < length s" using Cons by simp
      with 1 that have "sublist t (drop n s')" by blast
      then have "sublist t s'" using sublist_drop sublist_order.order_trans by blast
      then show ?thesis using Cons by (simp add: sublist_Cons_right)
    qed
    show ?thesis
    proof (cases "byte a < 128")
      case True
      with 1 p shape Cons rest show ?thesis
        using lossy_prefix_ascii [OF 1(2), of s] by (auto simp: sublist_Cons_right)
    next
      case False
      with skip [of piece "from_utf8_lossy (drop n s')"] shape p Cons 1(3) rest
      show ?thesis by auto
    qed
  qed
qed

lemma alphanumeric_ascii: "is_ascii_alphanumeric c \<Longrightarrow> byte c < 128"
  by (auto simp: ascii_class_defs)

lemma has_control_ascii: "is_ascii s \<Longrightarrow> has_control s \<longleftrightarrow> (\<exists>c \<in> set s. is_control (byte c))"
  by (simp add: has_control_def chars_ascii)

lemma no_control_graphic:
  assumes "\<forall>c \<in> set s. is_ascii_graphic c"
  shows "\<not> has_control s"
proof -
  have "is_ascii s"
    using assms by (auto simp: is_ascii_def is_ascii_graphic_def)
  with assms show ?thesis
    by (fastforce simp: has_control_ascii is_control_def is_ascii_graphic_def)
qed

lemma alphanumeric_graphic: "is_ascii_alphanumeric c \<Longrightarrow> is_ascii_graphic c"
  by (auto simp: ascii_class_defs)

section \<open>Splitting, stripping and searching\<close>

text \<open>\<open>str::split\<close> with a character predicate: always at least one piece.\<close>

fun split_by :: "(char \<Rightarrow> bool) \<Rightarrow> string \<Rightarrow> string list" where
  "split_by p [] = [[]]"
| "split_by p (c # s) =
     (if p c then [] # split_by p s
      else (case split_by p s of t # ts \<Rightarrow> (c # t) # ts | [] \<Rightarrow> [[c]]))"

abbreviation split :: "char \<Rightarrow> string \<Rightarrow> string list" where
  "split c \<equiv> split_by (\<lambda>x. x = c)"

fun join :: "string \<Rightarrow> string list \<Rightarrow> string" where
  "join sep [] = []"
| "join sep [x] = x"
| "join sep (x # y # ys) = x @ sep @ join sep (y # ys)"

definition strip_prefix :: "'a list \<Rightarrow> 'a list \<Rightarrow> 'a list option" where
  "strip_prefix p s = (if prefix p s then Some (drop (length p) s) else None)"

definition strip_suffix :: "'a list \<Rightarrow> 'a list \<Rightarrow> 'a list option" where
  "strip_suffix t s = (if suffix t s then Some (take (length s - length t) s) else None)"

text \<open>\<open>str::rsplit_once\<close> at a character: the text before and after its last occurrence.\<close>

definition rsplit_once :: "char \<Rightarrow> string \<Rightarrow> (string \<times> string) option" where
  "rsplit_once c s =
     (if c \<in> set s
      then Some (rev (tl (dropWhile (\<lambda>x. x \<noteq> c) (rev s))), rev (takeWhile (\<lambda>x. x \<noteq> c) (rev s)))
      else None)"

text \<open>\<open>str::split_once\<close> at a character: the text before and after its first occurrence.\<close>

definition split_once :: "char \<Rightarrow> string \<Rightarrow> (string \<times> string) option" where
  "split_once c s =
     (if c \<in> set s then Some (takeWhile (\<lambda>x. x \<noteq> c) s, tl (dropWhile (\<lambda>x. x \<noteq> c) s)) else None)"

text \<open>\<open>windows(n).position(..)\<close>: the index of the first occurrence of a non-empty needle.\<close>

fun find_bytes :: "bytes \<Rightarrow> bytes \<Rightarrow> nat option" where
  "find_bytes [] needle = None"
| "find_bytes (c # s) needle =
     (if prefix needle (c # s) then Some 0 else map_option Suc (find_bytes s needle))"

lemma split_by_nonempty [simp]: "split_by p s \<noteq> []"
  by (induction s) (auto split: list.splits)

lemma split_by_no_sep: "t \<in> set (split_by p s) \<Longrightarrow> c \<in> set t \<Longrightarrow> \<not> p c"
proof (induction s arbitrary: t)
  case Nil
  then show ?case by simp
next
  case (Cons x xs)
  then show ?case
    by (cases "split_by p xs") (force split: if_splits)+
qed

lemma set_split_by: "t \<in> set (split_by p s) \<Longrightarrow> set t \<subseteq> set s"
proof (induction s arbitrary: t)
  case Nil
  then show ?case by simp
next
  case (Cons x xs)
  then show ?case
    by (cases "split_by p xs") (fastforce split: if_splits)+
qed

lemma join_Cons: "ys \<noteq> [] \<Longrightarrow> join sep (x # ys) = x @ sep @ join sep ys"
  by (cases ys) simp_all

lemma join_split [simp]: "join [c] (split c s) = s"
proof (induction s)
  case Nil
  then show ?case by simp
next
  case (Cons x xs)
  show ?case
  proof (cases "x = c")
    case True
    with Cons.IH show ?thesis by (simp add: join_Cons)
  next
    case False
    obtain t ts where t: "split c xs = t # ts"
      by (cases "split c xs") auto
    with Cons.IH False show ?thesis by (cases ts) auto
  qed
qed

lemma split_inject: "split c s = split c t \<longleftrightarrow> s = t"
  by (metis join_split)

lemma split_append_sep:
  "split_by p (s @ c # t) = (if p c then split_by p s @ split_by p t else split_by p (s @ c # t))"
proof (induction s)
  case Nil
  then show ?case by simp
next
  case (Cons x xs)
  then show ?case
    by (cases "split_by p xs") auto
qed

lemma split_by_singleton: "\<forall>c \<in> set s. \<not> p c \<Longrightarrow> split_by p s = [s]"
  by (induction s) auto

lemma split_no_sep: "c \<notin> set s \<Longrightarrow> split c s = [s]"
  by (rule split_by_singleton) auto

lemma split_join:
  assumes "xs \<noteq> []" and "\<forall>x \<in> set xs. c \<notin> set x"
  shows "split c (join [c] xs) = xs"
  using assms
proof (induction xs rule: induct_list012)
  case (2 x)
  then show ?case by (simp add: split_no_sep)
next
  case (3 x y zs)
  have "split c (join [c] (x # y # zs)) = split c x @ split c (join [c] (y # zs))"
    using split_append_sep [of "\<lambda>x. x = c" x c] by simp
  with 3 show ?case by (simp add: split_no_sep)
qed simp

lemma strip_prefix_Some: "strip_prefix p s = Some t \<longleftrightarrow> s = p @ t"
  by (auto simp: strip_prefix_def prefix_def)

lemma strip_suffix_Some: "strip_suffix t s = Some u \<longleftrightarrow> s = u @ t"
  by (auto simp: strip_suffix_def suffix_def)

lemma rsplit_once_Some:
  "rsplit_once c s = Some (a, b) \<longleftrightarrow> s = a @ c # b \<and> c \<notin> set b"
proof
  assume *: "rsplit_once c s = Some (a, b)"
  define r where "r = rev s"
  from * have c: "c \<in> set r" and a: "a = rev (tl (dropWhile (\<lambda>x. x \<noteq> c) r))"
    and b: "b = rev (takeWhile (\<lambda>x. x \<noteq> c) r)"
    by (auto simp: rsplit_once_def r_def split: if_splits)
  from c obtain d where d: "dropWhile (\<lambda>x. x \<noteq> c) r = c # d"
    by (metis (mono_tags, lifting) dropWhile_eq_Nil_conv hd_dropWhile list.collapse)
  have "r = takeWhile (\<lambda>x. x \<noteq> c) r @ c # d"
    by (metis d takeWhile_dropWhile_id)
  then have "rev r = rev d @ c # rev (takeWhile (\<lambda>x. x \<noteq> c) r)"
    by (metis append_Cons append_Nil append_assoc rev.simps(2) rev_append)
  with a b d show "s = a @ c # b \<and> c \<notin> set b"
    by (auto simp: r_def dest: set_takeWhileD)
next
  assume *: "s = a @ c # b \<and> c \<notin> set b"
  then have "takeWhile (\<lambda>x. x \<noteq> c) (rev b @ c # rev a) = rev b"
    and "dropWhile (\<lambda>x. x \<noteq> c) (rev b @ c # rev a) = c # rev a"
    by (subst takeWhile_append2, auto) (subst dropWhile_append2, auto)
  with * show "rsplit_once c s = Some (a, b)"
    by (simp add: rsplit_once_def)
qed

lemma split_once_append: "c \<notin> set s \<Longrightarrow> split_once c (s @ c # t) = Some (s, t)"
  by (induction s) (auto simp: split_once_def)

lemma find_bytes_Some:
  "find_bytes s n = Some i \<Longrightarrow> prefix n (drop i s) \<and> (\<forall>j < i. \<not> prefix n (drop j s))"
proof (induction s arbitrary: i)
  case Nil
  then show ?case by simp
next
  case (Cons c s)
  show ?case
  proof (cases "prefix n (c # s)")
    case True
    with Cons.prems show ?thesis by simp
  next
    case False
    with Cons.prems obtain k where k: "find_bytes s n = Some k" "i = Suc k" by auto
    from Cons.IH [OF k(1)] k(2) False show ?thesis
      by (auto simp: less_Suc_eq_0_disj)
  qed
qed

lemma find_bytes_None: "n \<noteq> [] \<Longrightarrow> find_bytes s n = None \<longleftrightarrow> \<not> sublist n s"
  by (induction s) (auto simp: sublist_Cons_right)

section \<open>Decimal numbers\<close>

definition digits_value :: "string \<Rightarrow> nat" where
  "digits_value s = foldl (\<lambda>a c. a * 10 + (byte c - 48)) 0 s"

text \<open>\<open>parse::<uN>()\<close>: an optional plus sign, at least one digit, and no overflow.\<close>

definition parse_unsigned :: "nat \<Rightarrow> string \<Rightarrow> nat option" where
  "parse_unsigned bits s =
     (let d = (case s of c # t \<Rightarrow> if c = CHR ''+'' then t else s | [] \<Rightarrow> []) in
      if d = [] \<or> \<not> list_all is_ascii_digit d \<or> 2 ^ bits \<le> digits_value d then None
      else Some (digits_value d))"

text \<open>\<open>to_string()\<close> of an unsigned integer.\<close>

fun decimal :: "nat \<Rightarrow> string" where
  "decimal n = (if n < 10 then [char_of (48 + n)] else decimal (n div 10) @ [char_of (48 + n mod 10)])"

declare decimal.simps [simp del]

lemma digits_value_snoc: "digits_value (s @ [c]) = digits_value s * 10 + (byte c - 48)"
  by (simp add: digits_value_def)

lemma decimal_value [simp]: "digits_value (decimal n) = n"
proof (induction n rule: decimal.induct)
  case (1 n)
  show ?case
  proof (cases "n < 10")
    case True
    then show ?thesis
      by (subst decimal.simps) (simp add: digits_value_def)
  next
    case False
    with 1 show ?thesis
      by (subst decimal.simps) (simp add: digits_value_snoc)
  qed
qed

lemma is_ascii_digit_char: "n < 10 \<Longrightarrow> is_ascii_digit (char_of (48 + n :: nat))"
  by (simp add: is_ascii_digit_def)

lemma decimal_digits: "list_all is_ascii_digit (decimal n)"
proof (induction n rule: decimal.induct)
  case (1 n)
  then show ?case
    by (subst decimal.simps) (auto simp: is_ascii_digit_char)
qed

lemma decimal_nonempty [simp]: "decimal n \<noteq> []"
  by (subst decimal.simps) simp

lemma decimal_inject: "decimal m = decimal n \<longleftrightarrow> m = n"
  by (metis decimal_value)

text \<open>Canonical digits, with no leading zero, are exactly what \<open>decimal\<close> renders.\<close>

lemma ascii_digit_cases:
  assumes "is_ascii_digit c"
  obtains d where "d < 10" "c = char_of (48 + d)" "byte c = 48 + d"
proof
  show "byte c - 48 < 10" "byte c = 48 + (byte c - 48)" using assms by (auto simp: is_ascii_digit_def)
  then show "c = char_of (48 + (byte c - 48))" by (metis char_of_char)
qed

lemma digits_value_pos: "list_all is_ascii_digit s \<Longrightarrow> s \<noteq> [] \<Longrightarrow> hd s \<noteq> CHR ''0'' \<Longrightarrow> 0 < digits_value s"
proof (induction s rule: rev_induct)
  case (snoc c s)
  show ?case
  proof (cases "s = []")
    case True
    with snoc.prems have c: "is_ascii_digit c" "byte c \<noteq> byte (CHR ''0'')" unfolding byte_inject by simp_all
    from c(1) obtain d where "d < 10" "byte c = 48 + d" by (rule ascii_digit_cases)
    with True c(2) show ?thesis by (simp add: digits_value_def)
  qed (use snoc in \<open>simp add: digits_value_snoc\<close>)
qed simp

lemma decimal_snoc:
  "0 < n \<Longrightarrow> is_ascii_digit c \<Longrightarrow> decimal (n * 10 + (byte c - 48)) = decimal n @ [c]"
proof (erule ascii_digit_cases)
  fix d assume "0 < n" "d < 10" "c = char_of (48 + d)" "byte c = 48 + d"
  then show ?thesis by (subst decimal.simps) simp
qed

lemma decimal_digits_value:
  "list_all is_ascii_digit s \<Longrightarrow> s \<noteq> [] \<Longrightarrow> length s = 1 \<or> hd s \<noteq> CHR ''0'' \<Longrightarrow> decimal (digits_value s) = s"
proof (induction s rule: rev_induct)
  case (snoc c s)
  show ?case
  proof (cases "s = []")
    case True
    from snoc.prems obtain d where "d < 10" "c = char_of (48 + d)" "byte c = 48 + d"
      by (auto elim: ascii_digit_cases)
    with True show ?thesis by (subst decimal.simps) (simp add: digits_value_def)
  next
    case False
    with snoc.prems have h: "list_all is_ascii_digit s" "hd s \<noteq> CHR ''0''" "is_ascii_digit c" by simp_all
    with False have "decimal (digits_value s) = s" using snoc.IH by blast
    with h False show ?thesis using decimal_snoc [of "digits_value s" c] digits_value_pos [of s]
      by (simp add: digits_value_snoc)
  qed
qed simp

lemma decimal_hd: "0 < n \<Longrightarrow> hd (decimal n) \<noteq> CHR ''0''"
proof (induction n rule: decimal.induct)
  case (1 n)
  show ?case
  proof (cases "n < 10")
    case True
    with 1 have "byte (char_of (48 + n)) \<noteq> byte (CHR ''0'')" by simp
    with True show ?thesis unfolding byte_inject by (subst decimal.simps) simp
  next
    case False
    with 1 show ?thesis by (subst decimal.simps) simp
  qed
qed

lemma decimal_length: "n < 10 ^ k \<Longrightarrow> 0 < k \<Longrightarrow> length (decimal n) \<le> k"
proof (induction k arbitrary: n)
  case (Suc k)
  show ?case
  proof (cases "n < 10")
    case False
    with Suc.prems have "n div 10 < 10 ^ k" "0 < k" by (auto intro: gr0I)
    with Suc.IH have "length (decimal (n div 10)) \<le> k" by blast
    with False show ?thesis by (subst decimal.simps) simp
  qed (subst decimal.simps, simp)
qed simp

lemma decimal_no_leading_zero: "1 < length (decimal n) \<Longrightarrow> hd (decimal n) \<noteq> CHR ''0''"
  by (cases "n = 0") (simp_all add: decimal_hd decimal.simps [of 0])

lemma parse_unsigned_digits:
  "c \<noteq> [] \<Longrightarrow> list_all is_ascii_digit c \<Longrightarrow>
   parse_unsigned bits c = (if 2 ^ bits \<le> digits_value c then None else Some (digits_value c))"
  by (cases c) (auto simp: parse_unsigned_def is_ascii_digit_def)

section \<open>Big-endian integers and hexadecimal\<close>

text \<open>\<open>to_be_bytes\<close> and \<open>from_be_bytes\<close> on the numeric value.\<close>

fun be_bytes :: "nat \<Rightarrow> nat \<Rightarrow> bytes" where
  "be_bytes 0 v = []"
| "be_bytes (Suc n) v = be_bytes n (v div 256) @ [char_of (v mod 256)]"

definition of_be_bytes :: "bytes \<Rightarrow> nat" where
  "of_be_bytes bs = foldl (\<lambda>a b. a * 256 + byte b) 0 bs"

lemma length_be_bytes [simp]: "length (be_bytes n v) = n"
  by (induction n arbitrary: v) simp_all

lemma of_be_bytes_snoc [simp]: "of_be_bytes (bs @ [b]) = of_be_bytes bs * 256 + byte b"
  by (simp add: of_be_bytes_def)

lemma of_be_bytes_be_bytes: "v < 256 ^ n \<Longrightarrow> of_be_bytes (be_bytes n v) = v"
proof (induction n arbitrary: v)
  case 0
  then show ?case by (simp add: of_be_bytes_def)
next
  case (Suc n)
  from Suc.prems have "v div 256 < 256 ^ n"
    by (simp add: less_mult_imp_div_less mult.commute)
  with Suc.IH show ?case by simp
qed

lemma base256_step: "a < p \<Longrightarrow> b < 256 \<Longrightarrow> a * 256 + b < 256 * (p :: nat)"
  by linarith

lemma of_be_bytes_less: "of_be_bytes bs < 256 ^ length bs"
proof (induction bs rule: rev_induct)
  case Nil
  then show ?case by (simp add: of_be_bytes_def)
next
  case (snoc b bs)
  then show ?case by (simp add: base256_step)
qed

lemma be_bytes_of_be_bytes: "be_bytes (length bs) (of_be_bytes bs) = bs"
  by (induction bs rule: rev_induct) (simp_all add: of_be_bytes_def)

lemma be_bytes_inject:
  "u < 256 ^ n \<Longrightarrow> v < 256 ^ n \<Longrightarrow> be_bytes n u = be_bytes n v \<longleftrightarrow> u = v"
  by (metis of_be_bytes_be_bytes)

definition hex_digit :: "nat \<Rightarrow> char" where
  "hex_digit n = (if n < 10 then char_of (48 + n) else char_of (87 + n))"

text \<open>Lowercase hexadecimal, two digits per byte.\<close>

definition hex_encode :: "bytes \<Rightarrow> string" where
  "hex_encode bs = concat (map (\<lambda>b. [hex_digit (byte b div 16), hex_digit (byte b mod 16)]) bs)"

lemma hex_digit_lower: "n < 16 \<Longrightarrow> is_lower_hex (hex_digit n)"
  by (auto simp: hex_digit_def is_lower_hex_def is_ascii_digit_def)

lemma hex_encode_Nil [simp]: "hex_encode [] = []"
  by (simp add: hex_encode_def)

lemma hex_encode_Cons [simp]:
  "hex_encode (b # bs) = hex_digit (byte b div 16) # hex_digit (byte b mod 16) # hex_encode bs"
  by (simp add: hex_encode_def)

lemma length_hex_encode [simp]: "length (hex_encode bs) = 2 * length bs"
  by (induction bs) simp_all

lemma hex_encode_lower: "\<forall>c \<in> set (hex_encode bs). is_lower_hex c"
proof (induction bs)
  case Nil
  then show ?case by (simp add: hex_encode_def)
next
  case (Cons b bs)
  have "byte b div 16 < 16" using byte_less_256 [of b] by linarith
  with Cons show ?case by (simp add: hex_encode_def hex_digit_lower)
qed

lemma hex_digit_inject: "m < 16 \<Longrightarrow> n < 16 \<Longrightarrow> hex_digit m = hex_digit n \<longleftrightarrow> m = n"
proof -
  assume m: "m < 16" and n: "n < 16"
  have val: "byte (hex_digit k) = (if k < 10 then 48 + k else 87 + k)" if "k < 16" for k
    using that by (simp add: hex_digit_def)
  have "m = n" if "hex_digit m = hex_digit n"
    using arg_cong [OF that, of byte] val [OF m] val [OF n] m n by (simp split: if_splits)
  then show ?thesis by blast
qed

lemma div_mod_determined: "a div n = b div n \<Longrightarrow> a mod n = b mod n \<Longrightarrow> a = (b :: nat)"
  by (metis div_mult_mod_eq)

lemma hex_pair_inject:
  assumes "hex_digit (byte x div 16) = hex_digit (byte y div 16)"
    and "hex_digit (byte x mod 16) = hex_digit (byte y mod 16)"
  shows "x = y"
proof -
  have less: "byte c div 16 < 16" for c
    by (rule less_mult_imp_div_less) simp
  from assms(1) have "byte x div 16 = byte y div 16"
    using hex_digit_inject less by blast
  moreover from assms(2) have "byte x mod 16 = byte y mod 16"
    using hex_digit_inject [of "byte x mod 16" "byte y mod 16"] by simp
  ultimately have "byte x = byte y" by (rule div_mod_determined)
  then show ?thesis by (simp only: byte_inject)
qed

lemma hex_encode_inject: "hex_encode a = hex_encode b \<Longrightarrow> a = b"
proof (induction a arbitrary: b)
  case Nil
  then show ?case by (cases b) simp_all
next
  case (Cons x xs)
  then obtain y ys where b: "b = y # ys" by (cases b) auto
  with Cons.prems have "hex_digit (byte x div 16) = hex_digit (byte y div 16)"
    and "hex_digit (byte x mod 16) = hex_digit (byte y mod 16)"
    and t: "hex_encode xs = hex_encode ys"
    by (simp_all only: hex_encode_Cons list.inject)
  then have "x = y" by (blast intro: hex_pair_inject)
  with Cons.IH [OF t] b show ?case by simp
qed

section \<open>Self-delimiting encoders\<close>

text \<open>
  Digests and frames concatenate encoded fields. What makes a concatenation unambiguous is that
  each encoder is self-delimiting: whatever follows it, the field and the rest are determined.
\<close>

locale self_delimiting =
  fixes enc :: "'a \<Rightarrow> bytes"
    and valid :: "'a \<Rightarrow> bool"
  assumes cancel: "valid x \<Longrightarrow> valid y \<Longrightarrow> enc x @ r = enc y @ s \<Longrightarrow> x = y \<and> r = s"
begin

lemma enc_inject: "valid x \<Longrightarrow> valid y \<Longrightarrow> enc x = enc y \<longleftrightarrow> x = y"
  using cancel [of x y "[]" "[]"] by auto

lemma cancel_list:
  "length xs = length ys \<Longrightarrow> \<forall>x \<in> set xs. valid x \<Longrightarrow> \<forall>y \<in> set ys. valid y \<Longrightarrow>
   concat (map enc xs) @ r = concat (map enc ys) @ s \<Longrightarrow> xs = ys \<and> r = s"
proof (induction xs arbitrary: ys)
  case Nil
  then show ?case by simp
next
  case (Cons x xs)
  then obtain y ys' where ys: "ys = y # ys'" by (cases ys) auto
  with Cons.prems have "x = y \<and> concat (map enc xs) @ r = concat (map enc ys') @ s"
    by (intro cancel) auto
  with Cons.IH [of ys'] Cons.prems ys show ?case by auto
qed

end

text \<open>When no encoding is empty, a concatenation determines how many fields it has, too.\<close>

locale nonempty_code = self_delimiting +
  assumes nonempty: "valid x \<Longrightarrow> enc x \<noteq> []"
begin

lemma concat_inject:
  "\<forall>x \<in> set xs. valid x \<Longrightarrow> \<forall>y \<in> set ys. valid y \<Longrightarrow>
   concat (map enc xs) = concat (map enc ys) \<Longrightarrow> xs = ys"
proof (induction xs arbitrary: ys)
  case Nil
  show ?case
  proof (cases ys)
    case (Cons y ys')
    with Nil nonempty [of y] show ?thesis by simp
  qed simp
next
  case (Cons x xs)
  have "ys \<noteq> []" using Cons.prems nonempty [of x] by auto
  then obtain y ys' where ys: "ys = y # ys'" by (cases ys) auto
  with Cons.prems have "x = y \<and> concat (map enc xs) = concat (map enc ys')"
    using cancel [of x y "concat (map enc xs)" "concat (map enc ys')"] by simp
  with Cons.IH [of ys'] Cons.prems ys show ?case by auto
qed

end

text \<open>A length field in front of the payload makes any payload self-delimiting.\<close>

lemma length_prefix_cancel:
  assumes "length a < 256 ^ n" "length b < 256 ^ n"
    and "be_bytes n (length a) @ a @ r = be_bytes n (length b) @ b @ s"
  shows "a = b \<and> r = s"
proof -
  from assms(3) have "be_bytes n (length a) = be_bytes n (length b)" and t: "a @ r = b @ s"
    by (simp_all add: append_eq_append_conv)
  then have "length a = length b" using assms(1,2) by (simp add: be_bytes_inject)
  with t show ?thesis by (simp add: append_eq_append_conv)
qed

lemma be_bytes_cancel:
  assumes "u < 256 ^ n" "v < 256 ^ n" and "be_bytes n u @ r = be_bytes n v @ s"
  shows "u = v \<and> r = s"
proof -
  from assms(3) have "be_bytes n u = be_bytes n v" "r = s"
    by (simp_all add: append_eq_append_conv)
  with assms(1,2) show ?thesis by (simp add: be_bytes_inject)
qed

end
