(* ===== verification/Secrets.thy ===== *)
theory Secrets
  imports Rust_Text
begin

text \<open>
  Secret material and opaque secret references
  (\<^verbatim>\<open>src/crates/rustferry-remote/src/secret.rs\<close>).
  The lemmas show that wiping keeps only the length, that a reference name is accepted exactly
  when it lies in the documented language of its namespace, which error is reported for a
  rejected name, and that no accepted name can smuggle a path, a URL, an assignment or a shell
  fragment into the protocol.
\<close>

section \<open>Secret bytes\<close>

datatype SecretBytes = SecretBytes (secret_bytes: bytes)

datatype Secret = Secret (secret_inner: SecretBytes)

definition SecretBytes_new :: "bytes \<Rightarrow> SecretBytes" where
  "SecretBytes_new v = SecretBytes v"

definition expose_secret_bytes :: "SecretBytes \<Rightarrow> bytes" where
  "expose_secret_bytes s = secret_bytes s"

definition SecretBytes_len :: "SecretBytes \<Rightarrow> nat" where
  "SecretBytes_len s = length (secret_bytes s)"

definition SecretBytes_is_empty :: "SecretBytes \<Rightarrow> bool" where
  "SecretBytes_is_empty s \<longleftrightarrow> secret_bytes s = []"

text \<open>\<open>bytes.fill(0)\<close>; the optimizer barrier has no observable effect.\<close>

definition wipe :: "bytes \<Rightarrow> bytes" where
  "wipe bs = map (\<lambda>_. char_of (0 :: nat)) bs"

definition SecretBytes_clear :: "SecretBytes \<Rightarrow> SecretBytes" where
  "SecretBytes_clear s = SecretBytes (wipe (secret_bytes s))"

definition Secret_new :: "string \<Rightarrow> Secret" where
  "Secret_new v = Secret (SecretBytes_new v)"

definition expose_secret :: "Secret \<Rightarrow> string" where
  "expose_secret s = expose_secret_bytes (secret_inner s)"

definition Secret_len :: "Secret \<Rightarrow> nat" where
  "Secret_len s = SecretBytes_len (secret_inner s)"

definition Secret_is_empty :: "Secret \<Rightarrow> bool" where
  "Secret_is_empty s \<longleftrightarrow> SecretBytes_is_empty (secret_inner s)"

definition Secret_clear :: "Secret \<Rightarrow> Secret" where
  "Secret_clear s = Secret (SecretBytes_clear (secret_inner s))"

lemmas secret_defs =
  SecretBytes_new_def expose_secret_bytes_def SecretBytes_len_def SecretBytes_is_empty_def
  wipe_def SecretBytes_clear_def Secret_new_def expose_secret_def Secret_len_def
  Secret_is_empty_def Secret_clear_def

lemma expose_new [simp]:
  "expose_secret_bytes (SecretBytes_new b) = b"
  "expose_secret (Secret_new t) = t"
  by (simp_all add: secret_defs)

text \<open>After a wipe the held bytes depend on the length alone, never on the old contents.\<close>

lemma clear_forgets:
  "SecretBytes_len a = SecretBytes_len b \<Longrightarrow> SecretBytes_clear a = SecretBytes_clear b"
  by (simp add: secret_defs map_replicate_const)

lemma clear_keeps_len: "SecretBytes_len (SecretBytes_clear a) = SecretBytes_len a"
  by (simp add: secret_defs)

section \<open>Secret references\<close>

datatype SecretReferenceKind = Environment | CredentialStore | GithubActions | Worker

record SecretReference =
  ref_kind :: SecretReferenceKind
  ref_name :: string

datatype SecretReferenceError =
    RefEmpty
  | RefTooLong nat
  | RefInvalidStart
  | RefInvalidCharacter nat
  | RefDotSequence

definition MAX_REFERENCE_NAME_BYTES :: nat where
  "MAX_REFERENCE_NAME_BYTES = 128"

definition valid_reference_byte :: "SecretReferenceKind \<Rightarrow> char \<Rightarrow> bool" where
  "valid_reference_byte kind b =
     (case kind of
        Environment \<Rightarrow> is_ascii_alphanumeric b \<or> b = CHR ''_''
      | GithubActions \<Rightarrow> is_ascii_alphanumeric b \<or> b = CHR ''_''
      | CredentialStore \<Rightarrow> is_ascii_alphanumeric b \<or> b \<in> {CHR ''_'', CHR ''-'', CHR ''.''}
      | Worker \<Rightarrow> is_ascii_alphanumeric b \<or> b \<in> {CHR ''_'', CHR ''-'', CHR ''.''})"

text \<open>The loop over \<open>name.bytes().enumerate()\<close>.\<close>

fun check_reference_bytes :: "SecretReferenceKind \<Rightarrow> nat \<Rightarrow> bytes \<Rightarrow> SecretReferenceError + unit" where
  "check_reference_bytes kind index [] = Ok ()"
| "check_reference_bytes kind index (b # bs) =
     (if valid_reference_byte kind b then check_reference_bytes kind (Suc index) bs
      else Err (RefInvalidCharacter index))"

definition validate_reference_name :: "SecretReferenceKind \<Rightarrow> string \<Rightarrow> SecretReferenceError + unit" where
  "validate_reference_name kind name =
     (if name = [] then Err RefEmpty
      else if length name > MAX_REFERENCE_NAME_BYTES then Err (RefTooLong MAX_REFERENCE_NAME_BYTES)
      else if sublist ''..'' name then Err RefDotSequence
      else if \<not> (is_ascii_alphabetic (hd name) \<or> hd name = CHR ''_'') then Err RefInvalidStart
      else check_reference_bytes kind 0 name)"

definition SecretReference_new ::
    "SecretReferenceKind \<Rightarrow> string \<Rightarrow> SecretReferenceError + SecretReference" where
  "SecretReference_new kind name =
     and_then (validate_reference_name kind name)
       (\<lambda>_. Ok \<lparr>ref_kind = kind, ref_name = name\<rparr>)"

lemma check_reference_bytes_ok:
  "is_ok (check_reference_bytes kind i bs) \<longleftrightarrow> (\<forall>b \<in> set bs. valid_reference_byte kind b)"
  by (induction bs arbitrary: i) auto

lemma check_reference_bytes_error:
  "check_reference_bytes kind i bs = Err e \<longleftrightarrow>
     (\<exists>k < length bs. e = RefInvalidCharacter (i + k) \<and> \<not> valid_reference_byte kind (bs ! k)
        \<and> (\<forall>j < k. valid_reference_byte kind (bs ! j)))"
proof (induction bs arbitrary: i)
  case Nil
  then show ?case by simp
next
  case (Cons b bs)
  show ?case
  proof (cases "valid_reference_byte kind b")
    case True
    then have "check_reference_bytes kind i (b # bs) = Err e \<longleftrightarrow>
        (\<exists>k < length bs. e = RefInvalidCharacter (Suc i + k)
           \<and> \<not> valid_reference_byte kind (bs ! k) \<and> (\<forall>j < k. valid_reference_byte kind (bs ! j)))"
      by (simp only: check_reference_bytes.simps if_True Cons.IH)
    also have "\<dots> \<longleftrightarrow> (\<exists>k < length (b # bs). e = RefInvalidCharacter (i + k)
        \<and> \<not> valid_reference_byte kind ((b # bs) ! k)
        \<and> (\<forall>j < k. valid_reference_byte kind ((b # bs) ! j)))"
      using True by (simp add: Ex_less_Suc2 All_less_Suc2)
    finally show ?thesis .
  next
    case False
    then show ?thesis by (auto simp: Ex_less_Suc2 All_less_Suc2)
  qed
qed

lemma validate_reference_name_ok:
  "is_ok (validate_reference_name kind name) \<longleftrightarrow>
     name \<noteq> [] \<and> length name \<le> 128 \<and> \<not> sublist ''..'' name
     \<and> (is_ascii_alphabetic (hd name) \<or> hd name = CHR ''_'')
     \<and> (\<forall>b \<in> set name. valid_reference_byte kind b)"
  by (auto simp: validate_reference_name_def MAX_REFERENCE_NAME_BYTES_def check_reference_bytes_ok)

lemma SecretReference_new_ok_iff:
  "SecretReference_new kind name = Ok r \<longleftrightarrow>
     is_ok (validate_reference_name kind name) \<and> r = \<lparr>ref_kind = kind, ref_name = name\<rparr>"
  by (cases "validate_reference_name kind name") (auto simp: SecretReference_new_def)

text \<open>The well-formedness every constructed or deserialized reference satisfies.\<close>

definition SecretReference_wf :: "SecretReference \<Rightarrow> bool" where
  "SecretReference_wf r \<longleftrightarrow> is_ok (validate_reference_name (ref_kind r) (ref_name r))"

lemma SecretReference_new_wf: "SecretReference_new kind name = Ok r \<Longrightarrow> SecretReference_wf r"
  by (auto simp: SecretReference_new_ok_iff SecretReference_wf_def)

lemma valid_reference_byte_class:
  "valid_reference_byte kind b \<Longrightarrow> is_ascii_alphanumeric b \<or> b \<in> {CHR ''_'', CHR ''-'', CHR ''.''}"
  by (auto simp: valid_reference_byte_def split: SecretReferenceKind.splits)

lemma reference_byte_not_special:
  assumes "valid_reference_byte kind b"
  shows "b \<notin> set ''/=: $`;&|<>()*?@'' \<and> b \<noteq> CHR 0x5C \<and> b \<noteq> CHR 0x22 \<and> b \<noteq> CHR 0x27 \<and> 32 < byte b \<and> byte b < 127"
  using valid_reference_byte_class [OF assms] by (auto simp: ascii_class_defs)

text \<open>
  [secretref]: a secret reference that construction (and so deserialization) accepts carries its
  inputs unchanged, is non-empty, at most 128 bytes long, has no dot sequence, and contains no path
  separator, drive or URL colon, assignment sign, quote, shell metacharacter, space or control byte.
\<close>

theorem secret_reference_is_opaque_identifier:
  assumes "SecretReference_new kind name = Ok r"
  shows "ref_kind r = kind \<and> ref_name r = name \<and> name \<noteq> [] \<and> length name \<le> 128
    \<and> \<not> sublist ''..'' name
    \<and> (\<forall>b \<in> set name. b \<notin> set ''/=: $`;&|<>()*?@'' \<and> b \<noteq> CHR 0x5C \<and> b \<noteq> CHR 0x22 \<and> b \<noteq> CHR 0x27
         \<and> 32 < byte b \<and> byte b < 127)"
  using assms reference_byte_not_special
  by (auto simp: SecretReference_new_ok_iff validate_reference_name_ok simp del: set_simps)

theorem secret_reference_is_opaque_identifier_witness:
  "ref_name \<lparr>ref_kind = GithubActions, ref_name = ''IOS_P12''\<rparr> = ''IOS_P12''
   \<and> \<not> sublist ''..'' ''IOS_P12''"
proof -
  have "SecretReference_new GithubActions ''IOS_P12'' = Ok \<lparr>ref_kind = GithubActions, ref_name = ''IOS_P12''\<rparr>"
    by code_simp
  from secret_reference_is_opaque_identifier [OF this] show ?thesis by simp
qed

text \<open>
  The error for a rejected reference name is the first failing check in source
  order, and an invalid-character error carries the offset of the first byte outside the namespace's
  alphabet; a name is rejected exactly when one of the five documented conditions holds.
\<close>

theorem secret_reference_errors_are_exact:
  "SecretReference_new kind name = Err e \<longleftrightarrow>
     (if name = [] then e = RefEmpty
      else if 128 < length name then e = RefTooLong 128
      else if sublist ''..'' name then e = RefDotSequence
      else if \<not> (is_ascii_alphabetic (hd name) \<or> hd name = CHR ''_'') then e = RefInvalidStart
      else (\<exists>k < length name. e = RefInvalidCharacter k \<and> \<not> valid_reference_byte kind (name ! k)
              \<and> (\<forall>j < k. valid_reference_byte kind (name ! j))))"
proof -
  have "SecretReference_new kind name = Err e \<longleftrightarrow> validate_reference_name kind name = Err e"
    by (cases "validate_reference_name kind name") (simp_all add: SecretReference_new_def)
  then show ?thesis
    by (auto simp: validate_reference_name_def MAX_REFERENCE_NAME_BYTES_def check_reference_bytes_error)
qed

theorem secret_reference_errors_are_exact_witness:
  "SecretReference_new Environment ''A-B'' = Err (RefInvalidCharacter 1)"
proof -
  have "\<exists>k < length ''A-B''. RefInvalidCharacter 1 = RefInvalidCharacter k
      \<and> \<not> valid_reference_byte Environment (''A-B'' ! k)
      \<and> (\<forall>j < k. valid_reference_byte Environment (''A-B'' ! j))"
    by (intro exI [of _ 1]) (simp add: valid_reference_byte_def ascii_class_defs)
  then show ?thesis
    by (subst secret_reference_errors_are_exact)
      (simp add: is_ascii_alphabetic_def is_ascii_uppercase_def sublist_code)
qed

end
