(* ===== verification/Json_Value.thy ===== *)
theory Json_Value
  imports Rust_Text
begin

text \<open>
  The JSON values that the sources match on (\<open>serde_json::Value\<close> in its default configuration):
  objects are B-tree maps, so an object is the list of its members in ascending key order, and
  inserting a key that is already present replaces its value.
\<close>

datatype number = PosInt u64 | NegInt "64 word" | Float "64 word"

datatype json =
    JNull
  | JBool bool
  | JNumber number
  | JString string
  | JArray "json list"
  | JObject "(string \<times> json) list"

fun btree_insert :: "'k::linorder \<Rightarrow> 'v \<Rightarrow> ('k \<times> 'v) list \<Rightarrow> ('k \<times> 'v) list" where
  "btree_insert k v [] = [(k, v)]"
| "btree_insert k v ((k', v') # m) =
     (if k < k' then (k, v) # (k', v') # m
      else if k = k' then (k, v) # m
      else (k', v') # btree_insert k v m)"

definition btree_wf :: "('k::linorder \<times> 'v) list \<Rightarrow> bool" where
  "btree_wf m \<longleftrightarrow> sorted_wrt (<) (map fst m)"

lemma map_of_btree_insert: "map_of (btree_insert k v m) = (map_of m)(k \<mapsto> v)"
  by (induction k v m rule: btree_insert.induct) auto

lemma keys_btree_insert: "fst ` set (btree_insert k v m) = insert k (fst ` set m)"
  by (induction k v m rule: btree_insert.induct) auto

lemma btree_insert_wf: "btree_wf m \<Longrightarrow> btree_wf (btree_insert k v m)"
proof (induction k v m rule: btree_insert.induct)
  case (1 k v)
  then show ?case by (simp add: btree_wf_def)
next
  case (2 k v k' v' m)
  have keys: "set (map fst (btree_insert k v m)) = insert k (set (map fst m))"
    using keys_btree_insert [of k v m] by simp
  show ?case
  proof (cases "k < k' \<or> k = k'")
    case True
    with 2 show ?thesis by (auto simp: btree_wf_def)
  next
    case False
    with 2 have "btree_wf (btree_insert k v m)" by (auto simp: btree_wf_def)
    with False 2(2) keys show ?thesis by (auto simp: btree_wf_def)
  qed
qed

lemma btree_insert_mem: "x \<in> set (btree_insert k v m) \<Longrightarrow> x = (k, v) \<or> x \<in> set m"
  by (induction k v m rule: btree_insert.induct) (auto split: if_splits)

text \<open>\<open>collect()\<close> into a B-tree map: later pairs win.\<close>

definition btree_collect :: "('k::linorder \<times> 'v) list \<Rightarrow> ('k \<times> 'v) list" where
  "btree_collect xs = fold (\<lambda>(k, v). btree_insert k v) xs []"

lemma fold_btree_insert_wf:
  "btree_wf m \<Longrightarrow> btree_wf (fold (\<lambda>(k, v). btree_insert k v) xs m)"
  by (induction xs arbitrary: m) (auto intro: btree_insert_wf)

lemma fold_btree_insert_mem:
  "x \<in> set (fold (\<lambda>(k, v). btree_insert k v) xs m) \<Longrightarrow> x \<in> set xs \<or> x \<in> set m"
  by (induction xs arbitrary: m) (auto dest!: btree_insert_mem)

lemma fold_btree_insert_keys:
  "fst ` set (fold (\<lambda>(k, v). btree_insert k v) xs m) = fst ` set xs \<union> fst ` set m"
  by (induction xs arbitrary: m) (simp_all add: keys_btree_insert split_beta)

lemma btree_collect_wf: "btree_wf (btree_collect xs)"
  unfolding btree_collect_def by (rule fold_btree_insert_wf) (simp add: btree_wf_def)

lemma btree_collect_mem: "x \<in> set (btree_collect xs) \<Longrightarrow> x \<in> set xs"
  using fold_btree_insert_mem [of x xs "[]"] by (simp add: btree_collect_def)

lemma btree_collect_keys: "fst ` set (btree_collect xs) = fst ` set xs"
  by (simp add: btree_collect_def fold_btree_insert_keys)

end
