(* ===== verification/Redaction.thy ===== *)
theory Redaction
  imports Secrets Json_Value
begin

text \<open>
  The central redactor (\<^verbatim>\<open>src/crates/rustferry-remote/src/redaction.rs\<close>): registration of secrets,
  the chunk-safe streaming redactor and its drain loop, whole-buffer and text redaction, and the
  name-based redaction of command arguments, environments and JSON.

  The drain loop runs until its pending bytes are used up; it is a
  \<^theory_text>\<open>partial_function (option)\<close>, \<open>None\<close> meaning that it never returns. The lemmas show that it returns
  for every redactor that registration can build, that pushing a stream in any chunks gives the
  output of redacting it whole, and that no registered secret survives in the output.
\<close>

section \<open>Data and registration\<close>

definition REDACTION_MARKER :: string where
  "REDACTION_MARKER = ''<redacted>''"

datatype OutputStream = Stdout | Stderr

datatype RedactionError = EmptySecret

record SecretRedactor =
  secrets :: "SecretBytes list"

record StreamingRedactor =
  stream_redactor :: SecretRedactor
  pending :: bytes
  finished :: bool

record CommandOutputRedactor =
  out_stdout :: StreamingRedactor
  out_stderr :: StreamingRedactor

text \<open>The panic of \<open>push\<close> after \<open>finish\<close>.\<close>

datatype redaction_panic = PushAfterFinish

definition SecretRedactor_new :: SecretRedactor where
  "SecretRedactor_new = \<lparr>secrets = []\<rparr>"

definition register_bytes :: "SecretRedactor \<Rightarrow> bytes \<Rightarrow> RedactionError + SecretRedactor" where
  "register_bytes r secret =
     (if secret = [] then Err EmptySecret
      else if list_ex (\<lambda>known. expose_secret_bytes known = secret) (secrets r) then Ok r
      else Ok (r\<lparr>secrets := secrets r @ [SecretBytes_new secret]\<rparr>))"

definition register_secret :: "SecretRedactor \<Rightarrow> Secret \<Rightarrow> RedactionError + SecretRedactor" where
  "register_secret r s = register_bytes r (expose_secret s)"

definition register_secret_bytes :: "SecretRedactor \<Rightarrow> SecretBytes \<Rightarrow> RedactionError + SecretRedactor" where
  "register_secret_bytes r s = register_bytes r (expose_secret_bytes s)"

definition redactor_stream :: "SecretRedactor \<Rightarrow> StreamingRedactor" where
  "redactor_stream r = \<lparr>stream_redactor = r, pending = [], finished = False\<rparr>"

definition command_output :: "SecretRedactor \<Rightarrow> CommandOutputRedactor" where
  "command_output r = \<lparr>out_stdout = redactor_stream r, out_stderr = redactor_stream r\<rparr>"

section \<open>The drain loop\<close>

definition secret_values :: "SecretRedactor \<Rightarrow> bytes list" where
  "secret_values r = map expose_secret_bytes (secrets r)"

definition is_partial_secret :: "bytes list \<Rightarrow> bytes \<Rightarrow> bool" where
  "is_partial_secret ss remaining \<longleftrightarrow>
     list_ex (\<lambda>s. length s > length remaining \<and> prefix remaining s) ss"

text \<open>\<open>filter(..).max_by_key(len)\<close>: the longest secret at the front, the last one among equals.\<close>

fun max_by_len :: "bytes option \<Rightarrow> bytes list \<Rightarrow> bytes option" where
  "max_by_len best [] = best"
| "max_by_len best (s # ss) =
     (case best of None \<Rightarrow> max_by_len (Some s) ss
      | Some b \<Rightarrow> max_by_len (if length b \<le> length s then Some s else Some b) ss)"

definition full_match :: "bytes list \<Rightarrow> bytes \<Rightarrow> bytes option" where
  "full_match ss remaining = max_by_len None (filter (\<lambda>s. prefix s remaining) ss)"

partial_function (option) drain_loop ::
    "bytes list \<Rightarrow> bool \<Rightarrow> bytes \<Rightarrow> bytes \<Rightarrow> (bytes \<times> bytes) option" where
  "drain_loop ss finishing remaining out =
     (if remaining = [] then Some (out, remaining)
      else if \<not> finishing \<and> is_partial_secret ss remaining then Some (out, remaining)
      else if finishing \<and> is_partial_secret ss remaining then
        drain_loop ss finishing (drop (length remaining) remaining) (out @ REDACTION_MARKER)
      else (case full_match ss remaining of
          Some s \<Rightarrow> drain_loop ss finishing (drop (length s) remaining) (out @ REDACTION_MARKER)
        | None \<Rightarrow> drain_loop ss finishing (drop 1 remaining) (out @ [hd remaining])))"

definition drain_safe :: "StreamingRedactor \<Rightarrow> bool \<Rightarrow> (bytes \<times> StreamingRedactor) option" where
  "drain_safe st finishing =
     map_option (\<lambda>(out, rest). (out, st\<lparr>pending := rest\<rparr>))
       (drain_loop (secret_values (stream_redactor st)) finishing (pending st) [])"

definition stream_push ::
    "StreamingRedactor \<Rightarrow> bytes \<Rightarrow> (redaction_panic + bytes \<times> StreamingRedactor) option" where
  "stream_push st chunk =
     (if finished st then Some (Err PushAfterFinish)
      else map_option Ok (drain_safe (st\<lparr>pending := pending st @ chunk\<rparr>) False))"

definition stream_finish :: "StreamingRedactor \<Rightarrow> (bytes \<times> StreamingRedactor) option" where
  "stream_finish st =
     (if finished st then Some ([], st) else drain_safe (st\<lparr>finished := True\<rparr>) True)"

definition redact_bytes :: "SecretRedactor \<Rightarrow> bytes \<Rightarrow> bytes option" where
  "redact_bytes r input =
     (case stream_push (redactor_stream r) input of
        Some (Inr (out1, st)) \<Rightarrow>
          (case stream_finish st of Some (out2, _) \<Rightarrow> Some (out1 @ out2) | None \<Rightarrow> None)
      | _ \<Rightarrow> None)"

definition command_output_push ::
    "CommandOutputRedactor \<Rightarrow> OutputStream \<Rightarrow> bytes
     \<Rightarrow> (redaction_panic + bytes \<times> CommandOutputRedactor) option" where
  "command_output_push c stream chunk =
     (case stream of
        Stdout \<Rightarrow> map_option (map_sum id (\<lambda>(out, st). (out, c\<lparr>out_stdout := st\<rparr>))) (stream_push (out_stdout c) chunk)
      | Stderr \<Rightarrow> map_option (map_sum id (\<lambda>(out, st). (out, c\<lparr>out_stderr := st\<rparr>))) (stream_push (out_stderr c) chunk))"

definition command_output_finish ::
    "CommandOutputRedactor \<Rightarrow> OutputStream \<Rightarrow> (bytes \<times> CommandOutputRedactor) option" where
  "command_output_finish c stream =
     (case stream of
        Stdout \<Rightarrow> map_option (\<lambda>(out, st). (out, c\<lparr>out_stdout := st\<rparr>)) (stream_finish (out_stdout c))
      | Stderr \<Rightarrow> map_option (\<lambda>(out, st). (out, c\<lparr>out_stderr := st\<rparr>)) (stream_finish (out_stderr c)))"

section \<open>Text, arguments, environments and JSON\<close>

definition redact_text :: "SecretRedactor \<Rightarrow> string \<Rightarrow> string option" where
  "redact_text r input = map_option from_utf8_lossy (redact_bytes r input)"

definition sensitive_needles :: "string list" where
  "sensitive_needles =
     [''authorization'', ''credential'', ''githubtoken'', ''apikey'', ''privatekey'', ''password'',
      ''passphrase'', ''secret'', ''token'', ''jwt'', ''p12'', ''p8'', ''profilebase64'',
      ''signedurl'', ''keychainpassword'', ''sshkey'']"

definition is_sensitive_name :: "string \<Rightarrow> bool" where
  "is_sensitive_name name =
     (let normalized = map to_ascii_lower
            (filter is_ascii_alphanumeric (dropWhile (\<lambda>c. c = CHR ''-'') name))
      in list_ex (\<lambda>needle. sublist needle normalized) sensitive_needles)"

text \<open>One argument: the flag says that the previous one announced a sensitive value.\<close>

definition redact_argument :: "SecretRedactor \<Rightarrow> bool \<Rightarrow> string \<Rightarrow> (string \<times> bool) option" where
  "redact_argument r redact_next argument =
     (if redact_next then Some (REDACTION_MARKER, False)
      else (case split_once (CHR ''='') argument of
          Some (name, value) \<Rightarrow>
            if is_sensitive_name name
            then map_option (\<lambda>t. (t @ ''='' @ REDACTION_MARKER, False)) (redact_text r name)
            else if prefix ''-'' argument \<and> is_sensitive_name argument
            then map_option (\<lambda>t. (t, True)) (redact_text r argument)
            else map_option (\<lambda>t. (t, False)) (redact_text r argument)
        | None \<Rightarrow>
            if prefix ''-'' argument \<and> is_sensitive_name argument
            then map_option (\<lambda>t. (t, True)) (redact_text r argument)
            else map_option (\<lambda>t. (t, False)) (redact_text r argument)))"

fun redact_arguments_loop :: "SecretRedactor \<Rightarrow> bool \<Rightarrow> string list \<Rightarrow> string list option" where
  "redact_arguments_loop r redact_next [] = Some []"
| "redact_arguments_loop r redact_next (a # as) =
     (case redact_argument r redact_next a of
        None \<Rightarrow> None
      | Some (t, next) \<Rightarrow> map_option (Cons t) (redact_arguments_loop r next as))"

definition redact_arguments :: "SecretRedactor \<Rightarrow> string list \<Rightarrow> string list option" where
  "redact_arguments r arguments = redact_arguments_loop r False arguments"

definition redact_environment ::
    "SecretRedactor \<Rightarrow> (string \<times> string) list \<Rightarrow> (string \<times> string) list option" where
  "redact_environment r environment =
     map_option btree_collect (those (map (\<lambda>(name, value).
       (case (if is_sensitive_name name then Some REDACTION_MARKER else redact_text r value) of
          None \<Rightarrow> None
        | Some v \<Rightarrow> map_option (\<lambda>n. (n, v)) (redact_text r name))) environment))"

fun redact_json_value :: "SecretRedactor \<Rightarrow> json \<Rightarrow> json option" where
  "redact_json_value r (JString t) = map_option JString (redact_text r t)"
| "redact_json_value r (JArray items) = map_option JArray (those (map (redact_json_value r) items))"
| "redact_json_value r (JObject members) =
     map_option (\<lambda>ms. JObject (btree_collect ms)) (those (map (\<lambda>(name, value).
       (case redact_text r name of
          None \<Rightarrow> None
        | Some n \<Rightarrow>
            map_option (Pair n)
              (if is_sensitive_name name then Some (JString REDACTION_MARKER)
               else redact_json_value r value))) members))"
| "redact_json_value r v = Some v"

section \<open>The drain loop refines leftmost-longest replacement\<close>

text \<open>
  The specification: read the whole input from the left; where the rest of the input is a proper
  beginning of a secret, replace it all; otherwise replace the longest secret that starts here, or
  keep one byte.
\<close>

function redact_spec :: "bytes list \<Rightarrow> bytes \<Rightarrow> bytes" where
  "redact_spec ss [] = []"
| "redact_spec ss (c # cs) =
     (if is_partial_secret ss (c # cs) then REDACTION_MARKER
      else (case full_match ss (c # cs) of
          Some s \<Rightarrow> REDACTION_MARKER @ redact_spec ss (drop (length s - 1) cs)
        | None \<Rightarrow> c # redact_spec ss cs))"
  by pat_completeness auto
termination
  by (relation "measure (\<lambda>(ss, input). length input)") auto

lemma max_by_len_Some:
  "max_by_len best ss = Some m \<Longrightarrow> m \<in> set ss \<union> set_option best"
  by (induction best ss rule: max_by_len.induct) (auto split: option.splits if_splits)

lemma max_by_len_None: "max_by_len best ss = None \<longleftrightarrow> best = None \<and> ss = []"
  by (induction best ss rule: max_by_len.induct) (auto split: option.splits if_splits)

lemma max_by_len_max:
  "max_by_len best ss = Some m \<Longrightarrow> s \<in> set ss \<union> set_option best \<Longrightarrow> length s \<le> length m"
  by (induction best ss arbitrary: s rule: max_by_len.induct) (fastforce split: option.splits if_splits)+

lemma full_match_Some: "full_match ss r = Some s \<Longrightarrow> s \<in> set ss \<and> prefix s r"
  by (auto simp: full_match_def dest!: max_by_len_Some)

lemma full_match_None: "full_match ss r = None \<longleftrightarrow> (\<forall>s \<in> set ss. \<not> prefix s r)"
  by (auto simp: full_match_def max_by_len_None filter_empty_conv)

lemma full_match_longest: "full_match ss r = Some s \<Longrightarrow> t \<in> set ss \<Longrightarrow> prefix t r \<Longrightarrow> length t \<le> length s"
  by (auto simp: full_match_def dest: max_by_len_max)

text \<open>
  A position at which no secret can still be growing is settled: more input changes neither the
  absence of a partial secret nor the match.
\<close>

lemma partial_settled: "\<not> is_partial_secret ss r \<Longrightarrow> \<not> is_partial_secret ss (r @ x)"
  by (fastforce simp: is_partial_secret_def list_ex_iff dest: append_prefixD)

lemma full_match_settled:
  assumes "\<not> is_partial_secret ss r"
  shows "full_match ss (r @ x) = full_match ss r"
proof -
  have "prefix s (r @ x) \<longleftrightarrow> prefix s r" if "s \<in> set ss" for s
    using assms that by (auto simp: is_partial_secret_def list_ex_iff prefix_append)
  then have "filter (\<lambda>s. prefix s (r @ x)) ss = filter (\<lambda>s. prefix s r) ss"
    by (simp cong: filter_cong)
  then show ?thesis by (simp add: full_match_def)
qed

lemma redact_spec_step:
  assumes "r \<noteq> []" "\<not> is_partial_secret ss r" "[] \<notin> set ss"
  shows "redact_spec ss r =
    (case full_match ss r of
       Some s \<Rightarrow> REDACTION_MARKER @ redact_spec ss (drop (length s) r)
     | None \<Rightarrow> hd r # redact_spec ss (drop 1 r))"
proof -
  obtain c cs where r: "r = c # cs" using assms(1) by (cases r) auto
  have "s \<noteq> []" if "full_match ss r = Some s" for s
    using full_match_Some [OF that] assms(3) by auto
  then show ?thesis
    using assms(2) r by (auto split: option.splits simp: drop_Cons' )
qed

lemma drain_loop_finishing:
  assumes "[] \<notin> set ss"
  shows "drain_loop ss True r out = Some (out @ redact_spec ss r, [])"
proof (induction r arbitrary: out rule: length_induct)
  case (1 r)
  show ?case
  proof (cases "r = [] \<or> is_partial_secret ss r")
    case True
    then show ?thesis
      by (cases r) (auto simp: drain_loop.simps [of ss True "[]"]
        drain_loop.simps [of ss True "_ # _"])
  next
    case False
    have less: "length (drop 1 r) < length r" using False by (cases r) auto
    show ?thesis
    proof (cases "full_match ss r")
      case None
      with False less 1 show ?thesis
        by (subst drain_loop.simps) (simp add: redact_spec_step assms)
    next
      case (Some s)
      then have "s \<noteq> []" using full_match_Some [OF Some] assms by auto
      then have "length (drop (length s) r) < length r" using False by simp
      with False Some 1 show ?thesis
        by (subst drain_loop.simps) (simp add: redact_spec_step assms)
    qed
  qed
qed

lemma drain_loop_waiting:
  assumes "[] \<notin> set ss"
  shows "\<exists>emitted rest. drain_loop ss False r out = Some (out @ emitted, rest)
    \<and> (\<forall>x. redact_spec ss (r @ x) = emitted @ redact_spec ss (rest @ x))"
proof (induction r arbitrary: out rule: length_induct)
  case (1 r)
  show ?case
  proof (cases "r = [] \<or> is_partial_secret ss r")
    case True
    then have "drain_loop ss False r out = Some (out @ [], r)"
      by (subst drain_loop.simps) auto
    then show ?thesis by fastforce
  next
    case False
    then have r: "r \<noteq> []" and settled: "\<not> is_partial_secret ss r" by auto
    let ?out = "case full_match ss r of Some s \<Rightarrow> REDACTION_MARKER | None \<Rightarrow> [hd r]"
    let ?rest = "case full_match ss r of Some s \<Rightarrow> drop (length s) r | None \<Rightarrow> drop 1 r"
    have "s \<noteq> []" "length s \<le> length r" if "full_match ss r = Some s" for s
      using full_match_Some [OF that] assms by (auto dest: prefix_length_le)
    then have less: "length ?rest < length r"
      using r by (cases r) (auto split: option.splits)
    have step: "drain_loop ss False r out = drain_loop ss False ?rest (out @ ?out)"
      using r settled by (subst drain_loop.simps) (auto split: option.splits)
    have spec: "redact_spec ss (r @ x) = ?out @ redact_spec ss (?rest @ x)" for x
    proof (cases "full_match ss r")
      case None
      with redact_spec_step [of "r @ x" ss] partial_settled [OF settled, of x] r assms
        full_match_settled [OF settled, of x] show ?thesis by (cases r) auto
    next
      case (Some s)
      then have "length s \<le> length r" by (auto dest!: full_match_Some prefix_length_le)
      with Some redact_spec_step [of "r @ x" ss] partial_settled [OF settled, of x] r assms
        full_match_settled [OF settled, of x] show ?thesis by simp
    qed
    from 1 less obtain emitted rest where
      d: "drain_loop ss False ?rest (out @ ?out) = Some ((out @ ?out) @ emitted, rest)"
      and s: "\<forall>x. redact_spec ss (?rest @ x) = emitted @ redact_spec ss (rest @ x)"
      by blast
    show ?thesis
    proof (intro exI conjI allI)
      show "drain_loop ss False r out = Some (out @ (?out @ emitted), rest)"
        using step d by simp
      show "redact_spec ss (r @ x) = (?out @ emitted) @ redact_spec ss (rest @ x)" for x
        using spec [of x] s by simp
    qed
  qed
qed

section \<open>Redactors that registration builds\<close>

inductive registered :: "SecretRedactor \<Rightarrow> bool" where
  new: "registered SecretRedactor_new"
| secret: "registered r \<Longrightarrow> register_secret r s = Ok r' \<Longrightarrow> registered r'"
| secret_bytes: "registered r \<Longrightarrow> register_secret_bytes r b = Ok r' \<Longrightarrow> registered r'"

definition redactor_wf :: "SecretRedactor \<Rightarrow> bool" where
  "redactor_wf r \<longleftrightarrow> [] \<notin> set (secret_values r) \<and> distinct (secret_values r)"

lemma register_bytes_wf: "redactor_wf r \<Longrightarrow> register_bytes r b = Ok r' \<Longrightarrow> redactor_wf r'"
  by (auto simp: redactor_wf_def register_bytes_def secret_values_def list_ex_iff split: if_splits)

lemma register_bytes_values:
  "register_bytes r b = Ok r' \<Longrightarrow> set (secret_values r') = insert b (set (secret_values r))"
  by (auto simp: register_bytes_def secret_values_def list_ex_iff image_iff split: if_splits)

lemma registered_wf: "registered r \<Longrightarrow> redactor_wf r"
  by (induction rule: registered.induct)
    (auto simp: register_secret_def register_secret_bytes_def intro: register_bytes_wf,
     simp add: redactor_wf_def SecretRedactor_new_def secret_values_def)

section \<open>Streaming\<close>

definition stream_live :: "StreamingRedactor \<Rightarrow> bool" where
  "stream_live st \<longleftrightarrow> \<not> finished st \<and> [] \<notin> set (secret_values (stream_redactor st))"

definition stream_meaning :: "StreamingRedactor \<Rightarrow> bytes \<Rightarrow> bytes" where
  "stream_meaning st x = redact_spec (secret_values (stream_redactor st)) (pending st @ x)"

definition stream_closed :: "StreamingRedactor \<Rightarrow> bool" where
  "stream_closed st \<longleftrightarrow> finished st \<and> pending st = []"

lemmas stream_defs = stream_live_def stream_meaning_def stream_closed_def

interpretation redaction_stream: chunked_filter stream_push stream_finish stream_meaning stream_live stream_closed
proof unfold_locales
  fix st :: StreamingRedactor and c
  assume live: "stream_live st"
  then obtain emitted rest where
    d: "drain_loop (secret_values (stream_redactor st)) False (pending st @ c) [] = Some (emitted, rest)"
    and m: "\<forall>x. redact_spec (secret_values (stream_redactor st)) ((pending st @ c) @ x)
        = emitted @ redact_spec (secret_values (stream_redactor st)) (rest @ x)"
    using drain_loop_waiting [of "secret_values (stream_redactor st)" "pending st @ c" "[]"]
    by (auto simp: stream_live_def)
  show "\<exists>out st'. stream_push st c = Some (Inr (out, st')) \<and> stream_live st'
      \<and> (\<forall>x. stream_meaning st (c @ x) = out @ stream_meaning st' x)"
    using live d m by (auto simp: stream_push_def drain_safe_def stream_defs)
  show "\<exists>st'. stream_finish st = Some (stream_meaning st [], st') \<and> stream_closed st'"
    using live by (auto simp: stream_finish_def drain_safe_def stream_defs drain_loop_finishing)
qed

lemma redact_bytes_feed:
  "redact_bytes r input =
     (case feed stream_push stream_finish (redactor_stream r) [input] of
        Some (Inr (out, _)) \<Rightarrow> Some out | _ \<Rightarrow> None)"
  by (auto simp: redact_bytes_def split: option.splits sum.splits prod.splits)

lemma stream_live_start: "redactor_wf r \<Longrightarrow> stream_live (redactor_stream r)"
  by (simp add: stream_live_def redactor_stream_def redactor_wf_def)

lemma redact_bytes_eq:
  assumes "redactor_wf r"
  shows "redact_bytes r input = Some (redact_spec (secret_values r) input)"
  using redaction_stream.feed_meaning [OF stream_live_start [OF assms], of "[input]"]
  by (auto simp: redact_bytes_feed stream_meaning_def redactor_stream_def)

lemma redact_text_eq:
  "redactor_wf r \<Longrightarrow> redact_text r t = Some (from_utf8_lossy (redact_spec (secret_values r) t))"
  by (simp add: redact_text_def redact_bytes_eq)

text \<open>
  C39 [redact_total]: registration never admits an empty or duplicate pattern, and for every redactor
  it can build the drain loop ends: redacting a buffer returns, whatever the input.
\<close>

theorem registered_redactor_total:
  assumes "registered r"
  shows "[] \<notin> set (secret_values r) \<and> distinct (secret_values r)
    \<and> (\<exists>out. redact_bytes r input = Some out)"
  using registered_wf [OF assms] redact_bytes_eq by (auto simp: redactor_wf_def)

theorem registered_redactor_total_witness:
  "\<exists>out. redact_bytes \<lparr>secrets = [SecretBytes ''hunter2'']\<rparr> ''login hunter2'' = Some out"
proof -
  have "register_secret SecretRedactor_new (Secret_new ''hunter2'') = Ok \<lparr>secrets = [SecretBytes ''hunter2'']\<rparr>"
    by code_simp
  with registered.new have "registered \<lparr>secrets = [SecretBytes ''hunter2'']\<rparr>"
    by (rule registered.secret)
  from registered_redactor_total [OF this] show ?thesis by blast
qed

text \<open>
  C22 [redact_chunks]: the streaming redactor is chunk-safe. Whatever way a stream is cut into pushes,
  no push panics or hangs, the concatenated output is that of redacting the whole stream at once, which
  is leftmost-longest replacement, and after \<open>finish\<close> nothing is left pending.
\<close>

theorem streaming_redaction_is_chunk_safe:
  assumes "redactor_wf r"
  shows "\<exists>st. feed stream_push stream_finish (redactor_stream r) chunks
           = Some (Ok (redact_spec (secret_values r) (concat chunks), st))
    \<and> finished st \<and> pending st = []
    \<and> redact_bytes r (concat chunks) = Some (redact_spec (secret_values r) (concat chunks))"
  using redaction_stream.feed_meaning [OF stream_live_start [OF assms], of chunks] redact_bytes_eq [OF assms]
  by (auto simp: stream_meaning_def stream_closed_def redactor_stream_def)

theorem streaming_redaction_is_chunk_safe_witness:
  "\<exists>st. feed stream_push stream_finish (redactor_stream \<lparr>secrets = [SecretBytes ''abc'', SecretBytes ''abcd'']\<rparr>)
           [''xa'', ''bc'', ''dyab'', []] = Some (Ok (''x<redacted>y<redacted>'', st)) \<and> finished st"
proof -
  let ?r = "\<lparr>secrets = [SecretBytes ''abc'', SecretBytes ''abcd'']\<rparr>"
  have "redactor_wf ?r" by code_simp
  note streaming_redaction_is_chunk_safe [OF this, of "[''xa'', ''bc'', ''dyab'', []]"] moreover have "redact_spec (secret_values ?r) (concat [''xa'', ''bc'', ''dyab'', []]) = ''x<redacted>y<redacted>''"
    by code_simp
  ultimately show ?thesis by auto
qed

section \<open>Nothing secret survives\<close>

definition markerless :: "bytes \<Rightarrow> bool" where
  "markerless s \<longleftrightarrow> s \<noteq> [] \<and> CHR ''<'' \<notin> set s \<and> CHR ''>'' \<notin> set s \<and> \<not> sublist s ''redacted''"

lemma marker_split: "REDACTION_MARKER = CHR ''<'' # ''redacted'' @ [CHR ''>'']"
  by (simp add: REDACTION_MARKER_def)

lemma sublist_absent_Cons:
  "c \<notin> set s \<Longrightarrow> s \<noteq> [] \<Longrightarrow> sublist s (c # t) \<longleftrightarrow> sublist s t"
  by (cases s) (auto simp: sublist_Cons_right)

lemma sublist_absent_middle:
  assumes "c \<notin> set s"
  shows "sublist s (u @ c # t) \<longleftrightarrow> sublist s u \<or> sublist s t"
proof
  assume "sublist s (u @ c # t)"
  then show "sublist s u \<or> sublist s t"
  proof (induction u)
    case Nil
    with assms show ?case by (cases "s = []") (auto simp: sublist_absent_Cons)
  next
    case (Cons x u)
    then show ?case
      using assms by (auto simp: sublist_Cons_right prefix_append prefix_Cons)
  qed
next
  assume "sublist s u \<or> sublist s t"
  then show "sublist s (u @ c # t)"
    by (metis append_Cons append_assoc sublist_appendI sublist_append_leftI sublist_append_rightI
        sublist_order.order_trans append_Nil)
qed

lemma sublist_marker_append:
  "markerless s \<Longrightarrow> sublist s (REDACTION_MARKER @ t) \<longleftrightarrow> sublist s t"
  using sublist_absent_middle [of "CHR ''>''" s "''redacted''" t]
    sublist_absent_Cons [of "CHR ''<''" s "''redacted'' @ CHR ''>'' # t"]
  by (auto simp: marker_split markerless_def)

lemma redact_spec_prefix:
  "CHR ''<'' \<notin> set s \<Longrightarrow> prefix s (redact_spec ss input) \<Longrightarrow> prefix s input"
proof (induction ss input arbitrary: s rule: redact_spec.induct)
  case (1 ss)
  then show ?case by simp
next
  case (2 ss c cs)
  show ?case
  proof (cases s)
    case (Cons b t)
    with 2 show ?thesis
      by (auto simp: marker_split split: if_splits option.splits)
  qed simp
qed

lemma redact_spec_no_leak:
  "s \<in> set ss \<Longrightarrow> markerless s \<Longrightarrow> \<not> sublist s (redact_spec ss input)"
proof (induction ss input rule: redact_spec.induct)
  case (1 ss)
  then show ?case by (auto simp: markerless_def)
next
  case (2 ss c cs)
  show ?case
  proof (cases "is_partial_secret ss (c # cs)")
    case True
    then show ?thesis
      using sublist_marker_append [OF \<open>markerless s\<close>, of "[]"] \<open>markerless s\<close>
      by (simp add: markerless_def)
  next
    case part: False
    show ?thesis
    proof (cases "full_match ss (c # cs)")
      case None
      then have "\<not> prefix s (c # cs)" using \<open>s \<in> set ss\<close> by (simp add: full_match_None)
      moreover have "redact_spec ss (c # cs) = c # redact_spec ss cs" using part None by simp
      ultimately have "\<not> prefix s (c # redact_spec ss cs)"
        using redact_spec_prefix [of s ss "c # cs"] \<open>markerless s\<close> by (auto simp: markerless_def)
      with 2 part None show ?thesis by (simp add: sublist_Cons_right)
    next
      case (Some m)
      with 2 part show ?thesis by (simp add: sublist_marker_append)
    qed
  qed
qed

lemma lossy_no_leak:
  "s \<in> set ss \<Longrightarrow> markerless s \<Longrightarrow> is_ascii s \<Longrightarrow> \<not> sublist s (from_utf8_lossy (redact_spec ss input))"
  using lossy_sublist_ascii redact_spec_no_leak by blast

lemma marker_no_leak: "markerless s \<Longrightarrow> \<not> sublist s REDACTION_MARKER"
  using sublist_marker_append [of s "[]"] by (simp add: markerless_def)

lemma those_Some_iff: "those xs = Some ys \<longleftrightarrow> xs = map Some ys"
  by (induction xs arbitrary: ys) (auto split: option.splits)

lemma map_Some_member: "map f xs = map Some ys \<Longrightarrow> y \<in> set ys \<Longrightarrow> \<exists>x \<in> set xs. f x = Some y"
proof -
  assume "map f xs = map Some ys" "y \<in> set ys"
  then have "Some y \<in> set (map f xs)" by simp
  then show ?thesis by auto
qed

lemma those_map_total: "(\<forall>x \<in> set xs. f x \<noteq> None) \<Longrightarrow> \<exists>ys. those (map f xs) = Some ys"
  by (induction xs) auto

text \<open>All the text a JSON value shows: strings and member names.\<close>

fun json_texts :: "json \<Rightarrow> string list" where
  "json_texts (JString t) = [t]"
| "json_texts (JArray items) = concat (map json_texts items)"
| "json_texts (JObject members) = concat (map (\<lambda>(name, value). name # json_texts value) members)"
| "json_texts v = []"

lemma redact_json_value_total: "redactor_wf r \<Longrightarrow> \<exists>v'. redact_json_value r v = Some v'"
proof (induction r v rule: redact_json_value.induct)
  case (1 r t)
  then show ?case by (simp add: redact_text_eq)
next
  case (2 r items)
  then show ?case using those_map_total [of items "redact_json_value r"] by auto
next
  case (3 r members)
  let ?f = "\<lambda>(name, value). case redact_text r name of None \<Rightarrow> None
        | Some n \<Rightarrow> map_option (Pair n)
              (if is_sensitive_name name then Some (JString REDACTION_MARKER) else redact_json_value r value)"
  have "?f m \<noteq> None" if "m \<in> set members" for m
    using 3 that by (cases m) (fastforce simp: redact_text_eq split: if_splits)
  then have "\<exists>ys. those (map ?f members) = Some ys"
    by (intro those_map_total) blast
  then show ?case by auto
qed auto

lemma redact_json_no_leak:
  assumes "redactor_wf r" "s \<in> set (secret_values r)" "markerless s" "is_ascii s"
  shows "redact_json_value r v = Some v' \<Longrightarrow> t \<in> set (json_texts v') \<Longrightarrow> \<not> sublist s t"
  using assms
proof (induction r v arbitrary: v' t rule: redact_json_value.induct)
  case (1 r u)
  then show ?case by (auto simp: redact_text_eq lossy_no_leak)
next
  case (2 r items)
  from 2(2) obtain vs where vs: "map (redact_json_value r) items = map Some vs" "v' = JArray vs"
    by (auto simp: those_Some_iff)
  with 2(3) obtain w where w: "w \<in> set vs" "t \<in> set (json_texts w)" by auto
  with map_Some_member [OF vs(1)] obtain i where "i \<in> set items" "redact_json_value r i = Some w"
    by blast
  from 2(1) [OF this w(2) 2(4-)] show ?case .
next
  case (3 r members)
  let ?f = "\<lambda>(name, value). case redact_text r name of None \<Rightarrow> None
        | Some n \<Rightarrow> map_option (Pair n)
              (if is_sensitive_name name then Some (JString REDACTION_MARKER) else redact_json_value r value)"
  from 3 obtain ms where ms: "map ?f members = map Some ms" and v': "v' = JObject (btree_collect ms)"
    by (auto simp: those_Some_iff)
  with 3 obtain k w where kw: "(k, w) \<in> set (btree_collect ms)" "t = k \<or> t \<in> set (json_texts w)" by auto
  then have "(k, w) \<in> set ms" by (auto dest: btree_collect_mem)
  with map_Some_member [OF ms] obtain m where m: "m \<in> set members" "?f m = Some (k, w)"
    by blast
  obtain name val where nv: "m = (name, val)" by fastforce
  from m nv 3(4-) have k: "\<not> sublist s k" by (auto simp: redact_text_eq lossy_no_leak)
  show ?case
  proof (cases "is_sensitive_name name")
    case True
    with m nv 3(4-) have "w = JString REDACTION_MARKER" by (auto simp: redact_text_eq)
    with kw k 3(4-) show ?thesis by (auto simp: marker_no_leak)
  next
    case False
    with m nv 3(4-) have "redact_json_value r val = Some w" by (auto simp: redact_text_eq)
    with False kw k m nv 3 show ?thesis by (auto simp: redact_text_eq)
  qed
qed auto

text \<open>
  C1 [redact_noleak]: a registered secret that the marker cannot show, one with neither angle bracket in
  it that is not a piece of the word inside the marker (as \<open>red\<close> would be), never appears in redacted
  output, for any chunking of the stream: neither whole, nor reassembled from bytes around a replaced
  occurrence; and the redaction of the stream succeeds.
\<close>

theorem registered_secret_never_emitted:
  assumes "redactor_wf r" "s \<in> set (secret_values r)"
    and "CHR ''<'' \<notin> set s" "CHR ''>'' \<notin> set s" "\<not> sublist s ''redacted''"
  shows "\<exists>out st. feed stream_push stream_finish (redactor_stream r) chunks = Some (Ok (out, st))
    \<and> \<not> sublist s out"
proof -
  have "markerless s" using assms by (auto simp: markerless_def redactor_wf_def)
  from redact_spec_no_leak [OF assms(2) this] show ?thesis
    using redaction_stream.feed_meaning [OF stream_live_start [OF assms(1)], of chunks]
    by (auto simp: stream_meaning_def redactor_stream_def)
qed

theorem registered_secret_never_emitted_witness:
  "\<exists>out st. feed stream_push stream_finish (redactor_stream \<lparr>secrets = [SecretBytes ''ab'']\<rparr>) [''xa'', ''aabb'']
     = Some (Ok (out, st)) \<and> \<not> sublist ''ab'' out"
  by (rule registered_secret_never_emitted) code_simp+

text \<open>
  C40 [redact_json]: redacting a JSON value returns, and no registered ASCII secret that the marker cannot
  show, one with neither angle bracket in it that is not a piece of the word inside the marker, appears
  in any string or member name of the result, at any depth.
\<close>

theorem json_redaction_hides_secrets:
  assumes "redactor_wf r"
  shows "\<exists>v'. redact_json_value r v = Some v'
    \<and> (\<forall>s \<in> set (secret_values r). CHR ''<'' \<notin> set s \<and> CHR ''>'' \<notin> set s \<and> \<not> sublist s ''redacted'' \<and> is_ascii s \<longrightarrow>
         (\<forall>t \<in> set (json_texts v'). \<not> sublist s t))"
proof -
  have "markerless s" if "s \<in> set (secret_values r)" "CHR ''<'' \<notin> set s" "CHR ''>'' \<notin> set s" "\<not> sublist s ''redacted''" for s
    using that assms by (auto simp: markerless_def redactor_wf_def)
  then show ?thesis
    using redact_json_value_total [OF assms, of v] redact_json_no_leak [OF assms] by blast
qed

theorem json_redaction_hides_secrets_witness:
  "\<exists>v'. redact_json_value \<lparr>secrets = [SecretBytes ''s3cr'']\<rparr>
        (JObject [(''a s3cr'', JArray [JString ''s3cr!'', JNull])]) = Some v'
    \<and> (\<forall>t \<in> set (json_texts v'). \<not> sublist ''s3cr'' t)"
proof -
  have "redactor_wf \<lparr>secrets = [SecretBytes ''s3cr'']\<rparr>" by code_simp
  moreover have "CHR ''<'' \<notin> set ''s3cr'' \<and> CHR ''>'' \<notin> set ''s3cr'' \<and> \<not> sublist ''s3cr'' ''redacted'' \<and> is_ascii ''s3cr''"
    "''s3cr'' \<in> set (secret_values \<lparr>secrets = [SecretBytes ''s3cr'']\<rparr>)" by code_simp+
  ultimately show ?thesis using json_redaction_hides_secrets by blast
qed

text \<open>
  [redact_field]: in a redacted object every member comes from a member of the original; when that
  member's name is sensitive its value is the marker, whatever it was, a secret reference included.
\<close>

theorem sensitive_members_are_masked:
  assumes "redactor_wf r" "redact_json_value r (JObject members) = Some v'"
  shows "\<exists>ms. v' = JObject ms \<and> btree_wf ms
    \<and> (\<forall>(k', w) \<in> set ms. \<exists>(k, v) \<in> set members. redact_text r k = Some k'
         \<and> (if is_sensitive_name k then w = JString REDACTION_MARKER else redact_json_value r v = Some w))"
proof -
  let ?f = "\<lambda>(name, value). case redact_text r name of None \<Rightarrow> None
        | Some n \<Rightarrow> map_option (Pair n)
              (if is_sensitive_name name then Some (JString REDACTION_MARKER) else redact_json_value r value)"
  from assms(2) obtain ms where ms: "map ?f members = map Some ms" and v': "v' = JObject (btree_collect ms)"
    by (auto simp: those_Some_iff)
  have "\<exists>(k, v) \<in> set members. redact_text r k = Some k'
         \<and> (if is_sensitive_name k then w = JString REDACTION_MARKER else redact_json_value r v = Some w)"
    if "(k', w) \<in> set (btree_collect ms)" for k' w
    using map_Some_member [OF ms btree_collect_mem [OF that]]
    by (fastforce split: option.splits if_splits)
  with v' show ?thesis using btree_collect_wf [of ms] by blast
qed

theorem sensitive_members_are_masked_witness:
  "\<exists>ms. JObject [(''password'', JString ''<redacted>'')] = JObject ms \<and> btree_wf ms
    \<and> (\<forall>(k', w) \<in> set ms. \<exists>(k, v) \<in> set [(''password'', JObject [(''kind'', JString ''github_actions'')])].
         redact_text SecretRedactor_new k = Some k'
         \<and> (if is_sensitive_name k then w = JString REDACTION_MARKER
            else redact_json_value SecretRedactor_new v = Some w))"
proof (rule sensitive_members_are_masked)
  show wf: "redactor_wf SecretRedactor_new" by code_simp
  have "redact_text SecretRedactor_new ''password'' = Some ''password''"
    unfolding redact_text_eq [OF wf] by code_simp
  moreover have "is_sensitive_name ''password''" by code_simp
  ultimately show "redact_json_value SecretRedactor_new
      (JObject [(''password'', JObject [(''kind'', JString ''github_actions'')])])
    = Some (JObject [(''password'', JString ''<redacted>'')])"
    by (simp add: btree_collect_def REDACTION_MARKER_def)
qed

section \<open>Command arguments and streams\<close>

lemma redact_argument_total: "redactor_wf r \<Longrightarrow> \<exists>t n. redact_argument r b a = Some (t, n)"
  by (auto simp: redact_argument_def redact_text_eq split: option.splits prod.splits)

lemma redact_arguments_loop_total:
  "redactor_wf r \<Longrightarrow> \<exists>out. redact_arguments_loop r b args = Some out \<and> length out = length args"
proof (induction args arbitrary: b)
  case (Cons a args)
  obtain t n where "redact_argument r b a = Some (t, n)"
    using redact_argument_total [OF Cons.prems] by blast
  with Cons.IH [OF Cons.prems, of n] show ?case by auto
qed simp

text \<open>The shapes of an option that announces or carries a sensitive value.\<close>

lemma redact_argument_assignment:
  "redactor_wf r \<Longrightarrow> CHR ''='' \<notin> set name \<Longrightarrow> is_sensitive_name name \<Longrightarrow>
   redact_argument r False (name @ ''='' @ value)
     = Some (from_utf8_lossy (redact_spec (secret_values r) name) @ ''='' @ REDACTION_MARKER, False)"
  using split_once_append [of "CHR ''=''" name]
  by (simp add: redact_argument_def redact_text_eq)

lemma redact_argument_flag:
  "redactor_wf r \<Longrightarrow> CHR ''='' \<notin> set a \<Longrightarrow> is_sensitive_name a \<Longrightarrow> prefix ''-'' a \<Longrightarrow>
   redact_argument r False a = Some (from_utf8_lossy (redact_spec (secret_values r) a), True)"
  by (simp add: redact_argument_def split_once_def redact_text_eq)

text \<open>
  [redact_args]: argument redaction is positional and complete: it returns one argument for each
  input argument; \<open>name=value\<close> with a sensitive name loses its value, and the argument that follows a
  sensitive dash option is replaced whole, whatever it contains.
\<close>

theorem sensitive_arguments_are_masked:
  assumes "redactor_wf r" "CHR ''='' \<notin> set name" "is_sensitive_name name"
  shows "(\<exists>out. redact_arguments r args = Some out \<and> length out = length args)
    \<and> redact_arguments r [name @ ''='' @ value]
       = Some [from_utf8_lossy (redact_spec (secret_values r) name) @ ''='' @ REDACTION_MARKER]
    \<and> redact_arguments r ([CHR ''-'' # name, value] @ args)
       = map_option (\<lambda>rest. from_utf8_lossy (redact_spec (secret_values r) (CHR ''-'' # name)) # REDACTION_MARKER # rest)
           (redact_arguments r args)"
proof (intro conjI)
  show "\<exists>out. redact_arguments r args = Some out \<and> length out = length args"
    using redact_arguments_loop_total [OF assms(1)] by (simp add: redact_arguments_def)
  show "redact_arguments r [name @ ''='' @ value]
       = Some [from_utf8_lossy (redact_spec (secret_values r) name) @ ''='' @ REDACTION_MARKER]"
    using redact_argument_assignment [OF assms] by (simp add: redact_arguments_def)
  have "is_sensitive_name (CHR ''-'' # name)"
    using assms(3) by (simp add: is_sensitive_name_def)
  then have "redact_argument r False (CHR ''-'' # name)
      = Some (from_utf8_lossy (redact_spec (secret_values r) (CHR ''-'' # name)), True)"
    using assms by (intro redact_argument_flag) auto
  then show "redact_arguments r ([CHR ''-'' # name, value] @ args)
       = map_option (\<lambda>rest. from_utf8_lossy (redact_spec (secret_values r) (CHR ''-'' # name)) # REDACTION_MARKER # rest)
           (redact_arguments r args)"
    by (simp add: redact_arguments_def redact_argument_def [of r True] option.map_comp comp_def)
qed

theorem sensitive_arguments_are_masked_witness:
  "redact_arguments SecretRedactor_new [''--api-key=42'']
     = Some [from_utf8_lossy (redact_spec (secret_values SecretRedactor_new) ''--api-key'') @ ''=<redacted>'']"
proof -
  have "redactor_wf SecretRedactor_new" by code_simp
  moreover have "CHR ''='' \<notin> set ''--api-key''" by simp
  moreover have "is_sensitive_name ''--api-key''" by code_simp
  ultimately have "redact_arguments SecretRedactor_new [''--api-key'' @ ''='' @ ''42'']
     = Some [from_utf8_lossy (redact_spec (secret_values SecretRedactor_new) ''--api-key'') @ ''='' @ REDACTION_MARKER]"
    using sensitive_arguments_are_masked by blast
  then show ?thesis by (simp add: REDACTION_MARKER_def)
qed

text \<open>A command's interleaved output: pushes tagged with their stream, in arrival order.\<close>

fun command_output_run ::
    "CommandOutputRedactor \<Rightarrow> (OutputStream \<times> bytes) list
     \<Rightarrow> (redaction_panic + (OutputStream \<times> bytes) list \<times> CommandOutputRedactor) option" where
  "command_output_run c [] = Some (Ok ([], c))"
| "command_output_run c ((stream, chunk) # rest) =
     (case command_output_push c stream chunk of
        None \<Rightarrow> None
      | Some (Inl p) \<Rightarrow> Some (Err p)
      | Some (Inr (out, c')) \<Rightarrow>
          map_option (map_sum id (\<lambda>(outs, c''). ((stream, out) # outs, c''))) (command_output_run c' rest))"

definition on_stream :: "OutputStream \<Rightarrow> (OutputStream \<times> bytes) list \<Rightarrow> bytes" where
  "on_stream stream xs = concat (map snd (filter (\<lambda>x. fst x = stream) xs))"

definition selected_stream :: "CommandOutputRedactor \<Rightarrow> OutputStream \<Rightarrow> StreamingRedactor" where
  "selected_stream c stream = (case stream of Stdout \<Rightarrow> out_stdout c | Stderr \<Rightarrow> out_stderr c)"

lemma on_stream_simps [simp]:
  "on_stream s [] = []"
  "on_stream s ((t, x) # xs) = (if t = s then x @ on_stream s xs else on_stream s xs)"
  by (simp_all add: on_stream_def)

lemma command_output_push_law:
  assumes "\<forall>s. stream_live (selected_stream c s)"
  shows "\<exists>out c'. command_output_push c t chunk = Some (Ok (out, c'))
    \<and> (\<forall>s. stream_live (selected_stream c' s))
    \<and> (\<forall>x. stream_meaning (selected_stream c t) (chunk @ x) = out @ stream_meaning (selected_stream c' t) x)
    \<and> (\<forall>s. s \<noteq> t \<longrightarrow> selected_stream c' s = selected_stream c s)"
proof -
  obtain out st' where p: "stream_push (selected_stream c t) chunk = Some (Ok (out, st'))" "stream_live st'"
    and m: "\<forall>x. stream_meaning (selected_stream c t) (chunk @ x) = out @ stream_meaning st' x"
    using redaction_stream.push_law [of "selected_stream c t" chunk] assms by blast
  let ?c = "case t of Stdout \<Rightarrow> c\<lparr>out_stdout := st'\<rparr> | Stderr \<Rightarrow> c\<lparr>out_stderr := st'\<rparr>"
  have "command_output_push c t chunk = Some (Ok (out, ?c))"
    using p by (simp add: command_output_push_def selected_stream_def split: OutputStream.splits)
  moreover have "selected_stream ?c s = (if s = t then st' else selected_stream c s)" for s
    by (simp add: selected_stream_def split: OutputStream.splits)
  ultimately show ?thesis using p m assms by auto
qed

lemma command_output_run_meaning:
  "\<forall>s. stream_live (selected_stream c s) \<Longrightarrow>
   \<exists>outs c'. command_output_run c events = Some (Ok (outs, c'))
     \<and> (\<forall>s. stream_live (selected_stream c' s))
     \<and> (\<forall>s x. stream_meaning (selected_stream c s) (on_stream s events @ x)
          = on_stream s outs @ stream_meaning (selected_stream c' s) x)"
proof (induction events arbitrary: c)
  case Nil
  then show ?case by simp
next
  case (Cons e events)
  obtain t chunk where e: "e = (t, chunk)" by fastforce
  obtain out c1 where c1: "command_output_push c t chunk = Some (Ok (out, c1))"
    "\<forall>s. stream_live (selected_stream c1 s)"
    and m: "\<forall>x. stream_meaning (selected_stream c t) (chunk @ x) = out @ stream_meaning (selected_stream c1 t) x"
    and o: "\<forall>s. s \<noteq> t \<longrightarrow> selected_stream c1 s = selected_stream c s"
    using command_output_push_law [OF Cons.prems] by blast
  obtain outs c' where run: "command_output_run c1 events = Some (Ok (outs, c'))"
    "\<forall>s. stream_live (selected_stream c' s)"
    and rest: "\<forall>s x. stream_meaning (selected_stream c1 s) (on_stream s events @ x)
        = on_stream s outs @ stream_meaning (selected_stream c' s) x"
    using Cons.IH [OF c1(2)] by blast
  have "stream_meaning (selected_stream c s) (on_stream s (e # events) @ x)
      = on_stream s ((t, out) # outs) @ stream_meaning (selected_stream c' s) x" for s x
    using m o rest [rule_format, of s x] e by (cases "t = s") auto
  moreover have "command_output_run c (e # events) = Some (Ok ((t, out) # outs, c'))"
    using e c1(1) run(1) by simp
  ultimately show ?case using run(2) by blast
qed

text \<open>
  [redact_command]: standard output and standard error are redacted independently: however the
  chunks of the two streams interleave, what is emitted for a stream, with its \<open>finish\<close>, is the
  redaction of the bytes that stream carried, so a secret split across chunks of one stream is caught
  even when chunks of the other arrive in between.
\<close>

theorem command_streams_are_independent:
  assumes "redactor_wf r"
  shows "\<exists>outs c. command_output_run (command_output r) events = Some (Ok (outs, c))
    \<and> (\<forall>s. \<exists>last c'. command_output_finish c s = Some (last, c')
         \<and> on_stream s outs @ last = redact_spec (secret_values r) (on_stream s events))"
proof -
  have sel: "selected_stream (command_output r) s = redactor_stream r" for s
    by (simp add: command_output_def selected_stream_def split: OutputStream.splits)
  then obtain outs c where run: "command_output_run (command_output r) events = Some (Ok (outs, c))"
    and live: "\<forall>s. stream_live (selected_stream c s)"
    and m: "\<forall>s x. stream_meaning (redactor_stream r) (on_stream s events @ x)
        = on_stream s outs @ stream_meaning (selected_stream c s) x"
    using command_output_run_meaning [of "command_output r" events] stream_live_start [OF assms] by auto
  have "\<exists>c'. command_output_finish c s = Some (stream_meaning (selected_stream c s) [], c')" for s
  proof -
    obtain st' where "stream_finish (selected_stream c s) = Some (stream_meaning (selected_stream c s) [], st')"
      using redaction_stream.fin_law live by blast
    then show ?thesis by (cases s) (simp_all add: command_output_finish_def selected_stream_def)
  qed
  moreover have "on_stream s outs @ stream_meaning (selected_stream c s) []
      = redact_spec (secret_values r) (on_stream s events)" for s
    using m [rule_format, of s "[]"] by (simp add: stream_meaning_def redactor_stream_def)
  ultimately show ?thesis using run by blast
qed

theorem command_streams_are_independent_witness:
  "\<exists>outs c. command_output_run (command_output \<lparr>secrets = [SecretBytes ''key'']\<rparr>)
        [(Stdout, ''ke''), (Stderr, ''other''), (Stdout, ''y.'')] = Some (Ok (outs, c))"
proof -
  have "redactor_wf \<lparr>secrets = [SecretBytes ''key'']\<rparr>" by code_simp
  from command_streams_are_independent [OF this] show ?thesis by blast
qed

end
