(* ===== verification/Source_Manifest.thy ===== *)
theory Source_Manifest
  imports Rust_Text
begin

text \<open>
  Source manifests (\<^verbatim>\<open>src/crates/rustferry-remote/src/source.rs\<close>): portable paths, sensitive paths,
  case collisions, manifest validation and digests, bundle descriptors, snapshot refs, traversal
  budgets and ignore rules. The scan of the file system, the ZIP transport and the temporary-file
  handling of the same file are not modelled.

  Unicode normalization (the \<open>unicode_normalization\<close> crate), the Unicode lower-case tables and SHA-256
  (the \<open>sha2\<close> crate) are parameters.
\<close>

section \<open>Parameters, constants and data\<close>

record unicode =
  nfc :: "string \<Rightarrow> string"
  nfkc :: "string \<Rightarrow> string"
  str_lowercase :: "string \<Rightarrow> string"
  chars_lowercase :: "string \<Rightarrow> string"

definition MANIFEST_SCHEMA_VERSION :: u32 where "MANIFEST_SCHEMA_VERSION = 1"
definition MANIFEST_DOMAIN :: bytes where
  "MANIFEST_DOMAIN = ''rustferry-source-manifest-v1'' @ [CHR 0x00]"
definition SOURCE_BUNDLE_DESCRIPTOR_SCHEMA_VERSION :: u32 where
  "SOURCE_BUNDLE_DESCRIPTOR_SCHEMA_VERSION = 1"
definition MAX_GIT_SNAPSHOT_BYTES :: u64 where "MAX_GIT_SNAPSHOT_BYTES = 90 * 1024 * 1024"
definition GIT_SNAPSHOT_REF_PREFIX :: string where
  "GIT_SNAPSHOT_REF_PREFIX = ''refs/rustferry/goal3/snapshots''"
definition MAX_PORTABLE_PATH_BYTES :: nat where "MAX_PORTABLE_PATH_BYTES = 4096"
definition MAX_PORTABLE_SEGMENT_BYTES :: nat where "MAX_PORTABLE_SEGMENT_BYTES = 255"
definition MAX_IGNORE_PATTERN_BYTES :: nat where "MAX_IGNORE_PATTERN_BYTES = 1024"
definition MAX_SUPPORTED_DEPTH :: nat where "MAX_SUPPORTED_DEPTH = 256"
definition MAX_SOURCE_TRAVERSAL_ENTRIES :: nat where "MAX_SOURCE_TRAVERSAL_ENTRIES = 100000"

definition SENSITIVE_DIRECTORIES :: "string list" where
  "SENSITIVE_DIRECTORIES =
     [''.aws'', ''.azure'', ''.git'', ''.gnupg'', ''.hg'', ''.kube'', ''.svn'', ''.goal2'', ''.goal3'',
      ''.cache'', ''.ssh'', ''.tmp'', ''.venv'', ''__pycache__'', ''build'', ''credentials'',
      ''deriveddata'', ''device-pairing'', ''dist'', ''keychains'', ''node_modules'', ''out'',
      ''provisioning'', ''secrets'', ''signing'', ''target'']"

definition SENSITIVE_FILE_NAMES :: "string list" where
  "SENSITIVE_FILE_NAMES =
     [''.envrc'', ''.git-credentials'', ''.netrc'', ''.npmrc'', ''.pypirc'',
      ''application_default_credentials.json'', ''credentials'', ''credentials.json'',
      ''credentials.toml'', ''credentials.yaml'', ''credentials.yml'', ''id_dsa'', ''id_ecdsa'',
      ''id_ed25519'', ''id_rsa'', ''keystore.properties'', ''service-account.json'',
      ''service_account.json'']"

definition SENSITIVE_EXTENSIONS :: "string list" where
  "SENSITIVE_EXTENSIONS =
     [''cer'', ''crd'', ''crt'', ''der'', ''ipa'', ''jks'', ''key'', ''keystore'', ''mobileprovision'',
      ''p12'', ''p8'', ''pem'', ''ppk'', ''provisionprofile'', ''xcarchive'']"

datatype SourceMode = Git | GitSnapshot | Snapshot

record SourceLimits =
  max_file_count :: nat
  max_file_size :: u64
  max_total_size :: u64
  max_depth :: nat
  max_ignore_file_size :: u64
  max_ignore_rules :: nat

record SourceArchiveLimits =
  limits_source :: SourceLimits
  max_archive_size :: u64
  max_compression_ratio :: u64

definition SourceLimits_default :: SourceLimits where
  "SourceLimits_default =
     \<lparr>max_file_count = 20000, max_file_size = 64 * 1024 * 1024, max_total_size = 512 * 1024 * 1024,
      max_depth = 64, max_ignore_file_size = 64 * 1024, max_ignore_rules = 1024\<rparr>"

definition SourceArchiveLimits_default :: SourceArchiveLimits where
  "SourceArchiveLimits_default =
     \<lparr>limits_source = SourceLimits_default, max_archive_size = 640 * 1024 * 1024,
      max_compression_ratio = 100\<rparr>"

record SourceManifestEntry =
  entry_path :: string
  entry_size :: u64
  entry_sha256 :: string
  entry_executable :: bool

record SourceManifest =
  manifest_schema_version :: u32
  project_path :: string
  manifest_entries :: "SourceManifestEntry list"
  manifest_total_size :: u64
  manifest_sha256 :: string

record SourceArchive =
  archive_size :: u64
  archive_sha256 :: string

record SourceBundleDescriptor =
  bundle_schema_version :: u32
  bundle_archive :: SourceArchive
  bundle_manifest :: SourceManifest

datatype PortablePathReason =
    PathEmpty | Absolute | DrivePrefix | UncPrefix | Backslash | DotComponent | EmptyComponent
  | InvalidCharacter | TrailingDotOrSpace | NonNfc | ReservedName | PathTooLong | SegmentTooLong

datatype SourceLimitKind =
    FileCount | FileSize | TotalSize | Depth | IgnoreFileSize | IgnoreRuleCount | TraversalEntryCount
  | ArchiveSize | DescriptorSize | GitSnapshotSize | CompressionRatio

datatype IgnoreRuleReason =
  Negation | Glob | EdgeWhitespace | PatternTooLong | EmptyDirectoryPattern | NonPortable PortablePathReason

text \<open>The errors of the modelled functions; those of the file-system scan and ZIP transport are left out.\<close>

datatype SourceError =
    NonPortablePath string PortablePathReason
  | SensitivePath string
  | SensitiveContent string
  | CaseCollision string string
  | LimitExceeded SourceLimitKind "string option" u64 u64
  | UnsupportedDepthLimit nat nat
  | UnsupportedTraversalLimit nat nat
  | ExecutableModePathNotSelected string
  | InvalidIgnoreRule string nat IgnoreRuleReason
  | InvalidManifest string
  | InvalidArchive string
  | InvalidGitSnapshot string

definition limit_error :: "SourceLimitKind \<Rightarrow> string option \<Rightarrow> u64 \<Rightarrow> u64 \<Rightarrow> SourceError" where
  "limit_error k p maximum actual = LimitExceeded k p maximum actual"

definition invalid_git_snapshot :: "string \<Rightarrow> SourceError" where
  "invalid_git_snapshot reason = InvalidGitSnapshot reason"

section \<open>Portable paths\<close>

definition is_unsafe_unicode_format :: "nat \<Rightarrow> bool" where
  "is_unsafe_unicode_format c \<longleftrightarrow>
     c \<in> {0x061c, 0x200b, 0x200c, 0x200d, 0x200e, 0x200f} \<or> (0x202a \<le> c \<and> c \<le> 0x202e)
     \<or> c = 0x2060 \<or> (0x2066 \<le> c \<and> c \<le> 0x2069) \<or> c = 0xfeff"

definition device_suffixes :: "string list" where
  "device_suffixes =
     [''1'', ''2'', ''3'', ''4'', ''5'', ''6'', ''7'', ''8'', ''9'', [CHR 0xC2, CHR 0xB9],
      [CHR 0xC2, CHR 0xB2], [CHR 0xC2, CHR 0xB3]]"

definition is_windows_reserved_name :: "string \<Rightarrow> bool" where
  "is_windows_reserved_name stem =
     (let upper = to_ascii_uppercase stem in
      upper \<in> set [''CON'', ''PRN'', ''AUX'', ''NUL'', ''CLOCK$'', ''CONIN$'', ''CONOUT$'']
      \<or> (case strip_prefix ''COM'' upper of None \<Rightarrow> False | Some t \<Rightarrow> t \<in> set device_suffixes)
      \<or> (case strip_prefix ''LPT'' upper of None \<Rightarrow> False | Some t \<Rightarrow> t \<in> set device_suffixes))"

definition forbidden_character :: "nat \<Rightarrow> bool" where
  "forbidden_character c \<longleftrightarrow>
     is_control c \<or> c \<in> set (map byte ''<>:|?*'') \<or> c = 34 \<or> is_unsafe_unicode_format c"

text \<open>The body of the loop over the segments.\<close>

definition check_segment :: "unicode \<Rightarrow> string \<Rightarrow> PortablePathReason + unit" where
  "check_segment u segment =
     (if segment = [] then Err EmptyComponent
      else if segment = ''.'' \<or> segment = ''..'' then Err DotComponent
      else if length segment > MAX_PORTABLE_SEGMENT_BYTES then Err SegmentTooLong
      else if last segment = CHR ''.'' \<or> last segment = CHR '' '' then Err TrailingDotOrSpace
      else if nfc u segment \<noteq> segment then Err NonNfc
      else if list_ex forbidden_character (chars segment) then Err InvalidCharacter
      else if is_windows_reserved_name (hd (split (CHR ''.'') segment)) then Err ReservedName
      else Ok ())"

text \<open>
  \<open>Path::is_absolute\<close> adds nothing here: on Unix it is a leading slash, on Windows it needs a drive or
  UNC prefix, which the earlier checks reject.
\<close>

definition validate_portable_path_str :: "unicode \<Rightarrow> string \<Rightarrow> bool \<Rightarrow> PortablePathReason + unit" where
  "validate_portable_path_str u path allow_dot =
     (if allow_dot \<and> path = ''.'' then Ok ()
      else if path = [] then Err PathEmpty
      else if length path > MAX_PORTABLE_PATH_BYTES then Err PathTooLong
      else if prefix ''//'' path \<or> prefix [CHR 0x5C, CHR 0x5C] path then Err UncPrefix
      else if length path \<ge> 2 \<and> is_ascii_alphabetic (path ! 0) \<and> path ! 1 = CHR '':'' then Err DrivePrefix
      else if prefix ''/'' path then Err Absolute
      else if CHR 0x5C \<in> set path then Err Backslash
      else run_checks (map (check_segment u) (split (CHR ''/'') path)))"

section \<open>Sensitive paths, depth and traversal\<close>

definition is_sensitive_path :: "unicode \<Rightarrow> string \<Rightarrow> bool" where
  "is_sensitive_path u path =
     (let components = split (CHR ''/'') path;
          file_name = last components;
          lower = str_lowercase u file_name
      in list_ex (\<lambda>c. str_lowercase u c \<in> set SENSITIVE_DIRECTORIES) (butlast components)
         \<or> lower \<in> set SENSITIVE_DIRECTORIES \<or> lower \<in> set SENSITIVE_FILE_NAMES
         \<or> lower = ''.env'' \<or> prefix ''.env.'' lower
         \<or> (case rsplit_once (CHR ''.'') lower of None \<Rightarrow> False
            | Some (_, extension) \<Rightarrow> extension \<in> set SENSITIVE_EXTENSIONS))"

definition reject_sensitive :: "unicode \<Rightarrow> string \<Rightarrow> SourceError + unit" where
  "reject_sensitive u path = (if is_sensitive_path u path then Err (SensitivePath path) else Ok ())"

definition check_depth :: "string \<Rightarrow> nat \<Rightarrow> SourceError + unit" where
  "check_depth path maximum =
     (let actual = length (split (CHR ''/'') path) in
      if actual > maximum then Err (limit_error Depth (Some path) (of_nat maximum) (of_nat actual)) else Ok ())"

definition check_supported_depth :: "SourceLimits \<Rightarrow> SourceError + unit" where
  "check_supported_depth limits =
     (if max_depth limits > MAX_SUPPORTED_DEPTH
      then Err (UnsupportedDepthLimit (max_depth limits) MAX_SUPPORTED_DEPTH) else Ok ())"

text \<open>\<open>saturating_add\<close> on \<open>u64\<close> and on \<open>usize\<close>.\<close>

definition saturating_add :: "u64 \<Rightarrow> u64 \<Rightarrow> u64" where
  "saturating_add a b = (case checked_add a b of Some c \<Rightarrow> c | None \<Rightarrow> - 1)"

definition consume_manifest_traversal :: "u64 \<Rightarrow> string \<Rightarrow> SourceError + u64" where
  "consume_manifest_traversal so_far path =
     (let total' = saturating_add so_far (of_nat (length (split (CHR ''/'') path))) in
      if total' > of_nat MAX_SOURCE_TRAVERSAL_ENTRIES
      then Err (limit_error TraversalEntryCount (Some path) (of_nat MAX_SOURCE_TRAVERSAL_ENTRIES) total')
      else Ok total')"

record TraversalBudget =
  budget_maximum :: nat
  budget_visited :: nat

definition TraversalBudget_new :: "nat \<Rightarrow> SourceError + TraversalBudget" where
  "TraversalBudget_new maximum =
     (if maximum > MAX_SOURCE_TRAVERSAL_ENTRIES
      then Err (UnsupportedTraversalLimit maximum MAX_SOURCE_TRAVERSAL_ENTRIES)
      else Ok \<lparr>budget_maximum = maximum, budget_visited = 0\<rparr>)"

definition budget_consume ::
    "nat \<Rightarrow> TraversalBudget \<Rightarrow> nat \<Rightarrow> string option \<Rightarrow> SourceError + TraversalBudget" where
  "budget_consume usize_max b n path =
     (let actual = min usize_max (budget_visited b + n) in
      if actual > budget_maximum b
      then Err (limit_error TraversalEntryCount path (of_nat (budget_maximum b)) (of_nat actual))
      else Ok (b\<lparr>budget_visited := actual\<rparr>))"

definition consume_planned_manifest_traversal ::
    "nat \<Rightarrow> TraversalBudget \<Rightarrow> SourceManifestEntry list \<Rightarrow> SourceError + TraversalBudget" where
  "consume_planned_manifest_traversal usize_max b entries =
     try_fold (\<lambda>t e. budget_consume usize_max t (length (split (CHR ''/'') (entry_path e))) (Some (entry_path e)))
       b entries"

section \<open>Collisions and file ancestors\<close>

definition collision_key :: "unicode \<Rightarrow> string \<Rightarrow> string" where
  "collision_key u path = nfc u (chars_lowercase u (nfc u path))"

definition register_collision_key ::
    "unicode \<Rightarrow> (string \<rightharpoonup> string) \<Rightarrow> string \<Rightarrow> SourceError + (string \<rightharpoonup> string)" where
  "register_collision_key u collisions path =
     (let key = collision_key u path in
      case collisions key of
        Some existing \<Rightarrow> if existing \<noteq> path then Err (CaseCollision existing path) else Ok collisions
      | None \<Rightarrow> Ok (collisions(key \<mapsto> path)))"

text \<open>The values the loops give to \<open>prefix\<close>, one after each component.\<close>

fun path_prefixes :: "string \<Rightarrow> string list \<Rightarrow> string list" where
  "path_prefixes pre [] = []"
| "path_prefixes pre (component # rest) =
     (let p = (if pre \<noteq> [] then pre @ ''/'' else pre) @ component in p # path_prefixes p rest)"

definition register_path_components ::
    "unicode \<Rightarrow> (string \<rightharpoonup> string) \<Rightarrow> string \<Rightarrow> SourceError + (string \<rightharpoonup> string)" where
  "register_path_components u collisions path =
     try_fold (register_collision_key u) collisions (path_prefixes [] (split (CHR ''/'') path))"

definition has_file_ancestor :: "string \<Rightarrow> string set \<Rightarrow> bool" where
  "has_file_ancestor path file_paths =
     (let components = split (CHR ''/'') path in
      list_ex (\<lambda>p. p \<in> file_paths) (path_prefixes [] (take (length components - 1) components)))"

section \<open>Digests\<close>

definition digest_string :: "string \<Rightarrow> bytes" where
  "digest_string v = be_bytes 8 (length v mod 2 ^ 64) @ v"

definition digest_entry :: "SourceManifestEntry \<Rightarrow> bytes" where
  "digest_entry e =
     digest_string (entry_path e) @ be_bytes 8 (unat (entry_size e)) @ digest_string (entry_sha256 e)
       @ [if entry_executable e then CHR 0x01 else CHR 0x00]"

definition manifest_preimage :: "string \<Rightarrow> SourceManifestEntry list \<Rightarrow> u64 \<Rightarrow> bytes" where
  "manifest_preimage p entries total_size =
     MANIFEST_DOMAIN @ digest_string p @ be_bytes 8 (length entries mod 2 ^ 64)
       @ concat (map digest_entry entries) @ be_bytes 8 (unat total_size)"

definition hex_digest :: "bytes \<Rightarrow> string" where
  "hex_digest bs = concat (map (\<lambda>b. [''0123456789abcdef'' ! (byte b div 16), ''0123456789abcdef'' ! (byte b mod 16)]) bs)"

definition manifest_digest ::
    "(bytes \<Rightarrow> bytes) \<Rightarrow> string \<Rightarrow> SourceManifestEntry list \<Rightarrow> u64 \<Rightarrow> string" where
  "manifest_digest sha256 p entries total_size = hex_digest (sha256 (manifest_preimage p entries total_size))"

definition validate_sha256 :: "string \<Rightarrow> SourceError + unit" where
  "validate_sha256 v =
     (if length v = 64 \<and> list_all is_lower_hex v then Ok ()
      else Err (InvalidManifest ''SHA-256 digest is not 64 lowercase hexadecimal characters''))"

text \<open>The sum of the sizes wraps in a release build.\<close>

definition build_manifest ::
    "(bytes \<Rightarrow> bytes) \<Rightarrow> string \<Rightarrow> SourceManifestEntry list \<Rightarrow> SourceManifest" where
  "build_manifest sha256 p entries =
     (let total_size = sum_list (map entry_size entries) in
      \<lparr>manifest_schema_version = MANIFEST_SCHEMA_VERSION, project_path = p, manifest_entries = entries,
       manifest_total_size = total_size, manifest_sha256 = manifest_digest sha256 p entries total_size\<rparr>)"

section \<open>Manifest validation\<close>

record walk =
  walk_previous :: "string option"
  walk_collisions :: "string \<rightharpoonup> string"
  walk_file_paths :: "string set"
  walk_total :: u64
  walk_traversal :: u64

definition walk_start :: walk where
  "walk_start = \<lparr>walk_previous = None, walk_collisions = Map.empty, walk_file_paths = {}, walk_total = 0,
     walk_traversal = 0\<rparr>"

text \<open>The body of the loop over the entries, up to the updates of \<open>previous\<close> and \<open>file_paths\<close>.\<close>

definition walk_entry ::
    "unicode \<Rightarrow> SourceLimits \<Rightarrow> string \<Rightarrow> walk \<Rightarrow> SourceManifestEntry \<Rightarrow> SourceError + walk" where
  "walk_entry u limits project w e =
     (let path = entry_path e in
      and_then (map_err (NonPortablePath path) (validate_portable_path_str u path False)) (\<lambda>_.
      and_then (reject_sensitive u path) (\<lambda>_.
      and_then (check_depth path (max_depth limits)) (\<lambda>_.
      and_then (consume_manifest_traversal (walk_traversal w) path) (\<lambda>traversal.
      and_then (register_path_components u (walk_collisions w) path) (\<lambda>collisions.
      if path = project then Err (InvalidManifest ''project path is a file entry'')
      else if has_file_ancestor path (walk_file_paths w)
      then Err (InvalidManifest ''a file entry is also used as a directory'')
      else if (case walk_previous w of None \<Rightarrow> False | Some previous \<Rightarrow> previous \<ge> path)
      then Err (InvalidManifest ''entries are not strictly sorted by path'')
      else if entry_size e > max_file_size limits
      then Err (limit_error FileSize (Some path) (max_file_size limits) (entry_size e))
      else and_then (validate_sha256 (entry_sha256 e)) (\<lambda>_.
        case checked_add (walk_total w) (entry_size e) of
          None \<Rightarrow> Err (InvalidManifest ''total size overflow'')
        | Some total_size \<Rightarrow>
            if total_size > max_total_size limits
            then Err (limit_error TotalSize (Some path) (max_total_size limits) total_size)
            else Ok \<lparr>walk_previous = Some path, walk_collisions = collisions,
              walk_file_paths = insert path (walk_file_paths w), walk_total = total_size,
              walk_traversal = traversal\<rparr>)))))))"

definition validate_source_manifest ::
    "unicode \<Rightarrow> (bytes \<Rightarrow> bytes) \<Rightarrow> SourceManifest \<Rightarrow> SourceLimits \<Rightarrow> SourceError + unit" where
  "validate_source_manifest u sha256 m limits =
     (if manifest_schema_version m \<noteq> MANIFEST_SCHEMA_VERSION
      then Err (InvalidManifest ''unsupported schema version'')
      else and_then (map_err (NonPortablePath (project_path m)) (validate_portable_path_str u (project_path m) True)) (\<lambda>_.
      and_then (if project_path m \<noteq> ''.'' then reject_sensitive u (project_path m) else Ok ()) (\<lambda>_.
      and_then (check_supported_depth limits) (\<lambda>_.
      if length (manifest_entries m) > max_file_count limits
      then Err (limit_error FileCount None (of_nat (max_file_count limits)) (of_nat (length (manifest_entries m))))
      else and_then (try_fold (walk_entry u limits (project_path m)) walk_start (manifest_entries m)) (\<lambda>w.
        if walk_total w \<noteq> manifest_total_size m
        then Err (InvalidManifest ''total size does not equal entry sizes'')
        else and_then (validate_sha256 (manifest_sha256 m)) (\<lambda>_.
          if manifest_digest sha256 (project_path m) (manifest_entries m) (manifest_total_size m) \<noteq> manifest_sha256 m
          then Err (InvalidManifest ''manifest digest does not match canonical fields'')
          else Ok ()))))))"

section \<open>Descriptors and snapshot refs\<close>

definition validate_archive_limits :: "SourceArchiveLimits \<Rightarrow> SourceError + unit" where
  "validate_archive_limits limits =
     and_then (check_supported_depth (limits_source limits)) (\<lambda>_.
       reject_if (max_compression_ratio limits = 0) (InvalidArchive ''maximum compression ratio must be positive''))"

definition SourceBundleDescriptor_new :: "SourceArchive \<Rightarrow> SourceManifest \<Rightarrow> SourceBundleDescriptor" where
  "SourceBundleDescriptor_new a m =
     \<lparr>bundle_schema_version = SOURCE_BUNDLE_DESCRIPTOR_SCHEMA_VERSION, bundle_archive = a, bundle_manifest = m\<rparr>"

definition SourceBundleDescriptor_validate ::
    "unicode \<Rightarrow> (bytes \<Rightarrow> bytes) \<Rightarrow> SourceBundleDescriptor \<Rightarrow> SourceArchiveLimits \<Rightarrow> SourceError + unit" where
  "SourceBundleDescriptor_validate u sha256 d limits =
     run_checks
       [reject_if (bundle_schema_version d \<noteq> SOURCE_BUNDLE_DESCRIPTOR_SCHEMA_VERSION)
          (InvalidArchive ''unsupported source-bundle descriptor schema version''),
        validate_archive_limits limits,
        reject_if (archive_size (bundle_archive d) = 0) (InvalidArchive ''source archive size must be positive''),
        map_err (\<lambda>_. InvalidArchive ''source archive SHA-256 is not 64 lowercase hexadecimal characters'')
          (validate_sha256 (archive_sha256 (bundle_archive d))),
        reject_if (archive_size (bundle_archive d) > max_archive_size limits)
          (limit_error ArchiveSize None (max_archive_size limits) (archive_size (bundle_archive d))),
        validate_source_manifest u sha256 (bundle_manifest d) (limits_source limits)]"

definition git_snapshot_archive_limits :: SourceArchiveLimits where
  "git_snapshot_archive_limits =
     SourceArchiveLimits_default\<lparr>limits_source := SourceLimits_default\<lparr>max_total_size := MAX_GIT_SNAPSHOT_BYTES\<rparr>,
       max_archive_size := MAX_GIT_SNAPSHOT_BYTES\<rparr>"

definition git_snapshot_ref :: "string \<Rightarrow> SourceError + string" where
  "git_snapshot_ref operation_id =
     (if operation_id = [] \<or> length operation_id > 128 \<or> prefix ''.'' operation_id \<or> suffix ''.'' operation_id
        \<or> to_ascii_lowercase (drop (length operation_id - 5) operation_id) = ''.lock''
        \<or> sublist ''..'' operation_id
        \<or> \<not> list_all (\<lambda>b. is_ascii_alphanumeric b \<or> b \<in> {CHR ''-'', CHR ''_'', CHR ''.''}) operation_id
      then Err (invalid_git_snapshot ''operation identifier is not one safe Git-ref segment'')
      else Ok (GIT_SNAPSHOT_REF_PREFIX @ ''/'' @ operation_id))"

section \<open>Ignore rules and exclusions\<close>

record IgnoreRule =
  rule_base :: string
  rule_path :: string

definition path_is_within :: "string \<Rightarrow> string \<Rightarrow> bool" where
  "path_is_within path root \<longleftrightarrow> path = root
     \<or> (case strip_prefix root path of None \<Rightarrow> False | Some rest \<Rightarrow> prefix ''/'' rest)"

definition is_workspace_excluded :: "string \<Rightarrow> string list \<Rightarrow> bool" where
  "is_workspace_excluded path exclusions = list_ex (\<lambda>excluded. path_is_within path excluded) exclusions"

definition rule_matches :: "string \<Rightarrow> IgnoreRule \<Rightarrow> bool" where
  "rule_matches path rule =
     (let relative = (if rule_base rule = ''.'' then Some path
                      else Option.bind (strip_prefix (rule_base rule) path) (strip_prefix ''/''))
      in case relative of None \<Rightarrow> False
         | Some r \<Rightarrow> r = rule_path rule
             \<or> (case strip_prefix (rule_path rule) r of None \<Rightarrow> False | Some rest \<Rightarrow> prefix ''/'' rest))"

definition is_ignored :: "string \<Rightarrow> IgnoreRule list \<Rightarrow> bool" where
  "is_ignored path rules = list_ex (rule_matches path) rules"

text \<open>
  \<open>str::lines\<close>: split at line feeds; a carriage return before the line feed goes with it, and an empty
  rest after the last line feed is no line.
\<close>

definition text_lines :: "string \<Rightarrow> string list" where
  "text_lines s =
     (let pieces = split (CHR 0x0A) s in
      map (\<lambda>l. case strip_suffix [CHR 0x0D] l of Some t \<Rightarrow> t | None \<Rightarrow> l) (butlast pieces)
        @ (if last pieces = [] then [] else [last pieces]))"

definition parse_ignore_line ::
    "unicode \<Rightarrow> string \<Rightarrow> string \<Rightarrow> SourceLimits \<Rightarrow> IgnoreRule list \<Rightarrow> nat \<times> string \<Rightarrow> SourceError + IgnoreRule list" where
  "parse_ignore_line u file base limits rules numbered =
     (case numbered of (index, raw_line) \<Rightarrow>
      let line_number = index + 1;
          line = (case strip_suffix [CHR 0x0D] raw_line of Some t \<Rightarrow> t | None \<Rightarrow> raw_line);
          invalid = InvalidIgnoreRule file line_number;
          pattern = (case strip_suffix ''/'' line of Some t \<Rightarrow> t | None \<Rightarrow> line)
      in if line = [] \<or> prefix ''#'' line then Ok rules
         else if length line > MAX_IGNORE_PATTERN_BYTES then Err (invalid PatternTooLong)
         else if hd line \<in> {CHR '' '', CHR 0x09} \<or> last line \<in> {CHR '' '', CHR 0x09} then Err (invalid EdgeWhitespace)
         else if prefix ''!'' line then Err (invalid Negation)
         else if list_ex (\<lambda>c. c \<in> {CHR ''*'', CHR ''?'', CHR ''['', CHR '']''}) line then Err (invalid Glob)
         else if pattern = [] then Err (invalid EmptyDirectoryPattern)
         else and_then (map_err (\<lambda>reason. invalid (NonPortable reason)) (validate_portable_path_str u pattern False)) (\<lambda>_.
           if length rules \<ge> max_ignore_rules limits
           then Err (limit_error IgnoreRuleCount (Some file) (of_nat (max_ignore_rules limits)) (of_nat (length rules + 1)))
           else Ok (rules @ [\<lparr>rule_base = base, rule_path = pattern\<rparr>])))"

text \<open>\<open>base\<close> is given as its displayed relative path.\<close>

definition parse_ignore_file ::
    "unicode \<Rightarrow> string \<Rightarrow> string \<Rightarrow> string \<Rightarrow> SourceLimits \<Rightarrow> IgnoreRule list \<Rightarrow> SourceError + IgnoreRule list" where
  "parse_ignore_file u text file base limits rules =
     try_fold (parse_ignore_line u file base limits) rules (enumerate 0 (text_lines text))"

text \<open>Exclusions below another exclusion are dropped; the requested paths come in ascending order.\<close>

fun minimal_exclusions :: "string list \<Rightarrow> string list \<Rightarrow> string list" where
  "minimal_exclusions kept [] = kept"
| "minimal_exclusions kept (d # ds) =
     (if list_ex (\<lambda>ancestor. path_is_within d ancestor) kept then minimal_exclusions kept ds
      else minimal_exclusions (kept @ [d]) ds)"

definition exclusion_step ::
    "unicode \<Rightarrow> nat \<Rightarrow> SourceLimits \<Rightarrow> string set \<times> (string \<rightharpoonup> string) \<times> TraversalBudget \<Rightarrow> string
     \<Rightarrow> SourceError + string set \<times> (string \<rightharpoonup> string) \<times> TraversalBudget" where
  "exclusion_step u usize_max limits s display =
     (case s of (requested, collisions, budget) \<Rightarrow>
      and_then (map_err (NonPortablePath display) (validate_portable_path_str u display False)) (\<lambda>_.
      and_then (check_depth display (max_depth limits)) (\<lambda>_.
      and_then (register_path_components u collisions display) (\<lambda>collisions'.
      and_then (budget_consume usize_max budget (length (split (CHR ''/'') display)) (Some display)) (\<lambda>budget'.
      Ok (insert display requested, collisions', budget'))))))"

definition validate_workspace_exclusions ::
    "unicode \<Rightarrow> nat \<Rightarrow> SourceLimits \<Rightarrow> string list \<Rightarrow> TraversalBudget \<Rightarrow> SourceError + string list \<times> TraversalBudget" where
  "validate_workspace_exclusions u usize_max limits paths budget =
     and_then (try_fold (exclusion_step u usize_max limits) ({}, Map.empty, budget) paths) (\<lambda>(requested, _, budget').
       Ok (minimal_exclusions [] (sorted_list_of_set requested), budget'))"

definition has_unexpected_directory :: "string list \<Rightarrow> SourceManifest \<Rightarrow> bool" where
  "has_unexpected_directory directories m =
     list_ex (\<lambda>d. \<not> list_ex (\<lambda>e. case strip_prefix d (entry_path e) of None \<Rightarrow> False | Some rest \<Rightarrow> prefix ''/'' rest)
       (manifest_entries m)) directories"

section \<open>Portable paths are safe\<close>

lemmas path_limits = MAX_PORTABLE_PATH_BYTES_def MAX_PORTABLE_SEGMENT_BYTES_def

lemma check_segment_ok:
  "is_ok (check_segment u s) \<longleftrightarrow> s \<noteq> [] \<and> s \<noteq> ''.'' \<and> s \<noteq> ''..'' \<and> length s \<le> 255
     \<and> last s \<notin> {CHR ''.'', CHR '' ''} \<and> nfc u s = s \<and> \<not> list_ex forbidden_character (chars s)
     \<and> \<not> is_windows_reserved_name (hd (split (CHR ''.'') s))"
  by (auto simp: check_segment_def MAX_PORTABLE_SEGMENT_BYTES_def)

lemma validate_portable_path_str_ok:
  "is_ok (validate_portable_path_str u path False) \<longleftrightarrow>
     path \<noteq> [] \<and> length path \<le> 4096 \<and> \<not> prefix ''//'' path \<and> \<not> prefix [CHR 0x5C, CHR 0x5C] path
     \<and> \<not> (length path \<ge> 2 \<and> is_ascii_alphabetic (path ! 0) \<and> path ! 1 = CHR '':'')
     \<and> \<not> prefix ''/'' path \<and> CHR 0x5C \<notin> set path
     \<and> (\<forall>s \<in> set (split (CHR ''/'') path). is_ok (check_segment u s))"
  unfolding validate_portable_path_str_def MAX_PORTABLE_PATH_BYTES_def
  by (auto simp: run_checks_ok_iff)

text \<open>
  The components a path walks through, below whatever root it is resolved against: the depth never
  goes below the root.
\<close>

fun resolve :: "string list \<Rightarrow> string list \<Rightarrow> string list option" where
  "resolve here [] = Some here"
| "resolve here (c # cs) =
     (if c = ''..'' then (if here = [] then None else resolve (butlast here) cs)
      else if c = ''.'' \<or> c = [] then resolve here cs
      else resolve (here @ [c]) cs)"

lemma resolve_plain:
  "\<forall>c \<in> set cs. c \<noteq> [] \<and> c \<noteq> ''.'' \<and> c \<noteq> ''..'' \<Longrightarrow> resolve here cs = Some (here @ cs)"
  by (induction cs arbitrary: here) auto

text \<open>
  [portable_path]: an accepted portable path stays below the root it is resolved against, component
  by component: it is relative, has no drive, no backslash, no empty, dot or parent component, no
  trailing dot or space and no reserved device name, and its text is the join of its components.
\<close>

theorem portable_path_stays_below_root:
  assumes "validate_portable_path_str u path False = Ok ()"
  shows "resolve [] (split (CHR ''/'') path) = Some (split (CHR ''/'') path)
    \<and> join ''/'' (split (CHR ''/'') path) = path
    \<and> \<not> prefix ''/'' path \<and> CHR 0x5C \<notin> set path
    \<and> (\<forall>s \<in> set (split (CHR ''/'') path). length s \<le> 255 \<and> last s \<notin> {CHR ''.'', CHR '' ''}
         \<and> \<not> is_windows_reserved_name (hd (split (CHR ''.'') s)))"
proof -
  have "is_ok (validate_portable_path_str u path False)" using assms by simp
  then show ?thesis
    unfolding validate_portable_path_str_ok check_segment_ok
    using resolve_plain [of "split (CHR ''/'') path" "[]"] by auto
qed

definition ascii_unicode :: unicode where
  "ascii_unicode = \<lparr>nfc = (\<lambda>s. s), nfkc = (\<lambda>s. s), str_lowercase = to_ascii_lowercase,
     chars_lowercase = to_ascii_lowercase\<rparr>"

theorem portable_path_stays_below_root_witness:
  "resolve [] (split (CHR ''/'') ''src/lib.rs'') = Some [''src'', ''lib.rs'']"
proof -
  have "\<not> is_windows_reserved_name ''src''" "\<not> is_windows_reserved_name ''lib''" by code_simp+
  then have "validate_portable_path_str ascii_unicode ''src/lib.rs'' False = Ok ()"
    by (simp add: validate_portable_path_str_def check_segment_def ascii_unicode_def path_limits
        forbidden_character_def is_control_def is_unsafe_unicode_format_def)
  from portable_path_stays_below_root [OF this] show ?thesis by simp
qed

section \<open>Sensitive paths\<close>

text \<open>
  [sensitive_path]: no accepted path leads through a sensitive directory or names a sensitive file, in
  whatever ASCII case it is spelled, provided the lower-case mapping agrees with ASCII on ASCII text.
\<close>

theorem sensitive_components_are_rejected:
  assumes "\<forall>s. is_ascii s \<longrightarrow> str_lowercase u s = to_ascii_lowercase s"
    and "c \<in> set (split (CHR ''/'') path)" "is_ascii c"
    and "to_ascii_lowercase c \<in> set SENSITIVE_DIRECTORIES"
  shows "reject_sensitive u path = Err (SensitivePath path)"
proof -
  let ?cs = "split (CHR ''/'') path"
  have low: "str_lowercase u c \<in> set SENSITIVE_DIRECTORIES" using assms by simp
  have "c \<in> set (butlast ?cs) \<or> c = last ?cs"
    using assms(2) append_butlast_last_id [of ?cs] by (metis Un_iff empty_iff empty_set set_ConsD set_append split_by_nonempty)
  then have "is_sensitive_path u path"
    using low by (auto simp: is_sensitive_path_def Let_def list_ex_iff)
  then show ?thesis by (simp add: reject_sensitive_def)
qed

theorem sensitive_components_are_rejected_witness:
  "reject_sensitive ascii_unicode ''app/.SSH/config'' = Err (SensitivePath ''app/.SSH/config'')"
proof (rule sensitive_components_are_rejected)
  show "\<forall>s. is_ascii s \<longrightarrow> str_lowercase ascii_unicode s = to_ascii_lowercase s"
    by (simp add: ascii_unicode_def)
  show "''.SSH'' \<in> set (split (CHR ''/'') ''app/.SSH/config'')" by simp
  show "is_ascii ''.SSH''" by code_simp
  show "to_ascii_lowercase ''.SSH'' \<in> set SENSITIVE_DIRECTORIES" by code_simp
qed

section \<open>Path prefixes\<close>

lemma path_prefixes_Nil_iff [simp]: "path_prefixes pre cs = [] \<longleftrightarrow> cs = []"
  by (cases cs) (auto simp: Let_def)

lemma path_prefixes_append:
  "path_prefixes pre (xs @ ys) = path_prefixes pre xs @ path_prefixes (last (pre # path_prefixes pre xs)) ys"
  by (induction pre xs rule: path_prefixes.induct) (auto simp: Let_def)

lemma path_prefixes_nonempty_start:
  "pre \<noteq> [] \<Longrightarrow> cs \<noteq> [] \<Longrightarrow> last (path_prefixes pre cs) = pre @ ''/'' @ join ''/'' cs"
proof (induction cs arbitrary: pre)
  case (Cons c cs)
  show ?case
  proof (cases "cs = []")
    case False
    have "last (path_prefixes pre (c # cs)) = last (path_prefixes (pre @ ''/'' @ c) cs)"
      using Cons.prems False by (simp add: Let_def)
    also have "\<dots> = (pre @ ''/'' @ c) @ ''/'' @ join ''/'' cs"
      using False by (intro Cons.IH) auto
    finally show ?thesis using False by (simp add: join_Cons)
  qed (use Cons.prems in \<open>simp add: Let_def\<close>)
qed simp

lemma path_prefixes_last:
  assumes "cs \<noteq> []" "[] \<notin> set cs"
  shows "last (path_prefixes [] cs) = join ''/'' cs"
proof -
  obtain c ds where cs: "cs = c # ds" using assms(1) by (cases cs) auto
  show ?thesis
  proof (cases "ds = []")
    case False
    have "c \<noteq> []" using assms(2) cs by auto
    with path_prefixes_nonempty_start [of c ds] False cs show ?thesis
      by (simp add: Let_def join_Cons)
  qed (use cs in simp)
qed

text \<open>A path below another one has it among the prefixes its components build up.\<close>

lemma strict_ancestor_is_prefix:
  assumes "path = root @ ''/'' @ rest" "[] \<notin> set (split (CHR ''/'') path)"
  shows "root \<in> set (path_prefixes [] (butlast (split (CHR ''/'') path)))"
proof -
  have cs: "split (CHR ''/'') path = split (CHR ''/'') root @ split (CHR ''/'') rest"
    using assms(1) split_append_sep [of "\<lambda>x. x = CHR ''/''" root "CHR ''/''" rest] by simp
  then have "butlast (split (CHR ''/'') path) = split (CHR ''/'') root @ butlast (split (CHR ''/'') rest)"
    by (simp add: butlast_append)
  moreover have "last (path_prefixes [] (split (CHR ''/'') root)) = root"
    using path_prefixes_last [of "split (CHR ''/'') root"] assms(2) cs by auto
  ultimately show ?thesis
    by (metis Un_iff last_in_set path_prefixes_Nil_iff path_prefixes_append set_append split_by_nonempty)
qed

lemma path_in_own_prefixes:
  assumes "[] \<notin> set (split (CHR ''/'') path)"
  shows "path \<in> set (path_prefixes [] (split (CHR ''/'') path))"
  using path_prefixes_last [OF _ assms] by (metis join_split last_in_set path_prefixes_Nil_iff split_by_nonempty)

lemma has_file_ancestor_iff:
  "has_file_ancestor path files \<longleftrightarrow>
     (\<exists>p \<in> set (path_prefixes [] (butlast (split (CHR ''/'') path))). p \<in> files)"
  by (simp add: has_file_ancestor_def Let_def list_ex_iff butlast_conv_take)

lemma path_is_within_iff:
  "path_is_within path root \<longleftrightarrow> path = root \<or> (\<exists>rest. path = root @ ''/'' @ rest)"
  by (auto simp: path_is_within_def strip_prefix_def prefix_def)

lemma prefix_less_append: "y \<noteq> [] \<Longrightarrow> x < x @ (y :: string)"
  by (cases y) (auto simp: list_less_def intro: lexord_append_rightI)

lemma path_within_le: "path_is_within p root \<Longrightarrow> root \<le> p"
  unfolding path_is_within_iff using prefix_less_append less_imp_le by fastforce

lemma length_split_by_le: "length (split_by p s) \<le> Suc (length s)"
  by (induction s) (auto split: list.splits)

section \<open>Collision keys\<close>

lemma register_collision_key_ok:
  "register_collision_key u c p = Ok c' \<Longrightarrow> c \<subseteq>\<^sub>m c' \<and> c' (collision_key u p) = Some p"
  by (auto simp: register_collision_key_def Let_def map_le_def split: option.splits if_splits)

lemma register_keys_ok:
  "try_fold (register_collision_key u) c ps = Ok c' \<Longrightarrow>
   c \<subseteq>\<^sub>m c' \<and> (\<forall>p \<in> set ps. c' (collision_key u p) = Some p)"
proof (induction ps arbitrary: c)
  case (Cons p ps)
  then obtain c1 where c1: "register_collision_key u c p = Ok c1"
    and rest: "try_fold (register_collision_key u) c1 ps = Ok c'"
    by (cases "register_collision_key u c p") auto
  from register_collision_key_ok [OF c1] Cons.IH [OF rest] show ?case
    by (auto intro: map_le_trans simp: map_le_def dom_def)
qed simp

section \<open>The walk over the entries\<close>

text \<open>The traversal total is a saturating sum; below the limit it is the exact one.\<close>

lemma consume_manifest_traversal_ok:
  assumes "consume_manifest_traversal t path = Ok t'" "length (split (CHR ''/'') path) < 2 ^ 64"
  shows "unat t' = unat t + length (split (CHR ''/'') path) \<and> unat t' \<le> 100000"
proof -
  have t': "t' = saturating_add t (of_nat (length (split (CHR ''/'') path)))" and le: "t' \<le> 100000"
    using assms(1) by (auto simp: consume_manifest_traversal_def Let_def MAX_SOURCE_TRAVERSAL_ENTRIES_def not_less
        split: if_splits)
  have "\<not> (- 1 :: u64) \<le> 100000" by code_simp
  with le have "t' \<noteq> - 1" by auto
  then have "checked_add t (of_nat (length (split (CHR ''/'') path))) = Some t'"
    using t' by (auto simp: saturating_add_def split: option.splits)
  then have "unat t' = unat t + unat (of_nat (length (split (CHR ''/'') path)) :: u64)"
    by (rule checked_add_Some)
  with assms(2) le show ?thesis by (simp add: unat_of_nat word_le_nat_alt)
qed

lemma walk_entry_ok:
  assumes "walk_entry u limits project w e = Ok w'"
  shows "is_ok (validate_portable_path_str u (entry_path e) False)"
    and "\<not> is_sensitive_path u (entry_path e)"
    and "length (split (CHR ''/'') (entry_path e)) \<le> max_depth limits"
    and "register_path_components u (walk_collisions w) (entry_path e) = Ok (walk_collisions w')"
    and "entry_path e \<noteq> project"
    and "\<not> has_file_ancestor (entry_path e) (walk_file_paths w)"
    and "\<forall>p. walk_previous w = Some p \<longrightarrow> p < entry_path e"
    and "entry_size e \<le> max_file_size limits"
    and "is_ok (validate_sha256 (entry_sha256 e))"
    and "checked_add (walk_total w) (entry_size e) = Some (walk_total w')"
    and "walk_total w' \<le> max_total_size limits"
    and "walk_previous w' = Some (entry_path e)"
    and "walk_file_paths w' = insert (entry_path e) (walk_file_paths w)"
    and "consume_manifest_traversal (walk_traversal w) (entry_path e) = Ok (walk_traversal w')"
  using assms unfolding walk_entry_def Let_def and_then_Inr_iff
  by (auto simp: is_ok_conv and_then_Inr_iff reject_sensitive_def check_depth_def Let_def not_less
      split: if_splits option.splits)

definition entry_ok :: "unicode \<Rightarrow> SourceLimits \<Rightarrow> string \<Rightarrow> SourceManifestEntry \<Rightarrow> bool" where
  "entry_ok u limits project e \<longleftrightarrow>
     is_ok (validate_portable_path_str u (entry_path e) False) \<and> \<not> is_sensitive_path u (entry_path e)
     \<and> length (split (CHR ''/'') (entry_path e)) \<le> max_depth limits \<and> entry_path e \<noteq> project
     \<and> entry_size e \<le> max_file_size limits \<and> is_ok (validate_sha256 (entry_sha256 e))"

definition all_prefixes :: "SourceManifestEntry list \<Rightarrow> string set" where
  "all_prefixes es = (\<Union>e \<in> set es. set (path_prefixes [] (split (CHR ''/'') (entry_path e))))"

definition walk_inv ::
    "unicode \<Rightarrow> SourceLimits \<Rightarrow> string \<Rightarrow> SourceManifestEntry list \<Rightarrow> walk \<Rightarrow> bool" where
  "walk_inv u limits project es w \<longleftrightarrow>
     walk_file_paths w = entry_path ` set es
     \<and> walk_previous w = (if es = [] then None else Some (entry_path (last es)))
     \<and> sorted_wrt (<) (map entry_path es)
     \<and> (\<forall>e \<in> set es. entry_ok u limits project e)
     \<and> unat (walk_total w) = sum_list (map (\<lambda>e. unat (entry_size e)) es)
     \<and> (es = [] \<or> walk_total w \<le> max_total_size limits)
     \<and> unat (walk_traversal w) = sum_list (map (\<lambda>e. length (split (CHR ''/'') (entry_path e))) es)
     \<and> unat (walk_traversal w) \<le> 100000
     \<and> (\<forall>p \<in> all_prefixes es. walk_collisions w (collision_key u p) = Some p)
     \<and> (\<forall>a \<in> set es. \<forall>b \<in> set es. path_is_within (entry_path a) (entry_path b) \<longrightarrow> a = b)"

lemma walk_inv_start: "walk_inv u limits project [] walk_start"
  by (simp add: walk_inv_def walk_start_def all_prefixes_def)

lemma portable_components: "is_ok (validate_portable_path_str u p False) \<Longrightarrow> [] \<notin> set (split (CHR ''/'') p)"
  unfolding validate_portable_path_str_ok check_segment_ok by blast

lemma portable_length: "is_ok (validate_portable_path_str u p False) \<Longrightarrow> length p \<le> 4096"
  unfolding validate_portable_path_str_ok by blast

lemma portable_path_traversal: "is_ok (validate_portable_path_str u p False) \<Longrightarrow> length (split (CHR ''/'') p) < 2 ^ 64"
  using portable_length [of u p] length_split_by_le [of "\<lambda>x. x = CHR ''/''" p] by simp

lemma walk_sorted_step:
  assumes "walk_inv u limits project es w" "walk_entry u limits project w e = Ok w'"
  shows "\<forall>d \<in> set es. entry_path d < entry_path e"
proof
  fix d assume d: "d \<in> set es"
  then have "entry_path d \<le> entry_path (last es)"
  proof -
    obtain pre l where es: "es = pre @ [l]" using d by (metis emptyE empty_set rev_exhaust)
    then have "\<forall>x \<in> set pre. entry_path x < entry_path l"
      using assms(1) by (auto simp: walk_inv_def sorted_wrt_append)
    with d es show ?thesis by (auto simp: less_imp_le)
  qed
  moreover have "entry_path (last es) < entry_path e"
    using assms(1) d walk_entry_ok(7) [OF assms(2)] by (auto simp: walk_inv_def split: if_splits)
  ultimately show "entry_path d < entry_path e" by (rule le_less_trans)
qed

lemma walk_prefix_free_step:
  assumes inv: "walk_inv u limits project es w" and step: "walk_entry u limits project w e = Ok w'"
    and d: "d \<in> set es"
  shows "\<not> path_is_within (entry_path e) (entry_path d) \<and> \<not> path_is_within (entry_path d) (entry_path e)"
proof -
  have less: "entry_path d < entry_path e" using walk_sorted_step [OF inv step] d by blast
  have "\<not> (\<exists>rest. entry_path e = entry_path d @ ''/'' @ rest)"
  proof
    assume "\<exists>rest. entry_path e = entry_path d @ ''/'' @ rest"
    then have "entry_path d \<in> set (path_prefixes [] (butlast (split (CHR ''/'') (entry_path e))))"
      using strict_ancestor_is_prefix portable_components [OF walk_entry_ok(1) [OF step]] by blast
    then have "has_file_ancestor (entry_path e) (walk_file_paths w)"
      using inv d by (auto simp: has_file_ancestor_iff walk_inv_def)
    then show False using walk_entry_ok(6) [OF step] by blast
  qed
  moreover have "\<not> path_is_within (entry_path d) (entry_path e)"
    using less path_within_le [of "entry_path d" "entry_path e"] by auto
  ultimately show ?thesis using less by (auto simp: path_is_within_iff)
qed

lemma walk_inv_step:
  assumes inv: "walk_inv u limits project es w" and step: "walk_entry u limits project w e = Ok w'"
  shows "walk_inv u limits project (es @ [e]) w'"
proof -
  note ok = walk_entry_ok [OF step]
  have sum: "unat (walk_total w') = unat (walk_total w) + unat (entry_size e)"
    using checked_add_Some [OF ok(10)] .
  have keys: "walk_collisions w \<subseteq>\<^sub>m walk_collisions w'"
    "\<forall>p \<in> set (path_prefixes [] (split (CHR ''/'') (entry_path e))). walk_collisions w' (collision_key u p) = Some p"
    using register_keys_ok ok(4) by (auto simp: register_path_components_def)
  have old: "walk_collisions w' (collision_key u p) = Some p" if "p \<in> all_prefixes es" for p
    using inv keys(1) that by (auto simp: walk_inv_def map_le_def dom_def)
  have "entry_ok u limits project e" using ok by (auto simp: entry_ok_def)
  moreover have "sorted_wrt (<) (map entry_path (es @ [e]))"
    using inv walk_sorted_step [OF inv step] by (auto simp: walk_inv_def sorted_wrt_append)
  moreover have "\<forall>p \<in> all_prefixes (es @ [e]). walk_collisions w' (collision_key u p) = Some p"
    using old keys(2) by (auto simp: all_prefixes_def)
  moreover have "\<forall>a \<in> set (es @ [e]). \<forall>b \<in> set (es @ [e]).
      path_is_within (entry_path a) (entry_path b) \<longrightarrow> a = b"
    using inv walk_prefix_free_step [OF inv step] by (auto simp: walk_inv_def)
  moreover have "unat (walk_traversal w') = unat (walk_traversal w) + length (split (CHR ''/'') (entry_path e))
      \<and> unat (walk_traversal w') \<le> 100000"
    using consume_manifest_traversal_ok [OF ok(14) portable_path_traversal [OF ok(1)]] .
  ultimately show ?thesis
    using inv ok sum unfolding walk_inv_def by simp
qed

lemma walk_inv_run:
  assumes "try_fold (walk_entry u limits project) walk_start es = Ok w"
  shows "walk_inv u limits project es w"
  using assms walk_inv_start by (rule try_fold_invariant) (rule walk_inv_step)

lemma validate_source_manifest_ok:
  assumes "validate_source_manifest u sha256 m limits = Ok ()"
  obtains w where "try_fold (walk_entry u limits (project_path m)) walk_start (manifest_entries m) = Ok w"
    and "walk_total w = manifest_total_size m"
    and "length (manifest_entries m) \<le> max_file_count limits"
    and "manifest_schema_version m = MANIFEST_SCHEMA_VERSION"
    and "is_ok (validate_portable_path_str u (project_path m) True)"
    and "manifest_digest sha256 (project_path m) (manifest_entries m) (manifest_total_size m) = manifest_sha256 m"
  using assms unfolding validate_source_manifest_def and_then_Inr_iff
  by (auto simp: and_then_Inr_iff is_ok_conv not_less split: if_splits)

text \<open>
  C7 [manifest_tree]: the entries of an accepted manifest form a file tree that is the same on every
  file system: the paths are strictly sorted, so distinct; none of them lies below another, so no file
  is used as a directory; no two paths or directories leading to them are confused by case or
  normalization, whatever the Unicode tables say; and every path is portable: relative, at most 4096
  bytes, with neither a drive prefix nor a backslash, each of its segments at most 255 bytes, neither
  empty nor a dot segment, ending in neither a dot nor a space, normalized, free of control characters,
  of the characters Windows forbids and of invisible formatting, and not the name of a Windows device.
\<close>

theorem accepted_manifest_is_a_tree:
  assumes "validate_source_manifest u sha256 m limits = Ok ()"
  shows "sorted_wrt (<) (map entry_path (manifest_entries m))
    \<and> (\<forall>a \<in> set (manifest_entries m). \<forall>b \<in> set (manifest_entries m).
         path_is_within (entry_path a) (entry_path b) \<longrightarrow> a = b)
    \<and> inj_on (collision_key u) (all_prefixes (manifest_entries m))
    \<and> (\<forall>e \<in> set (manifest_entries m).
         length (entry_path e) \<le> 4096 \<and> \<not> prefix ''/'' (entry_path e) \<and> CHR 0x5C \<notin> set (entry_path e)
         \<and> \<not> (2 \<le> length (entry_path e) \<and> is_ascii_alphabetic (entry_path e ! 0) \<and> entry_path e ! 1 = CHR '':'')
         \<and> (\<forall>s \<in> set (split (CHR ''/'') (entry_path e)).
              s \<notin> {[], ''.'', ''..''} \<and> length s \<le> 255 \<and> last s \<notin> {CHR ''.'', CHR '' ''} \<and> nfc u s = s
              \<and> \<not> list_ex forbidden_character (chars s) \<and> \<not> is_windows_reserved_name (hd (split (CHR ''.'') s))))"
proof -
  obtain w where "try_fold (walk_entry u limits (project_path m)) walk_start (manifest_entries m) = Ok w"
    using validate_source_manifest_ok [OF assms] by blast
  note run = walk_inv_run [OF this]
  then have "\<forall>e \<in> set (manifest_entries m). is_ok (validate_portable_path_str u (entry_path e) False)"
    by (simp add: walk_inv_def entry_ok_def)
  moreover have "inj_on (collision_key u) (all_prefixes (manifest_entries m))"
    using run unfolding walk_inv_def inj_on_def by (metis option.inject)
  ultimately show ?thesis
    using run unfolding walk_inv_def validate_portable_path_str_ok check_segment_ok by simp
qed

text \<open>
  C34 [manifest_bounds]: an accepted manifest respects its limits: the file count, the depth and size of
  every file, the total, which is the exact sum of the sizes, computed without wrap-around, and the
  traversal count, which is the exact number of path components of all entries and at most one hundred
  thousand; every path is portable and not sensitive.
\<close>

theorem accepted_manifest_respects_limits:
  assumes "validate_source_manifest u sha256 m limits = Ok ()"
  shows "length (manifest_entries m) \<le> max_file_count limits
    \<and> unat (manifest_total_size m) = sum_list (map (\<lambda>e. unat (entry_size e)) (manifest_entries m))
    \<and> unat (manifest_total_size m) \<le> unat (max_total_size limits)
    \<and> sum_list (map (\<lambda>e. length (split (CHR ''/'') (entry_path e))) (manifest_entries m)) \<le> 100000
    \<and> (\<forall>e \<in> set (manifest_entries m). entry_size e \<le> max_file_size limits
         \<and> length (split (CHR ''/'') (entry_path e)) \<le> max_depth limits
         \<and> validate_portable_path_str u (entry_path e) False = Ok ()
         \<and> \<not> is_sensitive_path u (entry_path e))"
proof -
  obtain w where w: "try_fold (walk_entry u limits (project_path m)) walk_start (manifest_entries m) = Ok w"
    "walk_total w = manifest_total_size m" "length (manifest_entries m) \<le> max_file_count limits"
    using validate_source_manifest_ok [OF assms] by blast
  note inv = walk_inv_run [OF w(1), unfolded walk_inv_def w(2)]
  then have "unat (manifest_total_size m) \<le> unat (max_total_size limits)"
    by (auto simp: word_le_nat_alt)
  with inv w(3) show ?thesis by (auto simp: entry_ok_def is_ok_unit)
qed

lemma hex_digest_eq: "hex_digest bs = hex_encode bs"
proof -
  have digit: "''0123456789abcdef'' ! n = hex_digit n" if "n < 16" for n
  proof -
    have "\<forall>k \<in> {..<16}. ''0123456789abcdef'' ! k = hex_digit k" by code_simp
    with that show ?thesis by simp
  qed
  have "byte b div 16 < 16" for b by (rule less_mult_imp_div_less) simp
  with digit show ?thesis by (simp add: hex_digest_def hex_encode_def)
qed

lemma manifest_digest_valid: "\<forall>b. length (sha256 b) = 32 \<Longrightarrow> is_ok (validate_sha256 (manifest_digest sha256 p es t))"
  using hex_encode_lower
  by (simp add: validate_sha256_def manifest_digest_def hex_digest_eq list_all_iff)

lemma sum_list_words: "sum_list (map f xs) = (of_nat (sum_list (map (\<lambda>x. unat (f x)) xs)) :: u64)"
  by (induction xs) simp_all

lemma walk_total_sum: "walk_inv u limits project es w \<Longrightarrow> walk_total w = sum_list (map entry_size es)"
  unfolding sum_list_words walk_inv_def by (metis of_nat_unat ucast_id)

lemma built_manifest_ok:
  assumes "\<forall>b. length (sha256 b) = 32"
    and "is_ok (validate_portable_path_str u project True)"
    and "project = ''.'' \<or> \<not> is_sensitive_path u project"
    and "max_depth limits \<le> 256" "length es \<le> max_file_count limits"
    and "is_ok (try_fold (walk_entry u limits project) walk_start es)"
  shows "validate_source_manifest u sha256 (build_manifest sha256 project es) limits = Ok ()"
proof -
  obtain w where w: "try_fold (walk_entry u limits project) walk_start es = Ok w"
    using assms(6) by (auto simp: is_ok_conv)
  have "walk_total w = sum_list (map entry_size es)"
    using walk_total_sum [OF walk_inv_run [OF w]] .
  moreover have "check_supported_depth limits = Ok ()"
    using assms(4) by (simp add: check_supported_depth_def MAX_SUPPORTED_DEPTH_def)
  moreover have "(if project \<noteq> ''.'' then reject_sensitive u project else Ok ()) = Ok ()"
    using assms(3) by (auto simp: reject_sensitive_def)
  ultimately show ?thesis
    using assms(2,5) w manifest_digest_valid [OF assms(1)]
    by (auto simp: validate_source_manifest_def build_manifest_def Let_def is_ok_unit)
qed

definition zero_digest :: "bytes \<Rightarrow> bytes" where
  "zero_digest b = replicate 32 (CHR 0x00)"

definition example_entries :: "SourceManifestEntry list" where
  "example_entries = [\<lparr>entry_path = ''a/b.rs'', entry_size = 3, entry_sha256 = replicate 64 (CHR ''0''), entry_executable = False\<rparr>]"

lemma example_walk_within:
  assumes "2 \<le> max_depth l" "3 \<le> max_file_size l" "3 \<le> max_total_size l"
  shows "is_ok (try_fold (walk_entry ascii_unicode l ''.'') walk_start example_entries)"
proof -
  have "\<not> is_windows_reserved_name ''a''" "\<not> is_windows_reserved_name ''b''"
    "\<not> is_sensitive_path ascii_unicode ''a/b.rs''" by code_simp+
  with assms show ?thesis
    by (simp add: example_entries_def walk_entry_def walk_start_def validate_portable_path_str_def check_segment_def
        path_limits forbidden_character_def is_control_def is_unsafe_unicode_format_def
        reject_sensitive_def check_depth_def consume_manifest_traversal_def
        saturating_add_def checked_add_def MAX_SOURCE_TRAVERSAL_ENTRIES_def register_path_components_def
        register_collision_key_def collision_key_def ascii_unicode_def has_file_ancestor_def Let_def
        validate_sha256_def list_all_iff is_lower_hex_def is_ascii_digit_def to_ascii_lowercase_def
        to_ascii_lower_def is_ascii_uppercase_def not_less)
qed

lemma example_walk: "is_ok (try_fold (walk_entry ascii_unicode SourceLimits_default ''.'') walk_start example_entries)"
  by (rule example_walk_within) (simp_all add: SourceLimits_default_def)

lemma example_manifest_within:
  assumes "2 \<le> max_depth l" "max_depth l \<le> 256" "1 \<le> max_file_count l" "3 \<le> max_file_size l" "3 \<le> max_total_size l"
  shows "validate_source_manifest ascii_unicode zero_digest (build_manifest zero_digest ''.'' example_entries) l = Ok ()"
  using assms example_walk_within [of l]
  by (intro built_manifest_ok) (simp_all add: zero_digest_def validate_portable_path_str_def example_entries_def)

lemma example_manifest_valid:
  "validate_source_manifest ascii_unicode zero_digest (build_manifest zero_digest ''.'' example_entries)
     SourceLimits_default = Ok ()"
  by (rule example_manifest_within) (simp_all add: SourceLimits_default_def)

theorem accepted_manifest_is_a_tree_witness:
  "inj_on (collision_key ascii_unicode) (all_prefixes (manifest_entries (build_manifest zero_digest ''.'' example_entries)))"
  using accepted_manifest_is_a_tree [OF example_manifest_valid] by blast

theorem accepted_manifest_respects_limits_witness:
  "length (manifest_entries (build_manifest zero_digest ''.'' example_entries)) \<le> max_file_count SourceLimits_default"
  using accepted_manifest_respects_limits [OF example_manifest_valid] by blast

section \<open>The manifest digest input is unambiguous\<close>

interpretation digest_string: self_delimiting digest_string "\<lambda>s. length s < 2 ^ 64"
proof unfold_locales
  fix x y r s
  assume "length x < 2 ^ 64" "length y < 2 ^ 64" "digest_string x @ r = digest_string y @ s"
  then show "x = y \<and> r = s"
    using length_prefix_cancel [of x 8 y r s] by (simp add: digest_string_def)
qed

definition entry_encodable :: "SourceManifestEntry \<Rightarrow> bool" where
  "entry_encodable e \<longleftrightarrow> length (entry_path e) < 2 ^ 64 \<and> length (entry_sha256 e) < 2 ^ 64"

lemma be_bytes_u64_cancel: "be_bytes 8 (unat (a :: u64)) @ r = be_bytes 8 (unat b) @ s \<Longrightarrow> a = b \<and> r = s"
  using be_bytes_cancel [of "unat a" 8 "unat b" r s] unsigned_less [of a, where ?'a = nat]
    unsigned_less [of b, where ?'a = nat] by (simp add: word_unat_eq_iff)

interpretation digest_entry: self_delimiting digest_entry entry_encodable
proof unfold_locales
  fix x y :: SourceManifestEntry and r s
  assume wf: "entry_encodable x" "entry_encodable y" and eq: "digest_entry x @ r = digest_entry y @ s"
  let ?flag = "\<lambda>e. if entry_executable e then CHR 0x01 else CHR 0x00"
  have "entry_path x = entry_path y \<and>
      be_bytes 8 (unat (entry_size x)) @ digest_string (entry_sha256 x) @ ?flag x # r
    = be_bytes 8 (unat (entry_size y)) @ digest_string (entry_sha256 y) @ ?flag y # s"
    using wf eq by (intro digest_string.cancel) (simp_all add: entry_encodable_def digest_entry_def)
  then have path: "entry_path x = entry_path y" and rest: "be_bytes 8 (unat (entry_size x)) @ digest_string (entry_sha256 x) @ ?flag x # r
    = be_bytes 8 (unat (entry_size y)) @ digest_string (entry_sha256 y) @ ?flag y # s" by blast+
  from be_bytes_u64_cancel [OF rest] have size: "entry_size x = entry_size y"
    and rest: "digest_string (entry_sha256 x) @ ?flag x # r = digest_string (entry_sha256 y) @ ?flag y # s" by blast+
  have "entry_sha256 x = entry_sha256 y \<and> ?flag x # r = ?flag y # s"
    using wf rest by (intro digest_string.cancel) (simp_all add: entry_encodable_def)
  with path size show "x = y \<and> r = s" by (auto split: if_splits)
qed

lemma manifest_preimage_inject:
  assumes "manifest_preimage p es t = manifest_preimage p' es' t'"
    and "length p < 2 ^ 64" "length p' < 2 ^ 64" "length es < 2 ^ 64" "length es' < 2 ^ 64"
    and "\<forall>e \<in> set es. entry_encodable e" "\<forall>e \<in> set es'. entry_encodable e"
  shows "p = p' \<and> es = es' \<and> t = t'"
proof -
  let ?tail = "\<lambda>es t. be_bytes 8 (length es mod 2 ^ 64) @ concat (map digest_entry es) @ be_bytes 8 (unat (t :: u64))"
  have "p = p' \<and> ?tail es t = ?tail es' t'"
    using assms by (intro digest_string.cancel) (simp_all add: manifest_preimage_def)
  then have p: "p = p'" and "be_bytes 8 (length es) @ concat (map digest_entry es) @ be_bytes 8 (unat t)
      = be_bytes 8 (length es') @ concat (map digest_entry es') @ be_bytes 8 (unat t')"
    using assms(4,5) by simp_all
  then have len: "length es = length es'"
    and "concat (map digest_entry es) @ be_bytes 8 (unat t) = concat (map digest_entry es') @ be_bytes 8 (unat t')"
    using be_bytes_cancel [of "length es" 8 "length es'"] assms(4,5) by simp_all
  then have "es = es' \<and> be_bytes 8 (unat t) = be_bytes 8 (unat t')"
    using assms(6,7) by (intro digest_entry.cancel_list) auto
  with p show ?thesis using be_bytes_u64_cancel [of t "[]" t' "[]"] by simp
qed

lemma accepted_manifest_encodable:
  assumes "validate_source_manifest u sha256 m limits = Ok ()"
  shows "length (project_path m) < 2 ^ 64" "length (manifest_entries m) < 2 ^ 64"
    and "\<forall>e \<in> set (manifest_entries m). entry_encodable e"
proof -
  obtain w where w: "try_fold (walk_entry u limits (project_path m)) walk_start (manifest_entries m) = Ok w"
    and project: "is_ok (validate_portable_path_str u (project_path m) True)"
    using validate_source_manifest_ok [OF assms] by blast
  note run = walk_inv_run [OF w]
  from project show "length (project_path m) < 2 ^ 64"
    using portable_length [of u "project_path m"] by (force simp: validate_portable_path_str_def split: if_splits)
  have "length es \<le> sum_list (map (\<lambda>e. length (split (CHR ''/'') (entry_path e))) es)" for es
  proof (induction es)
    case (Cons e es)
    have "0 < length (split (CHR ''/'') (entry_path e))" by simp
    with Cons show ?case by (simp del: length_greater_0_conv)
  qed simp
  from this [of "manifest_entries m"] have "length (manifest_entries m) \<le> 100000"
    using run unfolding walk_inv_def by linarith
  then show "length (manifest_entries m) < 2 ^ 64" by simp
  have "entry_encodable e" if "entry_ok u limits (project_path m) e" for e
  proof -
    have "length (entry_path e) \<le> 4096" using that portable_length unfolding entry_ok_def by blast
    moreover have "length (entry_sha256 e) = 64"
      using that by (auto simp: entry_ok_def validate_sha256_def split: if_splits)
    ultimately show ?thesis by (simp add: entry_encodable_def)
  qed
  then show "\<forall>e \<in> set (manifest_entries m). entry_encodable e" using run unfolding walk_inv_def by blast
qed

text \<open>
  C35 [manifest_digest]: the digest of an accepted manifest determines the manifest: two accepted manifests
  have the same digest exactly when they are equal in every field, the path, size, content digest and
  executable bit of each entry in their order included, unless the digest inputs of these two manifests
  differ and collide. The digest inputs are those of the code, and nothing is assumed of SHA-256.
\<close>

theorem accepted_manifest_digest_is_binding:
  assumes "validate_source_manifest u sha256 m limits = Ok ()" "validate_source_manifest u sha256 m' limits' = Ok ()"
  shows "manifest_sha256 m = manifest_sha256 m' \<longleftrightarrow>
    m = m' \<or> (manifest_preimage (project_path m) (manifest_entries m) (manifest_total_size m)
        \<noteq> manifest_preimage (project_path m') (manifest_entries m') (manifest_total_size m')
      \<and> sha256 (manifest_preimage (project_path m) (manifest_entries m) (manifest_total_size m))
        = sha256 (manifest_preimage (project_path m') (manifest_entries m') (manifest_total_size m')))"
proof -
  let ?pre = "\<lambda>m. manifest_preimage (project_path m) (manifest_entries m) (manifest_total_size m)"
  have digest: "manifest_sha256 m = hex_encode (sha256 (?pre m))" "manifest_schema_version m = MANIFEST_SCHEMA_VERSION"
    if "validate_source_manifest u sha256 m limits = Ok ()" for m limits
    using validate_source_manifest_ok [OF that] by (metis manifest_digest_def hex_digest_eq)+
  have "m = m'" if "?pre m = ?pre m'"
    using manifest_preimage_inject [OF that] accepted_manifest_encodable [OF assms(1)]
      accepted_manifest_encodable [OF assms(2)] digest [OF assms(1)] digest [OF assms(2)] that
    by (intro SourceManifest.equality) auto
  moreover have "manifest_sha256 m = manifest_sha256 m' \<longleftrightarrow> sha256 (?pre m) = sha256 (?pre m')"
    using digest(1) [OF assms(1)] digest(1) [OF assms(2)] hex_encode_inject by metis
  ultimately show ?thesis by blast
qed

text \<open>The witness digests with the byte before the total size; the two manifests differ in one executable bit.\<close>

definition tail_digest :: "bytes \<Rightarrow> bytes" where
  "tail_digest b = replicate 31 (CHR 0x00) @ [hd (drop 8 (rev b) @ [CHR 0x00])]"

definition executable_entries :: "SourceManifestEntry list" where
  "executable_entries = map (entry_executable_update (\<lambda>_. True)) example_entries"

lemma executable_walk:
  "is_ok (try_fold (walk_entry ascii_unicode SourceLimits_default ''.'') walk_start executable_entries)"
proof -
  have "walk_entry u l p w (entry_executable_update f e) = walk_entry u l p w e" for u l p w f e
    by (simp add: walk_entry_def cong: if_cong option.case_cong)
  then have "try_fold (walk_entry u l p) w (map (entry_executable_update f) es) = try_fold (walk_entry u l p) w es"
    for u l p w f es by (induction es arbitrary: w) (simp_all split: sum.split)
  then show ?thesis using example_walk by (simp add: executable_entries_def)
qed

lemma tail_manifest_valid:
  assumes "is_ok (try_fold (walk_entry ascii_unicode SourceLimits_default ''.'') walk_start [e])"
  shows "validate_source_manifest ascii_unicode tail_digest (build_manifest tail_digest ''.'' [e])
    SourceLimits_default = Ok ()"
  using assms by (intro built_manifest_ok)
    (simp_all add: tail_digest_def validate_portable_path_str_def SourceLimits_default_def)

theorem accepted_manifest_digest_is_binding_witness:
  "manifest_sha256 (build_manifest tail_digest ''.'' example_entries)
     \<noteq> manifest_sha256 (build_manifest tail_digest ''.'' executable_entries)"
proof -
  have "validate_source_manifest ascii_unicode tail_digest (build_manifest tail_digest ''.'' example_entries)
      SourceLimits_default = Ok ()"
    using tail_manifest_valid example_walk by (simp add: example_entries_def)
  moreover have "validate_source_manifest ascii_unicode tail_digest (build_manifest tail_digest ''.'' executable_entries)
      SourceLimits_default = Ok ()"
    using tail_manifest_valid executable_walk by (simp add: executable_entries_def example_entries_def)
  moreover have "tail_digest (manifest_preimage ''.'' example_entries 3) \<noteq> tail_digest (manifest_preimage ''.'' executable_entries 3)"
    by (simp add: tail_digest_def manifest_preimage_def digest_entry_def example_entries_def executable_entries_def)
  ultimately show ?thesis
    using accepted_manifest_digest_is_binding
      [of ascii_unicode tail_digest "build_manifest tail_digest ''.'' example_entries" SourceLimits_default
        "build_manifest tail_digest ''.'' executable_entries" SourceLimits_default]
    by (simp add: build_manifest_def Let_def example_entries_def executable_entries_def)
qed

section \<open>Snapshot refs, ignore rules and exclusions\<close>

text \<open>
  [snapshot_ref]: the snapshot ref of an operation is one safe segment below the private namespace:
  an accepted operation identifier adds exactly one ref component, that component neither starts nor
  ends with a dot, has no dot sequence, no lock suffix in any case and only letters, digits, hyphens,
  underscores and dots, and different operations get different refs.
\<close>

theorem snapshot_ref_is_one_safe_segment:
  assumes "git_snapshot_ref op = Ok r"
  shows "split (CHR ''/'') r = [''refs'', ''rustferry'', ''goal3'', ''snapshots'', op]
    \<and> \<not> prefix ''.'' op \<and> \<not> suffix ''.'' op \<and> \<not> sublist ''..'' op
    \<and> \<not> suffix ''.lock'' (to_ascii_lowercase op)
    \<and> (\<forall>other. git_snapshot_ref other = Ok r \<longrightarrow> other = op)"
proof -
  have ok: "op \<noteq> []" "\<not> prefix ''.'' op" "\<not> suffix ''.'' op" "\<not> sublist ''..'' op"
    "to_ascii_lowercase (drop (length op - 5) op) \<noteq> ''.lock''"
    "list_all (\<lambda>b. is_ascii_alphanumeric b \<or> b \<in> {CHR ''-'', CHR ''_'', CHR ''.''}) op"
    and r: "r = GIT_SNAPSHOT_REF_PREFIX @ ''/'' @ op"
    using assms by (auto simp: git_snapshot_ref_def split: if_splits)
  have "CHR ''/'' \<notin> set op" using ok(6) by (auto simp: list_all_iff ascii_class_defs)
  then have "split (CHR ''/'') r = [''refs'', ''rustferry'', ''goal3'', ''snapshots'', op]"
    using split_append_sep [of "\<lambda>x. x = CHR ''/''" GIT_SNAPSHOT_REF_PREFIX "CHR ''/''" op]
    by (simp add: r GIT_SNAPSHOT_REF_PREFIX_def split_no_sep)
  moreover have "\<not> suffix ''.lock'' (to_ascii_lowercase op)"
  proof
    assume "suffix ''.lock'' (to_ascii_lowercase op)"
    then obtain zs where zs: "to_ascii_lowercase op = zs @ ''.lock''" by (auto simp: suffix_def)
    moreover from arg_cong [OF this, of length] have "length op = length zs + 5"
      by (simp add: to_ascii_lowercase_def)
    ultimately have "drop (length op - 5) (to_ascii_lowercase op) = ''.lock''" by simp
    with ok(5) show False by (simp add: to_ascii_lowercase_def drop_map)
  qed
  moreover have "\<forall>other. git_snapshot_ref other = Ok r \<longrightarrow> other = op"
    using r by (auto simp: git_snapshot_ref_def split: if_splits)
  ultimately show ?thesis using ok by blast
qed

theorem snapshot_ref_is_one_safe_segment_witness:
  "split (CHR ''/'') ''refs/rustferry/goal3/snapshots/op-1'' = [''refs'', ''rustferry'', ''goal3'', ''snapshots'', ''op-1'']"
proof -
  have "git_snapshot_ref ''op-1'' = Ok ''refs/rustferry/goal3/snapshots/op-1''" by code_simp
  from snapshot_ref_is_one_safe_segment [OF this] show ?thesis by blast
qed

lemma rule_matches_iff:
  "rule_matches path rule \<longleftrightarrow>
     path_is_within path (if rule_base rule = ''.'' then rule_path rule else rule_base rule @ ''/'' @ rule_path rule)"
proof -
  have inner: "(r = root \<or> (case strip_prefix root r of None \<Rightarrow> False | Some rest \<Rightarrow> prefix ''/'' rest))
      \<longleftrightarrow> path_is_within r root" for r root
    by (simp add: path_is_within_def)
  show ?thesis
  proof (cases "rule_base rule = ''.''")
    case True
    then show ?thesis by (simp add: rule_matches_def inner)
  next
    case False
    have "Option.bind (strip_prefix (rule_base rule) path) (strip_prefix ''/'') = Some r
        \<longleftrightarrow> path = rule_base rule @ ''/'' @ r" for r
      by (auto simp: bind_eq_Some_conv strip_prefix_Some)
    note stripped = this
    have "rule_matches path rule \<longleftrightarrow>
        (\<exists>r. Option.bind (strip_prefix (rule_base rule) path) (strip_prefix ''/'') = Some r \<and> path_is_within r (rule_path rule))"
      using False by (simp add: rule_matches_def inner split: option.split)
    then have "rule_matches path rule \<longleftrightarrow> (\<exists>r. path = rule_base rule @ ''/'' @ r \<and> path_is_within r (rule_path rule))"
      unfolding stripped .
    also have "\<dots> \<longleftrightarrow> path_is_within path (rule_base rule @ ''/'' @ rule_path rule)"
      by (auto simp: path_is_within_iff)
    finally show ?thesis using False by simp
  qed
qed

text \<open>
  [ignore_rules]: an ignore rule hides exactly a path and what lies below it, resolved against the
  directory of the ignore file, never a path that merely shares a textual beginning.
\<close>

theorem ignore_rules_hide_subtrees:
  "is_ignored path rules \<longleftrightarrow>
     (\<exists>rule. rule \<in> set rules
        \<and> (let root = (if rule_base rule = ''.'' then rule_path rule else rule_base rule @ ''/'' @ rule_path rule)
           in path = root \<or> (\<exists>rest. path = root @ ''/'' @ rest)))"
  unfolding is_ignored_def list_ex_iff rule_matches_iff path_is_within_iff Let_def by blast

lemma parse_ignore_line_ok:
  assumes "parse_ignore_line u file base limits rules nl = Ok rules'"
  shows "rules' = rules \<or> (\<exists>pattern. rules' = rules @ [\<lparr>rule_base = base, rule_path = pattern\<rparr>]
     \<and> is_ok (validate_portable_path_str u pattern False) \<and> length rules < max_ignore_rules limits)"
  using assms
  by (auto simp: parse_ignore_line_def Let_def and_then_Inr_iff is_ok_conv not_le split: prod.splits if_splits)

text \<open>
  Parsing an ignore file only appends rules: each is based at the file's directory and
  is a portable path without wildcards, and the total never passes the configured number of rules.
\<close>

theorem parsed_ignore_rules_are_bounded:
  assumes "parse_ignore_file u text file base limits [] = Ok rules"
  shows "length rules \<le> max_ignore_rules limits
    \<and> (\<forall>rule \<in> set rules. rule_base rule = base \<and> validate_portable_path_str u (rule_path rule) False = Ok ())"
proof -
  let ?I = "\<lambda>_ rs. length rs \<le> max_ignore_rules limits
    \<and> (\<forall>rule \<in> set rs. rule_base rule = base \<and> is_ok (validate_portable_path_str u (rule_path rule) False))"
  have "?I (enumerate 0 (text_lines text)) rules"
    using assms unfolding parse_ignore_file_def
    by (rule try_fold_invariant) (auto dest!: parse_ignore_line_ok)
  then show ?thesis by (simp add: is_ok_unit)
qed

theorem parsed_ignore_rules_are_bounded_witness:
  "length [\<lparr>rule_base = ''.'', rule_path = ''docs''\<rparr>] \<le> max_ignore_rules SourceLimits_default"
proof -
  have "\<not> is_windows_reserved_name ''docs''" by code_simp
  then have "parse_ignore_file ascii_unicode ''docs'' ''.ferryignore'' ''.'' SourceLimits_default []
    = Ok [\<lparr>rule_base = ''.'', rule_path = ''docs''\<rparr>]"
    by (simp add: parse_ignore_file_def text_lines_def enumerate_eq_zip parse_ignore_line_def strip_suffix_def
        MAX_IGNORE_PATTERN_BYTES_def validate_portable_path_str_def check_segment_def path_limits ascii_unicode_def
        forbidden_character_def is_control_def is_unsafe_unicode_format_def SourceLimits_default_def Let_def
        suffix_def)
  from parsed_ignore_rules_are_bounded [OF this] show ?thesis by blast
qed

lemma path_is_within_trans: "path_is_within a b \<Longrightarrow> path_is_within b c \<Longrightarrow> path_is_within a c"
  unfolding path_is_within_iff by (metis append_assoc)

lemma minimal_exclusions_covers:
  "(\<exists>k \<in> set (minimal_exclusions kept ds). path_is_within p k) \<longleftrightarrow>
     (\<exists>k \<in> set kept \<union> set ds. path_is_within p k)"
proof (induction kept ds rule: minimal_exclusions.induct)
  case (2 kept d ds)
  show ?case
  proof (cases "list_ex (\<lambda>a. path_is_within d a) kept")
    case True
    with 2 show ?thesis using path_is_within_trans by (auto simp: list_ex_iff)
  next
    case False
    with 2 show ?thesis by auto
  qed
qed simp

lemma minimal_exclusions_antichain:
  assumes "sorted_wrt (<) (kept @ ds)" "\<forall>a \<in> set kept. \<forall>b \<in> set kept. path_is_within a b \<longrightarrow> a = b"
  shows "\<forall>a \<in> set (minimal_exclusions kept ds). \<forall>b \<in> set (minimal_exclusions kept ds).
    path_is_within a b \<longrightarrow> a = b"
  using assms
proof (induction kept ds rule: minimal_exclusions.induct)
  case (2 kept d ds)
  show ?case
  proof (cases "list_ex (\<lambda>a. path_is_within d a) kept")
    case True
    with 2 show ?thesis by (simp add: sorted_wrt_append)
  next
    case False
    have less: "\<forall>k \<in> set kept. k < d" using 2(3) by (simp add: sorted_wrt_append)
    have "\<not> path_is_within k d" if "k \<in> set kept" for k
      using less that path_within_le by (meson leD)
    with False 2(4) have anti: "\<forall>a \<in> set (kept @ [d]). \<forall>b \<in> set (kept @ [d]). path_is_within a b \<longrightarrow> a = b"
      by (auto simp: list_ex_iff)
    have "sorted_wrt (<) ((kept @ [d]) @ ds)" using 2(3) by simp
    from 2(2) [OF False this anti] False show ?thesis by (simp only: minimal_exclusions.simps if_False)
  qed
qed simp

lemma exclusion_steps_requested:
  "try_fold (exclusion_step u usize_max limits) (req, c, b) ps = Ok (req', c', b') \<Longrightarrow> req' = req \<union> set ps"
proof (induction ps arbitrary: req c b)
  case (Cons p ps)
  then obtain s where s: "exclusion_step u usize_max limits (req, c, b) p = Ok s"
    "try_fold (exclusion_step u usize_max limits) s ps = Ok (req', c', b')"
    by (cases "exclusion_step u usize_max limits (req, c, b) p") auto
  from s(1) obtain c1 b1 where "s = (insert p req, c1, b1)"
    by (auto simp: exclusion_step_def and_then_Inr_iff)
  with s(2) Cons.IH show ?case by auto
qed simp

text \<open>
  [exclusions]: minimising the workspace exclusions loses nothing: a path is excluded by the reduced
  list exactly when it lies in one of the requested subtrees, and no kept exclusion lies in another.
\<close>

theorem minimal_exclusions_are_equivalent:
  assumes "validate_workspace_exclusions u usize_max limits paths budget = Ok (exclusions, budget')"
  shows "(\<forall>p. is_workspace_excluded p exclusions \<longleftrightarrow> (\<exists>d \<in> set paths. path_is_within p d))
    \<and> (\<forall>a \<in> set exclusions. \<forall>b \<in> set exclusions. path_is_within a b \<longrightarrow> a = b)"
proof -
  obtain req c where run: "try_fold (exclusion_step u usize_max limits) ({}, Map.empty, budget) paths = Ok (req, c, budget')"
    and ex: "exclusions = minimal_exclusions [] (sorted_list_of_set req)"
    using assms by (auto simp: validate_workspace_exclusions_def and_then_Inr_iff)
  have "req = set paths" using exclusion_steps_requested [OF run] by simp
  then have "is_workspace_excluded p exclusions \<longleftrightarrow> (\<exists>d \<in> set paths. path_is_within p d)" for p
    using minimal_exclusions_covers [of "[]" "sorted_list_of_set req" p] ex
    by (simp add: is_workspace_excluded_def list_ex_iff)
  moreover have "\<forall>a \<in> set exclusions. \<forall>b \<in> set exclusions. path_is_within a b \<longrightarrow> a = b"
    using minimal_exclusions_antichain [of "[]" "sorted_list_of_set req"] ex by simp
  ultimately show ?thesis by blast
qed

theorem minimal_exclusions_are_equivalent_witness:
  "\<forall>p. is_workspace_excluded p [] \<longleftrightarrow> (\<exists>d \<in> set []. path_is_within p d)"
proof -
  have "validate_workspace_exclusions ascii_unicode 65535 SourceLimits_default []
      \<lparr>budget_maximum = 10, budget_visited = 0\<rparr> = Ok ([], \<lparr>budget_maximum = 10, budget_visited = 0\<rparr>)"
    by (simp add: validate_workspace_exclusions_def)
  from minimal_exclusions_are_equivalent [OF this] show ?thesis by blast
qed

end
