(* ===== verification/Source_Contents.thy ===== *)
theory Source_Contents
  imports Source_Manifest
begin

text \<open>
  The credential scan of file contents (\<^verbatim>\<open>src/crates/rustferry-remote/src/source.rs\<close>, from
  \<open>reject_sensitive_contents\<close> on): PEM and PuTTY private keys and access-token signatures. The scans
  move an offset forward; their termination is proved from the progress each match makes.
\<close>

section \<open>The scans\<close>

definition is_base64_byte :: "char \<Rightarrow> bool" where
  "is_base64_byte b \<longleftrightarrow> is_ascii_alphanumeric b \<or> b \<in> {CHR ''+'', CHR ''/'', CHR ''=''}"

definition is_token_byte :: "char \<Rightarrow> bool" where
  "is_token_byte b \<longleftrightarrow> is_ascii_alphanumeric b \<or> b \<in> {CHR ''_'', CHR ''-'', CHR ''.''}"

definition is_putty_private_key_header :: "bytes \<Rightarrow> bool" where
  "is_putty_private_key_header line =
     (case strip_prefix ''PuTTY-User-Key-File-'' line of
        None \<Rightarrow> False
      | Some rest \<Rightarrow>
          length rest > 3 \<and> rest ! 0 \<in> {CHR ''1'', CHR ''2'', CHR ''3''}
          \<and> take 2 (drop 1 rest) = '': '' \<and> list_all is_ascii_graphic (drop 3 rest))"

text \<open>The largest \<open>usize\<close> is a parameter: a count above it is no count.\<close>

definition putty_private_line_count :: "nat \<Rightarrow> bytes \<Rightarrow> nat option" where
  "putty_private_line_count usize_max line =
     (case strip_prefix ''Private-Lines: '' line of
        None \<Rightarrow> None
      | Some digits \<Rightarrow>
          if digits = [] \<or> \<not> list_all is_ascii_digit digits \<or> digits_value digits > usize_max then None
          else Some (digits_value digits))"

text \<open>
  The inner loop over the announced private lines: whether all of them were there, whether another key
  header ended them, how many encoded bytes they hold, and the lines left.
\<close>

fun putty_private_lines :: "nat \<Rightarrow> bytes list \<Rightarrow> nat \<Rightarrow> bool \<times> bool \<times> nat \<times> bytes list" where
  "putty_private_lines 0 ls encoded = (True, False, encoded, ls)"
| "putty_private_lines (Suc n) [] encoded = (False, False, encoded, [])"
| "putty_private_lines (Suc n) (line # ls) encoded =
     (if is_putty_private_key_header line then (False, True, encoded, ls)
      else if line = [] \<or> \<not> list_all is_base64_byte line then (False, False, encoded, ls)
      else putty_private_lines n ls (encoded + length (filter (\<lambda>b. b \<noteq> CHR ''='') line)))"

lemma putty_private_lines_shrinks:
  "putty_private_lines n ls e = (c, h, e', rest) \<Longrightarrow> length rest \<le> length ls"
  by (induction n ls e rule: putty_private_lines.induct) (auto split: if_splits)

function putty_scan :: "nat \<Rightarrow> bool \<Rightarrow> bytes list \<Rightarrow> bool" where
  "putty_scan usize_max saw_header [] = False"
| "putty_scan usize_max saw_header (line # ls) =
     (if is_putty_private_key_header line then putty_scan usize_max True ls
      else if \<not> saw_header then putty_scan usize_max saw_header ls
      else (case putty_private_line_count usize_max line of
          None \<Rightarrow> putty_scan usize_max saw_header ls
        | Some n \<Rightarrow>
            (case putty_private_lines n ls 0 of
               (all_read, next_header, encoded, rest) \<Rightarrow>
                 if n > 0 \<and> all_read \<and> encoded \<ge> 32 then True
                 else putty_scan usize_max next_header rest)))"
  by pat_completeness auto
termination
  by (relation "measure (\<lambda>(usize_max, saw, ls). length ls)")
    (auto simp: less_Suc_eq_le dest: putty_private_lines_shrinks [OF sym])

definition contains_putty_private_key :: "nat \<Rightarrow> bytes \<Rightarrow> bool" where
  "contains_putty_private_key usize_max contents =
     putty_scan usize_max False
       (filter (\<lambda>l. l \<noteq> []) (split_by (\<lambda>b. b = CHR 0x0D \<or> b = CHR 0x0A) contents))"

lemma find_bytes_bound:
  "find_bytes s n = Some i \<Longrightarrow> n \<noteq> [] \<Longrightarrow> i + length n \<le> length s"
proof -
  assume i: "find_bytes s n = Some i" and n: "n \<noteq> []"
  then have "prefix n (drop i s)" by (simp add: find_bytes_Some)
  then have "length n \<le> length (drop i s)" by (rule prefix_length_le)
  with n show ?thesis by (cases n) auto
qed

function pem_scan :: "bytes \<Rightarrow> nat \<Rightarrow> bool" where
  "pem_scan contents offset =
     (case find_bytes (drop offset contents) ''-----BEGIN '' of
        None \<Rightarrow> False
      | Some relative_begin \<Rightarrow>
          let header_start = offset + relative_begin + 11;
              header_window_end = min (header_start + 64) (length contents)
          in (case find_bytes (take (header_window_end - header_start) (drop header_start contents)) ''PRIVATE KEY-----'' of
                None \<Rightarrow> pem_scan contents header_start
              | Some relative_suffix \<Rightarrow>
                  let body_start = header_start + relative_suffix + 16
                  in (case find_bytes (drop body_start contents) ''-----END '' of
                        None \<Rightarrow> pem_scan contents body_start
                      | Some relative_end \<Rightarrow>
                          if length (filter is_ascii_alphanumeric (take relative_end (drop body_start contents))) \<ge> 128
                          then True
                          else pem_scan contents body_start)))"
  by pat_completeness auto
termination
  by (relation "measure (\<lambda>(contents, offset). length contents - offset)")
    (auto dest!: find_bytes_bound)

declare pem_scan.simps [simp del]

definition contains_private_key :: "nat \<Rightarrow> bytes \<Rightarrow> bool" where
  "contains_private_key usize_max contents \<longleftrightarrow>
     contains_putty_private_key usize_max contents \<or> pem_scan contents 0"

definition TOKEN_SIGNATURES :: "(bytes \<times> nat \<times> nat) list" where
  "TOKEN_SIGNATURES =
     [([CHR 0x67] @ ''hp_'', 36, 64), ([CHR 0x67] @ ''ithub_pat_'', 40, 128), ([CHR 0x67] @ ''ho_'', 36, 128),
      ([CHR 0x67] @ ''hu_'', 36, 128), ([CHR 0x67] @ ''hs_'', 36, 128), ([CHR 0x67] @ ''hr_'', 36, 128),
      ([CHR 0x6E] @ ''pm_'', 36, 64), ([CHR 0x73] @ ''k_live_'', 24, 96), ([CHR 0x78] @ ''oxb-'', 20, 160),
      ([CHR 0x78] @ ''oxp-'', 20, 160), ([CHR 0x79] @ ''a29.'', 20, 160), ([CHR 0x41] @ ''KIA'', 16, 16),
      ([CHR 0x41] @ ''SIA'', 16, 16)]"

text \<open>The search for one signature. The signatures are not empty; an empty one would not advance.\<close>

function token_scan :: "bytes \<Rightarrow> bytes \<Rightarrow> nat \<Rightarrow> nat \<Rightarrow> nat \<Rightarrow> bool" where
  "token_scan contents pre minimum maximum offset =
     (if pre = [] then False
      else case find_bytes (drop offset contents) pre of
        None \<Rightarrow> False
      | Some relative \<Rightarrow>
          let start = offset + relative;
              before_ok = (start = 0 \<or> \<not> is_token_byte (contents ! (start - 1)));
              tail_start = start + length pre;
              tail_length = length (takeWhile is_token_byte (drop tail_start contents));
              after = tail_start + tail_length;
              after_ok = (after = length contents \<or> \<not> is_token_byte (contents ! after))
          in if before_ok \<and> after_ok \<and> minimum \<le> tail_length \<and> tail_length \<le> maximum then True
             else token_scan contents pre minimum maximum tail_start)"
  by pat_completeness auto
termination
  by (relation "measure (\<lambda>(contents, pre, minimum, maximum, offset). length contents - offset)")
    (auto dest!: find_bytes_bound simp flip: length_greater_0_conv)

declare token_scan.simps [simp del]

definition contains_access_token :: "bytes \<Rightarrow> bool" where
  "contains_access_token contents =
     list_ex (\<lambda>(pre, minimum, maximum). token_scan contents pre minimum maximum 0) TOKEN_SIGNATURES"

definition reject_sensitive_contents :: "nat \<Rightarrow> string \<Rightarrow> bytes \<Rightarrow> SourceError + unit" where
  "reject_sensitive_contents usize_max path contents =
     (if contains_private_key usize_max contents \<or> contains_access_token contents
      then Err (SensitiveContent path) else Ok ())"

section \<open>The token scan misses nothing\<close>

text \<open>A token: a signature at a word boundary, followed by a run of token bytes of the right length.\<close>

definition token_at :: "bytes \<Rightarrow> bytes \<Rightarrow> nat \<Rightarrow> nat \<Rightarrow> nat \<Rightarrow> bool" where
  "token_at contents pre minimum maximum start \<longleftrightarrow>
     prefix pre (drop start contents) \<and> (start = 0 \<or> \<not> is_token_byte (contents ! (start - 1)))
     \<and> (let n = length (takeWhile is_token_byte (drop (start + length pre) contents))
        in minimum \<le> n \<and> n \<le> maximum)"

lemma takeWhile_end:
  "length xs = i + length (takeWhile P (drop i xs)) \<or> i > length xs
     \<or> \<not> P (xs ! (i + length (takeWhile P (drop i xs))))"
proof (cases "i \<le> length xs")
  case True
  let ?n = "length (takeWhile P (drop i xs))"
  have le: "?n \<le> length xs - i" by (metis length_drop length_takeWhile_le)
  show ?thesis
  proof (cases "?n = length xs - i")
    case False
    with le have "?n < length (drop i xs)" by simp
    then have "\<not> P (drop i xs ! ?n)" by (rule nth_length_takeWhile)
    with True le False show ?thesis by simp
  qed (use True in simp)
qed simp

lemma inside_prefix_token:
  assumes "prefix pre (drop start contents)" "list_all is_token_byte pre" "start < s" "s < start + length pre"
  shows "is_token_byte (contents ! (s - 1))"
proof -
  have "length pre \<le> length contents - start" using assms(1) prefix_length_le by fastforce
  moreover have "contents ! (s - 1) = pre ! (s - 1 - start)"
    using assms(1,3,4) calculation by (auto simp: prefix_def nth_append dest!: arg_cong [of _ _ "\<lambda>l. l ! (s - 1 - start)"])
  ultimately show ?thesis using assms(2-4) by (simp add: list_all_length)
qed

lemma token_scan_iff:
  assumes "list_all is_token_byte pre" "pre \<noteq> []"
  shows "token_scan contents pre mi ma offset \<longleftrightarrow> (\<exists>s \<ge> offset. token_at contents pre mi ma s)"
  using assms
proof (induction contents pre mi ma offset rule: token_scan.induct)
  case (1 contents pre mi ma offset)
  show ?case
  proof (cases "find_bytes (drop offset contents) pre")
    case None
    then have none: "\<not> sublist pre (drop offset contents)" using 1(3) by (simp add: find_bytes_None)
    have "\<not> token_at contents pre mi ma s" if "s \<ge> offset" for s
    proof
      assume "token_at contents pre mi ma s"
      then have "prefix pre (drop (s - offset) (drop offset contents))" using that by (simp add: token_at_def)
      then show False using none sublist_drop prefix_imp_sublist sublist_order.order_trans by blast
    qed
    with None 1(3) show ?thesis by (subst token_scan.simps) auto
  next
    case (Some relative)
    let ?start = "offset + relative"
    let ?tail = "?start + length pre"
    have first: "\<not> prefix pre (drop s contents)" if "offset \<le> s" "s < ?start" for s
    proof -
      have "s - offset < relative" using that by simp
      then have "\<not> prefix pre (drop (s - offset) (drop offset contents))"
        using find_bytes_Some [OF Some] by blast
      with that show ?thesis by simp
    qed
    have bound: "?tail \<le> length contents"
      using find_bytes_bound [OF Some 1(3)] 1(3) by (cases "offset \<le> length contents") auto
    let ?n = "length (takeWhile is_token_byte (drop ?tail contents))"
    have after: "?tail + ?n = length contents \<or> \<not> is_token_byte (contents ! (?tail + ?n))"
      using takeWhile_end [of contents ?tail is_token_byte] bound by (metis leD)
    have here: "token_at contents pre mi ma ?start \<longleftrightarrow>
        (?start = 0 \<or> \<not> is_token_byte (contents ! (?start - 1))) \<and> mi \<le> ?n \<and> ?n \<le> ma"
      using find_bytes_Some [OF Some] by (simp add: token_at_def add.commute Let_def)
    show ?thesis
    proof (cases "token_at contents pre mi ma ?start")
      case True
      then have "token_scan contents pre mi ma offset"
        using Some 1(3) after unfolding here by (subst token_scan.simps) (simp add: Let_def)
      with True show ?thesis using le_add1 by blast
    next
      case False
      then have "token_scan contents pre mi ma offset = token_scan contents pre mi ma ?tail"
        using Some 1(3) after unfolding here by (subst token_scan.simps) (auto simp: Let_def)
      also have "\<dots> \<longleftrightarrow> (\<exists>s \<ge> ?tail. token_at contents pre mi ma s)"
        using 1(1) [OF 1(3) Some refl refl refl refl refl refl] 1(2,3) False after unfolding here by auto
      also have "\<dots> \<longleftrightarrow> (\<exists>s \<ge> offset. token_at contents pre mi ma s)"
      proof
        assume "\<exists>s \<ge> offset. token_at contents pre mi ma s"
        then obtain s where s: "s \<ge> offset" "token_at contents pre mi ma s" by blast
        have "\<not> s < ?start" using first s by (auto simp: token_at_def)
        moreover have "s \<noteq> ?start" using False s by blast
        moreover have "\<not> (?start < s \<and> s < ?tail)"
          using inside_prefix_token [OF _ 1(2), of ?start contents s] find_bytes_Some [OF Some] s(2)
          by (auto simp: token_at_def add.commute)
        ultimately have "s \<ge> ?tail" by linarith
        with s(2) show "\<exists>s \<ge> ?tail. token_at contents pre mi ma s" by blast
      qed (metis add_leE)
      finally show ?thesis .
    qed
  qed
qed

text \<open>
  [access_token]: the token scan is exact: a file counts as holding an access token exactly when, at
  some position that no token byte precedes, one of the signatures is followed by a run of token bytes
  of a length in the signature's range; jumping over a match never skips another token.
\<close>

theorem access_token_scan_is_exact:
  "contains_access_token contents \<longleftrightarrow>
     (\<exists>pre minimum maximum start. (pre, minimum, maximum) \<in> set TOKEN_SIGNATURES
        \<and> token_at contents pre minimum maximum start)"
proof -
  have sig: "list_all (\<lambda>(pre, mi, ma). pre \<noteq> [] \<and> list_all is_token_byte pre) TOKEN_SIGNATURES"
    by (simp add: TOKEN_SIGNATURES_def is_token_byte_def ascii_class_defs)
  have "token_scan contents pre mi ma 0 \<longleftrightarrow> (\<exists>s. token_at contents pre mi ma s)"
    if "(pre, mi, ma) \<in> set TOKEN_SIGNATURES" for pre mi ma
    using token_scan_iff [of pre contents mi ma 0] sig that by (auto simp: list_all_iff)
  note scan = this
  have "contains_access_token contents \<longleftrightarrow>
      (\<exists>pre mi ma. (pre, mi, ma) \<in> set TOKEN_SIGNATURES \<and> token_scan contents pre mi ma 0)"
    by (simp add: contains_access_token_def list_ex_iff split_beta) (metis prod.collapse fst_conv snd_conv)
  with scan show ?thesis by blast
qed

end
