(* ===== verification/Signing.thy ===== *)
theory Signing
  imports Secrets Json_Value "HOL-Library.Product_Lexorder"
begin

text \<open>
  Signing plans, profiles, entitlements and validation reports
  (\<^verbatim>\<open>src/crates/rustferry-remote/src/signing.rs\<close>). The hexadecimal SHA-256 of the \<open>sha2\<close> and \<open>hex\<close>
  crates is the parameter \<open>sha256_hex\<close>.
\<close>

section \<open>Modes and the signing status\<close>

definition MAX_LABEL_BYTES :: nat where "MAX_LABEL_BYTES = 128"
definition MAX_ENTITLEMENT_KEY_BYTES :: nat where "MAX_ENTITLEMENT_KEY_BYTES = 255"
definition MAX_ENTITLEMENT_STRING_BYTES :: nat where "MAX_ENTITLEMENT_STRING_BYTES = 16 * 1024"
definition MAX_ENTITLEMENT_COLLECTION_ITEMS :: nat where "MAX_ENTITLEMENT_COLLECTION_ITEMS = 1024"
definition MAX_ENTITLEMENT_DEPTH :: nat where "MAX_ENTITLEMENT_DEPTH = 16"

definition SIGNING_TARGET_GRAPH_SHA256_DOMAIN :: bytes where
  "SIGNING_TARGET_GRAPH_SHA256_DOMAIN = ''rustferry.signing-target-graph.sha256.v1'' @ [CHR 0x00]"

datatype SigningMode =
  UnsignedCompileOnly | Development | ManualDevelopment | PersonalTeam | AdHoc | AppStore

definition is_signed :: "SigningMode \<Rightarrow> bool" where
  "is_signed m \<longleftrightarrow> m \<noteq> UnsignedCompileOnly"

definition requires_device :: "SigningMode \<Rightarrow> bool" where
  "requires_device m \<longleftrightarrow> m \<in> {Development, ManualDevelopment, PersonalTeam, AdHoc}"

definition requires_identity_reference :: "SigningMode \<Rightarrow> bool" where
  "requires_identity_reference m \<longleftrightarrow> m \<in> {Development, ManualDevelopment, AdHoc, AppStore}"

datatype SigningStatus =
    Unsigned | CertificateValidated | ProfileValidated | NestedCodeSigned | ApplicationSigned
  | IpaExported | ArtifactValidated | StatusInvalid

datatype EntitlementValueError = ValueNull | FloatingPoint | StringTooLong | CollectionTooLarge | TooDeep

datatype SigningValidationError =
    MissingSigningReference | MissingSigningPasswordReference | MissingDevelopmentTeam | MissingDevice
  | SigningReferencesForbiddenForUnsigned | ProvisioningUpdatesForbiddenForUnsigned
  | InvalidTeamIdentifier | InvalidDeviceIdentifier | InvalidBundleIdentifier | InvalidTargetName
  | InvalidCertificateName | InvalidCertificateFingerprint
  | InvalidProvisioningProfileIdentifier | InvalidProvisioningProfileName | InvalidProvisioningProfileDates
  | InvalidEntitlementKey "nat option"
  | InvalidEntitlementValue "string option" EntitlementValueError
  | MissingApplicationTarget | MultipleApplicationTargets
  | DuplicateTarget string | DuplicateBundleIdentifier string
  | UnknownProvisioningTarget string | AmbiguousProvisioningProfile string
  | MissingProvisioningProfile string | UnknownEntitlementTarget string
  | DuplicateEntitlementPlan string | MissingEntitlementPlan string
  | CertificateExpired | CertificateTypeMismatch | CertificatePrivateKeyMismatch | CertificateTeamMismatch
  | ProfileExpired | ProfileNotYetValid | ProfilePlatformMismatch | ProfileTypeMismatch
  | ProfileTeamMismatch | ProfileCertificateMismatch | ProfileBundleIdentifierMismatch
  | ApplicationIdentifierMismatch | DeviceNotProvisioned | ExtensionProfileRequired string
  | MissingEntitlement string string | EntitlementMismatch string string
  | AppGroupMismatch | GetTaskAllowMismatch
  | InvalidStatusTransition SigningStatus SigningStatus

definition status_advance :: "SigningStatus \<Rightarrow> SigningStatus \<Rightarrow> SigningValidationError + SigningStatus" where
  "status_advance self next =
     (let valid = (self, next) \<in> {(Unsigned, CertificateValidated), (CertificateValidated, ProfileValidated),
         (ProfileValidated, NestedCodeSigned), (NestedCodeSigned, ApplicationSigned),
         (ApplicationSigned, IpaExported), (IpaExported, ArtifactValidated)}
      in if valid \<or> next = StatusInvalid then Ok next else Err (InvalidStatusTransition self next))"

section \<open>Labels, identifiers and digests\<close>

definition is_safe_label :: "string \<Rightarrow> bool" where
  "is_safe_label v \<longleftrightarrow> v \<noteq> [] \<and> length v \<le> MAX_LABEL_BYTES \<and> \<not> has_control v \<and> is_trimmed v"

definition is_safe_identifier :: "string \<Rightarrow> bool" where
  "is_safe_identifier v \<longleftrightarrow> v \<noteq> [] \<and> length v \<le> MAX_LABEL_BYTES
     \<and> list_all (\<lambda>b. is_ascii_alphanumeric b \<or> b \<in> {CHR ''_'', CHR ''-'', CHR ''.''}) v
     \<and> \<not> sublist ''..'' v"

definition is_profile_identifier :: "string \<Rightarrow> bool" where
  "is_profile_identifier v \<longleftrightarrow> 8 \<le> length v \<and> length v \<le> 64
     \<and> list_all (\<lambda>b. is_ascii_alphanumeric b \<or> b = CHR ''-'') v
     \<and> \<not> prefix ''-'' v \<and> \<not> suffix ''-'' v"

definition validate_fingerprint :: "string \<Rightarrow> SigningValidationError + unit" where
  "validate_fingerprint f =
     (if length f = 64 \<and> list_all is_ascii_hexdigit f then Ok () else Err InvalidCertificateFingerprint)"

definition validate_raw_udid :: "string \<Rightarrow> SigningValidationError + unit" where
  "validate_raw_udid u =
     (let valid = 20 \<le> length u \<and> length u \<le> 64
        \<and> list_all (\<lambda>b. is_ascii_alphanumeric b \<or> b = CHR ''-'') u
        \<and> \<not> prefix ''-'' u \<and> \<not> suffix ''-'' u
      in if valid then Ok () else Err InvalidDeviceIdentifier)"

definition is_lowercase_sha256 :: "string \<Rightarrow> bool" where
  "is_lowercase_sha256 v \<longleftrightarrow> length v = 64 \<and> list_all is_lower_hex v"

definition sha256_lowercase :: "(bytes \<Rightarrow> string) \<Rightarrow> bytes \<Rightarrow> string" where
  "sha256_lowercase sha256_hex b = sha256_hex b"

datatype BundleIdentifier = BundleIdentifier (bundle_str: string)

definition bad_bundle_segment :: "string \<Rightarrow> bool" where
  "bad_bundle_segment segment \<longleftrightarrow> segment = []
     \<or> \<not> list_all (\<lambda>b. is_ascii_alphanumeric b \<or> b = CHR ''-'') segment
     \<or> \<not> is_ascii_alphanumeric (hd segment)
     \<or> \<not> is_ascii_alphanumeric (last segment)"

definition BundleIdentifier_new :: "string \<Rightarrow> SigningValidationError + BundleIdentifier" where
  "BundleIdentifier_new v =
     (if length v > 255 \<or> length (split (CHR ''.'') v) < 2 \<or> list_ex bad_bundle_segment (split (CHR ''.'') v)
      then Err InvalidBundleIdentifier else Ok (BundleIdentifier v))"

section \<open>Teams, devices, certificates and profiles\<close>

record DevelopmentTeam =
  team_id :: string
  team_display_name :: "string option"

definition unsafe_display_name :: "string option \<Rightarrow> bool" where
  "unsafe_display_name n \<longleftrightarrow> (case n of None \<Rightarrow> False | Some name \<Rightarrow> \<not> is_safe_label name)"

definition DevelopmentTeam_new :: "string \<Rightarrow> string option \<Rightarrow> SigningValidationError + DevelopmentTeam" where
  "DevelopmentTeam_new i n =
     (if length i \<noteq> 10 \<or> \<not> list_all (\<lambda>b. is_ascii_uppercase b \<or> is_ascii_digit b) i
      then Err InvalidTeamIdentifier
      else if unsafe_display_name n then Err InvalidTeamIdentifier
      else Ok \<lparr>team_id = i, team_display_name = n\<rparr>)"

record DevicePlan =
  udid_sha256 :: string
  device_display_name :: "string option"

definition DevicePlan_from_sha256 :: "string \<Rightarrow> string option \<Rightarrow> SigningValidationError + DevicePlan" where
  "DevicePlan_from_sha256 d n =
     (if \<not> is_lowercase_sha256 d \<or> unsafe_display_name n then Err InvalidDeviceIdentifier
      else Ok \<lparr>udid_sha256 = d, device_display_name = n\<rparr>)"

definition DevicePlan_new ::
    "(bytes \<Rightarrow> string) \<Rightarrow> string \<Rightarrow> string option \<Rightarrow> SigningValidationError + DevicePlan" where
  "DevicePlan_new sha256_hex udid n =
     and_then (validate_raw_udid udid) (\<lambda>_. DevicePlan_from_sha256 (sha256_lowercase sha256_hex udid) n)"

definition matches_udid :: "(bytes \<Rightarrow> string) \<Rightarrow> DevicePlan \<Rightarrow> string \<Rightarrow> SigningValidationError + bool" where
  "matches_udid sha256_hex d udid =
     and_then (validate_raw_udid udid) (\<lambda>_. Ok (udid_sha256 d = sha256_lowercase sha256_hex udid))"

record DevelopmentTeamPlan =
  expected_team :: DevelopmentTeam

record SigningPrivateKeyReference =
  key_reference :: SecretReference

record SigningCertificate =
  common_name :: string
  sha256_fingerprint :: string
  cert_team :: DevelopmentTeam
  cert_expires_at :: u64

definition SigningCertificate_validate :: "SigningCertificate \<Rightarrow> SigningValidationError + unit" where
  "SigningCertificate_validate c =
     (if \<not> is_safe_label (common_name c) then Err InvalidCertificateName
      else validate_fingerprint (sha256_fingerprint c))"

record SigningIdentity =
  identity_certificate :: SigningCertificate
  identity_private_key :: SigningPrivateKeyReference

record SigningReference =
  reference_identity :: SigningIdentity
  reference_password :: "SecretReference option"

datatype ProvisioningProfileType = ProfileDevelopment | ProfileAdHoc | ProfileAppStore

datatype ProvisioningPlatform = Ios

section \<open>Entitlements\<close>

text \<open>The loop over \<open>key.bytes().enumerate()\<close>.\<close>

fun check_entitlement_key_bytes :: "nat \<Rightarrow> bytes \<Rightarrow> SigningValidationError + unit" where
  "check_entitlement_key_bytes index [] = Ok ()"
| "check_entitlement_key_bytes index (b # bs) =
     (if is_ascii_alphanumeric b \<or> b \<in> {CHR ''.'', CHR ''-'', CHR ''_''}
      then check_entitlement_key_bytes (Suc index) bs
      else Err (InvalidEntitlementKey (Some index)))"

definition validate_entitlement_key :: "string \<Rightarrow> SigningValidationError + unit" where
  "validate_entitlement_key k =
     (if k = [] \<or> length k > MAX_ENTITLEMENT_KEY_BYTES then Err (InvalidEntitlementKey None)
      else check_entitlement_key_bytes 0 k)"

definition invalid_entitlement_value :: "string option \<Rightarrow> EntitlementValueError \<Rightarrow> SigningValidationError + unit" where
  "invalid_entitlement_value k reason = Err (InvalidEntitlementValue k reason)"

fun validate_entitlement_value :: "string option \<Rightarrow> json \<Rightarrow> nat \<Rightarrow> SigningValidationError + unit" where
  "validate_entitlement_value k v depth =
     (if depth > MAX_ENTITLEMENT_DEPTH then invalid_entitlement_value k TooDeep
      else (case v of
          JNull \<Rightarrow> invalid_entitlement_value k ValueNull
        | JNumber (PosInt _) \<Rightarrow> Ok ()
        | JNumber (NegInt _) \<Rightarrow> Ok ()
        | JNumber (Float _) \<Rightarrow> invalid_entitlement_value k FloatingPoint
        | JString t \<Rightarrow>
            if length t > MAX_ENTITLEMENT_STRING_BYTES then invalid_entitlement_value k StringTooLong else Ok ()
        | JBool _ \<Rightarrow> Ok ()
        | JArray items \<Rightarrow>
            if length items > MAX_ENTITLEMENT_COLLECTION_ITEMS
            then invalid_entitlement_value k CollectionTooLarge
            else run_checks (map (\<lambda>item. validate_entitlement_value k item (depth + 1)) items)
        | JObject members \<Rightarrow>
            if length members > MAX_ENTITLEMENT_COLLECTION_ITEMS
            then invalid_entitlement_value k CollectionTooLarge
            else run_checks (map (\<lambda>(nested_key, nested_value).
                   run_checks [validate_entitlement_key nested_key,
                     validate_entitlement_value (Some nested_key) nested_value (depth + 1)]) members)))"

declare validate_entitlement_value.simps [simp del]

datatype EntitlementSet = EntitlementSet (entitlement_values: "(string \<times> json) list")

definition EntitlementSet_new :: "(string \<times> json) list \<Rightarrow> SigningValidationError + EntitlementSet" where
  "EntitlementSet_new values =
     (if length values > MAX_ENTITLEMENT_COLLECTION_ITEMS
      then Err (InvalidEntitlementValue None CollectionTooLarge)
      else and_then (run_checks (map (\<lambda>(k, v).
             run_checks [validate_entitlement_key k, validate_entitlement_value (Some k) v 0]) values))
           (\<lambda>_. Ok (EntitlementSet values)))"

definition EntitlementSet_get :: "EntitlementSet \<Rightarrow> string \<Rightarrow> json option" where
  "EntitlementSet_get e k = map_of (entitlement_values e) k"

definition EntitlementSet_is_empty :: "EntitlementSet \<Rightarrow> bool" where
  "EntitlementSet_is_empty e \<longleftrightarrow> entitlement_values e = []"

section \<open>Provisioning profiles\<close>

record ProvisioningProfile =
  profile_uuid :: string
  profile_name :: string
  profile_team :: DevelopmentTeam
  application_identifier :: string
  bundle_identifier_pattern :: string
  wildcard :: bool
  created_at_unix_seconds :: u64
  expires_at_unix_seconds :: u64
  device_udid_sha256s :: "string list"
  profile_entitlements :: EntitlementSet
  platforms :: "ProvisioningPlatform set"
  profile_type :: ProvisioningProfileType
  certificate_fingerprints :: "string list"

text \<open>The loop over the registered devices, with the set of those already seen.\<close>

definition check_device :: "string set \<Rightarrow> string \<Rightarrow> SigningValidationError + string set" where
  "check_device devices d =
     and_then (DevicePlan_from_sha256 d None)
       (\<lambda>_. if d \<in> devices then Err InvalidDeviceIdentifier else Ok (insert d devices))"

definition bundle_pattern_valid :: "ProvisioningProfile \<Rightarrow> bool" where
  "bundle_pattern_valid p =
     (if wildcard p
      then bundle_identifier_pattern p = ''*''
        \<or> (case strip_suffix ''.*'' (bundle_identifier_pattern p) of
             None \<Rightarrow> False | Some pre \<Rightarrow> is_ok (BundleIdentifier_new pre))
      else is_ok (BundleIdentifier_new (bundle_identifier_pattern p)))"

definition validate_metadata :: "ProvisioningProfile \<Rightarrow> SigningValidationError + unit" where
  "validate_metadata p =
     run_checks
       [reject_if (\<not> is_profile_identifier (profile_uuid p)) InvalidProvisioningProfileIdentifier,
        reject_if (\<not> is_safe_label (profile_name p)) InvalidProvisioningProfileName,
        reject_if (created_at_unix_seconds p > expires_at_unix_seconds p) InvalidProvisioningProfileDates,
        reject_if (\<not> bundle_pattern_valid p) ProfileBundleIdentifierMismatch,
        reject_if (application_identifier p \<noteq> team_id (profile_team p) @ ''.'' @ bundle_identifier_pattern p)
          ApplicationIdentifierMismatch,
        reject_if (Ios \<notin> platforms p) ProfilePlatformMismatch,
        reject_if (certificate_fingerprints p = []) ProfileCertificateMismatch,
        run_checks (map validate_fingerprint (certificate_fingerprints p)),
        and_then (try_fold check_device {} (device_udid_sha256s p)) (\<lambda>_. Ok ()),
        (case profile_type p of
           ProfileDevelopment \<Rightarrow> reject_if (device_udid_sha256s p = []) DeviceNotProvisioned
         | ProfileAdHoc \<Rightarrow> reject_if (device_udid_sha256s p = []) DeviceNotProvisioned
         | ProfileAppStore \<Rightarrow> reject_if (device_udid_sha256s p \<noteq> []) ProfileTypeMismatch)]"

definition validate_metadata_at :: "ProvisioningProfile \<Rightarrow> u64 \<Rightarrow> SigningValidationError + unit" where
  "validate_metadata_at p now =
     and_then (validate_metadata p)
       (\<lambda>_. if created_at_unix_seconds p > now then Err ProfileNotYetValid
            else if expires_at_unix_seconds p \<le> now then Err ProfileExpired
            else Ok ())"

section \<open>Targets and the canonical target graph\<close>

datatype SigningTargetKind = DynamicLibrary | Framework | Extension | Application

record SigningTarget =
  target_name :: string
  target_bundle_identifier :: BundleIdentifier
  target_kind :: SigningTargetKind

text \<open>The derived order of the kinds is their declaration order.\<close>

definition kind_rank :: "SigningTargetKind \<Rightarrow> nat" where
  "kind_rank k = (case k of DynamicLibrary \<Rightarrow> 0 | Framework \<Rightarrow> 1 | Extension \<Rightarrow> 2 | Application \<Rightarrow> 3)"

instantiation SigningTargetKind :: linorder
begin

definition less_eq_SigningTargetKind :: "SigningTargetKind \<Rightarrow> SigningTargetKind \<Rightarrow> bool" where
  "less_eq_SigningTargetKind a b \<longleftrightarrow> kind_rank a \<le> kind_rank b"

definition less_SigningTargetKind :: "SigningTargetKind \<Rightarrow> SigningTargetKind \<Rightarrow> bool" where
  "less_SigningTargetKind a b \<longleftrightarrow> kind_rank a < kind_rank b"

instance
  by standard
    (auto simp: less_eq_SigningTargetKind_def less_SigningTargetKind_def kind_rank_def
      split: SigningTargetKind.splits)

end

definition signing_target_kind_name :: "SigningTargetKind \<Rightarrow> string" where
  "signing_target_kind_name k =
     (case k of DynamicLibrary \<Rightarrow> ''dynamic_library'' | Framework \<Rightarrow> ''framework''
      | Extension \<Rightarrow> ''extension'' | Application \<Rightarrow> ''application'')"

text \<open>What \<open>digest.update\<close> is given, in order.\<close>

definition canonical_length :: "nat \<Rightarrow> bytes" where
  "canonical_length n = decimal n @ '':''"

definition canonical_field :: "bytes \<Rightarrow> bytes" where
  "canonical_field v = canonical_length (length v) @ v"

definition target_sort_key :: "SigningTarget \<Rightarrow> string \<times> string \<times> string" where
  "target_sort_key t =
     (target_name t, bundle_str (target_bundle_identifier t), signing_target_kind_name (target_kind t))"

definition canonical_target :: "SigningTarget \<Rightarrow> bytes" where
  "canonical_target t =
     canonical_field (signing_target_kind_name (target_kind t)) @ canonical_field (target_name t)
       @ canonical_field (bundle_str (target_bundle_identifier t))"

definition signing_target_graph_preimage :: "SigningTarget list \<Rightarrow> bytes" where
  "signing_target_graph_preimage targets =
     SIGNING_TARGET_GRAPH_SHA256_DOMAIN @ canonical_length (length targets)
       @ concat (map canonical_target (sort_key target_sort_key targets))"

definition canonical_signing_target_graph_sha256 :: "(bytes \<Rightarrow> string) \<Rightarrow> SigningTarget list \<Rightarrow> string" where
  "canonical_signing_target_graph_sha256 sha256_hex targets =
     sha256_hex (signing_target_graph_preimage targets)"

section \<open>Signing plans\<close>

record ProvisioningPlan =
  prov_target :: string
  prov_profile :: SecretReference
  prov_type :: ProvisioningProfileType

record EntitlementPlan =
  ent_target :: string
  ent_required :: EntitlementSet

record SigningPlan =
  plan_mode :: SigningMode
  plan_signing :: "SigningReference option"
  plan_team :: "DevelopmentTeamPlan option"
  plan_device :: "DevicePlan option"
  plan_targets :: "SigningTarget list"
  plan_provisioning :: "ProvisioningPlan list"
  plan_entitlements :: "EntitlementPlan list"
  allow_provisioning_updates :: bool

text \<open>\<open>errors.push\<close> under a condition.\<close>

definition push_if :: "bool \<Rightarrow> 'e \<Rightarrow> 'e list" where
  "push_if b e = (if b then [e] else [])"

definition expected_profile_type :: "SigningMode \<Rightarrow> ProvisioningProfileType option" where
  "expected_profile_type m =
     (case m of UnsignedCompileOnly \<Rightarrow> None
      | Development \<Rightarrow> Some ProfileDevelopment | ManualDevelopment \<Rightarrow> Some ProfileDevelopment
      | PersonalTeam \<Rightarrow> Some ProfileDevelopment
      | AdHoc \<Rightarrow> Some ProfileAdHoc | AppStore \<Rightarrow> Some ProfileAppStore)"

definition mode_errors :: "SigningPlan \<Rightarrow> SigningValidationError list" where
  "mode_errors plan =
     (if plan_mode plan = UnsignedCompileOnly then
        push_if (plan_signing plan \<noteq> None \<or> plan_provisioning plan \<noteq> []) SigningReferencesForbiddenForUnsigned
        @ push_if (allow_provisioning_updates plan) ProvisioningUpdatesForbiddenForUnsigned
      else
        push_if (requires_identity_reference (plan_mode plan) \<and> plan_signing plan = None) MissingSigningReference
        @ (case plan_signing plan of None \<Rightarrow> []
           | Some s \<Rightarrow>
               (case SigningCertificate_validate (identity_certificate (reference_identity s)) of
                  Inl e \<Rightarrow> [e] | Inr _ \<Rightarrow> [])
               @ push_if (case plan_team plan of None \<Rightarrow> False
                   | Some t \<Rightarrow> team_id (expected_team t)
                       \<noteq> team_id (cert_team (identity_certificate (reference_identity s)))) CertificateTeamMismatch)
        @ push_if (plan_mode plan = ManualDevelopment
              \<and> (case plan_signing plan of None \<Rightarrow> False | Some s \<Rightarrow> reference_password s = None))
            MissingSigningPasswordReference
        @ push_if (plan_team plan = None) MissingDevelopmentTeam
        @ push_if (requires_device (plan_mode plan) \<and> plan_device plan = None) MissingDevice)"

text \<open>The loop over the targets: the names and bundle identifiers seen, the application count, the errors.\<close>

definition scan_target ::
    "SigningTarget \<Rightarrow> string set \<times> string set \<times> nat \<times> SigningValidationError list
     \<Rightarrow> string set \<times> string set \<times> nat \<times> SigningValidationError list" where
  "scan_target t s =
     (case s of (names, bundles, apps, errors) \<Rightarrow>
       (insert (target_name t) names,
        insert (bundle_str (target_bundle_identifier t)) bundles,
        if target_kind t = Application then apps + 1 else apps,
        errors @ push_if (\<not> is_safe_identifier (target_name t)) InvalidTargetName
          @ push_if (target_name t \<in> names) (DuplicateTarget (target_name t))
          @ push_if (bundle_str (target_bundle_identifier t) \<in> bundles)
              (DuplicateBundleIdentifier (bundle_str (target_bundle_identifier t)))))"

definition scan_provisioning ::
    "SigningMode \<Rightarrow> string set \<Rightarrow> ProvisioningPlan
     \<Rightarrow> string set \<times> SigningValidationError list \<Rightarrow> string set \<times> SigningValidationError list" where
  "scan_provisioning m target_names p s =
     (case s of (seen, errors) \<Rightarrow>
       (insert (prov_target p) seen,
        errors @ push_if (prov_target p \<notin> target_names) (UnknownProvisioningTarget (prov_target p))
          @ push_if (prov_target p \<in> seen) (AmbiguousProvisioningProfile (prov_target p))
          @ push_if (case expected_profile_type m of None \<Rightarrow> False | Some e \<Rightarrow> prov_type p \<noteq> e) ProfileTypeMismatch))"

definition scan_entitlements ::
    "string set \<Rightarrow> EntitlementPlan
     \<Rightarrow> string set \<times> SigningValidationError list \<Rightarrow> string set \<times> SigningValidationError list" where
  "scan_entitlements target_names p s =
     (case s of (seen, errors) \<Rightarrow>
       (insert (ent_target p) seen,
        errors @ push_if (ent_target p \<notin> target_names) (UnknownEntitlementTarget (ent_target p))
          @ push_if (ent_target p \<in> seen) (DuplicateEntitlementPlan (ent_target p))))"

definition validate_per_target_plans ::
    "SigningPlan \<Rightarrow> string set \<Rightarrow> SigningValidationError list \<Rightarrow> SigningValidationError list" where
  "validate_per_target_plans plan target_names errors =
     (let (profile_targets, errors1) =
            fold (scan_provisioning (plan_mode plan) target_names) (plan_provisioning plan) ({}, errors);
          (entitlement_targets, errors2) =
            fold (scan_entitlements target_names) (plan_entitlements plan) ({}, errors1)
      in errors2 @ concat (map (\<lambda>t.
           if \<not> is_signed (plan_mode plan) \<or> target_kind t \<notin> {Application, Extension} then []
           else push_if (target_name t \<notin> profile_targets) (MissingProvisioningProfile (target_name t))
             @ push_if (target_name t \<notin> entitlement_targets) (MissingEntitlementPlan (target_name t)))
           (plan_targets plan)))"

definition SigningPlan_validate :: "SigningPlan \<Rightarrow> SigningValidationError list + unit" where
  "SigningPlan_validate plan =
     (let (target_names, bundles, application_targets, errors1) =
            fold scan_target (plan_targets plan) ({}, {}, 0, mode_errors plan);
          errors2 = errors1
            @ (if application_targets = 0 then [MissingApplicationTarget]
               else push_if (application_targets > 1) MultipleApplicationTargets);
          errors = validate_per_target_plans plan target_names errors2
      in if errors = [] then Ok () else Err errors)"

definition targets_in_signing_order :: "SigningPlan \<Rightarrow> SigningTarget list" where
  "targets_in_signing_order plan = sort_key target_kind (plan_targets plan)"

section \<open>Validation reports\<close>

datatype ValidationStatus = NotChecked | Validated | ComponentInvalid | NotApplicable

datatype ValidationComponent = Certificate | Provisioning | Team | Device | Entitlements

record SigningValidationReport =
  report_mode :: SigningMode
  signing_status :: SigningStatus
  certificate_status :: ValidationStatus
  provisioning_status :: ValidationStatus
  team_status :: ValidationStatus
  device_status :: ValidationStatus
  entitlements_status :: ValidationStatus
  report_errors :: "SigningValidationError list"

definition SigningValidationReport_new :: "SigningMode \<Rightarrow> SigningValidationReport" where
  "SigningValidationReport_new m =
     (let initial = (if is_signed m then NotChecked else NotApplicable) in
      \<lparr>report_mode = m, signing_status = Unsigned, certificate_status = initial,
       provisioning_status = initial, team_status = initial,
       device_status = (if requires_device m then initial else NotApplicable),
       entitlements_status = initial, report_errors = []\<rparr>)"

text \<open>Assignment through \<open>component_mut\<close>.\<close>

definition set_component ::
    "ValidationComponent \<Rightarrow> ValidationStatus \<Rightarrow> SigningValidationReport \<Rightarrow> SigningValidationReport" where
  "set_component c s r =
     (case c of
        Certificate \<Rightarrow> r\<lparr>certificate_status := s\<rparr>
      | Provisioning \<Rightarrow> r\<lparr>provisioning_status := s\<rparr>
      | Team \<Rightarrow> r\<lparr>team_status := s\<rparr>
      | Device \<Rightarrow> r\<lparr>device_status := s\<rparr>
      | Entitlements \<Rightarrow> r\<lparr>entitlements_status := s\<rparr>)"

definition mark_validated :: "ValidationComponent \<Rightarrow> SigningValidationReport \<Rightarrow> SigningValidationReport" where
  "mark_validated c r = set_component c Validated r"

definition record_error ::
    "ValidationComponent \<Rightarrow> SigningValidationError \<Rightarrow> SigningValidationReport \<Rightarrow> SigningValidationReport" where
  "record_error c e r =
     (let r1 = set_component c ComponentInvalid r;
          r2 = r1\<lparr>signing_status := StatusInvalid\<rparr>
      in r2\<lparr>report_errors := report_errors r2 @ [e]\<rparr>)"

definition report_advance ::
    "SigningStatus \<Rightarrow> SigningValidationReport \<Rightarrow> SigningValidationError + SigningValidationReport" where
  "report_advance next r =
     and_then (status_advance (signing_status r) next) (\<lambda>s. Ok (r\<lparr>signing_status := s\<rparr>))"

definition artifact_is_validated :: "SigningValidationReport \<Rightarrow> bool" where
  "artifact_is_validated r \<longleftrightarrow>
     signing_status r = ArtifactValidated \<and> report_errors r = []
     \<and> list_all (\<lambda>s. s = Validated)
         [certificate_status r, provisioning_status r, team_status r, entitlements_status r]
     \<and> (if requires_device (report_mode r) then device_status r = Validated
        else device_status r = NotApplicable)"

section \<open>The status lifecycle\<close>

definition status_rank :: "SigningStatus \<Rightarrow> nat" where
  "status_rank s =
     (case s of Unsigned \<Rightarrow> 0 | CertificateValidated \<Rightarrow> 1 | ProfileValidated \<Rightarrow> 2 | NestedCodeSigned \<Rightarrow> 3
      | ApplicationSigned \<Rightarrow> 4 | IpaExported \<Rightarrow> 5 | ArtifactValidated \<Rightarrow> 6 | StatusInvalid \<Rightarrow> 7)"

lemma status_advance_ok:
  "status_advance s t = Ok u \<longleftrightarrow>
     u = t \<and> (t = StatusInvalid \<or> (status_rank t = Suc (status_rank s)))"
  by (cases s; cases t) (auto simp: status_advance_def status_rank_def)

interpretation signing_lifecycle: lifecycle status_advance status_rank "\<lambda>s. s = StatusInvalid"
proof unfold_locales
  fix s t u
  assume "status_advance s t = Inr u"
  then show "u = t" and "s \<noteq> t \<Longrightarrow> status_rank s < status_rank t"
    by (cases s; auto simp: status_advance_ok status_rank_def)+
  show "t = s" if "s = StatusInvalid"
    using \<open>status_advance s t = Inr u\<close> that by (cases t) (auto simp: status_advance_ok status_rank_def)
qed

text \<open>The stages of a run that ends validated are all of them, in order.\<close>

definition status_path :: "SigningStatus list" where
  "status_path = [Unsigned, CertificateValidated, ProfileValidated, NestedCodeSigned, ApplicationSigned,
     IpaExported, ArtifactValidated]"

lemma status_path_rank: "s \<noteq> StatusInvalid \<Longrightarrow> status_path ! status_rank s = s"
  by (cases s) (simp_all add: status_path_def status_rank_def)

lemma status_rank_bound: "status_rank s \<le> 7" "s \<noteq> StatusInvalid \<Longrightarrow> status_rank s \<le> 6"
  by (cases s; simp add: status_rank_def)+

lemma advance_run_shape:
  assumes "try_fold status_advance s ts = Ok u" "u \<noteq> StatusInvalid"
  shows "s # ts = map ((!) status_path) [status_rank s ..< Suc (status_rank u)]"
  using assms
proof (induction ts arbitrary: s)
  case Nil
  then show ?case by (simp add: status_path_rank)
next
  case (Cons t ts)
  then obtain v where v: "status_advance s t = Ok v" "try_fold status_advance v ts = Ok u"
    by (cases "status_advance s t") auto
  then have "v = t" "t \<noteq> StatusInvalid"
    using Cons.prems(2) signing_lifecycle.run_absorbed by (auto simp: status_advance_ok)
  with v(1) have next_rank: "status_rank t = Suc (status_rank s)" by (auto simp: status_advance_ok)
  moreover from this have "s \<noteq> StatusInvalid" using status_rank_bound [of t] by (auto simp: status_rank_def)
  moreover have "t # ts = map ((!) status_path) [status_rank t ..< Suc (status_rank u)]"
    using Cons.IH [OF _ Cons.prems(2)] v \<open>v = t\<close> by simp
  moreover from this next_rank have "status_rank s < Suc (status_rank u)"
    by (metis Suc_lessD list.distinct(1) list.map(1) not_less_eq upt_rec)
  ultimately show ?case by (simp add: upt_conv_Cons status_path_rank del: upt_Suc)
qed

text \<open>
  [status_path]: a signing status that starts unsigned and reaches the validated artifact has passed
  every stage exactly once, in order: certificate, profile, nested code, application, export,
  validation; and from the invalid status no further stage can be reached.
\<close>

theorem signing_status_skips_nothing:
  assumes "try_fold status_advance Unsigned stages = Ok final"
  shows "(final = ArtifactValidated \<longrightarrow>
      stages = [CertificateValidated, ProfileValidated, NestedCodeSigned, ApplicationSigned, IpaExported,
                ArtifactValidated])
    \<and> (StatusInvalid \<in> set stages \<longrightarrow> final = StatusInvalid)"
proof (intro conjI impI)
  assume "final = ArtifactValidated"
  with advance_run_shape [OF assms] show "stages = [CertificateValidated, ProfileValidated, NestedCodeSigned,
      ApplicationSigned, IpaExported, ArtifactValidated]"
    by (simp add: status_rank_def status_path_def upt_rec)
next
  assume "StatusInvalid \<in> set stages"
  then obtain pre post where st: "stages = pre @ StatusInvalid # post" by (meson split_list)
  with assms obtain m where "try_fold status_advance m (StatusInvalid # post) = Ok final"
    by (cases "try_fold status_advance Unsigned pre") (auto simp: try_fold_append)
  then have "try_fold status_advance StatusInvalid post = Ok final"
    by (simp add: status_advance_def)
  then show "final = StatusInvalid" using signing_lifecycle.run_absorbed by blast
qed

theorem signing_status_skips_nothing_witness:
  "\<exists>final. try_fold status_advance Unsigned [CertificateValidated, StatusInvalid] = Ok final
     \<and> final = StatusInvalid"
proof -
  have run: "is_ok (try_fold status_advance Unsigned [CertificateValidated, StatusInvalid])" by code_simp
  then obtain final where f: "try_fold status_advance Unsigned [CertificateValidated, StatusInvalid] = Ok final"
    by (auto simp: is_ok_conv)
  from signing_status_skips_nothing [OF this] f show ?thesis by simp
qed

section \<open>Reports\<close>

datatype report_op =
    MarkValidated ValidationComponent
  | RecordError ValidationComponent SigningValidationError
  | Advance SigningStatus

text \<open>A rejected advance leaves the report as it was.\<close>

definition apply_op :: "report_op \<Rightarrow> SigningValidationReport \<Rightarrow> SigningValidationReport" where
  "apply_op p r =
     (case p of
        MarkValidated c \<Rightarrow> mark_validated c r
      | RecordError c e \<Rightarrow> record_error c e r
      | Advance s \<Rightarrow> (case report_advance s r of Inl _ \<Rightarrow> r | Inr r' \<Rightarrow> r'))"

lemma set_component_keeps [simp]:
  "signing_status (set_component c s r) = signing_status r"
  "report_errors (set_component c s r) = report_errors r"
  "report_mode (set_component c s r) = report_mode r"
  by (cases c; simp add: set_component_def)+

lemma apply_op_status:
  "signing_status (apply_op p r) =
     (case p of MarkValidated c \<Rightarrow> signing_status r
      | RecordError c e \<Rightarrow> StatusInvalid
      | Advance s \<Rightarrow> (case status_advance (signing_status r) s of Inl _ \<Rightarrow> signing_status r | Inr t \<Rightarrow> t))"
  by (auto simp: apply_op_def mark_validated_def record_error_def report_advance_def Let_def
      split: report_op.splits sum.splits)

lemma apply_op_invalid: "signing_status r = StatusInvalid \<Longrightarrow> signing_status (apply_op p r) = StatusInvalid"
  using signing_lifecycle.step_absorbing signing_lifecycle.step_target
  by (fastforce simp: apply_op_status split: report_op.splits sum.splits)

lemma fold_apply_op_invalid:
  "signing_status r = StatusInvalid \<Longrightarrow> signing_status (fold apply_op ops r) = StatusInvalid"
  by (induction ops arbitrary: r) (auto simp: apply_op_invalid)

lemma report_status_run:
  "\<exists>stages. subseq stages [s. Advance s \<leftarrow> ops]
     \<and> ((\<nexists>c e. RecordError c e \<in> set ops) \<longrightarrow>
        try_fold status_advance (signing_status r) stages = Ok (signing_status (fold apply_op ops r)))"
proof (induction ops arbitrary: r)
  case Nil
  show ?case by (intro exI [of _ "[]"]) simp
next
  case (Cons p ops)
  obtain stages where st: "subseq stages [s. Advance s \<leftarrow> ops]"
    "(\<nexists>c e. RecordError c e \<in> set ops) \<longrightarrow>
        try_fold status_advance (signing_status (apply_op p r)) stages
          = Ok (signing_status (fold apply_op ops (apply_op p r)))"
    using Cons.IH by blast
  show ?case
  proof (cases "\<exists>s t. p = Advance s \<and> status_advance (signing_status r) s = Ok t")
    case True
    then obtain s t where s: "p = Advance s" "status_advance (signing_status r) s = Ok t" by blast
    with st show ?thesis
      by (intro exI [of _ "s # stages"]) (auto simp: apply_op_status)
  next
    case False
    with st show ?thesis
      by (intro exI [of _ stages])
        (auto simp: apply_op_status split: report_op.splits sum.splits)
  qed
qed

text \<open>
  C38 [report]: whatever sequence of marks, errors and stage changes a report goes through, it claims a
  validated artifact only if no error was ever recorded and the six stages were requested in order.
\<close>

theorem report_claims_only_complete_evidence:
  assumes "artifact_is_validated (fold apply_op ops (SigningValidationReport_new m))"
  shows "(\<nexists>c e. RecordError c e \<in> set ops)
    \<and> subseq [CertificateValidated, ProfileValidated, NestedCodeSigned, ApplicationSigned, IpaExported,
         ArtifactValidated] [s. Advance s \<leftarrow> ops]"
proof -
  let ?r = "SigningValidationReport_new m"
  have final: "signing_status (fold apply_op ops ?r) = ArtifactValidated"
    using assms by (simp add: artifact_is_validated_def)
  have no_error: "\<nexists>c e. RecordError c e \<in> set ops"
  proof
    assume "\<exists>c e. RecordError c e \<in> set ops"
    then obtain c e pre post where "ops = pre @ RecordError c e # post" by (meson split_list)
    then have "fold apply_op ops ?r = fold apply_op post (apply_op (RecordError c e) (fold apply_op pre ?r))"
      by simp
    moreover have "signing_status (apply_op (RecordError c e) (fold apply_op pre ?r)) = StatusInvalid"
      by (simp add: apply_op_status)
    ultimately show False using fold_apply_op_invalid final by fastforce
  qed
  obtain stages where "subseq stages [s. Advance s \<leftarrow> ops]"
    "try_fold status_advance Unsigned stages = Ok ArtifactValidated"
    using report_status_run [of ops ?r] no_error final
    by (auto simp: SigningValidationReport_new_def Let_def)
  moreover from this(2) have "stages = [CertificateValidated, ProfileValidated, NestedCodeSigned,
      ApplicationSigned, IpaExported, ArtifactValidated]"
    using advance_run_shape [of Unsigned stages ArtifactValidated]
    by (simp add: status_rank_def status_path_def upt_rec)
  ultimately show ?thesis using no_error by simp
qed

theorem report_claims_only_complete_evidence_witness:
  "subseq [CertificateValidated, ProfileValidated, NestedCodeSigned, ApplicationSigned, IpaExported,
         ArtifactValidated]
     [s. Advance s \<leftarrow> map MarkValidated [Certificate, Provisioning, Team, Device, Entitlements]
           @ map Advance [CertificateValidated, ProfileValidated, NestedCodeSigned, ApplicationSigned,
               IpaExported, ArtifactValidated]]"
proof -
  let ?ops = "map MarkValidated [Certificate, Provisioning, Team, Device, Entitlements]
     @ map Advance [CertificateValidated, ProfileValidated, NestedCodeSigned, ApplicationSigned,
         IpaExported, ArtifactValidated]"
  have "artifact_is_validated (fold apply_op ?ops (SigningValidationReport_new Development))"
    by code_simp
  from report_claims_only_complete_evidence [OF this] show ?thesis by simp
qed

section \<open>Entitlements are bounded property lists\<close>

definition entitlement_key_ok :: "string \<Rightarrow> bool" where
  "entitlement_key_ok k \<longleftrightarrow> k \<noteq> [] \<and> length k \<le> 255
     \<and> (\<forall>b \<in> set k. is_ascii_alphanumeric b \<or> b \<in> {CHR ''.'', CHR ''-'', CHR ''_''})"

text \<open>What a property list can hold, and how deep it nests.\<close>

fun plist_ok :: "json \<Rightarrow> bool" where
  "plist_ok JNull = False"
| "plist_ok (JBool b) = True"
| "plist_ok (JNumber n) = (case n of Float _ \<Rightarrow> False | _ \<Rightarrow> True)"
| "plist_ok (JString t) = (length t \<le> 16384)"
| "plist_ok (JArray items) = (length items \<le> 1024 \<and> (\<forall>v \<in> set items. plist_ok v))"
| "plist_ok (JObject members) =
     (length members \<le> 1024 \<and> (\<forall>(k, v) \<in> set members. entitlement_key_ok k \<and> plist_ok v))"

fun height_at_most :: "nat \<Rightarrow> json \<Rightarrow> bool" where
  "height_at_most n (JArray items) = (\<forall>v \<in> set items. n > 0 \<and> height_at_most (n - 1) v)"
| "height_at_most n (JObject members) = (\<forall>(k, v) \<in> set members. n > 0 \<and> height_at_most (n - 1) v)"
| "height_at_most n v = True"

lemma check_entitlement_key_bytes_ok:
  "is_ok (check_entitlement_key_bytes i bs) \<longleftrightarrow>
     (\<forall>b \<in> set bs. is_ascii_alphanumeric b \<or> b \<in> {CHR ''.'', CHR ''-'', CHR ''_''})"
  by (induction bs arbitrary: i) auto

lemma validate_entitlement_key_ok: "is_ok (validate_entitlement_key k) \<longleftrightarrow> entitlement_key_ok k"
  by (auto simp: validate_entitlement_key_def MAX_ENTITLEMENT_KEY_BYTES_def entitlement_key_ok_def
      check_entitlement_key_bytes_ok)

lemma validate_entitlement_value_ok:
  "is_ok (validate_entitlement_value k v d) \<longleftrightarrow> d \<le> 16 \<and> plist_ok v \<and> height_at_most (16 - d) v"
proof (induction k v d rule: validate_entitlement_value.induct)
  case (1 k v d)
  note limits = MAX_ENTITLEMENT_DEPTH_def MAX_ENTITLEMENT_STRING_BYTES_def
    MAX_ENTITLEMENT_COLLECTION_ITEMS_def invalid_entitlement_value_def
  show ?case
  proof (cases "d \<le> 16")
    case False
    then show ?thesis by (subst validate_entitlement_value.simps) (simp add: limits)
  next
    case d: True
    show ?thesis
    proof (cases v)
      case (JNumber n)
      with d show ?thesis
        by (cases n) (subst validate_entitlement_value.simps, simp add: limits)+
    next
      case (JArray items)
      have "is_ok (validate_entitlement_value k v d) \<longleftrightarrow> length items \<le> 1024
          \<and> (\<forall>i \<in> set items. is_ok (validate_entitlement_value k i (d + 1)))"
        using JArray d by (subst validate_entitlement_value.simps) (auto simp: limits run_checks_ok_iff)
      also have "\<dots> \<longleftrightarrow> d \<le> 16 \<and> plist_ok v \<and> height_at_most (16 - d) v"
        using 1(1) [OF _ JArray] JArray d by (auto simp: limits)
      finally show ?thesis .
    next
      case (JObject members)
      have "is_ok (validate_entitlement_value k v d) \<longleftrightarrow> length members \<le> 1024
          \<and> (\<forall>(n, w) \<in> set members. entitlement_key_ok n \<and> is_ok (validate_entitlement_value (Some n) w (d + 1)))"
        using JObject d
        by (subst validate_entitlement_value.simps)
          (auto simp: limits run_checks_ok_iff validate_entitlement_key_ok simp del: run_checks.simps)
      also have "\<dots> \<longleftrightarrow> d \<le> 16 \<and> plist_ok v \<and> height_at_most (16 - d) v"
        using 1(2) [OF _ JObject] JObject d by (fastforce simp: limits)
      finally show ?thesis .
    qed (use d in \<open>subst validate_entitlement_value.simps, simp add: limits\<close>)+
  qed
qed

text \<open>
  [entitlements]: an entitlement dictionary is accepted exactly when it is a bounded property list:
  at most 1024 entries per collection, keys of at most 255 safe bytes, strings of at most 16 KiB, no
  null or floating-point value, and values nested at most 16 levels deep; what is accepted is stored
  unchanged.
\<close>

theorem entitlements_are_bounded_plists:
  "EntitlementSet_new values = Ok e \<longleftrightarrow>
     e = EntitlementSet values \<and> plist_ok (JObject values) \<and> (\<forall>(k, v) \<in> set values. height_at_most 16 v)"
proof -
  let ?check = "run_checks (map (\<lambda>(k, v).
      run_checks [validate_entitlement_key k, validate_entitlement_value (Some k) v 0]) values)"
  have checks: "is_ok ?check \<longleftrightarrow> (\<forall>(k, v) \<in> set values. entitlement_key_ok k \<and> plist_ok v \<and> height_at_most 16 v)"
    by (auto simp: run_checks_ok_iff validate_entitlement_key_ok validate_entitlement_value_ok
        simp del: run_checks.simps)
  have "EntitlementSet_new values = Ok e \<longleftrightarrow> length values \<le> 1024 \<and> is_ok ?check \<and> e = EntitlementSet values"
    by (cases ?check) (auto simp: EntitlementSet_new_def MAX_ENTITLEMENT_COLLECTION_ITEMS_def)
  then show ?thesis unfolding checks by auto
qed

theorem entitlements_are_bounded_plists_witness:
  "EntitlementSet_new [(''get-task-allow'', JBool True)] = Ok (EntitlementSet [(''get-task-allow'', JBool True)])"
proof -
  have "entitlement_key_ok ''get-task-allow''" by code_simp
  then show ?thesis by (simp add: entitlements_are_bounded_plists)
qed

section \<open>The canonical target graph\<close>

lemma decimal_colon_cancel:
  assumes "decimal m @ CHR '':'' # r = decimal n @ CHR '':'' # s"
  shows "m = n \<and> r = s"
proof -
  have split: "takeWhile is_ascii_digit (decimal k @ CHR '':'' # t) = decimal k"
    "dropWhile is_ascii_digit (decimal k @ CHR '':'' # t) = CHR '':'' # t" for k t
    using decimal_digits [of k]
    by (simp_all add: list_all_iff takeWhile_append2 dropWhile_append2 is_ascii_digit_def)
  have "decimal m = decimal n" using split(1) assms by metis
  moreover have "CHR '':'' # r = CHR '':'' # s" using split(2) assms by metis
  ultimately show ?thesis by (simp add: decimal_inject)
qed

interpretation canonical_field: self_delimiting canonical_field "\<lambda>_. True"
proof unfold_locales
  fix x y r s
  assume "canonical_field x @ r = canonical_field y @ s"
  then have "decimal (length x) @ CHR '':'' # x @ r = decimal (length y) @ CHR '':'' # y @ s"
    by (simp add: canonical_field_def canonical_length_def)
  then have "length x = length y" "x @ r = y @ s" by (auto dest: decimal_colon_cancel)
  then show "x = y \<and> r = s" by simp
qed

lemma signing_target_kind_name_inject:
  "signing_target_kind_name a = signing_target_kind_name b \<longleftrightarrow> a = b"
  by (cases a; cases b) (simp_all add: signing_target_kind_name_def)

interpretation canonical_target: self_delimiting canonical_target "\<lambda>_. True"
proof unfold_locales
  fix x y :: SigningTarget and r s
  assume eq: "canonical_target x @ r = canonical_target y @ s"
  then have "signing_target_kind_name (target_kind x) = signing_target_kind_name (target_kind y)"
    and "target_name x = target_name y"
    and "bundle_str (target_bundle_identifier x) = bundle_str (target_bundle_identifier y)" and "r = s"
    by (auto simp: canonical_target_def dest!: canonical_field.cancel [rotated 2])
  then show "x = y \<and> r = s"
    by (simp add: signing_target_kind_name_inject BundleIdentifier.expand)
qed

lemma target_sort_key_inject: "inj target_sort_key"
proof (rule injI)
  fix x y :: SigningTarget
  assume "target_sort_key x = target_sort_key y"
  then show "x = y"
    by (simp add: target_sort_key_def signing_target_kind_name_inject BundleIdentifier.expand)
qed

lemma sorted_targets_unique:
  assumes "mset xs = mset ys"
  shows "sort_key target_sort_key xs = sort_key target_sort_key ys"
proof -
  have "map target_sort_key (sort_key target_sort_key zs) = sort (map target_sort_key zs)" for zs
    by (rule properties_for_sort [symmetric]) (simp_all add: sorted_sort_key)
  moreover have "sort (map target_sort_key xs) = sort (map target_sort_key ys)"
    using assms by (metis mset_map sorted_list_of_multiset_mset)
  ultimately show ?thesis by (metis inj_map_eq_map target_sort_key_inject)
qed

lemma preimage_determines_targets:
  assumes "signing_target_graph_preimage xs = signing_target_graph_preimage ys"
  shows "mset xs = mset ys"
proof -
  let ?s = "sort_key target_sort_key"
  have "decimal (length xs) @ CHR '':'' # concat (map canonical_target (?s xs))
      = decimal (length ys) @ CHR '':'' # concat (map canonical_target (?s ys))"
    using assms by (simp add: signing_target_graph_preimage_def canonical_length_def)
  then have "length xs = length ys"
    and "concat (map canonical_target (?s xs)) = concat (map canonical_target (?s ys))"
    by (auto dest: decimal_colon_cancel)
  then have "?s xs = ?s ys"
    using canonical_target.cancel_list [of "?s xs" "?s ys" "[]" "[]"] by simp
  then show ?thesis by (metis mset_sort)
qed

text \<open>
  [target_graph]: the digest input of a target graph is canonical: it is the same for two target
  lists exactly when they hold the same targets with the same multiplicities, so the digest does not
  depend on the order of the targets and no two different graphs share an input.
\<close>

theorem target_graph_preimage_is_canonical:
  "signing_target_graph_preimage xs = signing_target_graph_preimage ys \<longleftrightarrow> mset xs = mset ys"
proof
  assume m: "mset xs = mset ys"
  then have "length xs = length ys" by (metis size_mset)
  with sorted_targets_unique [OF m]
  show "signing_target_graph_preimage xs = signing_target_graph_preimage ys"
    by (simp add: signing_target_graph_preimage_def)
qed (rule preimage_determines_targets)

section \<open>Plans\<close>

lemma push_if_Nil [simp]: "push_if b e = [] \<longleftrightarrow> \<not> b"
  by (simp add: push_if_def)

lemma scan_target_pair:
  "scan_target t (names, bundles, apps, errors) =
     (insert (target_name t) names, insert (bundle_str (target_bundle_identifier t)) bundles,
      if target_kind t = Application then apps + 1 else apps,
      errors @ push_if (\<not> is_safe_identifier (target_name t)) InvalidTargetName
        @ push_if (target_name t \<in> names) (DuplicateTarget (target_name t))
        @ push_if (bundle_str (target_bundle_identifier t) \<in> bundles)
            (DuplicateBundleIdentifier (bundle_str (target_bundle_identifier t))))"
  by (simp add: scan_target_def)

lemma scan_provisioning_pair:
  "scan_provisioning m names p (seen, errors) =
     (insert (prov_target p) seen,
      errors @ push_if (prov_target p \<notin> names) (UnknownProvisioningTarget (prov_target p))
        @ push_if (prov_target p \<in> seen) (AmbiguousProvisioningProfile (prov_target p))
        @ push_if (case expected_profile_type m of None \<Rightarrow> False | Some e \<Rightarrow> prov_type p \<noteq> e) ProfileTypeMismatch)"
  by (simp add: scan_provisioning_def)

lemma scan_entitlements_pair:
  "scan_entitlements names p (seen, errors) =
     (insert (ent_target p) seen,
      errors @ push_if (ent_target p \<notin> names) (UnknownEntitlementTarget (ent_target p))
        @ push_if (ent_target p \<in> seen) (DuplicateEntitlementPlan (ent_target p)))"
  by (simp add: scan_entitlements_def)

text \<open>
  A validator loop that records keys it has seen and reports per item is silent exactly when the keys
  are distinct, new, and no item is bad on its own.
\<close>

lemma scan_targets_state:
  "fold scan_target ts (names, bundles, apps, errors) = (names', bundles', apps', errors') \<Longrightarrow>
     names' = names \<union> target_name ` set ts \<and> apps' = apps + length (filter (\<lambda>t. target_kind t = Application) ts)
     \<and> (errors' = [] \<longleftrightarrow> errors = [] \<and> (\<forall>t \<in> set ts. is_safe_identifier (target_name t))
        \<and> distinct (map target_name ts) \<and> target_name ` set ts \<inter> names = {}
        \<and> distinct (map (\<lambda>t. bundle_str (target_bundle_identifier t)) ts)
        \<and> (\<lambda>t. bundle_str (target_bundle_identifier t)) ` set ts \<inter> bundles = {})"
proof (induction ts arbitrary: names bundles apps errors)
  case Nil
  then show ?case by auto
next
  case (Cons t ts)
  note Cons.IH [OF Cons.prems [unfolded fold_Cons comp_apply scan_target_pair]]
  then show ?case by auto
qed

lemma scan_provisioning_state:
  "fold (scan_provisioning m names) ps (seen, errors) = (seen', errors') \<Longrightarrow>
     seen' = seen \<union> prov_target ` set ps
     \<and> (errors' = [] \<longleftrightarrow> errors = [] \<and> prov_target ` set ps \<subseteq> names
        \<and> distinct (map prov_target ps) \<and> prov_target ` set ps \<inter> seen = {}
        \<and> (\<forall>p \<in> set ps. \<forall>e. expected_profile_type m = Some e \<longrightarrow> prov_type p = e))"
proof (induction ps arbitrary: seen errors)
  case Nil
  then show ?case by auto
next
  case (Cons p ps)
  note Cons.IH [OF Cons.prems [unfolded fold_Cons comp_apply scan_provisioning_pair]]
  then show ?case by (auto split: option.splits)
qed

lemma scan_entitlements_state:
  "fold (scan_entitlements names) ps (seen, errors) = (seen', errors') \<Longrightarrow>
     seen' = seen \<union> ent_target ` set ps
     \<and> (errors' = [] \<longleftrightarrow> errors = [] \<and> ent_target ` set ps \<subseteq> names
        \<and> distinct (map ent_target ps) \<and> ent_target ` set ps \<inter> seen = {})"
proof (induction ps arbitrary: seen errors)
  case Nil
  then show ?case by auto
next
  case (Cons p ps)
  note Cons.IH [OF Cons.prems [unfolded fold_Cons comp_apply scan_entitlements_pair]]
  then show ?case by auto
qed

definition needs_profile :: "SigningPlan \<Rightarrow> SigningTarget \<Rightarrow> bool" where
  "needs_profile plan t \<longleftrightarrow> is_signed (plan_mode plan) \<and> target_kind t \<in> {Application, Extension}"

lemma per_target_errors_Nil:
  "validate_per_target_plans plan names errors = [] \<longleftrightarrow> errors = []
     \<and> prov_target ` set (plan_provisioning plan) \<subseteq> names \<and> distinct (map prov_target (plan_provisioning plan))
     \<and> (\<forall>p \<in> set (plan_provisioning plan). \<forall>e. expected_profile_type (plan_mode plan) = Some e \<longrightarrow> prov_type p = e)
     \<and> ent_target ` set (plan_entitlements plan) \<subseteq> names \<and> distinct (map ent_target (plan_entitlements plan))
     \<and> (\<forall>t \<in> set (plan_targets plan). needs_profile plan t \<longrightarrow>
          target_name t \<in> prov_target ` set (plan_provisioning plan)
          \<and> target_name t \<in> ent_target ` set (plan_entitlements plan))"
proof -
  obtain seen1 errors1 where one:
    "fold (scan_provisioning (plan_mode plan) names) (plan_provisioning plan) ({}, errors) = (seen1, errors1)"
    by fastforce
  obtain seen2 errors2 where two:
    "fold (scan_entitlements names) (plan_entitlements plan) ({}, errors1) = (seen2, errors2)"
    by fastforce
  have loop: "concat (map (\<lambda>t. if \<not> is_signed (plan_mode plan) \<or> target_kind t \<notin> {Application, Extension} then []
        else push_if (target_name t \<notin> seen1) (MissingProvisioningProfile (target_name t))
          @ push_if (target_name t \<notin> seen2) (MissingEntitlementPlan (target_name t))) ts) = []
    \<longleftrightarrow> (\<forall>t \<in> set ts. needs_profile plan t \<longrightarrow> target_name t \<in> seen1 \<and> target_name t \<in> seen2)" for ts
    by (induction ts) (auto simp: needs_profile_def)
  have "validate_per_target_plans plan names errors = [] \<longleftrightarrow> errors2 = []
    \<and> (\<forall>t \<in> set (plan_targets plan). needs_profile plan t \<longrightarrow> target_name t \<in> seen1 \<and> target_name t \<in> seen2)"
    unfolding validate_per_target_plans_def one two Let_def prod.case append_is_Nil_conv loop ..
  with scan_provisioning_state [OF one] scan_entitlements_state [OF two] show ?thesis by simp
qed

text \<open>The structural conditions a signing plan has to meet, whatever its mode.\<close>

definition plan_targets_ok :: "SigningPlan \<Rightarrow> bool" where
  "plan_targets_ok plan \<longleftrightarrow>
     (\<forall>t \<in> set (plan_targets plan). is_safe_identifier (target_name t))
     \<and> distinct (map target_name (plan_targets plan))
     \<and> distinct (map (\<lambda>t. bundle_str (target_bundle_identifier t)) (plan_targets plan))
     \<and> length (filter (\<lambda>t. target_kind t = Application) (plan_targets plan)) = 1"

definition plan_profiles_ok :: "SigningPlan \<Rightarrow> bool" where
  "plan_profiles_ok plan \<longleftrightarrow>
     prov_target ` set (plan_provisioning plan) \<subseteq> target_name ` set (plan_targets plan)
     \<and> distinct (map prov_target (plan_provisioning plan))
     \<and> (\<forall>p \<in> set (plan_provisioning plan). \<forall>e. expected_profile_type (plan_mode plan) = Some e \<longrightarrow> prov_type p = e)
     \<and> ent_target ` set (plan_entitlements plan) \<subseteq> target_name ` set (plan_targets plan)
     \<and> distinct (map ent_target (plan_entitlements plan))
     \<and> (\<forall>t \<in> set (plan_targets plan). needs_profile plan t \<longrightarrow>
          target_name t \<in> prov_target ` set (plan_provisioning plan)
          \<and> target_name t \<in> ent_target ` set (plan_entitlements plan))"

definition plan_mode_ok :: "SigningPlan \<Rightarrow> bool" where
  "plan_mode_ok plan \<longleftrightarrow>
     (if plan_mode plan = UnsignedCompileOnly
      then plan_signing plan = None \<and> plan_provisioning plan = [] \<and> \<not> allow_provisioning_updates plan
      else plan_team plan \<noteq> None
        \<and> (requires_device (plan_mode plan) \<longrightarrow> plan_device plan \<noteq> None)
        \<and> (requires_identity_reference (plan_mode plan) \<longrightarrow> plan_signing plan \<noteq> None)
        \<and> (\<forall>s. plan_signing plan = Some s \<longrightarrow>
             is_ok (SigningCertificate_validate (identity_certificate (reference_identity s)))
             \<and> (\<forall>t. plan_team plan = Some t \<longrightarrow>
                  team_id (cert_team (identity_certificate (reference_identity s))) = team_id (expected_team t))
             \<and> (plan_mode plan = ManualDevelopment \<longrightarrow> reference_password s \<noteq> None)))"

lemma mode_errors_Nil: "mode_errors plan = [] \<longleftrightarrow> plan_mode_ok plan"
  by (auto simp: mode_errors_def plan_mode_ok_def split: option.splits sum.splits)

lemma SigningPlan_validate_ok:
  "is_ok (SigningPlan_validate plan) \<longleftrightarrow> plan_mode_ok plan \<and> plan_targets_ok plan \<and> plan_profiles_ok plan"
proof -
  obtain names bundles apps errors where scan:
    "fold scan_target (plan_targets plan) ({}, {}, 0, mode_errors plan) = (names, bundles, apps, errors)"
    by (metis prod_cases4)
  have one: "(if n = 0 then [MissingApplicationTarget] else push_if (n > 1) MultipleApplicationTargets) = [] \<longleftrightarrow> n = 1"
    for n :: nat by auto
  from scan_targets_state [OF scan] show ?thesis
    by (auto simp: SigningPlan_validate_def scan per_target_errors_Nil mode_errors_Nil plan_targets_ok_def
        plan_profiles_ok_def one)
qed

text \<open>
  C8 [plan_exact]: plan validation is exact. A plan passes exactly when the conditions of its mode hold,
  its target names and bundle identifiers are unique and safe with one application among them, and
  every signed application and extension has exactly one profile, of the mode's type, and one
  entitlement plan, with no plan for an unknown target; a failing plan reports at least one error.
\<close>

theorem signing_plan_validation_is_exact:
  "(SigningPlan_validate plan = Ok () \<longleftrightarrow> plan_mode_ok plan \<and> plan_targets_ok plan \<and> plan_profiles_ok plan)
   \<and> SigningPlan_validate plan \<noteq> Err []"
  using SigningPlan_validate_ok [of plan]
  by (auto simp: is_ok_unit SigningPlan_validate_def Let_def split: prod.splits)

lemma kind_le_Application: "k \<le> Application"
  by (cases k) (simp_all add: less_eq_SigningTargetKind_def kind_rank_def)

lemma sorted_maximum_last:
  assumes "sorted (map f xs)" "\<forall>x \<in> set xs. f x \<le> m" "length (filter (\<lambda>x. f x = m) xs) = 1"
  shows "\<exists>pre x. xs = pre @ [x] \<and> f x = m \<and> (\<forall>y \<in> set pre. f y \<noteq> (m :: 'b::linorder))"
proof -
  have "xs \<noteq> []" using assms(3) by auto
  then obtain pre x where xs: "xs = pre @ [x]" by (metis rev_exhaust)
  have le: "\<forall>y \<in> set pre. f y \<le> f x" using assms(1) xs by (auto simp: sorted_append)
  have "\<exists>y \<in> set xs. f y = m"
    using assms(3) by (metis (mono_tags, lifting) filter_False list.size(3) zero_neq_one)
  with le xs assms(2) have x: "f x = m" by (metis antisym in_set_conv_decomp set_ConsD rotate1.simps(2) set_rotate1)
  with assms(3) xs have "filter (\<lambda>y. f y = m) pre = []" by simp
  with xs x show ?thesis by (auto simp: filter_empty_conv)
qed

text \<open>
  C37 [signing_order]: code is signed from the inside out. The signing order holds exactly the plan's
  targets, libraries before frameworks before extensions, in plan order within a kind, and for a plan
  that validates the application is the last target and the only one of its kind.
\<close>

theorem signing_order_is_inside_out:
  assumes "SigningPlan_validate plan = Ok ()"
  shows "mset (targets_in_signing_order plan) = mset (plan_targets plan)
    \<and> sorted (map target_kind (targets_in_signing_order plan))
    \<and> (\<forall>k. filter (\<lambda>t. target_kind t = k) (targets_in_signing_order plan)
          = filter (\<lambda>t. target_kind t = k) (plan_targets plan))
    \<and> (\<exists>nested app. targets_in_signing_order plan = nested @ [app] \<and> target_kind app = Application
         \<and> (\<forall>t \<in> set nested. target_kind t \<noteq> Application))"
proof -
  have stable: "filter (\<lambda>t. target_kind t = k) (targets_in_signing_order plan)
      = filter (\<lambda>t. target_kind t = k) (plan_targets plan)" for k
    unfolding targets_in_signing_order_def by (rule sort_key_stable)
  have "length (filter (\<lambda>t. target_kind t = Application) (plan_targets plan)) = 1"
    using SigningPlan_validate_ok [of plan] assms by (simp add: plan_targets_ok_def)
  then have "\<exists>nested app. targets_in_signing_order plan = nested @ [app] \<and> target_kind app = Application
         \<and> (\<forall>t \<in> set nested. target_kind t \<noteq> Application)"
    by (intro sorted_maximum_last) (simp_all add: stable kind_le_Application, simp add: targets_in_signing_order_def)
  then show ?thesis using stable by (simp add: targets_in_signing_order_def)
qed

definition example_unsigned_plan :: SigningPlan where
  "example_unsigned_plan =
     \<lparr>plan_mode = UnsignedCompileOnly, plan_signing = None, plan_team = None, plan_device = None,
      plan_targets =
        [\<lparr>target_name = ''App'', target_bundle_identifier = BundleIdentifier ''com.example.app'', target_kind = Application\<rparr>,
         \<lparr>target_name = ''Kit'', target_bundle_identifier = BundleIdentifier ''com.example.kit'', target_kind = Framework\<rparr>],
      plan_provisioning = [], plan_entitlements = [], allow_provisioning_updates = False\<rparr>"

lemma example_unsigned_plan_valid: "SigningPlan_validate example_unsigned_plan = Ok ()"
  by code_simp

theorem signing_order_is_inside_out_witness:
  "sorted (map target_kind (targets_in_signing_order example_unsigned_plan))"
  using signing_order_is_inside_out [OF example_unsigned_plan_valid] by blast

section \<open>Profiles and devices\<close>

lemma check_devices_ok:
  "is_ok (try_fold check_device seen ds) \<longleftrightarrow>
     (\<forall>d \<in> set ds. is_lowercase_sha256 d) \<and> distinct ds \<and> set ds \<inter> seen = {}"
proof (induction ds arbitrary: seen)
  case (Cons d ds)
  show ?case
  proof (cases "is_lowercase_sha256 d \<and> d \<notin> seen")
    case True
    then have "check_device seen d = Ok (insert d seen)"
      by (simp add: check_device_def DevicePlan_from_sha256_def unsafe_display_name_def)
    with Cons.IH True show ?thesis by auto
  next
    case False
    then have "\<not> is_ok (check_device seen d)"
      by (auto simp: check_device_def DevicePlan_from_sha256_def unsafe_display_name_def)
    with False show ?thesis by (auto split: sum.splits)
  qed
qed simp

lemma validate_fingerprint_ok: "is_ok (validate_fingerprint f) \<longleftrightarrow> length f = 64 \<and> list_all is_ascii_hexdigit f"
  by (simp add: validate_fingerprint_def)

lemma is_ok_and_then_unit [simp]: "is_ok (and_then r (\<lambda>_. Ok ())) \<longleftrightarrow> is_ok r"
  by (cases r) simp_all

text \<open>
  [profile_window]: a provisioning profile is accepted at a time exactly when that time lies in its
  validity window (creation included, expiry excluded), its application identifier is its team and
  its bundle pattern, it is an iOS profile, it names at least one certificate by a 64-digit
  fingerprint, its device digests are well formed and distinct, and it lists devices exactly when its
  type is bound to devices.
\<close>

theorem profile_accepted_exactly_in_window:
  "validate_metadata_at p now = Ok () \<longleftrightarrow>
     created_at_unix_seconds p \<le> now \<and> now < expires_at_unix_seconds p
     \<and> is_profile_identifier (profile_uuid p) \<and> is_safe_label (profile_name p) \<and> bundle_pattern_valid p
     \<and> application_identifier p = team_id (profile_team p) @ ''.'' @ bundle_identifier_pattern p
     \<and> Ios \<in> platforms p
     \<and> certificate_fingerprints p \<noteq> []
     \<and> list_all (\<lambda>f. length f = 64 \<and> list_all is_ascii_hexdigit f) (certificate_fingerprints p)
     \<and> list_all is_lowercase_sha256 (device_udid_sha256s p) \<and> distinct (device_udid_sha256s p)
     \<and> (device_udid_sha256s p = [] \<longleftrightarrow> profile_type p = ProfileAppStore)"
proof -
  have "validate_metadata_at p now = Ok () \<longleftrightarrow>
      is_ok (validate_metadata p) \<and> created_at_unix_seconds p \<le> now \<and> now < expires_at_unix_seconds p"
    by (cases "validate_metadata p") (auto simp: validate_metadata_at_def not_less)
  moreover have "is_ok (validate_metadata p) \<longleftrightarrow>
     created_at_unix_seconds p \<le> expires_at_unix_seconds p
     \<and> is_profile_identifier (profile_uuid p) \<and> is_safe_label (profile_name p) \<and> bundle_pattern_valid p
     \<and> application_identifier p = team_id (profile_team p) @ ''.'' @ bundle_identifier_pattern p
     \<and> Ios \<in> platforms p
     \<and> certificate_fingerprints p \<noteq> []
     \<and> list_all (\<lambda>f. length f = 64 \<and> list_all is_ascii_hexdigit f) (certificate_fingerprints p)
     \<and> list_all is_lowercase_sha256 (device_udid_sha256s p) \<and> distinct (device_udid_sha256s p)
     \<and> (device_udid_sha256s p = [] \<longleftrightarrow> profile_type p = ProfileAppStore)"
    unfolding validate_metadata_def run_checks_ok_iff
    by (cases "profile_type p")
      (auto simp: run_checks_ok_iff validate_fingerprint_ok check_devices_ok list_all_iff not_less
        simp del: run_checks.simps)
  ultimately show ?thesis by auto
qed

text \<open>
  A device plan built from a raw identifier keeps its digest and not the identifier,
  and recognises it again: the same identifier matches, and one with another digest does not. The
  digest function only has to return 64 lowercase hexadecimal digits.
\<close>

theorem device_plan_recognises_its_device:
  assumes "\<forall>b. is_lowercase_sha256 (sha256_hex b)"
    and "is_ok (validate_raw_udid udid)" "is_ok (validate_raw_udid other)"
  shows "\<exists>d. DevicePlan_new sha256_hex udid None = Ok d \<and> udid_sha256 d = sha256_hex udid
    \<and> matches_udid sha256_hex d udid = Ok True
    \<and> matches_udid sha256_hex d other = Ok (sha256_hex udid = sha256_hex other)"
  using assms
  by (auto simp: DevicePlan_new_def DevicePlan_from_sha256_def matches_udid_def sha256_lowercase_def
      unsafe_display_name_def is_ok_unit)

theorem device_plan_recognises_its_device_witness:
  "\<exists>d. DevicePlan_new (\<lambda>b. replicate 64 (hex_digit (length b mod 16))) ''00008110000A00000000001E'' None = Ok d"
proof -
  have format: "\<forall>b. is_lowercase_sha256 (replicate 64 (hex_digit (length (b :: bytes) mod 16)))"
    by (simp add: is_lowercase_sha256_def list_all_iff hex_digit_lower)
  have "is_ok (validate_raw_udid ''00008110000A00000000001E'')" by code_simp
  from device_plan_recognises_its_device [OF format this this] show ?thesis by blast
qed

text \<open>A segment of a bundle identifier, and the dotted names made of such segments.\<close>

definition bundle_segment_ok :: "string \<Rightarrow> bool" where
  "bundle_segment_ok s \<longleftrightarrow> s \<noteq> [] \<and> list_all (\<lambda>c. is_ascii_alphanumeric c \<or> c = CHR ''-'') s
     \<and> hd s \<noteq> CHR ''-'' \<and> last s \<noteq> CHR ''-''"

lemma bad_bundle_segment_iff: "bad_bundle_segment s \<longleftrightarrow> \<not> bundle_segment_ok s"
proof (cases "s = []")
  case False
  then have "hd s \<in> set s" "last s \<in> set s" by simp_all
  moreover have "\<not> is_ascii_alphanumeric (CHR ''-'')" by code_simp
  ultimately show ?thesis by (auto simp: bad_bundle_segment_def bundle_segment_ok_def list_all_iff)
qed (simp add: bad_bundle_segment_def bundle_segment_ok_def)

lemma bundle_segment_dotless: "bundle_segment_ok s \<Longrightarrow> CHR ''.'' \<notin> set s"
  by (auto simp: bundle_segment_ok_def list_all_iff ascii_class_defs)

lemma dotted_split:
  "(\<exists>segments. v = join ''.'' segments \<and> 2 \<le> length segments \<and> list_all bundle_segment_ok segments)
    \<longleftrightarrow> 2 \<le> length (split (CHR ''.'') v) \<and> list_all bundle_segment_ok (split (CHR ''.'') v)"
proof
  assume "\<exists>segments. v = join ''.'' segments \<and> 2 \<le> length segments \<and> list_all bundle_segment_ok segments"
  then obtain segments where s: "v = join ''.'' segments" "2 \<le> length segments"
    "list_all bundle_segment_ok segments" by blast
  then have "\<forall>x \<in> set segments. CHR ''.'' \<notin> set x"
    using bundle_segment_dotless by (auto simp: list_all_iff)
  with s(1,2) have "split (CHR ''.'') v = segments" by (metis split_join list.size(3) not_numeral_le_zero)
  with s show "2 \<le> length (split (CHR ''.'') v) \<and> list_all bundle_segment_ok (split (CHR ''.'') v)" by simp
qed (metis join_split)

lemma BundleIdentifier_new_ok:
  "BundleIdentifier_new v = Ok b \<longleftrightarrow> b = BundleIdentifier v \<and> length v \<le> 255
     \<and> 2 \<le> length (split (CHR ''.'') v) \<and> list_all bundle_segment_ok (split (CHR ''.'') v)"
  by (auto simp: BundleIdentifier_new_def list_ex_iff list_all_iff bad_bundle_segment_iff not_less)

text \<open>
  A bundle identifier is accepted exactly when it has at most 255 bytes and at least two
  dot-separated segments, each non-empty, made of letters, digits and inner hyphens, and it is kept
  unchanged.
\<close>

theorem bundle_identifier_language:
  "BundleIdentifier_new v = Ok b \<longleftrightarrow>
     b = BundleIdentifier v \<and> length v \<le> 255
     \<and> (\<exists>segments. v = join ''.'' segments \<and> 2 \<le> length segments \<and> list_all bundle_segment_ok segments)"
  unfolding BundleIdentifier_new_ok dotted_split ..

end
