(* ===== verification/Provisioning.thy ===== *)
theory Provisioning
  imports Signing
begin

text \<open>
  Decoded provisioning profiles (\<^verbatim>\<open>src/crates/rustferry-remote/src/profile.rs\<close>): the bounded traversal of the
  decoded property list, the field-by-field parser, and the validation of a parsed profile for one signing
  target, which collects every independent mismatch.

  The property-list reader and SHA-256 are parameters. A property list (\<open>plist::Value\<close>) is given by what the
  source asks of it: an integer by the answers of \<open>as_signed\<close> and \<open>as_unsigned\<close>, a date by the nanoseconds of its
  \<open>SystemTime\<close> after the Unix epoch, a dictionary by its entries in iteration order.
\<close>

section \<open>Property lists\<close>

datatype plist =
    PArray "plist list"
  | PDictionary "(string \<times> plist) list"
  | PBoolean bool
  | PData bytes
  | PDate int
  | PReal "64 word"
  | PInteger "64 word option" "64 word option"
  | PString string
  | PUid u64

fun as_string :: "plist \<Rightarrow> string option" where
  "as_string (PString s) = Some s"
| "as_string _ = None"

fun as_array :: "plist \<Rightarrow> plist list option" where
  "as_array (PArray xs) = Some xs"
| "as_array _ = None"

fun as_dictionary :: "plist \<Rightarrow> (string \<times> plist) list option" where
  "as_dictionary (PDictionary d) = Some d"
| "as_dictionary _ = None"

fun as_boolean :: "plist \<Rightarrow> bool option" where
  "as_boolean (PBoolean b) = Some b"
| "as_boolean _ = None"

fun as_data :: "plist \<Rightarrow> bytes option" where
  "as_data (PData d) = Some d"
| "as_data _ = None"

fun as_date :: "plist \<Rightarrow> int option" where
  "as_date (PDate d) = Some d"
| "as_date _ = None"

text \<open>The accessors of \<open>serde_json::Value\<close>.\<close>

fun json_as_str :: "json \<Rightarrow> string option" where
  "json_as_str (JString s) = Some s"
| "json_as_str _ = None"

fun json_as_bool :: "json \<Rightarrow> bool option" where
  "json_as_bool (JBool b) = Some b"
| "json_as_bool _ = None"

fun json_as_array :: "json \<Rightarrow> json list option" where
  "json_as_array (JArray xs) = Some xs"
| "json_as_array _ = None"

text \<open>\<open>Option::ok_or\<close>.\<close>

definition ok_or :: "'a option \<Rightarrow> 'e \<Rightarrow> 'e + 'a" where
  "ok_or x e = (case x of None \<Rightarrow> Err e | Some v \<Rightarrow> Ok v)"

lemma ok_or_Ok [simp]: "ok_or x e = Inr v \<longleftrightarrow> x = Some v"
  by (cases x) (simp_all add: ok_or_def)

lemma ok_or_simps [simp]: "ok_or None e = Err e" "ok_or (Some v) e = Ok v"
  by (simp_all add: ok_or_def)

section \<open>Limits, fields and errors\<close>

definition MAX_DECODED_PROFILE_BYTES :: nat where "MAX_DECODED_PROFILE_BYTES = 4 * 1024 * 1024"
definition MAX_PROFILE_DEPTH :: nat where "MAX_PROFILE_DEPTH = 16"
definition MAX_PROFILE_NODES :: nat where "MAX_PROFILE_NODES = 16384"
definition MAX_COLLECTION_ITEMS :: nat where "MAX_COLLECTION_ITEMS = 4096"
definition MAX_STRING_BYTES :: nat where "MAX_STRING_BYTES = 64 * 1024"
definition MAX_DATA_BYTES :: nat where "MAX_DATA_BYTES = 2 * 1024 * 1024"
definition MAX_TOTAL_DATA_BYTES :: nat where "MAX_TOTAL_DATA_BYTES = 3 * 1024 * 1024"
definition MAX_PROFILE_NAME_BYTES :: nat where "MAX_PROFILE_NAME_BYTES = 128"
definition MAX_UUID_BYTES :: nat where "MAX_UUID_BYTES = 64"
definition MAX_TEAM_NAME_BYTES :: nat where "MAX_TEAM_NAME_BYTES = 128"
definition MAX_APPLICATION_IDENTIFIER_BYTES :: nat where "MAX_APPLICATION_IDENTIFIER_BYTES = 266"
definition MAX_DEVICE_COUNT :: nat where "MAX_DEVICE_COUNT = 1024"
definition MAX_DEVICE_IDENTIFIER_BYTES :: nat where "MAX_DEVICE_IDENTIFIER_BYTES = 64"
definition MAX_PLATFORM_COUNT :: nat where "MAX_PLATFORM_COUNT = 8"
definition MAX_CERTIFICATE_COUNT :: nat where "MAX_CERTIFICATE_COUNT = 32"
definition MAX_CERTIFICATE_BYTES :: nat where "MAX_CERTIFICATE_BYTES = 128 * 1024"
definition MAX_APP_GROUP_COUNT :: nat where "MAX_APP_GROUP_COUNT = 1024"
definition MAX_APP_GROUP_BYTES :: nat where "MAX_APP_GROUP_BYTES = 255"

lemmas document_limits =
  MAX_PROFILE_DEPTH_def MAX_PROFILE_NODES_def MAX_COLLECTION_ITEMS_def MAX_STRING_BYTES_def
  MAX_DATA_BYTES_def MAX_TOTAL_DATA_BYTES_def

lemmas field_limits =
  MAX_PROFILE_NAME_BYTES_def MAX_UUID_BYTES_def MAX_TEAM_NAME_BYTES_def MAX_APPLICATION_IDENTIFIER_BYTES_def
  MAX_DEVICE_COUNT_def MAX_DEVICE_IDENTIFIER_BYTES_def MAX_PLATFORM_COUNT_def MAX_CERTIFICATE_COUNT_def
  MAX_CERTIFICATE_BYTES_def MAX_APP_GROUP_COUNT_def MAX_APP_GROUP_BYTES_def

definition APPLICATION_IDENTIFIER :: string where "APPLICATION_IDENTIFIER = ''application-identifier''"
definition TEAM_IDENTIFIER :: string where "TEAM_IDENTIFIER = ''com.apple.developer.team-identifier''"
definition GET_TASK_ALLOW :: string where "GET_TASK_ALLOW = ''get-task-allow''"
definition APPLICATION_GROUPS :: string where "APPLICATION_GROUPS = ''com.apple.security.application-groups''"

lemmas entitlement_keys =
  APPLICATION_IDENTIFIER_def TEAM_IDENTIFIER_def GET_TASK_ALLOW_def APPLICATION_GROUPS_def

datatype ProfileField =
    FieldDocument | FieldUuid | FieldName | FieldTeamIdentifier | FieldTeamName | FieldCreationDate
  | FieldExpirationDate | FieldPlatform | FieldProvisionedDevices | FieldProvisionsAllDevices
  | FieldDeveloperCertificates | FieldEntitlements | FieldApplicationIdentifier | FieldGetTaskAllow
  | FieldApplicationGroups

datatype ProvisioningProfileParseError =
    InputSize | MalformedPlist | DocumentBoundsExceeded | MissingField ProfileField
  | InvalidFieldType ProfileField | InvalidField ProfileField | FieldBounds ProfileField
  | UnsupportedPlatform | UnsupportedProfileType

fun field_text :: "ProfileField \<Rightarrow> string" where
  "field_text FieldDocument = ''document''"
| "field_text FieldUuid = ''UUID''"
| "field_text FieldName = ''Name''"
| "field_text FieldTeamIdentifier = ''TeamIdentifier''"
| "field_text FieldTeamName = ''TeamName''"
| "field_text FieldCreationDate = ''CreationDate''"
| "field_text FieldExpirationDate = ''ExpirationDate''"
| "field_text FieldPlatform = ''Platform''"
| "field_text FieldProvisionedDevices = ''ProvisionedDevices''"
| "field_text FieldProvisionsAllDevices = ''ProvisionsAllDevices''"
| "field_text FieldDeveloperCertificates = ''DeveloperCertificates''"
| "field_text FieldEntitlements = ''Entitlements''"
| "field_text FieldApplicationIdentifier = ''application-identifier''"
| "field_text FieldGetTaskAllow = ''get-task-allow''"
| "field_text FieldApplicationGroups = ''com.apple.security.application-groups''"

fun parse_error_text :: "ProvisioningProfileParseError \<Rightarrow> string" where
  "parse_error_text InputSize = ''decoded profile size is invalid''"
| "parse_error_text MalformedPlist = ''decoded profile plist is malformed''"
| "parse_error_text DocumentBoundsExceeded = ''decoded profile exceeds structural limits''"
| "parse_error_text (MissingField f) = ''profile field '' @ field_text f @ '' is missing''"
| "parse_error_text (InvalidFieldType f) = ''profile field '' @ field_text f @ '' has an invalid type''"
| "parse_error_text (InvalidField f) = ''profile field '' @ field_text f @ '' is invalid''"
| "parse_error_text (FieldBounds f) = ''profile field '' @ field_text f @ '' exceeds its limit''"
| "parse_error_text UnsupportedPlatform = ''provisioning profile platform is unsupported''"
| "parse_error_text UnsupportedProfileType = ''provisioning profile type is unsupported''"

section \<open>Bounds of the document\<close>

record document_bounds =
  bounds_nodes :: nat
  bounds_data_bytes :: nat

text \<open>
  The recursion of \<open>DocumentBounds::visit\<close> with its loops over items and members. The counters are naturals:
  each is compared with its limit as soon as it has grown, and an overflow of \<open>checked_add\<close> would return the
  same error as the limit does.
\<close>

fun visit :: "plist \<Rightarrow> nat \<Rightarrow> document_bounds \<Rightarrow> ProvisioningProfileParseError + document_bounds"
and visit_items :: "plist list \<Rightarrow> nat \<Rightarrow> document_bounds \<Rightarrow> ProvisioningProfileParseError + document_bounds"
and visit_members ::
    "(string \<times> plist) list \<Rightarrow> nat \<Rightarrow> document_bounds \<Rightarrow> ProvisioningProfileParseError + document_bounds" where
  "visit v depth b =
     (if depth > MAX_PROFILE_DEPTH then Err DocumentBoundsExceeded
      else
        let b = b\<lparr>bounds_nodes := bounds_nodes b + 1\<rparr> in
        if bounds_nodes b > MAX_PROFILE_NODES then Err DocumentBoundsExceeded
        else (case v of
            PArray items \<Rightarrow>
              if length items > MAX_COLLECTION_ITEMS then Err DocumentBoundsExceeded
              else visit_items items (depth + 1) b
          | PDictionary dictionary \<Rightarrow>
              if length dictionary > MAX_COLLECTION_ITEMS then Err DocumentBoundsExceeded
              else visit_members dictionary (depth + 1) b
          | PData d \<Rightarrow>
              if length d > MAX_DATA_BYTES then Err DocumentBoundsExceeded
              else let b = b\<lparr>bounds_data_bytes := bounds_data_bytes b + length d\<rparr> in
                if bounds_data_bytes b > MAX_TOTAL_DATA_BYTES then Err DocumentBoundsExceeded else Ok b
          | PString s \<Rightarrow> if length s > MAX_STRING_BYTES then Err DocumentBoundsExceeded else Ok b
          | _ \<Rightarrow> Ok b))"
| "visit_items [] depth b = Ok b"
| "visit_items (item # items) depth b = and_then (visit item depth b) (visit_items items depth)"
| "visit_members [] depth b = Ok b"
| "visit_members ((k, nested) # members) depth b =
     (if length k > MAX_STRING_BYTES then Err DocumentBoundsExceeded
      else and_then (visit nested depth b) (visit_members members depth))"

declare visit.simps [simp del]

definition validate_document_bounds :: "plist \<Rightarrow> ProvisioningProfileParseError + unit" where
  "validate_document_bounds v =
     and_then (visit v 0 \<lparr>bounds_nodes = 0, bounds_data_bytes = 0\<rparr>) (\<lambda>_. Ok ())"

section \<open>Reading fields\<close>

text \<open>\<open>Dictionary::get\<close>.\<close>

type_synonym dictionary = "(string \<times> plist) list"

definition required_value :: "dictionary \<Rightarrow> string \<Rightarrow> ProfileField \<Rightarrow> ProvisioningProfileParseError + plist" where
  "required_value dictionary k field = ok_or (map_of dictionary k) (MissingField field)"

definition required_bounded_string ::
    "dictionary \<Rightarrow> string \<Rightarrow> ProfileField \<Rightarrow> nat \<Rightarrow> ProvisioningProfileParseError + string" where
  "required_bounded_string dictionary k field max_bytes =
     and_then (required_value dictionary k field) (\<lambda>v.
     and_then (ok_or (as_string v) (InvalidFieldType field)) (\<lambda>s.
     if s = [] \<or> length s > max_bytes then Err (FieldBounds field) else Ok s))"

definition optional_bounded_string ::
    "dictionary \<Rightarrow> string \<Rightarrow> ProfileField \<Rightarrow> nat \<Rightarrow> ProvisioningProfileParseError + string option" where
  "optional_bounded_string dictionary k field max_bytes =
     (case map_of dictionary k of
        None \<Rightarrow> Ok None
      | Some v \<Rightarrow>
          and_then (ok_or (as_string v) (InvalidFieldType field)) (\<lambda>s.
          if s = [] \<or> length s > max_bytes then Err (FieldBounds field) else Ok (Some s)))"

definition optional_boolean ::
    "dictionary \<Rightarrow> string \<Rightarrow> ProfileField \<Rightarrow> ProvisioningProfileParseError + bool option" where
  "optional_boolean dictionary k field =
     (case map_of dictionary k of
        None \<Rightarrow> Ok None
      | Some v \<Rightarrow> and_then (ok_or (as_boolean v) (InvalidFieldType field)) (\<lambda>b. Ok (Some b)))"

definition parse_team_identifier :: "dictionary \<Rightarrow> ProvisioningProfileParseError + string" where
  "parse_team_identifier root =
     and_then (required_value root ''TeamIdentifier'' FieldTeamIdentifier) (\<lambda>v.
     and_then (ok_or (as_array v) (InvalidFieldType FieldTeamIdentifier)) (\<lambda>values.
     if length values \<noteq> 1 then Err (InvalidField FieldTeamIdentifier)
     else and_then (ok_or (as_string (hd values)) (InvalidFieldType FieldTeamIdentifier)) (\<lambda>team.
       if length team \<noteq> 10 then Err (InvalidField FieldTeamIdentifier) else Ok team)))"

text \<open>
  \<open>duration_since(UNIX_EPOCH)\<close> fails for a time before the epoch; \<open>as_secs\<close> drops the fraction of a second.
  A \<open>SystemTime\<close> holds 64-bit signed seconds, so that the conversion to \<open>u64\<close> is exact.
\<close>

definition required_unix_date :: "dictionary \<Rightarrow> string \<Rightarrow> ProfileField \<Rightarrow> ProvisioningProfileParseError + u64" where
  "required_unix_date root k field =
     and_then (required_value root k field) (\<lambda>v.
     and_then (ok_or (as_date v) (InvalidFieldType field)) (\<lambda>nanoseconds.
     if nanoseconds < 0 then Err (InvalidField field)
     else Ok (of_int (nanoseconds div 1000000000))))"

definition parse_platform ::
    "ProvisioningPlatform set \<Rightarrow> plist \<Rightarrow> ProvisioningProfileParseError + ProvisioningPlatform set" where
  "parse_platform seen v =
     (case as_string v of
        Some s \<Rightarrow>
          if s = ''iOS'' then (if Ios \<in> seen then Err (InvalidField FieldPlatform) else Ok (insert Ios seen))
          else Err UnsupportedPlatform
      | None \<Rightarrow> Err (InvalidFieldType FieldPlatform))"

definition parse_platforms :: "dictionary \<Rightarrow> ProvisioningProfileParseError + ProvisioningPlatform set" where
  "parse_platforms root =
     and_then (required_value root ''Platform'' FieldPlatform) (\<lambda>v.
     and_then (ok_or (as_array v) (InvalidFieldType FieldPlatform)) (\<lambda>values.
     if values = [] \<or> length values > MAX_PLATFORM_COUNT then Err (FieldBounds FieldPlatform)
     else try_fold parse_platform {} values))"

text \<open>The loops over devices and certificates thread the set of the digests seen and the digests in order.\<close>

definition parse_device ::
    "(bytes \<Rightarrow> bytes) \<Rightarrow> string set \<times> string list \<Rightarrow> plist
     \<Rightarrow> ProvisioningProfileParseError + string set \<times> string list" where
  "parse_device sha = (\<lambda>(seen, digests) v.
     and_then (ok_or (as_string v) (InvalidFieldType FieldProvisionedDevices)) (\<lambda>device.
     if device = [] \<or> length device > MAX_DEVICE_IDENTIFIER_BYTES then Err (InvalidField FieldProvisionedDevices)
     else and_then (map_err (\<lambda>_. InvalidField FieldProvisionedDevices) (DevicePlan_new (hex_encode \<circ> sha) device None))
       (\<lambda>plan.
        if udid_sha256 plan \<in> seen then Err (InvalidField FieldProvisionedDevices)
        else Ok (insert (udid_sha256 plan) seen, digests @ [udid_sha256 plan]))))"

definition parse_device_identifier_sha256s ::
    "(bytes \<Rightarrow> bytes) \<Rightarrow> dictionary \<Rightarrow> ProvisioningProfileParseError + string list" where
  "parse_device_identifier_sha256s sha root =
     (case map_of root ''ProvisionedDevices'' of
        None \<Rightarrow> Ok []
      | Some v \<Rightarrow>
          and_then (ok_or (as_array v) (InvalidFieldType FieldProvisionedDevices)) (\<lambda>values.
          if length values > MAX_DEVICE_COUNT then Err (FieldBounds FieldProvisionedDevices)
          else and_then (try_fold (parse_device sha) ({}, []) values) (\<lambda>(_, digests). Ok digests)))"

definition uppercase_hex :: "bytes \<Rightarrow> string" where
  "uppercase_hex bs =
     concat (map (\<lambda>b. [''0123456789ABCDEF'' ! (byte b div 16), ''0123456789ABCDEF'' ! (byte b mod 16)]) bs)"

definition parse_certificate ::
    "(bytes \<Rightarrow> bytes) \<Rightarrow> string set \<times> string list \<Rightarrow> plist
     \<Rightarrow> ProvisioningProfileParseError + string set \<times> string list" where
  "parse_certificate sha = (\<lambda>(seen, fingerprints) v.
     and_then (ok_or (as_data v) (InvalidFieldType FieldDeveloperCertificates)) (\<lambda>certificate.
     if certificate = [] \<or> length certificate > MAX_CERTIFICATE_BYTES
     then Err (FieldBounds FieldDeveloperCertificates)
     else
       let fingerprint = uppercase_hex (sha certificate) in
       if fingerprint \<in> seen then Err (InvalidField FieldDeveloperCertificates)
       else Ok (insert fingerprint seen, fingerprints @ [fingerprint])))"

definition parse_certificate_fingerprints ::
    "(bytes \<Rightarrow> bytes) \<Rightarrow> dictionary \<Rightarrow> ProvisioningProfileParseError + string list" where
  "parse_certificate_fingerprints sha root =
     and_then (required_value root ''DeveloperCertificates'' FieldDeveloperCertificates) (\<lambda>v.
     and_then (ok_or (as_array v) (InvalidFieldType FieldDeveloperCertificates)) (\<lambda>values.
     if values = [] \<or> length values > MAX_CERTIFICATE_COUNT then Err (FieldBounds FieldDeveloperCertificates)
     else and_then (try_fold (parse_certificate sha) ({}, []) values) (\<lambda>(_, fingerprints). Ok fingerprints)))"

section \<open>Entitlements\<close>

definition invalid_entitlement :: ProvisioningProfileParseError where
  "invalid_entitlement = InvalidField FieldEntitlements"

text \<open>\<open>JsonNumber::from\<close> on a signed and on an unsigned integer.\<close>

definition number_from_signed :: "64 word \<Rightarrow> number" where
  "number_from_signed i = (if 0 \<le> sint i then PosInt i else NegInt i)"

fun plist_entitlement_to_json :: "plist \<Rightarrow> ProvisioningProfileParseError + json"
and plist_items_to_json :: "plist list \<Rightarrow> ProvisioningProfileParseError + json list"
and plist_members_to_json ::
    "dictionary \<Rightarrow> (string \<times> json) list \<Rightarrow> ProvisioningProfileParseError + (string \<times> json) list" where
  "plist_entitlement_to_json v =
     (case v of
        PBoolean b \<Rightarrow> Ok (JBool b)
      | PInteger i64_answer u64_answer \<Rightarrow>
          (case i64_answer of
             Some i \<Rightarrow> Ok (JNumber (number_from_signed i))
           | None \<Rightarrow> (case u64_answer of Some n \<Rightarrow> Ok (JNumber (PosInt n)) | None \<Rightarrow> Err invalid_entitlement))
      | PString s \<Rightarrow> Ok (JString s)
      | PArray values \<Rightarrow> and_then (plist_items_to_json values) (\<lambda>items. Ok (JArray items))
      | PDictionary values \<Rightarrow> and_then (plist_members_to_json values []) (\<lambda>object. Ok (JObject object))
      | _ \<Rightarrow> Err invalid_entitlement)"
| "plist_items_to_json [] = Ok []"
| "plist_items_to_json (v # vs) =
     and_then (plist_entitlement_to_json v) (\<lambda>item. and_then (plist_items_to_json vs) (\<lambda>items. Ok (item # items)))"
| "plist_members_to_json [] object = Ok object"
| "plist_members_to_json ((k, v) # members) object =
     and_then (plist_entitlement_to_json v) (\<lambda>item. plist_members_to_json members (btree_insert k item object))"

declare plist_entitlement_to_json.simps [simp del]

definition parse_entitlements :: "dictionary \<Rightarrow> ProvisioningProfileParseError + EntitlementSet" where
  "parse_entitlements root =
     and_then (required_value root ''Entitlements'' FieldEntitlements) (\<lambda>v.
     and_then (ok_or (as_dictionary v) (InvalidFieldType FieldEntitlements)) (\<lambda>dictionary.
     and_then (plist_members_to_json dictionary []) (\<lambda>values.
     map_err (\<lambda>_. InvalidField FieldEntitlements) (EntitlementSet_new values))))"

definition requested_group :: "string set \<Rightarrow> json \<Rightarrow> unit + string set" where
  "requested_group groups v =
     (case json_as_str v of
        None \<Rightarrow> Err ()
      | Some g \<Rightarrow>
          if length g > MAX_APP_GROUP_BYTES \<or> \<not> prefix ''group.'' g \<or> \<not> is_ok (BundleIdentifier_new g)
            \<or> g \<in> groups
          then Err () else Ok (insert g groups))"

definition requested_application_groups :: "json \<Rightarrow> string set option" where
  "requested_application_groups required =
     (case json_as_array required of
        None \<Rightarrow> None
      | Some values \<Rightarrow>
          if values = [] \<or> length values > MAX_APP_GROUP_COUNT then None
          else (case try_fold requested_group {} values of Inl _ \<Rightarrow> None | Inr groups \<Rightarrow> Some groups))"

definition profile_application_groups :: "ProvisioningProfile \<Rightarrow> string set option" where
  "profile_application_groups p =
     Option.bind (EntitlementSet_get (profile_entitlements p) APPLICATION_GROUPS) requested_application_groups"

section \<open>Parsing a profile\<close>

definition parse_provisioning_profile_value ::
    "(bytes \<Rightarrow> bytes) \<Rightarrow> plist \<Rightarrow> ProvisioningProfileParseError + ProvisioningProfile" where
  "parse_provisioning_profile_value sha v =
     and_then (validate_document_bounds v) (\<lambda>_.
     and_then (ok_or (as_dictionary v) (InvalidFieldType FieldDocument)) (\<lambda>root.
     and_then (required_bounded_string root ''UUID'' FieldUuid MAX_UUID_BYTES) (\<lambda>uuid.
     and_then (required_bounded_string root ''Name'' FieldName MAX_PROFILE_NAME_BYTES) (\<lambda>name.
     and_then (parse_team_identifier root) (\<lambda>team_identifier.
     and_then (optional_bounded_string root ''TeamName'' FieldTeamName MAX_TEAM_NAME_BYTES) (\<lambda>team_name.
     and_then (map_err (\<lambda>_. InvalidField FieldTeamIdentifier) (DevelopmentTeam_new team_identifier team_name)) (\<lambda>team.
     and_then (required_unix_date root ''CreationDate'' FieldCreationDate) (\<lambda>created_at.
     and_then (required_unix_date root ''ExpirationDate'' FieldExpirationDate) (\<lambda>expires_at.
     and_then (parse_platforms root) (\<lambda>parsed_platforms.
     and_then (parse_device_identifier_sha256s sha root) (\<lambda>devices.
     and_then (parse_certificate_fingerprints sha root) (\<lambda>fingerprints.
     and_then (parse_entitlements root) (\<lambda>entitlements.
     and_then (ok_or
         (case Option.bind (EntitlementSet_get entitlements APPLICATION_IDENTIFIER) json_as_str of
            Some identifier \<Rightarrow> (if identifier = [] then None else Some identifier)
          | None \<Rightarrow> None)
         (InvalidField FieldApplicationIdentifier)) (\<lambda>identifier.
     and_then (reject_if (length identifier > MAX_APPLICATION_IDENTIFIER_BYTES)
         (FieldBounds FieldApplicationIdentifier)) (\<lambda>_.
     and_then (reject_if
         (case EntitlementSet_get entitlements TEAM_IDENTIFIER of
            None \<Rightarrow> False | Some entitlement_team \<Rightarrow> json_as_str entitlement_team \<noteq> Some (team_id team))
         (InvalidField FieldTeamIdentifier)) (\<lambda>_.
     and_then (ok_or
         (case strip_prefix (team_id team @ ''.'') identifier of
            Some pattern \<Rightarrow> (if pattern = [] then None else Some pattern)
          | None \<Rightarrow> None)
         (InvalidField FieldApplicationIdentifier)) (\<lambda>pattern.
     and_then (ok_or (Option.bind (EntitlementSet_get entitlements GET_TASK_ALLOW) json_as_bool)
         (InvalidField FieldGetTaskAllow)) (\<lambda>get_task_allow.
     and_then (reject_if
         (case EntitlementSet_get entitlements APPLICATION_GROUPS of
            None \<Rightarrow> False | Some groups \<Rightarrow> requested_application_groups groups = None)
         (InvalidField FieldApplicationGroups)) (\<lambda>_.
     and_then (optional_boolean root ''ProvisionsAllDevices'' FieldProvisionsAllDevices) (\<lambda>all_devices.
     and_then (reject_if (all_devices = Some True) UnsupportedProfileType) (\<lambda>_.
       let profile =
         \<lparr>profile_uuid = uuid, profile_name = name, profile_team = team, application_identifier = identifier,
          bundle_identifier_pattern = pattern, wildcard = (pattern = ''*'' \<or> suffix ''.*'' pattern),
          created_at_unix_seconds = created_at, expires_at_unix_seconds = expires_at,
          device_udid_sha256s = devices, profile_entitlements = entitlements, platforms = parsed_platforms,
          profile_type = (if get_task_allow then ProfileDevelopment
                          else if devices = [] then ProfileAppStore else ProfileAdHoc),
          certificate_fingerprints = fingerprints\<rparr>
       in and_then (map_err (\<lambda>_. InvalidField FieldDocument) (validate_metadata profile)) (\<lambda>_. Ok profile))))))))))))))))))))))"

text \<open>\<open>PlistValue::from_reader\<close> is the parameter \<open>from_reader\<close>.\<close>

definition parse_decoded_provisioning_profile ::
    "(bytes \<Rightarrow> bytes) \<Rightarrow> (bytes \<Rightarrow> plist option) \<Rightarrow> bytes \<Rightarrow> ProvisioningProfileParseError + ProvisioningProfile" where
  "parse_decoded_provisioning_profile sha from_reader decoded =
     (if decoded = [] \<or> length decoded > MAX_DECODED_PROFILE_BYTES then Err InputSize
      else and_then (ok_or (from_reader decoded) MalformedPlist) (parse_provisioning_profile_value sha))"

section \<open>Validation for a target\<close>

record ProfileValidationRequest =
  req_target :: SigningTarget
  req_team :: DevelopmentTeam
  req_device :: "DevicePlan option"
  req_certificate :: SigningCertificate
  req_profile_type :: ProvisioningProfileType
  req_required_entitlements :: EntitlementSet
  req_now_unix_seconds :: u64

datatype ProfileValidationIssue =
    IssueInvalidProfileMetadata | IssueProfileExpired | IssueProfileNotYetValid
  | IssueTargetBundleIdentifierMismatch | IssueUnsupportedTargetKind | IssueProfileTeamMismatch
  | IssueInvalidCertificate | IssueCertificateExpired | IssueCertificateTeamMismatch
  | IssueProfileCertificateMismatch | IssueProfileTypeMismatch | IssueMissingDevice
  | IssueDeviceNotProvisioned | IssueMissingEntitlement string | IssueEntitlementMismatch string
  | IssueApplicationIdentifierMismatch | IssueGetTaskAllowMismatch | IssueApplicationGroupMismatch

fun issue_text :: "ProfileValidationIssue \<Rightarrow> string" where
  "issue_text IssueInvalidProfileMetadata = ''provisioning profile metadata is invalid''"
| "issue_text IssueProfileExpired = ''provisioning profile is expired''"
| "issue_text IssueProfileNotYetValid = ''provisioning profile is not yet valid''"
| "issue_text IssueTargetBundleIdentifierMismatch =
     ''provisioning profile does not authorize the target bundle identifier''"
| "issue_text IssueUnsupportedTargetKind = ''signing target kind cannot receive a provisioning profile''"
| "issue_text IssueProfileTeamMismatch = ''provisioning profile team does not match''"
| "issue_text IssueInvalidCertificate = ''signing certificate metadata is invalid''"
| "issue_text IssueCertificateExpired = ''signing certificate is expired''"
| "issue_text IssueCertificateTeamMismatch = ''signing certificate team does not match''"
| "issue_text IssueProfileCertificateMismatch = ''signing certificate is absent from the provisioning profile''"
| "issue_text IssueProfileTypeMismatch = ''provisioning profile category does not match''"
| "issue_text IssueMissingDevice = ''a registered device is required''"
| "issue_text IssueDeviceNotProvisioned = ''selected device is absent from the provisioning profile''"
| "issue_text (IssueMissingEntitlement k) = ''provisioning profile omits a required entitlement''"
| "issue_text (IssueEntitlementMismatch k) = ''provisioning profile entitlement is incompatible''"
| "issue_text IssueApplicationIdentifierMismatch = ''provisioning profile application identifier is inconsistent''"
| "issue_text IssueGetTaskAllowMismatch = ''get-task-allow does not match the provisioning profile category''"
| "issue_text IssueApplicationGroupMismatch =
     ''provisioning profile does not authorize all required application groups''"

record ValidatedProvisioningProfile =
  validated_profile_uuid :: string
  validated_bundle_identifier :: string
  validated_team_identifier :: string
  validated_certificate_fingerprint :: string
  validated_profile_type :: ProvisioningProfileType
  validated_application_groups :: "string set"
  validated_expires_at :: u64

definition bundle_pattern_matches :: "string \<Rightarrow> string \<Rightarrow> bool" where
  "bundle_pattern_matches pattern bundle_identifier =
     (if pattern = ''*'' then True
      else case strip_suffix ''.*'' pattern of
          Some pre \<Rightarrow>
            (case strip_prefix pre bundle_identifier of
               None \<Rightarrow> False | Some rest \<Rightarrow> prefix ''.'' rest \<and> length rest > 1)
        | None \<Rightarrow> pattern = bundle_identifier)"

definition push_unique :: "'e list \<Rightarrow> 'e \<Rightarrow> 'e list" where
  "push_unique issues issue = (if issue \<in> set issues then issues else issues @ [issue])"

text \<open>The issues that do not depend on the requested entitlements, in the order of the source.\<close>

definition expected_get_task_allow :: "ProfileValidationRequest \<Rightarrow> bool" where
  "expected_get_task_allow r \<longleftrightarrow> req_profile_type r = ProfileDevelopment"

definition expected_application_identifier :: "ProfileValidationRequest \<Rightarrow> string" where
  "expected_application_identifier r =
     team_id (req_team r) @ ''.'' @ bundle_str (target_bundle_identifier (req_target r))"

definition profile_issues :: "ProvisioningProfile \<Rightarrow> ProfileValidationRequest \<Rightarrow> ProfileValidationIssue list" where
  "profile_issues p r =
     (case validate_metadata_at p (req_now_unix_seconds r) of
        Inr _ \<Rightarrow> []
      | Inl ProfileNotYetValid \<Rightarrow> [IssueProfileNotYetValid]
      | Inl ProfileExpired \<Rightarrow> [IssueProfileExpired]
      | Inl _ \<Rightarrow> [IssueInvalidProfileMetadata])
     @ push_if (team_id (profile_team p) \<noteq> team_id (req_team r)) IssueProfileTeamMismatch
     @ push_if (profile_type p \<noteq> req_profile_type r) IssueProfileTypeMismatch
     @ push_if (target_kind (req_target r) \<notin> {Application, Extension}) IssueUnsupportedTargetKind
     @ push_if (\<not> bundle_pattern_matches (bundle_identifier_pattern p)
                   (bundle_str (target_bundle_identifier (req_target r)))) IssueTargetBundleIdentifierMismatch
     @ push_if (\<not> is_ok (SigningCertificate_validate (req_certificate r))) IssueInvalidCertificate
     @ push_if (cert_expires_at (req_certificate r) \<le> req_now_unix_seconds r) IssueCertificateExpired
     @ push_if (team_id (cert_team (req_certificate r)) \<noteq> team_id (req_team r)) IssueCertificateTeamMismatch
     @ push_if (sha256_fingerprint (req_certificate r) \<notin> set (certificate_fingerprints p))
         IssueProfileCertificateMismatch
     @ (if req_profile_type r \<in> {ProfileDevelopment, ProfileAdHoc}
        then (case req_device r of
            Some device \<Rightarrow> push_if (udid_sha256 device \<notin> set (device_udid_sha256s p)) IssueDeviceNotProvisioned
          | None \<Rightarrow> [IssueMissingDevice])
        else [])
     @ push_if (Option.bind (EntitlementSet_get (profile_entitlements p) GET_TASK_ALLOW) json_as_bool
                  \<noteq> Some (expected_get_task_allow r)) IssueGetTaskAllowMismatch
     @ push_if (Option.bind (EntitlementSet_get (profile_entitlements p) APPLICATION_IDENTIFIER) json_as_str
                  \<noteq> Some (application_identifier p)) IssueApplicationIdentifierMismatch
     @ push_if (case EntitlementSet_get (profile_entitlements p) TEAM_IDENTIFIER of
                  None \<Rightarrow> False | Some v \<Rightarrow> json_as_str v \<noteq> Some (team_id (req_team r)))
         (IssueEntitlementMismatch TEAM_IDENTIFIER)
     @ push_if (EntitlementSet_get (profile_entitlements p) APPLICATION_GROUPS \<noteq> None
                  \<and> profile_application_groups p = None) IssueApplicationGroupMismatch"

text \<open>The body of the loop over the requested entitlements; its state is the issues and the requested groups.\<close>

definition check_required_entitlement ::
    "ProvisioningProfile \<Rightarrow> ProfileValidationRequest \<Rightarrow> string \<times> json
     \<Rightarrow> ProfileValidationIssue list \<times> string set \<Rightarrow> ProfileValidationIssue list \<times> string set" where
  "check_required_entitlement p r = (\<lambda>(k, required) (issues, groups).
     if k = APPLICATION_IDENTIFIER then
       (issues @ push_if (json_as_str required \<noteq> Some (expected_application_identifier r)) (IssueEntitlementMismatch k),
        groups)
     else if k = GET_TASK_ALLOW then
       ((if json_as_bool required \<noteq> Some (expected_get_task_allow r)
         then push_unique issues IssueGetTaskAllowMismatch else issues), groups)
     else if k = APPLICATION_GROUPS then
       (case requested_application_groups required of
          Some required_groups \<Rightarrow>
            ((if \<not> (case profile_application_groups p of
                     None \<Rightarrow> False | Some authorized \<Rightarrow> required_groups \<subseteq> authorized)
              then push_unique issues IssueApplicationGroupMismatch else issues), required_groups)
        | None \<Rightarrow> (push_unique issues IssueApplicationGroupMismatch, groups))
     else
       (case EntitlementSet_get (profile_entitlements p) k of
          None \<Rightarrow> (issues @ [IssueMissingEntitlement k], groups)
        | Some actual \<Rightarrow> (issues @ push_if (actual \<noteq> required) (IssueEntitlementMismatch k), groups)))"

definition validate_profile_for_target ::
    "ProvisioningProfile \<Rightarrow> ProfileValidationRequest
     \<Rightarrow> ProfileValidationIssue list + ValidatedProvisioningProfile" where
  "validate_profile_for_target p r =
     (case fold (check_required_entitlement p r) (entitlement_values (req_required_entitlements r))
             (profile_issues p r, {}) of
        (issues, groups) \<Rightarrow>
          if issues = [] then
            Ok \<lparr>validated_profile_uuid = profile_uuid p,
                validated_bundle_identifier = bundle_str (target_bundle_identifier (req_target r)),
                validated_team_identifier = team_id (req_team r),
                validated_certificate_fingerprint = sha256_fingerprint (req_certificate r),
                validated_profile_type = req_profile_type r,
                validated_application_groups = groups,
                validated_expires_at = expires_at_unix_seconds p\<rparr>
          else Err issues)"

section \<open>The bounds are exact\<close>

fun plist_nodes :: "plist \<Rightarrow> nat" where
  "plist_nodes (PArray xs) = 1 + sum_list (map plist_nodes xs)"
| "plist_nodes (PDictionary d) = 1 + sum_list (map (\<lambda>(k, v). plist_nodes v) d)"
| "plist_nodes _ = 1"

fun plist_data_bytes :: "plist \<Rightarrow> nat" where
  "plist_data_bytes (PArray xs) = sum_list (map plist_data_bytes xs)"
| "plist_data_bytes (PDictionary d) = sum_list (map (\<lambda>(k, v). plist_data_bytes v) d)"
| "plist_data_bytes (PData d) = length d"
| "plist_data_bytes _ = 0"

fun plist_depth_at_most :: "nat \<Rightarrow> plist \<Rightarrow> bool" where
  "plist_depth_at_most n (PArray xs) \<longleftrightarrow>
     (case n of 0 \<Rightarrow> xs = [] | Suc m \<Rightarrow> list_all (plist_depth_at_most m) xs)"
| "plist_depth_at_most n (PDictionary d) \<longleftrightarrow>
     (case n of 0 \<Rightarrow> d = [] | Suc m \<Rightarrow> list_all (\<lambda>(k, v). plist_depth_at_most m v) d)"
| "plist_depth_at_most n _ \<longleftrightarrow> True"

fun plist_parts_bounded :: "plist \<Rightarrow> bool" where
  "plist_parts_bounded (PArray xs) \<longleftrightarrow> length xs \<le> MAX_COLLECTION_ITEMS \<and> list_all plist_parts_bounded xs"
| "plist_parts_bounded (PDictionary d) \<longleftrightarrow> length d \<le> MAX_COLLECTION_ITEMS
     \<and> list_all (\<lambda>(k, v). length k \<le> MAX_STRING_BYTES \<and> plist_parts_bounded v) d"
| "plist_parts_bounded (PData d) \<longleftrightarrow> length d \<le> MAX_DATA_BYTES"
| "plist_parts_bounded (PString s) \<longleftrightarrow> length s \<le> MAX_STRING_BYTES"
| "plist_parts_bounded _ \<longleftrightarrow> True"

definition document_bounded :: "plist \<Rightarrow> bool" where
  "document_bounded v \<longleftrightarrow> plist_depth_at_most MAX_PROFILE_DEPTH v \<and> plist_nodes v \<le> MAX_PROFILE_NODES
     \<and> plist_data_bytes v \<le> MAX_TOTAL_DATA_BYTES \<and> plist_parts_bounded v"

definition counted :: "nat \<Rightarrow> nat \<Rightarrow> document_bounds \<Rightarrow> document_bounds" where
  "counted n d b = b\<lparr>bounds_nodes := bounds_nodes b + n, bounds_data_bytes := bounds_data_bytes b + d\<rparr>"

definition within_limits :: "document_bounds \<Rightarrow> bool" where
  "within_limits b \<longleftrightarrow> bounds_nodes b \<le> MAX_PROFILE_NODES \<and> bounds_data_bytes b \<le> MAX_TOTAL_DATA_BYTES"

definition checked_count :: "bool \<Rightarrow> nat \<Rightarrow> nat \<Rightarrow> document_bounds \<Rightarrow> ProvisioningProfileParseError + document_bounds" where
  "checked_count ok n d b = (if ok \<and> within_limits (counted n d b) then Ok (counted n d b) else Err DocumentBoundsExceeded)"

definition depth_left :: "nat \<Rightarrow> plist \<Rightarrow> bool" where
  "depth_left depth v \<longleftrightarrow> depth \<le> MAX_PROFILE_DEPTH \<and> plist_depth_at_most (MAX_PROFILE_DEPTH - depth) v"

lemma counted_counted [simp]: "counted n d (counted n' d' b) = counted (n' + n) (d' + d) b"
  by (simp add: counted_def)

lemma counted_fields [simp]:
  "bounds_nodes (counted n d b) = bounds_nodes b + n" "bounds_data_bytes (counted n d b) = bounds_data_bytes b + d"
  by (simp_all add: counted_def)

lemma counted_mono: "within_limits (counted n d (counted n' d' b)) \<Longrightarrow> within_limits (counted n' d' b)"
  by (simp add: counted_def within_limits_def)

lemma checked_count_then:
  "and_then (checked_count ok n d b) (checked_count ok' n' d') = checked_count (ok \<and> ok') (n + n') (d + d') b"
  using counted_mono [of n' d' n d b] by (auto simp: checked_count_def)

lemma checked_count_counted: "checked_count ok n d (counted n' d' b) = checked_count ok (n' + n) (d' + d) b"
  by (simp add: checked_count_def)

lemma list_all_conj: "list_all (\<lambda>x. P x \<and> Q x) xs \<longleftrightarrow> list_all P xs \<and> list_all Q xs"
  by (auto simp: list_all_iff)

lemma list_all_conj_members:
  "list_all (\<lambda>(k, v). length k \<le> MAX_STRING_BYTES \<and> depth_left depth v \<and> plist_parts_bounded v) d \<longleftrightarrow>
   list_all (\<lambda>(k, v). depth_left depth v) d \<and> list_all (\<lambda>(k, v). length k \<le> MAX_STRING_BYTES \<and> plist_parts_bounded v) d"
  by (auto simp: list_all_iff)

lemma depth_left_items:
  assumes "depth \<le> MAX_PROFILE_DEPTH"
  shows "plist_depth_at_most (MAX_PROFILE_DEPTH - depth) (PArray xs) \<longleftrightarrow> list_all (depth_left (depth + 1)) xs"
    and "plist_depth_at_most (MAX_PROFILE_DEPTH - depth) (PDictionary d) \<longleftrightarrow> list_all (\<lambda>(k, v). depth_left (depth + 1) v) d"
proof -
  have "depth = MAX_PROFILE_DEPTH \<or>
      depth < MAX_PROFILE_DEPTH \<and> MAX_PROFILE_DEPTH - depth = Suc (MAX_PROFILE_DEPTH - Suc depth)"
    using assms by linarith
  then show "plist_depth_at_most (MAX_PROFILE_DEPTH - depth) (PArray xs) \<longleftrightarrow> list_all (depth_left (depth + 1)) xs"
    and "plist_depth_at_most (MAX_PROFILE_DEPTH - depth) (PDictionary d) \<longleftrightarrow> list_all (\<lambda>(k, v). depth_left (depth + 1) v) d"
    by (cases xs; cases d; auto simp: depth_left_def list_all_iff split_beta)+
qed

lemma visit_spec:
  "within_limits b \<Longrightarrow>
     visit v depth b = checked_count (depth_left depth v \<and> plist_parts_bounded v) (plist_nodes v) (plist_data_bytes v) b"
  "within_limits b \<Longrightarrow>
     visit_items vs depth b = checked_count (list_all (\<lambda>v. depth_left depth v \<and> plist_parts_bounded v) vs)
       (sum_list (map plist_nodes vs)) (sum_list (map plist_data_bytes vs)) b"
  "within_limits b \<Longrightarrow>
     visit_members ms depth b =
       checked_count (list_all (\<lambda>(k, v). length k \<le> MAX_STRING_BYTES \<and> depth_left depth v \<and> plist_parts_bounded v) ms)
         (sum_list (map (\<lambda>(k, v). plist_nodes v) ms)) (sum_list (map (\<lambda>(k, v). plist_data_bytes v) ms)) b"
proof (induction v depth b and vs depth b and ms depth b rule: visit_visit_items_visit_members.induct)
  case (1 v depth b)
  have b1: "b\<lparr>bounds_nodes := Suc (bounds_nodes b)\<rparr> = counted (Suc 0) 0 b" by (simp add: counted_def)
  show ?case
  proof (cases "depth \<le> MAX_PROFILE_DEPTH \<and> within_limits (counted (Suc 0) 0 b)")
    case True
    note limits = this
    then have n1: "Suc (bounds_nodes b) \<le> MAX_PROFILE_NODES" by (simp add: within_limits_def counted_def)
    show ?thesis
    proof (cases v)
      case (PArray items)
      have "visit v depth b = (if length items > MAX_COLLECTION_ITEMS then Err DocumentBoundsExceeded
          else visit_items items (Suc depth) (counted (Suc 0) 0 b))"
        using limits n1 by (subst visit.simps) (simp add: PArray b1 Let_def)
      moreover have "visit_items items (Suc depth) (counted (Suc 0) 0 b) =
          checked_count (list_all (\<lambda>v. depth_left (Suc depth) v \<and> plist_parts_bounded v) items)
            (sum_list (map plist_nodes items)) (sum_list (map plist_data_bytes items)) (counted (Suc 0) 0 b)"
        if "length items \<le> MAX_COLLECTION_ITEMS"
        using 1(1) [of "counted (Suc 0) 0 b" items] limits n1 PArray b1 that by simp
      moreover have "depth_left depth v \<longleftrightarrow> list_all (depth_left (Suc depth)) items"
        using limits depth_left_items(1) [of depth items] by (simp add: PArray depth_left_def [of depth])
      ultimately show ?thesis
        by (simp add: PArray list_all_conj checked_count_counted) (simp add: checked_count_def)
    next
      case (PDictionary d)
      have "visit v depth b = (if length d > MAX_COLLECTION_ITEMS then Err DocumentBoundsExceeded
          else visit_members d (Suc depth) (counted (Suc 0) 0 b))"
        using limits n1 by (subst visit.simps) (simp add: PDictionary b1 Let_def)
      moreover have "visit_members d (Suc depth) (counted (Suc 0) 0 b) =
          checked_count (list_all (\<lambda>(k, v). length k \<le> MAX_STRING_BYTES \<and> depth_left (Suc depth) v \<and> plist_parts_bounded v) d)
            (sum_list (map (\<lambda>(k, v). plist_nodes v) d)) (sum_list (map (\<lambda>(k, v). plist_data_bytes v) d)) (counted (Suc 0) 0 b)"
        if "length d \<le> MAX_COLLECTION_ITEMS"
        using 1(2) [of "counted (Suc 0) 0 b" d] limits n1 PDictionary b1 that by simp
      moreover have "depth_left depth v \<longleftrightarrow> list_all (\<lambda>(k, v). depth_left (Suc depth) v) d"
        using limits depth_left_items(2) [of depth d] by (simp add: PDictionary depth_left_def [of depth])
      ultimately show ?thesis
        by (simp add: PDictionary list_all_conj_members checked_count_counted) (auto simp: checked_count_def)
    next
      case (PData d)
      with limits n1 show ?thesis
        by (subst visit.simps) (auto simp: Let_def checked_count_def depth_left_def counted_def within_limits_def)
    qed (use limits n1 in \<open>subst visit.simps, auto simp: Let_def checked_count_def depth_left_def counted_def within_limits_def\<close>)+
  next
    case False
    have "0 < plist_nodes v" by (cases v) simp_all
    with False have "\<not> (depth_left depth v \<and> within_limits (counted (plist_nodes v) (plist_data_bytes v) b))"
      using 1(3) by (auto simp: depth_left_def within_limits_def counted_def)
    with False show ?thesis
      using 1(3) by (subst visit.simps) (auto simp: Let_def checked_count_def counted_def within_limits_def)
  qed
next
  case (2 depth b)
  then show ?case by (simp add: checked_count_def counted_def)
next
  case (3 item items depth b)
  have "and_then (visit item depth b) (visit_items items depth) =
    and_then (checked_count (depth_left depth item \<and> plist_parts_bounded item) (plist_nodes item) (plist_data_bytes item) b)
      (checked_count (list_all (\<lambda>v. depth_left depth v \<and> plist_parts_bounded v) items)
       (sum_list (map plist_nodes items)) (sum_list (map plist_data_bytes items)))"
    using 3 by (auto simp: checked_count_def)
  then show ?case by (simp add: checked_count_then)
next
  case (4 depth b)
  then show ?case by (simp add: checked_count_def counted_def)
next
  case (5 k nested members depth b)
  have "and_then (visit nested depth b) (visit_members members depth) =
    and_then (checked_count (depth_left depth nested \<and> plist_parts_bounded nested) (plist_nodes nested) (plist_data_bytes nested) b)
      (checked_count (list_all (\<lambda>(k, v). length k \<le> MAX_STRING_BYTES \<and> depth_left depth v \<and> plist_parts_bounded v) members)
       (sum_list (map (\<lambda>(k, v). plist_nodes v) members)) (sum_list (map (\<lambda>(k, v). plist_data_bytes v) members)))"
    if "length k \<le> MAX_STRING_BYTES"
    using 5 that by (auto simp: checked_count_def)
  then show ?case by (simp add: checked_count_then) (simp add: checked_count_def)
qed

text \<open>
  [document_bounds]: The traversal of a decoded profile is exact: it accepts a property list precisely when
  nesting, number of values, total data, and every collection, key, string and data item are within their limits,
  each counted without overflow over the whole document; otherwise it reports the one structural error.
\<close>

theorem document_bounds_are_exact:
  "validate_document_bounds v = (if document_bounded v then Ok () else Err DocumentBoundsExceeded)"
proof -
  have "within_limits \<lparr>bounds_nodes = 0, bounds_data_bytes = 0\<rparr>" by (simp add: within_limits_def)
  from visit_spec(1) [OF this, of v 0] show ?thesis
    by (auto simp: validate_document_bounds_def checked_count_def document_bounded_def depth_left_def within_limits_def)
qed

lemma validate_document_bounds_Ok [simp]: "validate_document_bounds v = Ok u \<longleftrightarrow> document_bounded v"
  using visit_spec(1) [of "\<lparr>bounds_nodes = 0, bounds_data_bytes = 0\<rparr>" v 0]
  by (auto simp: validate_document_bounds_def checked_count_def document_bounded_def depth_left_def within_limits_def)

section \<open>What the fields of a parsed profile are\<close>

lemma as_plist_Some [simp]:
  "as_string v = Some s \<longleftrightarrow> v = PString s"
  "as_array v = Some xs \<longleftrightarrow> v = PArray xs"
  "as_dictionary v = Some d \<longleftrightarrow> v = PDictionary d"
  "as_boolean v = Some b \<longleftrightarrow> v = PBoolean b"
  "as_data v = Some c \<longleftrightarrow> v = PData c"
  "as_date v = Some t \<longleftrightarrow> v = PDate t"
  by (cases v; simp)+

lemma as_json_Some [simp]:
  "json_as_str j = Some s \<longleftrightarrow> j = JString s"
  "json_as_bool j = Some b \<longleftrightarrow> j = JBool b"
  "json_as_array j = Some js \<longleftrightarrow> j = JArray js"
  by (cases j; simp)+

lemma if_Err_Ok: "(if b then Inl e else r) = Inr y \<longleftrightarrow> \<not> b \<and> r = Inr y"
  by simp

lemma required_value_Ok [simp]: "required_value d k f = Ok v \<longleftrightarrow> map_of d k = Some v"
  by (simp add: required_value_def)

lemma required_bounded_string_Ok:
  "required_bounded_string d k f n = Ok s \<longleftrightarrow> map_of d k = Some (PString s) \<and> s \<noteq> [] \<and> length s \<le> n"
  by (auto simp: required_bounded_string_def and_then_Inr_iff if_Err_Ok)

lemma optional_bounded_string_Ok:
  "optional_bounded_string d k f n = Ok s \<longleftrightarrow>
     map_of d k = map_option PString s \<and> (case s of None \<Rightarrow> True | Some t \<Rightarrow> t \<noteq> [] \<and> length t \<le> n)"
  by (cases s) (auto simp: optional_bounded_string_def and_then_Inr_iff if_Err_Ok split: option.splits)

lemma optional_boolean_Ok:
  "optional_boolean d k f = Ok b \<longleftrightarrow> map_of d k = map_option PBoolean b"
  by (cases b) (auto simp: optional_boolean_def and_then_Inr_iff if_Err_Ok split: option.splits)

lemma parse_team_identifier_Ok:
  "parse_team_identifier root = Ok t \<longleftrightarrow>
     map_of root ''TeamIdentifier'' = Some (PArray [PString t]) \<and> length t = 10"
  by (auto simp: parse_team_identifier_def and_then_Inr_iff if_Err_Ok length_Suc_conv)

lemma required_unix_date_Ok:
  "required_unix_date root k f = Ok t \<longleftrightarrow>
     (\<exists>ns. map_of root k = Some (PDate ns) \<and> 0 \<le> ns \<and> t = of_int (ns div 1000000000))"
  by (auto simp: required_unix_date_def and_then_Inr_iff if_Err_Ok)

lemma try_fold_Cons_Ok: "try_fold f s (x # xs) = Ok t \<longleftrightarrow> (\<exists>m. f s x = Ok m \<and> try_fold f m xs = Ok t)"
  by (cases "f s x") simp_all

lemma parse_platforms_Ok:
  "parse_platforms root = Ok ps \<longleftrightarrow> map_of root ''Platform'' = Some (PArray [PString ''iOS'']) \<and> ps = {Ios}"
proof -
  have step: "parse_platform seen v = Ok t \<longleftrightarrow> v = PString ''iOS'' \<and> Ios \<notin> seen \<and> t = insert Ios seen" for seen v t
    by (cases "as_string v") (auto simp: parse_platform_def)
  have "try_fold parse_platform {Ios} vs = Ok ps \<longleftrightarrow> vs = [] \<and> ps = {Ios}" for vs
    by (cases vs) (auto simp: try_fold_Cons_Ok step simp del: try_fold.simps(2))
  then have "try_fold parse_platform {} vs = Ok ps \<and> vs \<noteq> [] \<longleftrightarrow> vs = [PString ''iOS''] \<and> ps = {Ios}" for vs
    by (cases vs) (auto simp: try_fold_Cons_Ok step simp del: try_fold.simps(2))
  then have loop: "vs \<noteq> [] \<and> try_fold parse_platform {} vs = Ok ps \<longleftrightarrow> vs = [PString ''iOS''] \<and> ps = {Ios}" for vs
    by blast
  have "parse_platforms root = Ok ps \<longleftrightarrow>
      (\<exists>vs. map_of root ''Platform'' = Some (PArray vs) \<and> length vs \<le> MAX_PLATFORM_COUNT
         \<and> (vs \<noteq> [] \<and> try_fold parse_platform {} vs = Ok ps))"
    by (cases "map_of root ''Platform''") (auto simp: parse_platforms_def and_then_Inr_iff if_Err_Ok)
  then show ?thesis unfolding loop by (auto simp: field_limits)
qed

lemma ex_map_Cons: "(\<exists>ys. v # vs = map f ys \<and> P ys) \<longleftrightarrow> (\<exists>x xs. v = f x \<and> vs = map f xs \<and> P (x # xs))"
  by (auto simp: Cons_eq_map_conv)

text \<open>
  The loops over devices and certificates have one contract: each accepted value is decoded, its digest is new,
  and the digests are collected in order.
\<close>

locale digest_loop =
  fixes step :: "string set \<times> string list \<Rightarrow> plist \<Rightarrow> ProvisioningProfileParseError + string set \<times> string list"
    and con :: "string \<Rightarrow> plist" and ok :: "string \<Rightarrow> bool" and digest :: "string \<Rightarrow> string"
  assumes step_Ok: "step (seen, ds) v = Ok t \<longleftrightarrow>
    (\<exists>x. v = con x \<and> ok x \<and> digest x \<notin> seen \<and> t = (insert (digest x) seen, ds @ [digest x]))"
begin

lemma loop_Ok:
  "try_fold step (seen, ds) vs = Ok t \<longleftrightarrow>
     (\<exists>xs. vs = map con xs \<and> (\<forall>x \<in> set xs. ok x) \<and> distinct (map digest xs) \<and> seen \<inter> digest ` set xs = {}
        \<and> t = (seen \<union> digest ` set xs, ds @ map digest xs))"
proof (induction vs arbitrary: seen ds)
  case Nil
  then show ?case by auto
next
  case (Cons v vs)
  have "try_fold step (seen, ds) (v # vs) = Ok t \<longleftrightarrow>
      (\<exists>x. v = con x \<and> ok x \<and> digest x \<notin> seen \<and> try_fold step (insert (digest x) seen, ds @ [digest x]) vs = Ok t)"
    unfolding try_fold_Cons_Ok step_Ok by auto
  also have "\<dots> \<longleftrightarrow> (\<exists>x xs. v = con x \<and> vs = map con xs \<and> (\<forall>y \<in> set (x # xs). ok y) \<and> distinct (map digest (x # xs))
      \<and> seen \<inter> digest ` set (x # xs) = {} \<and> t = (seen \<union> digest ` set (x # xs), ds @ map digest (x # xs)))"
    unfolding Cons.IH by auto
  also have "\<dots> \<longleftrightarrow> (\<exists>xs. v # vs = map con xs \<and> (\<forall>x \<in> set xs. ok x) \<and> distinct (map digest xs) \<and> seen \<inter> digest ` set xs = {}
      \<and> t = (seen \<union> digest ` set xs, ds @ map digest xs))"
    by (rule ex_map_Cons [symmetric])
  finally show ?case .
qed

lemma collected:
  "and_then (try_fold step ({}, []) vs) (\<lambda>(_, ds). Ok ds) = Ok ds \<longleftrightarrow>
     (\<exists>xs. vs = map con xs \<and> (\<forall>x \<in> set xs. ok x) \<and> distinct (map digest xs) \<and> ds = map digest xs)"
  by (auto simp: and_then_Inr_iff loop_Ok)

end

definition device_ok :: "(bytes \<Rightarrow> bytes) \<Rightarrow> string \<Rightarrow> bool" where
  "device_ok sha d \<longleftrightarrow> validate_raw_udid d = Ok () \<and> is_lowercase_sha256 (hex_encode (sha d))"

definition certificate_ok :: "bytes \<Rightarrow> bool" where
  "certificate_ok c \<longleftrightarrow> c \<noteq> [] \<and> length c \<le> MAX_CERTIFICATE_BYTES"

interpretation devices: digest_loop "parse_device sha" PString "device_ok sha" "hex_encode \<circ> sha" for sha
proof
  fix seen ds v t
  show "parse_device sha (seen, ds) v = Ok t \<longleftrightarrow>
    (\<exists>x. v = PString x \<and> device_ok sha x \<and> (hex_encode \<circ> sha) x \<notin> seen
      \<and> t = (insert ((hex_encode \<circ> sha) x) seen, ds @ [(hex_encode \<circ> sha) x]))"
  proof -
    have plan: "DevicePlan_new (hex_encode \<circ> sha) d None = Ok p \<longleftrightarrow>
        device_ok sha d \<and> p = \<lparr>udid_sha256 = hex_encode (sha d), device_display_name = None\<rparr>" for d p
      by (cases "validate_raw_udid d") (auto simp: DevicePlan_new_def DevicePlan_from_sha256_def device_ok_def
          sha256_lowercase_def unsafe_display_name_def)
    have size: "device_ok sha d \<Longrightarrow> d \<noteq> [] \<and> length d \<le> MAX_DEVICE_IDENTIFIER_BYTES" for d
      by (auto simp: device_ok_def validate_raw_udid_def Let_def field_limits split: if_splits)
    show ?thesis
      by (simp add: parse_device_def and_then_Inr_iff if_Err_Ok plan) (use size in fastforce)
  qed
qed

interpretation certificates: digest_loop "parse_certificate sha" PData certificate_ok "uppercase_hex \<circ> sha" for sha
  by unfold_locales (auto simp: parse_certificate_def and_then_Inr_iff if_Err_Ok certificate_ok_def Let_def)

lemma parse_devices_Ok:
  "parse_device_identifier_sha256s sha root = Ok ds \<longleftrightarrow>
     map_of root ''ProvisionedDevices'' = None \<and> ds = []
     \<or> (\<exists>devices. map_of root ''ProvisionedDevices'' = Some (PArray (map PString devices)) \<and> length devices \<le> MAX_DEVICE_COUNT
          \<and> (\<forall>d \<in> set devices. device_ok sha d) \<and> distinct ds \<and> ds = map (hex_encode \<circ> sha) devices)"
proof (cases "map_of root ''ProvisionedDevices''")
  case (Some v)
  then show ?thesis
    using devices.collected [of sha _ ds]
    by (auto simp: parse_device_identifier_sha256s_def and_then_Inr_iff [of "ok_or _ _"] if_Err_Ok)
qed (auto simp: parse_device_identifier_sha256s_def)

lemma parse_certificates_Ok:
  "parse_certificate_fingerprints sha root = Ok fs \<longleftrightarrow>
     (\<exists>certs. map_of root ''DeveloperCertificates'' = Some (PArray (map PData certs)) \<and> certs \<noteq> []
        \<and> length certs \<le> MAX_CERTIFICATE_COUNT \<and> (\<forall>c \<in> set certs. certificate_ok c) \<and> distinct fs
        \<and> fs = map (uppercase_hex \<circ> sha) certs)"
  using certificates.collected [of sha _ fs]
  by (auto simp: parse_certificate_fingerprints_def and_then_Inr_iff [of "required_value _ _ _"]
      and_then_Inr_iff [of "ok_or _ _"] if_Err_Ok)

definition group_ok :: "string \<Rightarrow> bool" where
  "group_ok g \<longleftrightarrow> length g \<le> MAX_APP_GROUP_BYTES \<and> prefix ''group.'' g \<and> is_ok (BundleIdentifier_new g)"

lemma requested_groups_loop:
  "try_fold requested_group seen vs = Ok t \<longleftrightarrow>
     (\<exists>gs. vs = map JString gs \<and> (\<forall>g \<in> set gs. group_ok g) \<and> distinct gs \<and> seen \<inter> set gs = {} \<and> t = seen \<union> set gs)"
proof (induction vs arbitrary: seen)
  case Nil
  then show ?case by auto
next
  case (Cons v vs)
  have step: "requested_group seen v = Ok t \<longleftrightarrow> (\<exists>g. v = JString g \<and> group_ok g \<and> g \<notin> seen \<and> t = insert g seen)" for t
    by (cases "json_as_str v") (auto simp: requested_group_def group_ok_def)
  have "try_fold requested_group seen (v # vs) = Ok t \<longleftrightarrow>
      (\<exists>g. v = JString g \<and> group_ok g \<and> g \<notin> seen \<and> try_fold requested_group (insert g seen) vs = Ok t)"
    unfolding try_fold_Cons_Ok step by auto
  also have "\<dots> \<longleftrightarrow> (\<exists>g gs. v = JString g \<and> vs = map JString gs \<and> (\<forall>h \<in> set (g # gs). group_ok h) \<and> distinct (g # gs)
      \<and> seen \<inter> set (g # gs) = {} \<and> t = seen \<union> set (g # gs))"
    unfolding Cons.IH by auto
  finally show ?case unfolding ex_map_Cons .
qed

lemma requested_application_groups_Some:
  "requested_application_groups j = Some s \<longleftrightarrow>
     (\<exists>gs. j = JArray (map JString gs) \<and> gs \<noteq> [] \<and> length gs \<le> MAX_APP_GROUP_COUNT \<and> distinct gs
        \<and> (\<forall>g \<in> set gs. group_ok g) \<and> s = set gs)"
proof -
  have "requested_application_groups j = Some s \<longleftrightarrow>
      (\<exists>vs. j = JArray vs \<and> vs \<noteq> [] \<and> length vs \<le> MAX_APP_GROUP_COUNT \<and> try_fold requested_group {} vs = Ok s)"
    by (cases j) (auto simp: requested_application_groups_def split: sum.splits)
  then show ?thesis unfolding requested_groups_loop by auto
qed

text \<open>
  The relation between a decoded document and the profile it describes, without the order of the checks and
  without the checks that others imply.
\<close>

definition date_field :: "dictionary \<Rightarrow> string \<Rightarrow> u64 \<Rightarrow> bool" where
  "date_field root k t \<longleftrightarrow> (\<exists>ns. map_of root k = Some (PDate ns) \<and> 0 \<le> ns \<and> t = of_int (ns div 1000000000))"

definition devices_field :: "(bytes \<Rightarrow> bytes) \<Rightarrow> dictionary \<Rightarrow> string list \<Rightarrow> bool" where
  "devices_field sha root ds \<longleftrightarrow> distinct ds \<and> (map_of root ''ProvisionedDevices'' = None \<and> ds = []
     \<or> (\<exists>devices. map_of root ''ProvisionedDevices'' = Some (PArray (map PString devices))
          \<and> length devices \<le> MAX_DEVICE_COUNT \<and> (\<forall>d \<in> set devices. device_ok sha d)
          \<and> ds = map (hex_encode \<circ> sha) devices))"

definition certificates_field :: "(bytes \<Rightarrow> bytes) \<Rightarrow> dictionary \<Rightarrow> string list \<Rightarrow> bool" where
  "certificates_field sha root fs \<longleftrightarrow> distinct fs
     \<and> (\<exists>certs. map_of root ''DeveloperCertificates'' = Some (PArray (map PData certs)) \<and> certs \<noteq> []
          \<and> length certs \<le> MAX_CERTIFICATE_COUNT \<and> (\<forall>c \<in> set certs. certificate_ok c)
          \<and> fs = map (uppercase_hex \<circ> sha) certs)"

definition entitlements_field :: "dictionary \<Rightarrow> EntitlementSet \<Rightarrow> bool" where
  "entitlements_field root e \<longleftrightarrow> (\<exists>d. map_of root ''Entitlements'' = Some (PDictionary d)
     \<and> plist_members_to_json d [] = Ok (entitlement_values e) \<and> is_ok (EntitlementSet_new (entitlement_values e)))"

definition root_describes :: "(bytes \<Rightarrow> bytes) \<Rightarrow> dictionary \<Rightarrow> ProvisioningProfile \<Rightarrow> bool" where
  "root_describes sha root p \<longleftrightarrow>
     map_of root ''UUID'' = Some (PString (profile_uuid p))
   \<and> map_of root ''Name'' = Some (PString (profile_name p))
   \<and> map_of root ''TeamIdentifier'' = Some (PArray [PString (team_id (profile_team p))])
   \<and> map_of root ''TeamName'' = map_option PString (team_display_name (profile_team p))
   \<and> date_field root ''CreationDate'' (created_at_unix_seconds p)
   \<and> date_field root ''ExpirationDate'' (expires_at_unix_seconds p)
   \<and> map_of root ''Platform'' = Some (PArray [PString ''iOS'']) \<and> platforms p = {Ios}
   \<and> devices_field sha root (device_udid_sha256s p)
   \<and> certificates_field sha root (certificate_fingerprints p)
   \<and> entitlements_field root (profile_entitlements p)
   \<and> map_of root ''ProvisionsAllDevices'' \<in> {None, Some (PBoolean False)}"

definition profile_consistent :: "ProvisioningProfile \<Rightarrow> bool" where
  "profile_consistent p \<longleftrightarrow>
     is_ok (DevelopmentTeam_new (team_id (profile_team p)) (team_display_name (profile_team p)))
   \<and> EntitlementSet_get (profile_entitlements p) APPLICATION_IDENTIFIER = Some (JString (application_identifier p))
   \<and> length (application_identifier p) \<le> MAX_APPLICATION_IDENTIFIER_BYTES
   \<and> EntitlementSet_get (profile_entitlements p) TEAM_IDENTIFIER \<in> {None, Some (JString (team_id (profile_team p)))}
   \<and> EntitlementSet_get (profile_entitlements p) GET_TASK_ALLOW = Some (JBool (profile_type p = ProfileDevelopment))
   \<and> (EntitlementSet_get (profile_entitlements p) APPLICATION_GROUPS = None \<or> profile_application_groups p \<noteq> None)
   \<and> (wildcard p \<longleftrightarrow> bundle_identifier_pattern p = ''*'' \<or> suffix ''.*'' (bundle_identifier_pattern p))
   \<and> validate_metadata p = Ok ()"

definition describes_profile :: "(bytes \<Rightarrow> bytes) \<Rightarrow> plist \<Rightarrow> ProvisioningProfile \<Rightarrow> bool" where
  "describes_profile sha v p \<longleftrightarrow>
     document_bounded v \<and> (\<exists>root. v = PDictionary root \<and> root_describes sha root p) \<and> profile_consistent p"

lemma metadata_facts:
  assumes "validate_metadata p = Ok ()"
  shows "is_profile_identifier (profile_uuid p)" "is_safe_label (profile_name p)"
    "application_identifier p = team_id (profile_team p) @ ''.'' @ bundle_identifier_pattern p"
    "bundle_pattern_valid p"
    "profile_type p = ProfileAppStore \<longleftrightarrow> device_udid_sha256s p = []"
  using assms
  by (auto simp: validate_metadata_def run_checks_Inr_iff simp del: run_checks.simps split: ProvisioningProfileType.splits)

lemma bundle_pattern_nonempty: "bundle_pattern_valid p \<Longrightarrow> bundle_identifier_pattern p \<noteq> []"
  by (auto simp: bundle_pattern_valid_def BundleIdentifier_new_def is_ok_def strip_suffix_def split: if_splits)

lemma EntitlementSet_new_Ok: "EntitlementSet_new vs = Ok e \<longleftrightarrow> is_ok (EntitlementSet_new vs) \<and> e = EntitlementSet vs"
  by (auto simp: EntitlementSet_new_def and_then_Inr_iff is_ok_conv)

lemma DevelopmentTeam_new_Ok:
  "DevelopmentTeam_new i n = Ok t \<longleftrightarrow> is_ok (DevelopmentTeam_new i n) \<and> t = \<lparr>team_id = i, team_display_name = n\<rparr>"
  by (auto simp: DevelopmentTeam_new_def)

lemma fields_Ok:
  "required_unix_date root k f = Ok t \<longleftrightarrow> date_field root k t"
  "parse_device_identifier_sha256s sha root = Ok ds \<longleftrightarrow> devices_field sha root ds"
  "parse_certificate_fingerprints sha root = Ok fs \<longleftrightarrow> certificates_field sha root fs"
  "parse_entitlements root = Ok e \<longleftrightarrow> entitlements_field root e"
proof -
  show "required_unix_date root k f = Ok t \<longleftrightarrow> date_field root k t"
    by (simp add: required_unix_date_Ok date_field_def)
  show "parse_device_identifier_sha256s sha root = Ok ds \<longleftrightarrow> devices_field sha root ds"
    unfolding parse_devices_Ok devices_field_def by fastforce
  show "parse_certificate_fingerprints sha root = Ok fs \<longleftrightarrow> certificates_field sha root fs"
    unfolding parse_certificates_Ok certificates_field_def by auto
  have "e = EntitlementSet vs \<longleftrightarrow> entitlement_values e = vs" for vs by (cases e) auto
  then show "parse_entitlements root = Ok e \<longleftrightarrow> entitlements_field root e"
    by (auto simp: parse_entitlements_def entitlements_field_def and_then_Inr_iff EntitlementSet_new_Ok)
qed

lemma filtered_Some:
  "(case x of None \<Rightarrow> None | Some s \<Rightarrow> if s = [] then None else Some s) = Some t \<longleftrightarrow> x = Some t \<and> t \<noteq> []"
  by (cases x) auto

lemma mismatch_iff:
  "(case x of None \<Rightarrow> False | Some j \<Rightarrow> json_as_str j \<noteq> Some s) \<longleftrightarrow> x \<notin> {None, Some (JString s)}"
  by (cases x) auto

lemma entitlement_team_iff:
  "(case x of None \<Rightarrow> False | Some j \<Rightarrow> j \<noteq> JString s) \<longleftrightarrow> x \<noteq> None \<and> x \<noteq> Some (JString s)"
  by (cases x) auto

lemma optional_flag_iff: "(x = None \<or> (\<exists>z. x = Some z \<and> \<not> z)) \<longleftrightarrow> x \<noteq> Some True"
  by (cases x) auto

lemma groups_absent_iff:
  "(case EntitlementSet_get e APPLICATION_GROUPS of None \<Rightarrow> False | Some groups \<Rightarrow> requested_application_groups groups = None) \<longleftrightarrow>
     EntitlementSet_get e APPLICATION_GROUPS \<noteq> None
     \<and> Option.bind (EntitlementSet_get e APPLICATION_GROUPS) requested_application_groups = None"
  by (cases "EntitlementSet_get e APPLICATION_GROUPS") auto

lemmas parse_steps =
  and_then_Inr_iff fields_Ok filtered_Some mismatch_iff groups_absent_iff required_bounded_string_Ok parse_team_identifier_Ok
  optional_bounded_string_Ok DevelopmentTeam_new_Ok parse_platforms_Ok optional_boolean_Ok reject_if_Inr
  strip_prefix_Some validate_document_bounds_Ok Let_def bind_eq_Some_conv as_json_Some ok_or_Ok map_err_Inr_iff

lemma consistent_identifiers:
  assumes "profile_consistent p"
  shows "profile_uuid p \<noteq> []" "length (profile_uuid p) \<le> MAX_UUID_BYTES"
    "profile_name p \<noteq> []" "length (profile_name p) \<le> MAX_PROFILE_NAME_BYTES"
    "length (team_id (profile_team p)) = 10" "bundle_identifier_pattern p \<noteq> []" "application_identifier p \<noteq> []"
    "application_identifier p = team_id (profile_team p) @ ''.'' @ bundle_identifier_pattern p"
    "team_display_name (profile_team p) = Some n \<Longrightarrow> n \<noteq> [] \<and> length n \<le> MAX_TEAM_NAME_BYTES"
    "profile_type p = ProfileAppStore \<longleftrightarrow> device_udid_sha256s p = []"
proof -
  have m: "validate_metadata p = Ok ()" and t: "is_ok (DevelopmentTeam_new (team_id (profile_team p)) (team_display_name (profile_team p)))"
    using assms by (simp_all add: profile_consistent_def)
  note facts = metadata_facts [OF m]
  show "profile_uuid p \<noteq> []" "length (profile_uuid p) \<le> MAX_UUID_BYTES"
    using facts(1) by (auto simp: is_profile_identifier_def field_limits)
  show "profile_name p \<noteq> []" "length (profile_name p) \<le> MAX_PROFILE_NAME_BYTES"
    using facts(2) by (auto simp: is_safe_label_def field_limits MAX_LABEL_BYTES_def)
  show "length (team_id (profile_team p)) = 10"
    using t by (auto simp: DevelopmentTeam_new_def split: if_splits)
  show "bundle_identifier_pattern p \<noteq> []" using facts(4) by (rule bundle_pattern_nonempty)
  show "application_identifier p = team_id (profile_team p) @ ''.'' @ bundle_identifier_pattern p" by (rule facts(3))
  then show "application_identifier p \<noteq> []" by simp
  show "n \<noteq> [] \<and> length n \<le> MAX_TEAM_NAME_BYTES" if "team_display_name (profile_team p) = Some n"
    using t that by (auto simp: DevelopmentTeam_new_def unsafe_display_name_def is_safe_label_def field_limits
        MAX_LABEL_BYTES_def split: if_splits)
  show "profile_type p = ProfileAppStore \<longleftrightarrow> device_udid_sha256s p = []" by (rule facts(5))
qed

lemma parsed_is_described:
  assumes "parse_provisioning_profile_value sha v = Ok p"
  shows "describes_profile sha v p"
proof -
  from assms obtain root uuid name team_identifier team_name created_at expires_at devices fingerprints
      entitlements pattern allow all where
    v: "v = PDictionary root" "document_bounded v" and
    root: "map_of root ''UUID'' = Some (PString uuid)" "map_of root ''Name'' = Some (PString name)"
      "map_of root ''TeamIdentifier'' = Some (PArray [PString team_identifier])"
      "map_of root ''TeamName'' = map_option PString team_name" "is_ok (DevelopmentTeam_new team_identifier team_name)"
      "date_field root ''CreationDate'' created_at" "date_field root ''ExpirationDate'' expires_at"
      "map_of root ''Platform'' = Some (PArray [PString ''iOS''])" "devices_field sha root devices"
      "certificates_field sha root fingerprints" "entitlements_field root entitlements" and
    rest: "EntitlementSet_get entitlements APPLICATION_IDENTIFIER = Some (JString (team_identifier @ ''.'' @ pattern))"
      "length (team_identifier @ ''.'' @ pattern) \<le> MAX_APPLICATION_IDENTIFIER_BYTES"
      "EntitlementSet_get entitlements TEAM_IDENTIFIER \<in> {None, Some (JString team_identifier)}"
      "EntitlementSet_get entitlements GET_TASK_ALLOW = Some (JBool allow)"
      "EntitlementSet_get entitlements APPLICATION_GROUPS = None
        \<or> Option.bind (EntitlementSet_get entitlements APPLICATION_GROUPS) requested_application_groups \<noteq> None" and
    all: "map_of root ''ProvisionsAllDevices'' = map_option PBoolean all" "all \<noteq> Some True" and
    p: "p = \<lparr>profile_uuid = uuid, profile_name = name,
        profile_team = \<lparr>team_id = team_identifier, team_display_name = team_name\<rparr>,
        application_identifier = team_identifier @ ''.'' @ pattern, bundle_identifier_pattern = pattern,
        wildcard = (pattern = ''*'' \<or> suffix ''.*'' pattern), created_at_unix_seconds = created_at,
        expires_at_unix_seconds = expires_at, device_udid_sha256s = devices, profile_entitlements = entitlements,
        platforms = {Ios}, profile_type = (if allow then ProfileDevelopment
          else if devices = [] then ProfileAppStore else ProfileAdHoc), certificate_fingerprints = fingerprints\<rparr>"
      "validate_metadata p = Ok ()"
    unfolding parse_provisioning_profile_value_def parse_steps as_plist_Some
    by (elim exE conjE, hypsubst) (simp add: entitlement_team_iff)
  have "root_describes sha root p"
    using root all by (cases all) (simp_all add: root_describes_def p(1))
  moreover have "profile_consistent p"
    using root(5) rest p(2) by (simp add: profile_consistent_def p(1) profile_application_groups_def)
  ultimately show ?thesis using v by (simp add: describes_profile_def)
qed

lemma consistent_checks:
  assumes "profile_consistent p"
  shows "DevelopmentTeam_new (team_id (profile_team p)) (team_display_name (profile_team p)) = Ok (profile_team p)"
    "strip_prefix (team_id (profile_team p) @ ''.'') (application_identifier p) = Some (bundle_identifier_pattern p)"
    "(if profile_type p = ProfileDevelopment then ProfileDevelopment
      else if device_udid_sha256s p = [] then ProfileAppStore else ProfileAdHoc) = profile_type p"
    "Option.bind (EntitlementSet_get (profile_entitlements p) APPLICATION_IDENTIFIER) json_as_str
      = Some (application_identifier p)"
    "Option.bind (EntitlementSet_get (profile_entitlements p) GET_TASK_ALLOW) json_as_bool
      = Some (profile_type p = ProfileDevelopment)"
    "(case EntitlementSet_get (profile_entitlements p) TEAM_IDENTIFIER of
      None \<Rightarrow> False | Some j \<Rightarrow> json_as_str j \<noteq> Some (team_id (profile_team p))) = False"
    "(case EntitlementSet_get (profile_entitlements p) APPLICATION_GROUPS of
      None \<Rightarrow> False | Some groups \<Rightarrow> requested_application_groups groups = None) = False"
    "\<not> MAX_APPLICATION_IDENTIFIER_BYTES < length (application_identifier p)"
    "(bundle_identifier_pattern p = ''*'' \<or> suffix ''.*'' (bundle_identifier_pattern p)) = wildcard p"
    "validate_metadata p = Ok ()"
proof -
  note ids = consistent_identifiers [OF assms]
  show "DevelopmentTeam_new (team_id (profile_team p)) (team_display_name (profile_team p)) = Ok (profile_team p)"
    using assms unfolding DevelopmentTeam_new_Ok profile_consistent_def by simp
  show "strip_prefix (team_id (profile_team p) @ ''.'') (application_identifier p) = Some (bundle_identifier_pattern p)"
    using ids(8) by (simp add: strip_prefix_Some)
  show "(if profile_type p = ProfileDevelopment then ProfileDevelopment
      else if device_udid_sha256s p = [] then ProfileAppStore else ProfileAdHoc) = profile_type p"
    using ids(10) by (cases "profile_type p") auto
  show "(case EntitlementSet_get (profile_entitlements p) TEAM_IDENTIFIER of
      None \<Rightarrow> False | Some j \<Rightarrow> json_as_str j \<noteq> Some (team_id (profile_team p))) = False"
    using assms unfolding mismatch_iff by (simp add: profile_consistent_def)
  show "(case EntitlementSet_get (profile_entitlements p) APPLICATION_GROUPS of
      None \<Rightarrow> False | Some groups \<Rightarrow> requested_application_groups groups = None) = False"
    using assms unfolding groups_absent_iff by (simp add: profile_consistent_def profile_application_groups_def)
qed (use assms in \<open>simp_all add: profile_consistent_def not_less\<close>)

lemma described_is_parsed:
  assumes "describes_profile sha v p"
  shows "parse_provisioning_profile_value sha v = Ok p"
proof -
  from assms obtain root where v: "v = PDictionary root" "document_bounded v" and r: "root_describes sha root p"
    and c: "profile_consistent p"
    by (auto simp: describes_profile_def)
  note ids = consistent_identifiers [OF c]
  obtain all where all: "optional_boolean root ''ProvisionsAllDevices'' FieldProvisionsAllDevices = Ok all" "all \<noteq> Some True"
    using r by (auto simp: optional_boolean_def root_describes_def)
  have fields: "required_bounded_string root ''UUID'' FieldUuid MAX_UUID_BYTES = Ok (profile_uuid p)"
    "required_bounded_string root ''Name'' FieldName MAX_PROFILE_NAME_BYTES = Ok (profile_name p)"
    "parse_team_identifier root = Ok (team_id (profile_team p))"
    "optional_bounded_string root ''TeamName'' FieldTeamName MAX_TEAM_NAME_BYTES = Ok (team_display_name (profile_team p))"
    "required_unix_date root ''CreationDate'' FieldCreationDate = Ok (created_at_unix_seconds p)"
    "required_unix_date root ''ExpirationDate'' FieldExpirationDate = Ok (expires_at_unix_seconds p)"
    "parse_platforms root = Ok (platforms p)"
    "parse_device_identifier_sha256s sha root = Ok (device_udid_sha256s p)"
    "parse_certificate_fingerprints sha root = Ok (certificate_fingerprints p)"
    "parse_entitlements root = Ok (profile_entitlements p)"
    using r ids
    by (simp_all add: root_describes_def required_bounded_string_Ok parse_team_identifier_Ok optional_bounded_string_Ok
        parse_platforms_Ok fields_Ok split: option.splits)
  have same: "\<lparr>profile_uuid = profile_uuid p, profile_name = profile_name p, profile_team = profile_team p,
      application_identifier = application_identifier p, bundle_identifier_pattern = bundle_identifier_pattern p,
      wildcard = wildcard p, created_at_unix_seconds = created_at_unix_seconds p,
      expires_at_unix_seconds = expires_at_unix_seconds p, device_udid_sha256s = device_udid_sha256s p,
      profile_entitlements = profile_entitlements p, platforms = platforms p, profile_type = profile_type p,
      certificate_fingerprints = certificate_fingerprints p\<rparr> = p"
    by simp
  have bounds: "validate_document_bounds (PDictionary root) = Ok ()" using v by simp
  show ?thesis
    unfolding parse_provisioning_profile_value_def
    by (simp add: v(1) bounds fields all consistent_checks [OF c] ids(6,7) same reject_if_def)
qed

text \<open>
  C31 [profile_parse]: The parser is exact: it returns a profile precisely when the document is within its bounds, the
  fields of the document are those of the profile (certificates and devices by their digests, all distinct), and
  the profile is consistent in itself: its application identifier is the one of its entitlements and is formed from
  team and bundle pattern, its category follows from debugging permission and device list, enterprise profiles are
  excluded, and its metadata is valid. Checks that others imply, and the order of the checks, have no part in it.
\<close>

theorem profile_parser_is_exact:
  "parse_provisioning_profile_value sha v = Ok p \<longleftrightarrow> describes_profile sha v p"
  using parsed_is_described described_is_parsed by blast

section \<open>Exact validation\<close>

definition pattern_covers :: "string \<Rightarrow> string \<Rightarrow> bool" where
  "pattern_covers pattern b \<longleftrightarrow> pattern = ''*''
     \<or> (\<exists>pre rest. pattern = pre @ ''.*'' \<and> b = pre @ ''.'' @ rest \<and> rest \<noteq> [])
     \<or> \<not> suffix ''.*'' pattern \<and> pattern = b"

lemma bundle_pattern_matches_iff: "bundle_pattern_matches pattern b \<longleftrightarrow> pattern_covers pattern b"
proof (cases "strip_suffix ''.*'' pattern")
  case None
  then have n: "\<not> suffix ''.*'' pattern" by (simp add: strip_suffix_def split: if_splits)
  then have "pattern \<noteq> pre @ ''.*''" for pre by (auto simp: suffix_def)
  with None n show ?thesis by (auto simp: bundle_pattern_matches_def pattern_covers_def)
next
  case (Some pre)
  then have p: "pattern = pre @ ''.*''" by (simp add: strip_suffix_Some)
  then have s: "suffix ''.*'' pattern" by (simp add: suffix_def)
  have "(case strip_prefix pre b of None \<Rightarrow> False | Some rest \<Rightarrow> prefix ''.'' rest \<and> length rest > 1) \<longleftrightarrow>
      (\<exists>rest. b = pre @ ''.'' @ rest \<and> rest \<noteq> [])"
    by (auto simp: strip_prefix_def prefix_def split: option.splits)
  with Some p s show ?thesis by (auto simp: bundle_pattern_matches_def pattern_covers_def)
qed

text \<open>When the profile grants one requested entitlement.\<close>

definition entitlement_granted :: "ProvisioningProfile \<Rightarrow> ProfileValidationRequest \<Rightarrow> string \<Rightarrow> json \<Rightarrow> bool" where
  "entitlement_granted p r k j \<longleftrightarrow>
     (if k = APPLICATION_IDENTIFIER then j = JString (expected_application_identifier r)
      else if k = GET_TASK_ALLOW then j = JBool (req_profile_type r = ProfileDevelopment)
      else if k = APPLICATION_GROUPS then
        (\<exists>wanted granted. requested_application_groups j = Some wanted \<and> profile_application_groups p = Some granted
           \<and> wanted \<subseteq> granted)
      else EntitlementSet_get (profile_entitlements p) k = Some j)"

definition profile_authorizes :: "ProvisioningProfile \<Rightarrow> ProfileValidationRequest \<Rightarrow> bool" where
  "profile_authorizes p r \<longleftrightarrow>
     validate_metadata_at p (req_now_unix_seconds r) = Ok ()
   \<and> team_id (profile_team p) = team_id (req_team r)
   \<and> profile_type p = req_profile_type r
   \<and> target_kind (req_target r) \<in> {Application, Extension}
   \<and> pattern_covers (bundle_identifier_pattern p) (bundle_str (target_bundle_identifier (req_target r)))
   \<and> SigningCertificate_validate (req_certificate r) = Ok ()
   \<and> req_now_unix_seconds r < cert_expires_at (req_certificate r)
   \<and> team_id (cert_team (req_certificate r)) = team_id (req_team r)
   \<and> sha256_fingerprint (req_certificate r) \<in> set (certificate_fingerprints p)
   \<and> (req_profile_type r = ProfileAppStore
      \<or> (\<exists>d. req_device r = Some d \<and> udid_sha256 d \<in> set (device_udid_sha256s p)))
   \<and> EntitlementSet_get (profile_entitlements p) GET_TASK_ALLOW = Some (JBool (req_profile_type r = ProfileDevelopment))
   \<and> EntitlementSet_get (profile_entitlements p) APPLICATION_IDENTIFIER = Some (JString (application_identifier p))
   \<and> EntitlementSet_get (profile_entitlements p) TEAM_IDENTIFIER \<in> {None, Some (JString (team_id (req_team r)))}
   \<and> (EntitlementSet_get (profile_entitlements p) APPLICATION_GROUPS = None \<or> profile_application_groups p \<noteq> None)
   \<and> (\<forall>(k, j) \<in> set (entitlement_values (req_required_entitlements r)). entitlement_granted p r k j)"

text \<open>The groups the request asks for; the keys of an entitlement set are distinct.\<close>

definition requested_groups :: "ProfileValidationRequest \<Rightarrow> string set" where
  "requested_groups r =
     (case map_of (rev (entitlement_values (req_required_entitlements r))) APPLICATION_GROUPS of
        None \<Rightarrow> {} | Some j \<Rightarrow> (case requested_application_groups j of None \<Rightarrow> {} | Some groups \<Rightarrow> groups))"

lemma profile_issues_Nil:
  "profile_issues p r = [] \<and> (\<forall>(k, j) \<in> set (entitlement_values (req_required_entitlements r)). entitlement_granted p r k j)
   \<longleftrightarrow> profile_authorizes p r"
proof -
  have metadata: "(case validate_metadata_at p (req_now_unix_seconds r) of
        Inr _ \<Rightarrow> []
      | Inl ProfileNotYetValid \<Rightarrow> [IssueProfileNotYetValid]
      | Inl ProfileExpired \<Rightarrow> [IssueProfileExpired]
      | Inl _ \<Rightarrow> [IssueInvalidProfileMetadata]) = [] \<longleftrightarrow> validate_metadata_at p (req_now_unix_seconds r) = Ok ()"
    by (simp split: sum.splits SigningValidationError.splits)
  have device: "(if req_profile_type r \<in> {ProfileDevelopment, ProfileAdHoc}
        then (case req_device r of
            Some device \<Rightarrow> push_if (udid_sha256 device \<notin> set (device_udid_sha256s p)) IssueDeviceNotProvisioned
          | None \<Rightarrow> [IssueMissingDevice])
        else []) = [] \<longleftrightarrow> req_profile_type r = ProfileAppStore
      \<or> (\<exists>d. req_device r = Some d \<and> udid_sha256 d \<in> set (device_udid_sha256s p))"
    by (cases "req_profile_type r"; cases "req_device r") auto
  show ?thesis
    unfolding profile_issues_def profile_authorizes_def append_is_Nil_conv metadata device push_if_Nil mismatch_iff
      expected_get_task_allow_def bundle_pattern_matches_iff is_ok_unit
    by (simp add: bind_eq_Some_conv not_le conj_assoc)
qed

lemma push_unique_nonempty [simp]: "push_unique issues i \<noteq> []"
  by (auto simp: push_unique_def)

lemma entitlement_keys_differ [simp]:
  "APPLICATION_GROUPS \<noteq> APPLICATION_IDENTIFIER" "APPLICATION_GROUPS \<noteq> GET_TASK_ALLOW"
  "APPLICATION_IDENTIFIER \<noteq> APPLICATION_GROUPS" "GET_TASK_ALLOW \<noteq> APPLICATION_GROUPS"
  by (simp_all add: entitlement_keys)

lemma check_required_step:
  "fst (check_required_entitlement p r (k, j) (issues, groups)) = [] \<longleftrightarrow> issues = [] \<and> entitlement_granted p r k j"
  "entitlement_granted p r k j \<Longrightarrow> snd (check_required_entitlement p r (k, j) (issues, groups)) =
     (if k = APPLICATION_GROUPS then the (requested_application_groups j) else groups)"
  by (auto simp: check_required_entitlement_def entitlement_granted_def expected_get_task_allow_def split: option.splits)

lemma check_required_fold:
  "fst (fold (check_required_entitlement p r) vs (issues, groups)) = [] \<longleftrightarrow>
     issues = [] \<and> (\<forall>(k, j) \<in> set vs. entitlement_granted p r k j)"
  "(\<forall>(k, j) \<in> set vs. entitlement_granted p r k j) \<Longrightarrow>
     snd (fold (check_required_entitlement p r) vs (issues, groups)) =
       (case map_of (rev vs) APPLICATION_GROUPS of None \<Rightarrow> groups | Some j \<Rightarrow> the (requested_application_groups j))"
proof (induction vs rule: rev_induct)
  case (snoc v vs)
  obtain k j where v: "v = (k, j)" by (cases v)
  obtain so_far gs where s: "fold (check_required_entitlement p r) vs (issues, groups) = (so_far, gs)" by fastforce
  { case 1
    show ?case using check_required_step(1) [of p r k j so_far gs] snoc.IH(1) by (auto simp: v s) }
  { case 2
    then show ?case using check_required_step(2) [of p r k j so_far gs] snoc.IH(2) by (auto simp: v s) }
qed simp_all

text \<open>
  C9 [profile_exact]: Validation for a target is exact. It succeeds precisely when the profile authorizes the request:
  valid and current metadata, one team for profile, certificate and request, the requested category, a target that can
  carry a profile and whose identifier the pattern covers, a valid unexpired certificate that the profile lists, for
  device-bound categories a listed device, and every requested entitlement granted. The evidence then names exactly the
  request and the profile; otherwise at least one issue is reported.
\<close>

theorem profile_validation_is_exact:
  "case validate_profile_for_target p r of
     Inl issues \<Rightarrow> issues \<noteq> [] \<and> \<not> profile_authorizes p r
   | Inr e \<Rightarrow> profile_authorizes p r
       \<and> e = \<lparr>validated_profile_uuid = profile_uuid p,
              validated_bundle_identifier = bundle_str (target_bundle_identifier (req_target r)),
              validated_team_identifier = team_id (req_team r),
              validated_certificate_fingerprint = sha256_fingerprint (req_certificate r),
              validated_profile_type = profile_type p,
              validated_application_groups = requested_groups r,
              validated_expires_at = expires_at_unix_seconds p\<rparr>"
proof -
  obtain issues groups where f: "fold (check_required_entitlement p r) (entitlement_values (req_required_entitlements r))
      (profile_issues p r, {}) = (issues, groups)"
    by fastforce
  have i: "issues = [] \<longleftrightarrow> profile_authorizes p r"
    using check_required_fold(1) [of p r "entitlement_values (req_required_entitlements r)" "profile_issues p r" "{}"]
    by (simp add: f profile_issues_Nil)
  have g: "groups = requested_groups r" "profile_type p = req_profile_type r" if "profile_authorizes p r"
  proof -
    from that have granted: "\<forall>(k, j) \<in> set (entitlement_values (req_required_entitlements r)). entitlement_granted p r k j"
      and "profile_type p = req_profile_type r"
      by (simp_all add: profile_authorizes_def)
    then show "profile_type p = req_profile_type r" by simp
    have "requested_application_groups j \<noteq> None"
      if "map_of (rev (entitlement_values (req_required_entitlements r))) APPLICATION_GROUPS = Some j" for j
    proof -
      have "(APPLICATION_GROUPS, j) \<in> set (entitlement_values (req_required_entitlements r))"
        using map_of_SomeD [OF that] by simp
      with granted have "entitlement_granted p r APPLICATION_GROUPS j" by blast
      then show ?thesis by (auto simp: entitlement_granted_def)
    qed
    with check_required_fold(2) [OF granted, of "profile_issues p r" "{}"] show "groups = requested_groups r"
      by (auto simp: f requested_groups_def split: option.splits)
  qed
  show ?thesis by (simp add: validate_profile_for_target_def f) (use i g in auto)
qed

lemma validated_authorizes: "validate_profile_for_target p r = Ok e \<Longrightarrow> profile_authorizes p r"
  using check_required_fold(1) [of p r "entitlement_values (req_required_entitlements r)" "profile_issues p r" "{}"]
  by (auto simp: validate_profile_for_target_def profile_issues_Nil split: prod.splits if_splits)

lemma listed_device:
  assumes "devices_field sha root ds" "h \<in> set ds"
  obtains devices d where "map_of root ''ProvisionedDevices'' = Some (PArray (map PString devices))" "d \<in> set devices"
    "h = hex_encode (sha d)"
  using assms unfolding devices_field_def by auto

lemma listed_certificate:
  assumes "certificates_field sha root fs" "f \<in> set fs"
  obtains certs c where "map_of root ''DeveloperCertificates'' = Some (PArray (map PData certs))" "c \<in> set certs"
    "f = uppercase_hex (sha c)"
  using assms unfolding certificates_field_def by auto

text \<open>
  C21 [profile_listed]: Parsing and validating together bind a signing request to the bytes of the decoded document: the
  certificate is one the document carries, the team is the document's only team, a development or ad-hoc request is for
  a device the document lists, the time of the request is in the document's validity window, and the target lies under
  the application identifier that the document's own entitlements grant.
\<close>

theorem validated_profile_is_listed:
  assumes "parse_decoded_provisioning_profile sha from_reader decoded = Ok p"
    and "validate_profile_for_target p r = Ok e"
  shows "\<exists>root certs c. from_reader decoded = Some (PDictionary root)
    \<and> map_of root ''DeveloperCertificates'' = Some (PArray (map PData certs)) \<and> c \<in> set certs
    \<and> sha256_fingerprint (req_certificate r) = uppercase_hex (sha c)
    \<and> map_of root ''TeamIdentifier'' = Some (PArray [PString (team_id (req_team r))])
    \<and> (if req_profile_type r = ProfileAppStore then device_udid_sha256s p = []
       else \<exists>devices d plan. map_of root ''ProvisionedDevices'' = Some (PArray (map PString devices)) \<and> d \<in> set devices
         \<and> req_device r = Some plan \<and> udid_sha256 plan = hex_encode (sha d))
    \<and> date_field root ''CreationDate'' (created_at_unix_seconds p) \<and> created_at_unix_seconds p \<le> req_now_unix_seconds r
    \<and> date_field root ''ExpirationDate'' (expires_at_unix_seconds p) \<and> req_now_unix_seconds r < expires_at_unix_seconds p
    \<and> entitlements_field root (profile_entitlements p)
    \<and> EntitlementSet_get (profile_entitlements p) APPLICATION_IDENTIFIER
        = Some (JString (team_id (req_team r) @ ''.'' @ bundle_identifier_pattern p))
    \<and> pattern_covers (bundle_identifier_pattern p) (bundle_str (target_bundle_identifier (req_target r)))"
proof -
  have authorizes: "profile_authorizes p r" using assms(2) by (rule validated_authorizes)
  from assms(1) obtain v where v: "from_reader decoded = Some v" "parse_provisioning_profile_value sha v = Ok p"
    by (auto simp: parse_decoded_provisioning_profile_def and_then_Inr_iff split: if_splits)
  from parsed_is_described [OF v(2)] obtain root where root: "v = PDictionary root" "root_describes sha root p"
    and consistent: "profile_consistent p"
    by (auto simp: describes_profile_def)
  have fields: "certificates_field sha root (certificate_fingerprints p)" "devices_field sha root (device_udid_sha256s p)"
    "date_field root ''CreationDate'' (created_at_unix_seconds p)" "date_field root ''ExpirationDate'' (expires_at_unix_seconds p)"
    "entitlements_field root (profile_entitlements p)"
    using root(2) by (simp_all add: root_describes_def)
  have "sha256_fingerprint (req_certificate r) \<in> set (certificate_fingerprints p)"
    using authorizes by (simp add: profile_authorizes_def)
  with fields(1) obtain certs c where c: "map_of root ''DeveloperCertificates'' = Some (PArray (map PData certs))"
    "c \<in> set certs" "sha256_fingerprint (req_certificate r) = uppercase_hex (sha c)"
    by (rule listed_certificate)
  have devices: "if req_profile_type r = ProfileAppStore then device_udid_sha256s p = []
       else \<exists>devices d plan. map_of root ''ProvisionedDevices'' = Some (PArray (map PString devices)) \<and> d \<in> set devices
         \<and> req_device r = Some plan \<and> udid_sha256 plan = hex_encode (sha d)"
  proof (cases "req_profile_type r = ProfileAppStore")
    case True
    with authorizes consistent_identifiers(10) [OF consistent] show ?thesis by (simp add: profile_authorizes_def)
  next
    case False
    with authorizes obtain plan where "req_device r = Some plan" "udid_sha256 plan \<in> set (device_udid_sha256s p)"
      by (auto simp: profile_authorizes_def)
    with listed_device [OF fields(2)] False show ?thesis by (metis (no_types, lifting))
  qed
  have window: "created_at_unix_seconds p \<le> req_now_unix_seconds r" "req_now_unix_seconds r < expires_at_unix_seconds p"
    using authorizes by (auto simp: profile_authorizes_def validate_metadata_at_def and_then_Inr_iff split: if_splits)
  have ids: "EntitlementSet_get (profile_entitlements p) APPLICATION_IDENTIFIER
      = Some (JString (team_id (req_team r) @ ''.'' @ bundle_identifier_pattern p))"
    "map_of root ''TeamIdentifier'' = Some (PArray [PString (team_id (req_team r))])"
    "pattern_covers (bundle_identifier_pattern p) (bundle_str (target_bundle_identifier (req_target r)))"
    using consistent consistent_identifiers(8) [OF consistent] authorizes root(2)
    by (simp_all add: profile_consistent_def profile_authorizes_def root_describes_def)
  show ?thesis
    by (intro exI conjI) (rule v(1) [unfolded root(1)] c devices window ids fields)+
qed

section \<open>A development profile\<close>

definition example_digest :: "bytes \<Rightarrow> bytes" where
  "example_digest b = replicate 32 CHR 0x00"

definition example_entitlements :: "(string \<times> plist) list" where
  "example_entitlements =
     [(''application-identifier'', PString ''ABCDE12345.com.example.app''), (''get-task-allow'', PBoolean True)]"

definition example_document :: plist where
  "example_document = PDictionary
     [(''UUID'', PString ''12345678''), (''Name'', PString ''Example''),
      (''TeamIdentifier'', PArray [PString ''ABCDE12345'']),
      (''CreationDate'', PDate 1000000000), (''ExpirationDate'', PDate 9000000000),
      (''Platform'', PArray [PString ''iOS'']),
      (''ProvisionedDevices'', PArray [PString ''00000000-0000000000000000'']),
      (''DeveloperCertificates'', PArray [PData ''der'']),
      (''Entitlements'', PDictionary example_entitlements)]"

definition example_profile :: ProvisioningProfile where
  "example_profile =
     \<lparr>profile_uuid = ''12345678'', profile_name = ''Example'',
      profile_team = \<lparr>team_id = ''ABCDE12345'', team_display_name = None\<rparr>,
      application_identifier = ''ABCDE12345.com.example.app'', bundle_identifier_pattern = ''com.example.app'',
      wildcard = False, created_at_unix_seconds = 1, expires_at_unix_seconds = 9,
      device_udid_sha256s = [replicate 64 (CHR ''0'')],
      profile_entitlements = EntitlementSet
        [(''application-identifier'', JString ''ABCDE12345.com.example.app''), (''get-task-allow'', JBool True)],
      platforms = {Ios}, profile_type = ProfileDevelopment,
      certificate_fingerprints = [replicate 64 (CHR ''0'')]\<rparr>"

definition example_profile_request :: ProfileValidationRequest where
  "example_profile_request =
     \<lparr>req_target = \<lparr>target_name = ''App'', target_bundle_identifier = BundleIdentifier ''com.example.app'',
        target_kind = Application\<rparr>,
      req_team = \<lparr>team_id = ''ABCDE12345'', team_display_name = None\<rparr>,
      req_device = Some \<lparr>udid_sha256 = replicate 64 (CHR ''0''), device_display_name = None\<rparr>,
      req_certificate = \<lparr>common_name = ''Apple Development'', sha256_fingerprint = replicate 64 (CHR ''0''),
        cert_team = \<lparr>team_id = ''ABCDE12345'', team_display_name = None\<rparr>, cert_expires_at = 7\<rparr>,
      req_profile_type = ProfileDevelopment,
      req_required_entitlements = EntitlementSet [(''get-task-allow'', JBool True)],
      req_now_unix_seconds = 5\<rparr>"

lemma example_zero_digest:
  "hex_encode (example_digest b) = replicate 64 (CHR ''0'')" "uppercase_hex (example_digest b) = replicate 64 (CHR ''0'')"
  unfolding example_digest_def by code_simp+

lemma example_document_bounded: "document_bounded example_document"
  by (simp add: document_bounded_def example_document_def example_entitlements_def document_limits)

lemma example_labels: "is_safe_label ''Example''" "is_safe_label ''Apple Development''"
  by (simp_all add: is_safe_label_def MAX_LABEL_BYTES_def has_control_def is_trimmed_def chars_ascii is_ascii_def
      is_control_def is_whitespace_def)

lemma example_identifiers: "is_profile_identifier ''12345678''" "is_ok (BundleIdentifier_new ''com.example.app'')"
  "is_ok (DevelopmentTeam_new ''ABCDE12345'' None)" "validate_raw_udid ''00000000-0000000000000000'' = Ok ()"
  by code_simp+

lemma example_digest_text: "is_lowercase_sha256 (replicate 64 (CHR ''0''))" "validate_fingerprint (replicate 64 (CHR ''0'')) = Ok ()"
  by (simp_all add: is_lowercase_sha256_def is_lower_hex_def validate_fingerprint_def is_ascii_hexdigit_def
      is_ascii_digit_def list_all_iff)

lemma example_metadata: "validate_metadata example_profile = Ok ()"
  by (simp add: validate_metadata_def example_profile_def example_labels example_identifiers example_digest_text
      bundle_pattern_valid_def check_device_def DevicePlan_from_sha256_def unsafe_display_name_def reject_if_def)

lemma example_entitlements_json:
  "plist_members_to_json example_entitlements [] = Ok (entitlement_values (profile_entitlements example_profile))"
  by (simp add: example_entitlements_def example_profile_def plist_entitlement_to_json.simps)

lemma example_entitlements_valid: "is_ok (EntitlementSet_new (entitlement_values (profile_entitlements example_profile)))"
  by (simp add: EntitlementSet_new_def example_profile_def) code_simp

lemma example_described: "describes_profile example_digest example_document example_profile"
proof -
  obtain root where root: "example_document = PDictionary root" and fields:
    "map_of root ''UUID'' = Some (PString ''12345678'')" "map_of root ''Name'' = Some (PString ''Example'')"
    "map_of root ''TeamIdentifier'' = Some (PArray [PString ''ABCDE12345''])" "map_of root ''TeamName'' = None"
    "map_of root ''CreationDate'' = Some (PDate 1000000000)" "map_of root ''ExpirationDate'' = Some (PDate 9000000000)"
    "map_of root ''Platform'' = Some (PArray [PString ''iOS''])"
    "map_of root ''ProvisionedDevices'' = Some (PArray (map PString [''00000000-0000000000000000'']))"
    "map_of root ''DeveloperCertificates'' = Some (PArray (map PData [''der'']))"
    "map_of root ''Entitlements'' = Some (PDictionary example_entitlements)" "map_of root ''ProvisionsAllDevices'' = None"
    by (simp add: example_document_def)
  have "devices_field example_digest root (device_udid_sha256s example_profile)"
    unfolding devices_field_def
    by (intro conjI disjI2 exI [of _ "[''00000000-0000000000000000'']"])
      (simp_all add: fields example_profile_def example_zero_digest device_ok_def example_identifiers example_digest_text field_limits)
  moreover have "certificates_field example_digest root (certificate_fingerprints example_profile)"
    unfolding certificates_field_def
    by (intro conjI exI [of _ "[''der'']"])
      (simp_all add: fields example_profile_def example_zero_digest certificate_ok_def field_limits)
  moreover have "date_field root ''CreationDate'' (created_at_unix_seconds example_profile)"
    "date_field root ''ExpirationDate'' (expires_at_unix_seconds example_profile)"
    by (simp_all add: date_field_def fields example_profile_def)
  moreover have "entitlements_field root (profile_entitlements example_profile)"
    by (simp add: entitlements_field_def fields example_entitlements_json example_entitlements_valid)
  ultimately have "root_describes example_digest root example_profile"
    by (simp add: root_describes_def fields) (simp add: example_profile_def)
  moreover have "profile_consistent example_profile"
    using example_metadata
    by (simp add: profile_consistent_def) (simp add: example_profile_def example_identifiers EntitlementSet_get_def
        entitlement_keys field_limits suffix_def)
  ultimately show ?thesis
    using example_document_bounded root unfolding describes_profile_def by blast
qed

lemma example_validated: "is_ok (validate_profile_for_target example_profile example_profile_request)"
proof -
  have "validate_metadata_at example_profile 5 = Ok ()"
    using example_metadata by (simp add: validate_metadata_at_def) (simp add: example_profile_def)
  then have "profile_issues example_profile example_profile_request = []"
    by (simp add: profile_issues_def example_profile_request_def)
      (simp add: example_profile_def bundle_pattern_matches_def strip_suffix_def suffix_def SigningCertificate_validate_def
        example_labels example_digest_text EntitlementSet_get_def entitlement_keys expected_get_task_allow_def)
  then show ?thesis
    by (simp add: validate_profile_for_target_def)
      (simp add: example_profile_request_def check_required_entitlement_def entitlement_keys expected_get_task_allow_def)
qed

theorem validated_profile_is_listed_witness:
  "\<exists>e root certs c. validate_profile_for_target example_profile example_profile_request = Ok e
    \<and> example_document = PDictionary root
    \<and> map_of root ''DeveloperCertificates'' = Some (PArray (map PData certs)) \<and> c \<in> set certs
    \<and> sha256_fingerprint (req_certificate example_profile_request) = uppercase_hex (example_digest c)"
proof -
  obtain e where e: "validate_profile_for_target example_profile example_profile_request = Ok e"
    using example_validated by (auto simp: is_ok_conv)
  have "parse_decoded_provisioning_profile example_digest (\<lambda>_. Some example_document) ''plist'' = Ok example_profile"
    using described_is_parsed [OF example_described]
    by (simp add: parse_decoded_provisioning_profile_def MAX_DECODED_PROFILE_BYTES_def)
  from validated_profile_is_listed [OF this e] e show ?thesis by auto
qed

end
