(* ===== verification/Artifact_Manifest.thy ===== *)
theory Artifact_Manifest
  imports Signing
begin

text \<open>
  Artifact manifests and the client's product expectations
  (\<^verbatim>\<open>src/crates/rustferry-remote/src/artifact.rs\<close>). The inspection of Mach-O files and ZIP archives in
  the same file is not modelled.
\<close>

definition ARTIFACT_MANIFEST_SCHEMA_VERSION :: u32 where
  "ARTIFACT_MANIFEST_SCHEMA_VERSION = 1"

datatype ValidationLevel =
    SourceValidated | RemoteBuilderValidated | DeviceTargetCompiled | DeviceBinaryBuilt | AppBundleBuilt
  | ArchiveBuilt | LevelCertificateValidated | ProvisioningValidated | LevelNestedCodeSigned
  | LevelApplicationSigned | LevelIpaExported | LevelArtifactValidated | DownloadedToClient
  | InstallValidated | LaunchValidated | RuntimeValidated

datatype ArtifactKind =
  KindApp | KindXcarchive | KindIpa | KindDsym | KindManifest | KindSigningReport | KindValidationReport
  | KindSanitizedLog

record ArtifactRecord =
  artifact_id :: string
  artifact_kind_of :: ArtifactKind
  artifact_file_name :: string
  artifact_size :: u64
  artifact_sha256 :: string
  artifact_media_type :: "string option"

record AppleToolchainEvidence =
  worker_os :: string
  worker_architecture :: string
  xcode_version :: string
  iphoneos_sdk_version :: string
  rust_version :: string
  rust_target :: string

record ArtifactSigningEvidence =
  evidence_mode :: SigningMode
  evidence_status :: SigningStatus
  evidence_team_id :: "string option"
  evidence_certificate_fingerprint :: "string option"
  evidence_profile_uuid :: "string option"
  evidence_profile_expiration :: "string option"
  evidence_entitlements_sha256 :: "string option"

datatype CleanupStatus = CleanupPending | CleanupConfirmed | CleanupWarning | CleanupStatusFailed

record ArtifactManifest =
  am_schema_version :: u32
  am_operation_id :: string
  am_job_id :: string
  am_project_id :: string
  am_source_repository :: "string option"
  am_source_revision :: "string option"
  am_source_snapshot :: bool
  am_source_sha256 :: string
  am_cargo_lock_sha256 :: string
  am_config_sha256 :: string
  am_rustferry_version :: string
  am_worker_version :: string
  am_provider :: string
  am_toolchain :: AppleToolchainEvidence
  am_app_name :: string
  am_app_version :: string
  am_build_number :: string
  am_bundle_identifier :: string
  am_build_profile :: string
  am_architecture :: string
  am_signing :: ArtifactSigningEvidence
  am_extensions :: "string list"
  am_artifacts :: "ArtifactRecord list"
  am_validation_levels :: "ValidationLevel set"
  am_started_at :: string
  am_finished_at :: string
  am_cleanup_status :: CleanupStatus

datatype ArtifactError = ManifestArtifactMissing ArtifactKind | ManifestArtifactAmbiguous ArtifactKind

definition ArtifactManifest_new :: "string \<Rightarrow> string \<Rightarrow> ArtifactManifest" where
  "ArtifactManifest_new operation_id job_id =
     \<lparr>am_schema_version = ARTIFACT_MANIFEST_SCHEMA_VERSION, am_operation_id = operation_id, am_job_id = job_id,
      am_project_id = [], am_source_repository = None, am_source_revision = None, am_source_snapshot = False,
      am_source_sha256 = [], am_cargo_lock_sha256 = [], am_config_sha256 = [], am_rustferry_version = [],
      am_worker_version = [], am_provider = [],
      am_toolchain = \<lparr>worker_os = [], worker_architecture = [], xcode_version = [], iphoneos_sdk_version = [],
        rust_version = [], rust_target = []\<rparr>,
      am_app_name = [], am_app_version = [], am_build_number = [], am_bundle_identifier = [],
      am_build_profile = [], am_architecture = [],
      am_signing = \<lparr>evidence_mode = UnsignedCompileOnly, evidence_status = Unsigned, evidence_team_id = None,
        evidence_certificate_fingerprint = None, evidence_profile_uuid = None,
        evidence_profile_expiration = None, evidence_entitlements_sha256 = None\<rparr>,
      am_extensions = [], am_artifacts = [], am_validation_levels = {}, am_started_at = [],
      am_finished_at = [], am_cleanup_status = CleanupPending\<rparr>"

definition one_artifact :: "ArtifactManifest \<Rightarrow> ArtifactKind \<Rightarrow> ArtifactError + ArtifactRecord" where
  "one_artifact m k =
     (case filter (\<lambda>a. artifact_kind_of a = k) (am_artifacts m) of
        [] \<Rightarrow> Err (ManifestArtifactMissing k)
      | a # rest \<Rightarrow> if rest \<noteq> [] then Err (ManifestArtifactAmbiguous k) else Ok a)"

datatype UnsignedNestedBundleKind = AppExtension | NestedFramework

record UnsignedNestedBundleExpectation =
  nested_relative_path :: string
  nested_bundle_identifier :: string
  nested_executable :: string
  nested_kind :: UnsignedNestedBundleKind

record IosDeviceProductExpectation =
  app_directory_name :: string
  product_executable :: string
  product_app_version :: string
  product_build_number :: string
  product_nested_bundles :: "UnsignedNestedBundleExpectation list"

record IpaExpectation =
  ipa_app_directory_name :: string
  ipa_bundle_identifier :: string
  ipa_executable :: string
  ipa_app_version :: "string option"
  ipa_build_number :: "string option"
  ipa_minimum_os :: string
  ipa_nested_bundles :: "UnsignedNestedBundleExpectation list"
  ipa_provisioning_required :: bool

lemma one_artifact_ok:
  "one_artifact m k = Ok a \<longleftrightarrow> filter (\<lambda>a. artifact_kind_of a = k) (am_artifacts m) = [a]"
  by (auto simp: one_artifact_def split: list.splits if_splits)

end
