(* ===== verification/Protocol.thy ===== *)
theory Protocol
  imports Artifact_Manifest Source_Manifest
begin

text \<open>
  The wire protocol's versions, paths, job lifecycle and field validators
  (\<^verbatim>\<open>src/crates/rustferry-remote/src/protocol.rs\<close>, \<^verbatim>\<open>error.rs\<close>). The URL parser of the \<open>url\<close> crate is a
  parameter that returns the parts the sources look at.
\<close>

section \<open>Versions and errors\<close>

record ProtocolVersion =
  major :: u16
  minor :: u16

definition ProtocolVersion_new :: "u16 \<Rightarrow> u16 \<Rightarrow> ProtocolVersion" where
  "ProtocolVersion_new a b = \<lparr>major = a, minor = b\<rparr>"

definition CURRENT_PROTOCOL_VERSION :: ProtocolVersion where
  "CURRENT_PROTOCOL_VERSION = ProtocolVersion_new 1 0"

datatype JobState =
  Created | Queued | Running | Cancelling | Succeeded | Failed | Cancelled | Cleaning | Cleaned | CleanupFailed

datatype BuildProfile = Debug | Release

datatype IosArtifactType = Ipa | Xcarchive | AppBundle | Dsym | SigningReport | ProvisioningReport

text \<open>One feature a caller may require from a provider (\<^verbatim>\<open>provider.rs\<close>); the errors mention it.\<close>

datatype ProviderFeature =
    SourceMode SourceMode
  | IosDeviceBuild
  | IosSimulatorBuild
  | SigningMode SigningMode
  | PersonalTeamFeature
  | LiveEvents
  | LiveLogs
  | Cancellation
  | ArtifactType IosArtifactType
  | Cache
  | ArtifactListing
  | ArtifactDownload
  | Cleanup
  | PhysicalDeviceAccess

text \<open>
  The errors that cross the remote-build boundary. \<open>InvalidSourceManifest\<close> carries the source error instead
  of its displayed text; \<open>RequestCancelled\<close> is the source's \<open>Cancelled\<close>.
\<close>

datatype RemoteBuildError =
    IncompatibleProtocolVersion (version_supported: ProtocolVersion) (version_received: ProtocolVersion)
  | TruncatedEvent
  | MalformedEvent string
  | InvalidUtf8
  | EventTooLarge nat nat
  | InvalidIdentifier (identifier_field: string) (identifier_reason: string)
  | UnsafeEventText string
  | InvalidEventPayload (payload_event: string) (payload_reason: string)
  | InvalidSourceManifest SourceError
  | InvalidJobTransition JobState JobState
  | RequestCancelled
  | UnsupportedCapability string ProviderFeature
  | ProviderFailure string string string bool
  | ArtifactNotFound string string
  | IntegrityMismatch string string string
  | Serialization string

definition error_code :: "RemoteBuildError \<Rightarrow> string" where
  "error_code e =
     (case e of
        IncompatibleProtocolVersion _ _ \<Rightarrow> ''incompatible_protocol_version''
      | TruncatedEvent \<Rightarrow> ''truncated_event''
      | MalformedEvent _ \<Rightarrow> ''malformed_event''
      | InvalidUtf8 \<Rightarrow> ''invalid_utf8''
      | EventTooLarge _ _ \<Rightarrow> ''event_too_large''
      | InvalidIdentifier _ _ \<Rightarrow> ''invalid_identifier''
      | UnsafeEventText _ \<Rightarrow> ''unsafe_event_text''
      | InvalidEventPayload _ _ \<Rightarrow> ''invalid_event_payload''
      | InvalidSourceManifest _ \<Rightarrow> ''invalid_source_manifest''
      | InvalidJobTransition _ _ \<Rightarrow> ''invalid_job_transition''
      | RequestCancelled \<Rightarrow> ''cancelled''
      | UnsupportedCapability _ _ \<Rightarrow> ''unsupported_capability''
      | ProviderFailure _ _ _ _ \<Rightarrow> ''provider_failure''
      | ArtifactNotFound _ _ \<Rightarrow> ''artifact_not_found''
      | IntegrityMismatch _ _ _ \<Rightarrow> ''integrity_mismatch''
      | Serialization _ \<Rightarrow> ''serialization_failed'')"

definition retryable :: "RemoteBuildError \<Rightarrow> bool" where
  "retryable e =
     (case e of ProviderFailure _ _ _ r \<Rightarrow> r | TruncatedEvent \<Rightarrow> True | RequestCancelled \<Rightarrow> True | _ \<Rightarrow> False)"

definition is_compatible_with :: "ProtocolVersion \<Rightarrow> ProtocolVersion \<Rightarrow> bool" where
  "is_compatible_with a b \<longleftrightarrow> major a = major b \<and> (major a \<noteq> 0 \<or> minor a = minor b)"

definition negotiate :: "ProtocolVersion \<Rightarrow> ProtocolVersion \<Rightarrow> RemoteBuildError + ProtocolVersion" where
  "negotiate a b =
     (if is_compatible_with a b then Ok (ProtocolVersion_new (major a) (min (minor a) (minor b)))
      else Err (IncompatibleProtocolVersion a b))"

definition artifact_kind :: "IosArtifactType \<Rightarrow> ArtifactKind" where
  "artifact_kind t =
     (case t of Ipa \<Rightarrow> KindIpa | Xcarchive \<Rightarrow> KindXcarchive | AppBundle \<Rightarrow> KindApp | Dsym \<Rightarrow> KindDsym
      | SigningReport \<Rightarrow> KindSigningReport | ProvisioningReport \<Rightarrow> KindValidationReport)"

section \<open>Job lifecycle\<close>

definition can_transition_to :: "JobState \<Rightarrow> JobState \<Rightarrow> bool" where
  "can_transition_to s t =
     (case s of
        Created \<Rightarrow> t \<in> {Queued, Running, Cancelling, Cancelled, Failed}
      | Queued \<Rightarrow> t \<in> {Running, Cancelling, Cancelled, Failed}
      | Running \<Rightarrow> t \<in> {Succeeded, Failed, Cancelling, Cancelled}
      | Cancelling \<Rightarrow> t \<in> {Cancelled, Failed}
      | Succeeded \<Rightarrow> t = Cleaning | Failed \<Rightarrow> t = Cleaning | Cancelled \<Rightarrow> t = Cleaning
      | Cleaning \<Rightarrow> t \<in> {Cleaned, CleanupFailed}
      | Cleaned \<Rightarrow> False | CleanupFailed \<Rightarrow> False)"

definition transition_to :: "JobState \<Rightarrow> JobState \<Rightarrow> RemoteBuildError + JobState" where
  "transition_to s t = (if can_transition_to s t then Ok t else Err (InvalidJobTransition s t))"

definition is_build_terminal :: "JobState \<Rightarrow> bool" where
  "is_build_terminal s \<longleftrightarrow> s \<in> {Succeeded, Failed, Cancelled}"

definition is_terminal :: "JobState \<Rightarrow> bool" where
  "is_terminal s \<longleftrightarrow> s \<in> {Cleaned, CleanupFailed}"

section \<open>Text validators\<close>

definition validate_identifier :: "string \<Rightarrow> string \<Rightarrow> RemoteBuildError + unit" where
  "validate_identifier field v =
     (if v = [] then Err (InvalidIdentifier field ''value is empty'')
      else if length v > 160 then Err (InvalidIdentifier field ''value exceeds 160 bytes'')
      else if \<not> list_all (\<lambda>b. is_ascii_alphanumeric b \<or> b \<in> {CHR ''-'', CHR ''_'', CHR ''.'', CHR '':''}) v
      then Err (InvalidIdentifier field ''value contains unsupported characters'')
      else Ok ())"

definition validate_safe_text :: "string \<Rightarrow> string \<Rightarrow> nat \<Rightarrow> RemoteBuildError + unit" where
  "validate_safe_text field v maximum_bytes =
     (if v = [] then Err (InvalidIdentifier field ''value is empty'')
      else if length v > maximum_bytes then Err (InvalidIdentifier field ''value exceeds its protocol limit'')
      else if has_control v then Err (InvalidIdentifier field ''value contains control characters'')
      else Ok ())"

definition valid_segment :: "string \<Rightarrow> bool" where
  "valid_segment s \<longleftrightarrow> s \<noteq> [] \<and> \<not> prefix ''-'' s \<and> \<not> suffix ''-'' s
     \<and> list_all (\<lambda>b. is_ascii_alphanumeric b \<or> b = CHR ''-'') s"

definition validate_bundle_identifier :: "string \<Rightarrow> RemoteBuildError + unit" where
  "validate_bundle_identifier v =
     and_then (validate_safe_text ''bundle_identifier'' v 255) (\<lambda>_.
       if (case split (CHR ''.'') v of
             a # b # rest \<Rightarrow> \<not> valid_segment a \<or> \<not> valid_segment b \<or> list_ex (\<lambda>s. \<not> valid_segment s) rest
           | _ \<Rightarrow> True)
       then Err (InvalidIdentifier ''bundle_identifier'' ''value must contain at least two valid dot-separated segments'')
       else Ok ())"

text \<open>The version grammar shared by the iOS version and the bundle versions, for a component width in bits.\<close>

definition bad_version_component :: "nat \<Rightarrow> string \<Rightarrow> bool" where
  "bad_version_component bits c \<longleftrightarrow> c = [] \<or> (length c > 1 \<and> prefix ''0'' c)
     \<or> \<not> list_all is_ascii_digit c \<or> parse_unsigned bits c = None"

definition bad_version :: "nat \<Rightarrow> string \<Rightarrow> bool" where
  "bad_version bits v =
     (let components = split (CHR ''.'') v in
      components = [] \<or> length components > 3 \<or> list_ex (bad_version_component bits) components)"

definition validate_ios_version :: "string \<Rightarrow> RemoteBuildError + unit" where
  "validate_ios_version v =
     and_then (validate_safe_text ''minimum_ios_version'' v 32) (\<lambda>_.
       reject_if (bad_version 16 v)
         (InvalidIdentifier ''minimum_ios_version'' ''value must contain one to three canonical numeric components''))"

definition validate_bundle_version :: "string \<Rightarrow> string \<Rightarrow> RemoteBuildError + unit" where
  "validate_bundle_version field v =
     and_then (validate_safe_text field v 64) (\<lambda>_.
       reject_if (bad_version 32 v)
         (InvalidIdentifier field ''value must contain one to three canonical numeric components''))"

definition reserved_basename :: "string \<Rightarrow> bool" where
  "reserved_basename basename =
     (basename \<in> set [''CON'', ''PRN'', ''AUX'', ''NUL'']
      \<or> (case (case strip_prefix ''COM'' basename of None \<Rightarrow> strip_prefix ''LPT'' basename | Some t \<Rightarrow> Some t) of
           None \<Rightarrow> False
         | Some t \<Rightarrow> t \<in> set [''1'', ''2'', ''3'', ''4'', ''5'', ''6'', ''7'', ''8'', ''9'']))"

definition validate_portable_component :: "string \<Rightarrow> string \<Rightarrow> RemoteBuildError + unit" where
  "validate_portable_component field v =
     and_then (validate_safe_text field v 255) (\<lambda>_.
       if v = ''.'' \<or> v = ''..''
         \<or> list_ex (\<lambda>c. c \<in> set ''/:*?<>|'' \<or> c \<in> {CHR 0x5C, CHR 0x00, CHR 0x22}) v
         \<or> last v \<in> {CHR ''.'', CHR '' ''}
       then Err (InvalidIdentifier field ''value is not a portable filename component'')
       else if reserved_basename (to_ascii_uppercase (hd (split (CHR ''.'') v)))
       then Err (InvalidIdentifier field ''value is reserved on a supported client filesystem'')
       else Ok ())"

definition has_exact_extension :: "string \<Rightarrow> string \<Rightarrow> bool" where
  "has_exact_extension v e =
     (case rsplit_once (CHR ''.'') v of None \<Rightarrow> False | Some (_, extension) \<Rightarrow> extension = e)"

definition validate_nested_bundle_path :: "string \<Rightarrow> UnsignedNestedBundleKind \<Rightarrow> RemoteBuildError + unit" where
  "validate_nested_bundle_path path k =
     and_then (validate_safe_text ''nested_bundle_path'' path 1024) (\<lambda>_.
       case split (CHR ''/'') path of
         [a, b] \<Rightarrow>
           and_then (validate_portable_component ''nested_bundle_directory'' b) (\<lambda>_.
             if \<not> (case k of
                    AppExtension \<Rightarrow> a = ''PlugIns'' \<and> has_exact_extension b ''appex''
                  | NestedFramework \<Rightarrow> a = ''Frameworks'' \<and> has_exact_extension b ''framework'')
             then Err (InvalidIdentifier ''nested_bundle_path'' ''value does not match its nested bundle kind'')
             else Ok ())
       | _ \<Rightarrow> Err (InvalidIdentifier ''nested_bundle_path'' ''value must be directly below PlugIns or Frameworks''))"

definition portable_name_key :: "unicode \<Rightarrow> string \<Rightarrow> string" where
  "portable_name_key u v = chars_lowercase u (nfkc u v)"

definition validate_git_revision :: "string \<Rightarrow> RemoteBuildError + unit" where
  "validate_git_revision v =
     reject_if (length v \<noteq> 40 \<or> \<not> list_all is_lower_hex v)
       (InvalidIdentifier ''source_revision'' ''value must be an exact lowercase 40-hex commit SHA'')"

section \<open>URLs and paths\<close>

record url =
  url_scheme :: string
  url_host_str :: "string option"
  url_port :: "nat option"
  url_username :: string
  url_password :: "string option"
  url_query :: "string option"
  url_fragment :: "string option"
  url_path_segments :: "string list option"

definition is_github_name :: "string \<Rightarrow> bool" where
  "is_github_name v \<longleftrightarrow> v \<noteq> [] \<and> v \<noteq> ''.'' \<and> v \<noteq> ''..''
     \<and> list_all (\<lambda>b. is_ascii_alphanumeric b \<or> b \<in> {CHR ''-'', CHR ''_'', CHR ''.''}) v"

definition validate_github_repository :: "(string \<Rightarrow> url option) \<Rightarrow> string \<Rightarrow> RemoteBuildError + unit" where
  "validate_github_repository url_parse v =
     and_then (validate_safe_text ''source_repository'' v 2048) (\<lambda>_.
       case url_parse v of
         None \<Rightarrow> Err (InvalidIdentifier ''source_repository'' ''value is not a valid URL'')
       | Some r \<Rightarrow>
           if url_scheme r \<noteq> ''https'' \<or> url_host_str r \<noteq> Some ''github.com'' \<or> url_port r \<noteq> None
             \<or> url_username r \<noteq> [] \<or> url_password r \<noteq> None \<or> url_query r \<noteq> None \<or> url_fragment r \<noteq> None
           then Err (InvalidIdentifier ''source_repository'' ''value must be a credential-free HTTPS GitHub repository URL'')
           else
             let segments = (case url_path_segments r of None \<Rightarrow> [] | Some s \<Rightarrow> s) in
             if length segments \<noteq> 2 \<or> \<not> list_all is_github_name segments
             then Err (InvalidIdentifier ''source_repository'' ''value must contain exactly one GitHub owner and repository'')
             else if v \<noteq> ''https://github.com/'' @ segments ! 0 @ ''/'' @ segments ! 1
             then Err (InvalidIdentifier ''source_repository'' ''value is not normalized'')
             else Ok ())"

datatype ProtocolPathSemantics = ProjectRelative | WorkerRelative | ClientAbsolute | ProviderUri

record ProtocolPath =
  path_semantics :: ProtocolPathSemantics
  path_value :: string

definition is_absolute_path_text :: "string \<Rightarrow> bool" where
  "is_absolute_path_text v \<longleftrightarrow>
     prefix ''/'' v \<or> prefix [CHR 0x5C, CHR 0x5C] v
     \<or> (length v \<ge> 3 \<and> is_ascii_alphabetic (v ! 0) \<and> v ! 1 = CHR '':'' \<and> v ! 2 \<in> {CHR ''/'', CHR 0x5C})"

definition is_separator :: "char \<Rightarrow> bool" where
  "is_separator c \<longleftrightarrow> c = CHR ''/'' \<or> c = CHR 0x5C"

definition ProtocolPath_validate :: "(string \<Rightarrow> url option) \<Rightarrow> ProtocolPath \<Rightarrow> RemoteBuildError + unit" where
  "ProtocolPath_validate url_parse p =
     and_then (validate_safe_text ''path'' (path_value p) 4096) (\<lambda>_.
       if path_semantics p = ProjectRelative \<or> path_semantics p = WorkerRelative then
         (if is_absolute_path_text (path_value p)
          then Err (InvalidIdentifier ''path'' ''relative path must not be absolute'')
          else if list_ex (\<lambda>c. c = [] \<or> c = ''.'' \<or> c = ''..'') (split_by is_separator (path_value p))
          then Err (InvalidIdentifier ''path'' ''relative path contains an empty, current, or parent component'')
          else Ok ())
       else if path_semantics p = ClientAbsolute then
         reject_if (\<not> is_absolute_path_text (path_value p)) (InvalidIdentifier ''path'' ''client path must be absolute'')
       else
         (case url_parse (path_value p) of
            None \<Rightarrow> Err (InvalidIdentifier ''path'' ''provider URI is invalid'')
          | Some uri \<Rightarrow>
              reject_if (url_username uri \<noteq> [] \<or> url_password uri \<noteq> None)
                (InvalidIdentifier ''path'' ''provider URI must not contain credentials'')))"

definition ProtocolPath_new ::
    "(string \<Rightarrow> url option) \<Rightarrow> ProtocolPathSemantics \<Rightarrow> string \<Rightarrow> RemoteBuildError + ProtocolPath" where
  "ProtocolPath_new url_parse s v =
     (let p = \<lparr>path_semantics = s, path_value = v\<rparr> in
      and_then (ProtocolPath_validate url_parse p) (\<lambda>_. Ok p))"

section \<open>The lifecycle of a job\<close>

definition job_rank :: "JobState \<Rightarrow> nat" where
  "job_rank s =
     (case s of Created \<Rightarrow> 0 | Queued \<Rightarrow> 1 | Running \<Rightarrow> 2 | Cancelling \<Rightarrow> 3
      | Succeeded \<Rightarrow> 4 | Failed \<Rightarrow> 4 | Cancelled \<Rightarrow> 4 | Cleaning \<Rightarrow> 5 | Cleaned \<Rightarrow> 6 | CleanupFailed \<Rightarrow> 6)"

lemma transition_to_Ok: "transition_to s t = Ok u \<longleftrightarrow> u = t \<and> can_transition_to s t"
  by (auto simp: transition_to_def)

lemma can_transition_rank: "can_transition_to s t \<Longrightarrow> job_rank s < job_rank t"
  by (cases s; cases t) (simp_all add: can_transition_to_def job_rank_def)

interpretation job: lifecycle transition_to job_rank is_terminal
proof unfold_locales
  fix s t u
  assume "is_terminal s" "transition_to s t = Ok u"
  then show "t = s" by (auto simp: is_terminal_def transition_to_Ok can_transition_to_def)
qed (auto simp: transition_to_Ok dest: can_transition_rank)

abbreviation run_job :: "JobState \<Rightarrow> JobState list \<Rightarrow> RemoteBuildError + JobState" where
  "run_job \<equiv> try_fold transition_to"

lemma run_job_Cons:
  "(case transition_to s t of Inl e \<Rightarrow> Err e | Inr v \<Rightarrow> run_job v ts) = Ok u
   \<longleftrightarrow> can_transition_to s t \<and> run_job t ts = Ok u"
  by (auto simp: transition_to_def)

definition is_active :: "JobState \<Rightarrow> bool" where
  "is_active s \<longleftrightarrow> s \<in> {Created, Queued, Running, Cancelling}"

lemma run_from_terminal: "run_job s ts = Ok u \<Longrightarrow> is_terminal s \<Longrightarrow> ts = []"
  by (cases ts) (auto simp: run_job_Cons is_terminal_def can_transition_to_def)

lemma run_from_cleaning: "run_job Cleaning ts = Ok u \<Longrightarrow> is_terminal u \<Longrightarrow> ts = [u]"
proof (cases ts)
  case (Cons t rest)
  assume "run_job Cleaning ts = Ok u"
  with Cons have "can_transition_to Cleaning t" "run_job t rest = Ok u" by (simp_all add: run_job_Cons)
  moreover from this(1) have "is_terminal t" by (auto simp: can_transition_to_def is_terminal_def)
  ultimately show ?thesis using Cons run_from_terminal [of t rest u] by auto
qed (simp add: is_terminal_def)

lemma run_from_built:
  "run_job s ts = Ok u \<Longrightarrow> is_build_terminal s \<Longrightarrow> is_terminal u \<Longrightarrow> ts = [Cleaning, u]"
proof (cases ts)
  case (Cons t rest)
  assume "run_job s ts = Ok u" "is_build_terminal s" "is_terminal u"
  with Cons have "t = Cleaning" "run_job t rest = Ok u"
    by (auto simp: run_job_Cons is_build_terminal_def can_transition_to_def)
  with Cons \<open>is_terminal u\<close> show ?thesis using run_from_cleaning by simp
qed (auto simp: is_terminal_def is_build_terminal_def)

lemma active_step: "is_active s \<Longrightarrow> can_transition_to s t \<Longrightarrow> (is_active t \<or> is_build_terminal t) \<and> t \<noteq> Created"
  by (auto simp: is_active_def is_build_terminal_def can_transition_to_def)

lemma run_from_active:
  "run_job s ts = Ok u \<Longrightarrow> is_active s \<Longrightarrow> is_terminal u \<Longrightarrow>
   \<exists>pre b. ts = pre @ [b, Cleaning, u] \<and> is_build_terminal b \<and> (\<forall>x \<in> set pre. is_active x \<and> x \<noteq> Created)"
proof (induction ts arbitrary: s)
  case Nil
  then show ?case by (auto simp: is_active_def is_terminal_def)
next
  case (Cons t ts)
  then have t: "can_transition_to s t" "run_job t ts = Ok u" by (simp_all add: run_job_Cons)
  then have next_state: "(is_active t \<or> is_build_terminal t) \<and> t \<noteq> Created" using Cons.prems(2) active_step by blast
  show ?case
  proof (cases "is_build_terminal t")
    case True
    with t Cons.prems(3) have "ts = [Cleaning, u]" using run_from_built by blast
    with True have "t # ts = [] @ [t, Cleaning, u] \<and> is_build_terminal t" by simp
    then show ?thesis by fastforce
  next
    case False
    with next_state t Cons obtain pre b where "ts = pre @ [b, Cleaning, u]" "is_build_terminal b"
      "\<forall>x \<in> set pre. is_active x \<and> x \<noteq> Created" by blast
    with next_state False have "t # ts = (t # pre) @ [b, Cleaning, u] \<and> is_build_terminal b
      \<and> (\<forall>x \<in> set (t # pre). is_active x \<and> x \<noteq> Created)" by simp
    then show ?thesis by blast
  qed
qed

lemma run_job_distinct: "run_job s ts = Ok u \<Longrightarrow> distinct (s # ts)"
proof (induction ts arbitrary: s)
  case (Cons t ts)
  then have "can_transition_to s t" "run_job t ts = Ok u" by (simp_all add: run_job_Cons)
  moreover from this have "s \<noteq> t" using can_transition_rank by fastforce
  ultimately show ?case using Cons.IH job.run_never_returns [of s t ts u] Cons.prems by auto
qed simp

text \<open>
  C12 [job_lifecycle]: a job that reaches a terminal state does so through exactly one build outcome
  followed by cleanup: the accepted transitions after creation are active states, one of succeeded,
  failed or cancelled, then cleaning, then the terminal state, and no state is visited twice.
\<close>

theorem job_ends_after_one_outcome_and_cleanup:
  assumes "run_job Created ts = Ok u" "is_terminal u"
  shows "\<exists>pre b. ts = pre @ [b, Cleaning, u] \<and> is_build_terminal b
    \<and> set pre \<subseteq> {Queued, Running, Cancelling} \<and> distinct (Created # ts)"
proof -
  obtain pre b where "ts = pre @ [b, Cleaning, u]" "is_build_terminal b" "\<forall>x \<in> set pre. is_active x \<and> x \<noteq> Created"
    using run_from_active [OF assms(1) _ assms(2)] by (auto simp: is_active_def)
  moreover have "distinct (Created # ts)" using assms(1) by (rule run_job_distinct)
  ultimately show ?thesis by (auto simp: is_active_def)
qed

theorem job_ends_after_one_outcome_and_cleanup_witness:
  "\<exists>pre b. [Queued, Running, Cancelling, Cancelled, Cleaning, Cleaned] = pre @ [b, Cleaning, Cleaned]
    \<and> is_build_terminal b \<and> set pre \<subseteq> {Queued, Running, Cancelling}
    \<and> distinct (Created # [Queued, Running, Cancelling, Cancelled, Cleaning, Cleaned])"
  by (rule job_ends_after_one_outcome_and_cleanup)
    (simp_all add: transition_to_def can_transition_to_def is_terminal_def)

lemma reach_terminal: "\<exists>ts u. run_job s ts = Ok u \<and> is_terminal u"
proof -
  have c: "run_job Cleaning [Cleaned] = Ok Cleaned" "is_terminal Cleaned"
    by (simp_all add: transition_to_def can_transition_to_def is_terminal_def)
  have b: "is_build_terminal x \<Longrightarrow> run_job x [Cleaning, Cleaned] = Ok Cleaned" for x
    by (auto simp: transition_to_def can_transition_to_def is_build_terminal_def)
  have a: "is_active x \<Longrightarrow> run_job x [Cancelled, Cleaning, Cleaned] = Ok Cleaned" for x
    by (auto simp: transition_to_def can_transition_to_def is_active_def)
  have t: "is_terminal x \<Longrightarrow> run_job x [] = Ok x" for x by simp
  have "is_active s \<or> is_build_terminal s \<or> s = Cleaning \<or> is_terminal s"
    by (cases s) (simp_all add: is_active_def is_build_terminal_def is_terminal_def)
  then show ?thesis using a b c t by blast
qed

text \<open>
  [job_cancel]: every job can still be brought to an end: from every active state a cancellation is
  accepted at once and from every state a terminal state can be reached through accepted transitions.
\<close>

theorem job_can_always_end:
  "(\<exists>ts u. run_job s ts = Ok u \<and> is_terminal u)
   \<and> (can_transition_to s Cancelled \<longleftrightarrow> s \<in> {Created, Queued, Running, Cancelling})
   \<and> (is_terminal s \<longleftrightarrow> (\<nexists>t. can_transition_to s t))"
proof (intro conjI reach_terminal)
  show "can_transition_to s Cancelled \<longleftrightarrow> s \<in> {Created, Queued, Running, Cancelling}"
    by (cases s) (simp_all add: can_transition_to_def)
  show "is_terminal s \<longleftrightarrow> (\<nexists>t. can_transition_to s t)"
    by (cases s) (auto simp: can_transition_to_def is_terminal_def)
qed

section \<open>Field validators\<close>

lemma validate_safe_text_Ok [result_simps]:
  "validate_safe_text field v n = Ok u \<longleftrightarrow> v \<noteq> [] \<and> length v \<le> n \<and> \<not> has_control v"
  by (auto simp: validate_safe_text_def)

lemma validate_identifier_Ok [result_simps]:
  "validate_identifier field v = Ok u \<longleftrightarrow> v \<noteq> [] \<and> length v \<le> 160
     \<and> list_all (\<lambda>b. is_ascii_alphanumeric b \<or> b \<in> {CHR ''-'', CHR ''_'', CHR ''.'', CHR '':''}) v"
  by (auto simp: validate_identifier_def)

lemma negotiate_Ok:
  "negotiate a b = Ok v \<longleftrightarrow>
     is_compatible_with a b \<and> major v = major a \<and> minor v = min (minor a) (minor b)"
  by (auto simp: negotiate_def ProtocolVersion_new_def)

text \<open>
  [negotiate]: negotiation is symmetric and settles on a version of the shared major line that is not
  newer than either side, and that each side would again agree on with itself and with the other.
\<close>

theorem negotiation_is_symmetric_and_stable:
  assumes "negotiate a b = Ok v"
  shows "negotiate b a = Ok v \<and> major v = major a \<and> major v = major b \<and> minor v = min (minor a) (minor b)
    \<and> negotiate v a = Ok v \<and> negotiate v b = Ok v \<and> (major v = 0 \<longrightarrow> a = b)"
proof -
  have v: "is_compatible_with a b" "major v = major a" "minor v = min (minor a) (minor b)"
    using assms by (auto simp: negotiate_Ok)
  then have "is_compatible_with b a" "major a = major b" "major a = 0 \<longrightarrow> a = b"
    "is_compatible_with v a" "is_compatible_with v b"
    by (auto simp: is_compatible_with_def)
  with v show ?thesis by (simp add: negotiate_Ok min.commute)
qed

theorem negotiation_is_symmetric_and_stable_witness:
  "negotiate CURRENT_PROTOCOL_VERSION (ProtocolVersion_new 1 4) = Ok CURRENT_PROTOCOL_VERSION"
proof -
  have "negotiate (ProtocolVersion_new 1 4) CURRENT_PROTOCOL_VERSION = Ok CURRENT_PROTOCOL_VERSION"
    by (simp add: negotiate_def is_compatible_with_def ProtocolVersion_new_def CURRENT_PROTOCOL_VERSION_def)
  from negotiation_is_symmetric_and_stable [OF this] show ?thesis by blast
qed

lemma valid_segment_iff: "valid_segment s \<longleftrightarrow> bundle_segment_ok s"
proof (cases "s = []")
  case False
  have "prefix ''-'' s \<longleftrightarrow> hd s = CHR ''-''" using False by (cases s) auto
  moreover have "suffix ''-'' s \<longleftrightarrow> last s = CHR ''-''" using False by (cases s rule: rev_cases) auto
  ultimately show ?thesis using False by (auto simp: valid_segment_def bundle_segment_ok_def)
qed (simp add: valid_segment_def bundle_segment_ok_def)

lemma bundle_segment_graphic: "bundle_segment_ok s \<Longrightarrow> c \<in> set s \<Longrightarrow> is_ascii_graphic c"
proof -
  assume "bundle_segment_ok s" "c \<in> set s"
  then consider "is_ascii_alphanumeric c" | "c = CHR ''-''" by (auto simp: bundle_segment_ok_def list_all_iff)
  then show ?thesis by cases (simp_all add: alphanumeric_graphic, simp add: is_ascii_graphic_def)
qed

lemma set_join: "set (join sep xs) \<subseteq> \<Union> (set ` set xs) \<union> set sep"
  by (induction sep xs rule: join.induct) auto

lemma dotted_no_control:
  assumes "list_all bundle_segment_ok (split (CHR ''.'') v)"
  shows "\<not> has_control v"
proof (rule no_control_graphic, rule ballI)
  fix c assume "c \<in> set v"
  then have "c \<in> set (join ''.'' (split (CHR ''.'') v))" by simp
  then have "c = CHR ''.'' \<or> (\<exists>s \<in> set (split (CHR ''.'') v). c \<in> set s)"
    using set_join [of "''.''" "split (CHR ''.'') v"] by auto
  then show "is_ascii_graphic c"
  proof
    assume "\<exists>s \<in> set (split (CHR ''.'') v). c \<in> set s"
    with assms show ?thesis using bundle_segment_graphic by (auto simp: list_all_iff)
  qed (simp add: is_ascii_graphic_def)
qed

lemma validate_bundle_identifier_Ok [result_simps]:
  "validate_bundle_identifier v = Ok u \<longleftrightarrow> v \<noteq> [] \<and> length v \<le> 255 \<and> \<not> has_control v
     \<and> 2 \<le> length (split (CHR ''.'') v) \<and> list_all bundle_segment_ok (split (CHR ''.'') v)"
  by (auto simp: validate_bundle_identifier_def and_then_Inr_iff validate_safe_text_Ok valid_segment_iff
      list_ex_iff list_all_iff split: list.splits if_splits)

text \<open>
  [bundle_agree]: the wire protocol and the signing plan accept the same bundle identifiers, although
  the two validators are written separately and check the text differently.
\<close>

theorem bundle_identifier_validators_agree:
  "validate_bundle_identifier v = Ok () \<longleftrightarrow> BundleIdentifier_new v = Ok (BundleIdentifier v)"
  using dotted_no_control [of v] by (auto simp: validate_bundle_identifier_Ok BundleIdentifier_new_ok)

section \<open>Versions\<close>

lemma good_version_component:
  "\<not> bad_version_component bits c \<longleftrightarrow> (\<exists>n. n < 2 ^ bits \<and> c = decimal n)"
proof
  assume good: "\<not> bad_version_component bits c"
  then have c: "c \<noteq> []" "list_all is_ascii_digit c" "length c = 1 \<or> hd c \<noteq> CHR ''0''" "digits_value c < 2 ^ bits"
    by (cases c; auto simp: bad_version_component_def parse_unsigned_digits split: if_splits)+
  then have "c = decimal (digits_value c)" by (simp add: decimal_digits_value)
  with c(4) show "\<exists>n. n < 2 ^ bits \<and> c = decimal n" by blast
next
  assume "\<exists>n. n < 2 ^ bits \<and> c = decimal n"
  then obtain n where n: "n < 2 ^ bits" "c = decimal n" by blast
  then have "parse_unsigned bits c = Some n" by (simp add: parse_unsigned_digits decimal_digits)
  moreover have "1 < length c \<Longrightarrow> \<not> prefix ''0'' c"
    using decimal_no_leading_zero [of n] n(2) by (auto simp: prefix_def)
  ultimately show "\<not> bad_version_component bits c"
    using n(2) decimal_digits [of n] by (auto simp: bad_version_component_def)
qed

lemma decimal_dotless: "CHR ''.'' \<notin> set (decimal n)"
  using decimal_digits [of n] by (auto simp: list_all_iff is_ascii_digit_def)

lemma good_version:
  "\<not> bad_version bits v \<longleftrightarrow>
     (\<exists>ns. v = join ''.'' (map decimal ns) \<and> 1 \<le> length ns \<and> length ns \<le> 3 \<and> (\<forall>n \<in> set ns. n < 2 ^ bits))"
proof
  assume good: "\<not> bad_version bits v"
  then have "\<forall>c \<in> set (split (CHR ''.'') v). \<exists>n. n < 2 ^ bits \<and> c = decimal n"
    by (auto simp: bad_version_def Let_def list_ex_iff good_version_component [symmetric])
  then obtain f where f: "\<forall>c \<in> set (split (CHR ''.'') v). f c < 2 ^ bits \<and> c = decimal (f c)" by metis
  then have "map decimal (map f (split (CHR ''.'') v)) = split (CHR ''.'') v" by (simp add: map_idI)
  then have "v = join ''.'' (map decimal (map f (split (CHR ''.'') v)))" by simp
  moreover have "1 \<le> length (map f (split (CHR ''.'') v))" "length (map f (split (CHR ''.'') v)) \<le> 3"
    using good by (simp_all add: bad_version_def Let_def Suc_le_eq)
  ultimately show "\<exists>ns. v = join ''.'' (map decimal ns) \<and> 1 \<le> length ns \<and> length ns \<le> 3 \<and> (\<forall>n \<in> set ns. n < 2 ^ bits)"
    using f by (metis (no_types, lifting) imageE list.set_map)
next
  assume "\<exists>ns. v = join ''.'' (map decimal ns) \<and> 1 \<le> length ns \<and> length ns \<le> 3 \<and> (\<forall>n \<in> set ns. n < 2 ^ bits)"
  then obtain ns where ns: "v = join ''.'' (map decimal ns)" "1 \<le> length ns" "length ns \<le> 3" "\<forall>n \<in> set ns. n < 2 ^ bits"
    by blast
  have "split (CHR ''.'') v = map decimal ns"
    unfolding ns(1) using ns(2) decimal_dotless by (intro split_join) auto
  then show "\<not> bad_version bits v"
    using ns by (auto simp: bad_version_def list_ex_iff good_version_component)
qed

lemma length_join_bound:
  "\<forall>x \<in> set xs. length x \<le> k \<Longrightarrow> length (join [c] xs) \<le> (k + 1) * length xs"
  by (induction "[c]" xs rule: join.induct) auto

lemma version_text_safe:
  assumes "1 \<le> length ns" "length ns \<le> 3" "\<forall>n \<in> set ns. n < 10 ^ k" "0 < k"
  shows "join ''.'' (map decimal ns) \<noteq> []" "length (join ''.'' (map decimal ns)) \<le> 3 * (k + 1)"
    "\<not> has_control (join ''.'' (map decimal ns))"
proof -
  have "length (join ''.'' (map decimal ns)) \<le> (k + 1) * length ns"
    using length_join_bound [of "map decimal ns" k "CHR ''.''"] assms(3,4) decimal_length by auto
  with assms(2) show "length (join ''.'' (map decimal ns)) \<le> 3 * (k + 1)"
    by (metis le_trans mult.commute mult_le_mono1)
  show "join ''.'' (map decimal ns) \<noteq> []"
    using assms(1) by (cases "(''.'', map decimal ns)" rule: join.cases) auto
  have "\<forall>c \<in> set (join ''.'' (map decimal ns)). is_ascii_digit c \<or> c = CHR ''.''"
    using set_join [of "''.''" "map decimal ns"] decimal_digits by (fastforce simp: list_all_iff)
  then show "\<not> has_control (join ''.'' (map decimal ns))"
    by (intro no_control_graphic) (auto simp: is_ascii_graphic_def is_ascii_digit_def)
qed

text \<open>
  [versions]: the accepted iOS versions and bundle versions are exactly the canonical renderings of one
  to three numbers of the component width joined by dots, so that two accepted texts are equal exactly
  when they denote the same numbers. The text limits of 32 and 64 bytes exclude none of them.
\<close>

theorem version_texts_are_canonical:
  "(validate_ios_version v = Ok () \<longleftrightarrow>
      (\<exists>ns. v = join ''.'' (map decimal ns) \<and> length ns \<in> {1..3} \<and> list_all (\<lambda>n. n < 2 ^ 16) ns))
   \<and> (validate_bundle_version field v = Ok () \<longleftrightarrow>
      (\<exists>ns. v = join ''.'' (map decimal ns) \<and> length ns \<in> {1..3} \<and> list_all (\<lambda>n. n < 2 ^ 32) ns))"
proof -
  have i: "v \<noteq> [] \<and> length v \<le> 32 \<and> \<not> has_control v" if "\<not> bad_version 16 v"
  proof -
    from that obtain ns where ns: "v = join ''.'' (map decimal ns)" "1 \<le> length ns" "length ns \<le> 3"
      "\<forall>n \<in> set ns. n < 2 ^ 16" unfolding good_version by blast
    then have "\<forall>n \<in> set ns. n < 10 ^ 5" by fastforce
    from version_text_safe [OF ns(2,3) this] ns(1) show ?thesis by simp
  qed
  have b: "v \<noteq> [] \<and> length v \<le> 64 \<and> \<not> has_control v" if "\<not> bad_version 32 v"
  proof -
    from that obtain ns where ns: "v = join ''.'' (map decimal ns)" "1 \<le> length ns" "length ns \<le> 3"
      "\<forall>n \<in> set ns. n < 2 ^ 32" unfolding good_version by blast
    then have "\<forall>n \<in> set ns. n < 10 ^ 10" by fastforce
    from version_text_safe [OF ns(2,3) this] ns(1) show ?thesis by simp
  qed
  have "validate_ios_version v = Ok () \<longleftrightarrow> \<not> bad_version 16 v"
    "validate_bundle_version field v = Ok () \<longleftrightarrow> \<not> bad_version 32 v"
    using i b by (auto simp: validate_ios_version_def validate_bundle_version_def and_then_Inr_iff result_simps)
  then show ?thesis unfolding good_version by (auto simp: list_all_iff)
qed

section \<open>Repositories and relative paths\<close>

lemma github_name_slashless: "is_github_name s \<Longrightarrow> CHR ''/'' \<notin> set s"
  by (auto simp: is_github_name_def list_all_iff ascii_class_defs)

lemma validate_github_repository_Ok:
  assumes "validate_github_repository url_parse v = Ok ()"
  obtains owner name where "v = ''https://github.com/'' @ owner @ ''/'' @ name" "is_github_name owner" "is_github_name name"
proof -
  from assms obtain r where r: "url_parse v = Some r"
    by (auto simp: validate_github_repository_def and_then_Inr_iff split: option.splits)
  define segments where "segments = (case url_path_segments r of None \<Rightarrow> [] | Some s \<Rightarrow> s)"
  from assms r have s: "length segments = 2" "list_all is_github_name segments"
    "v = ''https://github.com/'' @ segments ! 0 @ ''/'' @ segments ! 1"
    by (auto simp: validate_github_repository_def and_then_Inr_iff Let_def segments_def split: if_splits)
  then obtain owner name where "segments = [owner, name]"
    by (auto simp: numeral_2_eq_2 length_Suc_conv)
  with s that show ?thesis by auto
qed

text \<open>
  [github]: whatever the URL parser answers, an accepted repository is the literal text of one GitHub
  repository, with exactly one owner and one name, so that it carries no credentials, port, query,
  fragment, percent escape or further path.
\<close>

theorem accepted_repository_is_literal:
  assumes "validate_github_repository url_parse v = Ok ()"
  shows "\<exists>owner name. split (CHR ''/'') v = [''https:'', '''', ''github.com'', owner, name]
    \<and> is_github_name owner \<and> is_github_name name
    \<and> set v \<inter> {CHR ''@'', CHR ''?'', CHR ''#'', CHR ''%'', CHR '' '', CHR 0x5C} = {}"
proof -
  obtain owner name where v: "v = ''https://github.com/'' @ owner @ ''/'' @ name"
    and names: "is_github_name owner" "is_github_name name"
    using assms by (rule validate_github_repository_Ok)
  have "v = join ''/'' [''https:'', '''', ''github.com'', owner, name]" using v by simp
  then have "split (CHR ''/'') v = [''https:'', '''', ''github.com'', owner, name]"
    using github_name_slashless names by (simp only:) (rule split_join, auto)
  moreover have "c \<in> set s \<Longrightarrow> c \<notin> {CHR ''@'', CHR ''?'', CHR ''#'', CHR ''%'', CHR '' '', CHR 0x5C}"
    if "is_github_name s" for s c
    using that by (auto simp: is_github_name_def list_all_iff ascii_class_defs)
  then have "set v \<inter> {CHR ''@'', CHR ''?'', CHR ''#'', CHR ''%'', CHR '' '', CHR 0x5C} = {}"
    using names v by auto
  ultimately show ?thesis using names by blast
qed

definition github_url :: "string \<Rightarrow> string \<Rightarrow> url" where
  "github_url owner name =
     \<lparr>url_scheme = ''https'', url_host_str = Some ''github.com'', url_port = None, url_username = [],
      url_password = None, url_query = None, url_fragment = None, url_path_segments = Some [owner, name]\<rparr>"

lemma no_control_ascii:
  "\<forall>c \<in> set s. 32 \<le> byte c \<and> byte c < 127 \<Longrightarrow> \<not> has_control s"
  by (subst has_control_ascii) (auto simp: is_ascii_def is_control_def)

theorem accepted_repository_is_literal_witness:
  "\<exists>owner name. split (CHR ''/'') ''https://github.com/ferry/app'' = [''https:'', '''', ''github.com'', owner, name]
    \<and> is_github_name owner \<and> is_github_name name
    \<and> set ''https://github.com/ferry/app'' \<inter> {CHR ''@'', CHR ''?'', CHR ''#'', CHR ''%'', CHR '' '', CHR 0x5C} = {}"
proof (rule accepted_repository_is_literal)
  have "\<not> has_control ''https://github.com/ferry/app''" by (rule no_control_ascii) simp
  moreover have "is_github_name ''ferry''" "is_github_name ''app''" by code_simp+
  ultimately show "validate_github_repository (\<lambda>_. Some (github_url ''ferry'' ''app'')) ''https://github.com/ferry/app'' = Ok ()"
    by (simp add: validate_github_repository_def validate_safe_text_def github_url_def)
qed

text \<open>A piece of a coarser split that holds no separator of a finer one is also a piece of the finer one.\<close>

lemma split_by_finer:
  assumes "\<forall>c. p c \<longrightarrow> q c"
  shows "((\<forall>c \<in> set (hd (split_by p s)). \<not> q c) \<longrightarrow> hd (split_by q s) = hd (split_by p s))
    \<and> (\<forall>t \<in> set (tl (split_by p s)). (\<forall>c \<in> set t. \<not> q c) \<longrightarrow> t \<in> set (tl (split_by q s)))"
proof (induction s)
  case (Cons a s)
  obtain x xs where p: "split_by p s = x # xs" by (meson split_by_nonempty neq_Nil_conv)
  obtain y ys where q: "split_by q s = y # ys" by (meson split_by_nonempty neq_Nil_conv)
  from Cons assms p q show ?case by auto
qed simp

lemma split_by_finer_mem:
  assumes "\<forall>c. p c \<longrightarrow> q c" "t \<in> set (split_by p s)" "\<forall>c \<in> set t. \<not> q c"
  shows "t \<in> set (split_by q s)"
proof -
  obtain x xs where p: "split_by p s = x # xs" by (meson split_by_nonempty neq_Nil_conv)
  obtain y ys where q: "split_by q s = y # ys" by (meson split_by_nonempty neq_Nil_conv)
  from split_by_finer [OF assms(1), of s] assms(2,3) p q show ?thesis by fastforce
qed

lemma ProtocolPath_relative_Ok:
  assumes "ProtocolPath_validate url_parse p = Ok ()" "path_semantics p \<in> {ProjectRelative, WorkerRelative}"
  shows "\<not> is_absolute_path_text (path_value p)"
    "\<forall>c \<in> set (split_by is_separator (path_value p)). c \<noteq> [] \<and> c \<noteq> ''.'' \<and> c \<noteq> ''..''"
  using assms by (auto simp: ProtocolPath_validate_def and_then_Inr_iff list_ex_iff split: if_splits)

text \<open>
  [wire_path]: an accepted relative path of the wire protocol stays below its root whether the resolving
  side treats only the slash or also the backslash as a separator, and it is not absolute.
\<close>

theorem relative_wire_path_stays_below_root:
  assumes "ProtocolPath_new url_parse s v = Ok p" "s \<in> {ProjectRelative, WorkerRelative}"
  shows "path_value p = v \<and> \<not> is_absolute_path_text v
    \<and> resolve [] (split (CHR ''/'') v) = Some (split (CHR ''/'') v)
    \<and> resolve [] (split_by is_separator v) = Some (split_by is_separator v)"
proof -
  have p: "p = \<lparr>path_semantics = s, path_value = v\<rparr>" "ProtocolPath_validate url_parse p = Ok ()"
    using assms(1) by (auto simp: ProtocolPath_new_def Let_def and_then_Inr_iff)
  note fine = ProtocolPath_relative_Ok [OF p(2)]
  have "\<forall>c \<in> set (split (CHR ''/'') v). c \<noteq> [] \<and> c \<noteq> ''.'' \<and> c \<noteq> ''..''"
    using split_by_finer_mem [of "\<lambda>x. x = CHR ''/''" is_separator _ v] fine(2) assms(2) p(1)
    by (fastforce simp: is_separator_def)
  with fine p(1) assms(2) show ?thesis by (simp add: resolve_plain)
qed

theorem relative_wire_path_stays_below_root_witness:
  "resolve [] (split_by is_separator ''a/b'') = Some [''a'', ''b'']"
proof -
  have "\<not> has_control ''a/b''" by (rule no_control_ascii) simp
  then have "ProtocolPath_new (\<lambda>_. None) WorkerRelative ''a/b'' = Ok \<lparr>path_semantics = WorkerRelative, path_value = ''a/b''\<rparr>"
    by (simp add: ProtocolPath_new_def ProtocolPath_validate_def validate_safe_text_def is_absolute_path_text_def
        is_separator_def)
  from relative_wire_path_stays_below_root [OF this] show ?thesis by (simp add: is_separator_def)
qed

end
