(* ===== verification/Build_Request.thy ===== *)
theory Build_Request
  imports Protocol
begin

text \<open>
  Build requests (\<^verbatim>\<open>src/crates/rustferry-remote/src/protocol.rs\<close>): the request with its validation, the
  product expectation, the artifact selection and the canonical request, snapshot-template and
  retry-template digests. The JSON serializer (\<open>serde_json::to_vec\<close>), SHA-256, the URL parser and the
  Unicode tables are parameters.
\<close>

section \<open>Requests\<close>

record IosDeviceBuildRequest =
  request_protocol_version :: ProtocolVersion
  request_operation_id :: string
  product_name :: string
  request_bundle_identifier :: string
  minimum_ios_version :: string
  product :: IosDeviceProductExpectation
  request_profile :: BuildProfile
  source_mode :: SourceMode
  source_repository :: "string option"
  source_revision :: "string option"
  source :: SourceManifest
  signing :: SigningPlan
  requested_artifacts :: "IosArtifactType set"

abbreviation request_invalid :: "string \<Rightarrow> RemoteBuildError" where
  "request_invalid reason \<equiv> InvalidEventPayload ''ios_device_build_request'' reason"

definition validate_requested_artifact_selection ::
    "SigningMode \<Rightarrow> IosArtifactType set \<Rightarrow> RemoteBuildError + unit" where
  "validate_requested_artifact_selection signing_mode artifacts =
     (if signing_mode = UnsignedCompileOnly \<and> Ipa \<in> artifacts
      then Err (request_invalid ''unsigned compile-only mode cannot request an installable IPA'')
      else if is_signed signing_mode \<and> Ipa \<notin> artifacts
      then Err (request_invalid ''signed builds must request the installable IPA'')
      else if is_signed signing_mode \<and> SigningReport \<notin> artifacts
      then Err (request_invalid ''signed builds must request the signing report'')
      else Ok ())"

text \<open>The state of the loop over the nested bundles.\<close>

record nested_walk =
  nested_paths :: "string set"
  nested_portable_paths :: "string set"
  nested_identifiers :: "string set"
  nested_targets :: "(string \<times> SigningTargetKind) set"
  nested_previous :: "string option"

definition nested_signing_kind :: "UnsignedNestedBundleKind \<Rightarrow> SigningTargetKind" where
  "nested_signing_kind k = (case k of AppExtension \<Rightarrow> Extension | NestedFramework \<Rightarrow> Framework)"

definition walk_nested ::
    "unicode \<Rightarrow> nested_walk \<Rightarrow> UnsignedNestedBundleExpectation \<Rightarrow> RemoteBuildError + nested_walk" where
  "walk_nested u w nested =
     (let path = nested_relative_path nested; key = portable_name_key u path;
          bundle = nested_bundle_identifier nested in
      if (case nested_previous w of None \<Rightarrow> False | Some previous \<Rightarrow> previous \<ge> path)
      then Err (request_invalid ''nested product bundles must be strictly sorted by path'')
      else and_then (validate_nested_bundle_path path (nested_kind nested)) (\<lambda>_.
      and_then (validate_portable_component ''nested_executable'' (nested_executable nested)) (\<lambda>_.
      and_then (validate_bundle_identifier bundle) (\<lambda>_.
      if path \<in> nested_paths w \<or> key \<in> nested_portable_paths w \<or> bundle \<in> nested_identifiers w
      then Err (request_invalid ''nested product bundles contain duplicate or portable-colliding identities'')
      else Ok \<lparr>nested_paths = insert path (nested_paths w),
        nested_portable_paths = insert key (nested_portable_paths w),
        nested_identifiers = insert bundle (nested_identifiers w),
        nested_targets = insert (bundle, nested_signing_kind (nested_kind nested)) (nested_targets w),
        nested_previous = Some path\<rparr>))))"

definition nested_start :: "string \<Rightarrow> nested_walk" where
  "nested_start main_bundle_identifier =
     \<lparr>nested_paths = {}, nested_portable_paths = {}, nested_identifiers = {main_bundle_identifier},
      nested_targets = {}, nested_previous = None\<rparr>"

definition nested_signing_targets :: "SigningPlan \<Rightarrow> (string \<times> SigningTargetKind) set" where
  "nested_signing_targets plan =
     set (map (\<lambda>t. (bundle_str (target_bundle_identifier t), target_kind t))
       (filter (\<lambda>t. target_kind t = Extension \<or> target_kind t = Framework) (plan_targets plan)))"

definition validate_product_expectation ::
    "unicode \<Rightarrow> IosDeviceProductExpectation \<Rightarrow> string \<Rightarrow> SigningPlan \<Rightarrow> RemoteBuildError + unit" where
  "validate_product_expectation u p main_bundle_identifier plan =
     and_then (validate_portable_component ''app_directory_name'' (app_directory_name p)) (\<lambda>_.
     if \<not> has_exact_extension (app_directory_name p) ''app''
     then Err (InvalidIdentifier ''app_directory_name'' ''value must end with .app'')
     else and_then (validate_portable_component ''executable'' (product_executable p)) (\<lambda>_.
     and_then (validate_bundle_version ''app_version'' (product_app_version p)) (\<lambda>_.
     and_then (validate_bundle_version ''build_number'' (product_build_number p)) (\<lambda>_.
     if length (product_nested_bundles p) > 512
     then Err (request_invalid ''product contains too many nested bundles'')
     else and_then (try_fold (walk_nested u) (nested_start main_bundle_identifier) (product_nested_bundles p)) (\<lambda>w.
     if nested_targets w \<noteq> nested_signing_targets plan
     then Err (request_invalid ''product nested bundle graph does not match signing targets'')
     else Ok ())))))"

text \<open>The code behind the parameters of the request functions.\<close>

record request_env =
  env_unicode :: unicode
  env_sha256 :: "bytes \<Rightarrow> bytes"
  env_url_parse :: "string \<Rightarrow> url option"
  env_to_vec :: "IosDeviceBuildRequest \<Rightarrow> string + bytes"

definition application_bundle :: "SigningPlan \<Rightarrow> string option" where
  "application_bundle plan =
     map_option (\<lambda>t. bundle_str (target_bundle_identifier t))
       (find (\<lambda>t. target_kind t = Application) (plan_targets plan))"

definition validate_source_fields ::
    "(string \<Rightarrow> url option) \<Rightarrow> IosDeviceBuildRequest \<Rightarrow> RemoteBuildError + unit" where
  "validate_source_fields url_parse r =
     (if source_mode r = Git \<or> source_mode r = GitSnapshot then
        (case source_repository r of
           None \<Rightarrow> Err (request_invalid ''Git source requires a normalized HTTPS GitHub repository URL'')
         | Some repository \<Rightarrow>
             (case source_revision r of
                None \<Rightarrow> Err (request_invalid ''Git source requires an exact commit SHA'')
              | Some revision \<Rightarrow>
                  run_checks [validate_github_repository url_parse repository, validate_git_revision revision]))
      else if source_repository r \<noteq> None \<or> source_revision r \<noteq> None
      then Err (request_invalid ''snapshot source forbids repository and revision fields'')
      else Ok ())"

definition IosDeviceBuildRequest_validate ::
    "request_env \<Rightarrow> IosDeviceBuildRequest \<Rightarrow> RemoteBuildError + unit" where
  "IosDeviceBuildRequest_validate env r =
     run_checks
       [and_then (negotiate CURRENT_PROTOCOL_VERSION (request_protocol_version r)) (\<lambda>_. Ok ()),
        validate_identifier ''operation_id'' (request_operation_id r),
        validate_safe_text ''product_name'' (product_name r) 255,
        validate_bundle_identifier (request_bundle_identifier r),
        validate_ios_version (minimum_ios_version r),
        validate_product_expectation (env_unicode env) (product r) (request_bundle_identifier r) (signing r),
        map_err InvalidSourceManifest
          (validate_source_manifest (env_unicode env) (env_sha256 env) (source r) SourceLimits_default),
        map_err (\<lambda>_. request_invalid ''signing plan is invalid'') (SigningPlan_validate (signing r)),
        reject_if (application_bundle (signing r) \<noteq> Some (request_bundle_identifier r))
          (request_invalid ''signing plan application bundle identifier does not match request''),
        validate_requested_artifact_selection (plan_mode (signing r)) (requested_artifacts r),
        validate_source_fields (env_url_parse env) r,
        reject_if (requested_artifacts r = {}) (request_invalid ''at least one artifact type is required'')]"

definition ipa_expectation ::
    "request_env \<Rightarrow> IosDeviceBuildRequest \<Rightarrow> RemoteBuildError + IpaExpectation" where
  "ipa_expectation env r =
     and_then (IosDeviceBuildRequest_validate env r) (\<lambda>_.
       Ok \<lparr>ipa_app_directory_name = app_directory_name (product r),
         ipa_bundle_identifier = request_bundle_identifier r,
         ipa_executable = product_executable (product r),
         ipa_app_version = Some (product_app_version (product r)),
         ipa_build_number = Some (product_build_number (product r)),
         ipa_minimum_os = minimum_ios_version r,
         ipa_nested_bundles = product_nested_bundles (product r),
         ipa_provisioning_required = is_signed (plan_mode (signing r))\<rparr>)"

section \<open>Canonical digests\<close>

definition request_to_vec ::
    "request_env \<Rightarrow> IosDeviceBuildRequest \<Rightarrow> RemoteBuildError + bytes" where
  "request_to_vec env r = map_err Serialization (env_to_vec env r)"

definition canonical_request_bytes ::
    "request_env \<Rightarrow> IosDeviceBuildRequest \<Rightarrow> RemoteBuildError + bytes" where
  "canonical_request_bytes env r =
     and_then (IosDeviceBuildRequest_validate env r) (\<lambda>_. request_to_vec env r)"

definition canonical_request_sha256 ::
    "request_env \<Rightarrow> IosDeviceBuildRequest \<Rightarrow> RemoteBuildError + string" where
  "canonical_request_sha256 env r =
     and_then (canonical_request_bytes env r) (\<lambda>bs. Ok (hex_encode (env_sha256 env bs)))"

definition canonical_git_snapshot_request_template_sha256 ::
    "request_env \<Rightarrow> IosDeviceBuildRequest \<Rightarrow> RemoteBuildError + string" where
  "canonical_git_snapshot_request_template_sha256 env r =
     (if source_mode r \<noteq> GitSnapshot
      then Err (request_invalid ''Git snapshot template requires Git snapshot source mode'')
      else
        let validated = (if source_revision r = None then r\<lparr>source_revision := Some (replicate 40 (CHR ''0''))\<rparr> else r) in
        and_then (IosDeviceBuildRequest_validate env validated) (\<lambda>_.
        and_then (request_to_vec env (validated\<lparr>source_revision := None\<rparr>)) (\<lambda>bs.
        Ok (hex_encode (env_sha256 env bs)))))"

definition RETRY_DOMAIN :: bytes where
  "RETRY_DOMAIN = ''rustferry-retry-template-v1'' @ [CHR 0x00]"

definition OPERATION_ID_PLACEHOLDER :: string where
  "OPERATION_ID_PLACEHOLDER = ''semantic-retry-template-v1''"

definition canonical_retry_template_sha256_v1 ::
    "request_env \<Rightarrow> IosDeviceBuildRequest \<Rightarrow> RemoteBuildError + string" where
  "canonical_retry_template_sha256_v1 env r =
     and_then (IosDeviceBuildRequest_validate env r) (\<lambda>_.
     and_then (canonical_request_bytes env (r\<lparr>request_operation_id := OPERATION_ID_PLACEHOLDER\<rparr>)) (\<lambda>bs.
     Ok (hex_encode (env_sha256 env (RETRY_DOMAIN @ bs)))))"

section \<open>What an accepted request promises\<close>

definition nested_inv :: "unicode \<Rightarrow> string \<Rightarrow> UnsignedNestedBundleExpectation list \<Rightarrow> nested_walk \<Rightarrow> bool" where
  "nested_inv u main ns w \<longleftrightarrow>
     nested_identifiers w = insert main (nested_bundle_identifier ` set ns)
     \<and> nested_portable_paths w = (portable_name_key u \<circ> nested_relative_path) ` set ns
     \<and> nested_targets w = (\<lambda>n. (nested_bundle_identifier n, nested_signing_kind (nested_kind n))) ` set ns
     \<and> nested_previous w = (if ns = [] then None else Some (nested_relative_path (last ns)))
     \<and> sorted_wrt (<) (map nested_relative_path ns)
     \<and> distinct (main # map nested_bundle_identifier ns)
     \<and> distinct (map (portable_name_key u \<circ> nested_relative_path) ns)
     \<and> (\<forall>n \<in> set ns. validate_nested_bundle_path (nested_relative_path n) (nested_kind n) = Ok ()
          \<and> validate_bundle_identifier (nested_bundle_identifier n) = Ok ())"

lemma sorted_wrt_snoc_last:
  fixes f :: "'a \<Rightarrow> 'b::linorder"
  assumes "sorted_wrt (<) (map f xs)" "xs = [] \<or> f (last xs) < f x"
  shows "sorted_wrt (<) (map f (xs @ [x]))"
proof -
  have "f y < f x" if "y \<in> set xs" for y
  proof -
    from that obtain ys z where xs: "xs = ys @ [z]" by (cases xs rule: rev_cases) auto
    with assms that show ?thesis by (auto simp: sorted_wrt_append)
  qed
  with assms(1) show ?thesis by (simp add: sorted_wrt_append)
qed

lemma walk_nested_inv:
  assumes "nested_inv u main ns w" "walk_nested u w n = Ok w'"
  shows "nested_inv u main (ns @ [n]) w'"
proof -
  let ?path = "nested_relative_path n"
  have order: "ns = [] \<or> nested_relative_path (last ns) < ?path"
    using assms by (auto simp: walk_nested_def nested_inv_def Let_def split: if_splits)
  have step: "validate_nested_bundle_path ?path (nested_kind n) = Ok ()"
    "validate_bundle_identifier (nested_bundle_identifier n) = Ok ()"
    "portable_name_key u ?path \<notin> nested_portable_paths w" "nested_bundle_identifier n \<notin> nested_identifiers w"
    "w' = \<lparr>nested_paths = insert ?path (nested_paths w),
        nested_portable_paths = insert (portable_name_key u ?path) (nested_portable_paths w),
        nested_identifiers = insert (nested_bundle_identifier n) (nested_identifiers w),
        nested_targets = insert (nested_bundle_identifier n, nested_signing_kind (nested_kind n)) (nested_targets w),
        nested_previous = Some ?path\<rparr>"
    using assms(2) by (auto simp: walk_nested_def Let_def and_then_Inr_iff split: if_splits)
  from assms(1) have "sorted_wrt (<) (map nested_relative_path (ns @ [n]))"
    using order by (intro sorted_wrt_snoc_last) (simp_all add: nested_inv_def)
  with assms(1) step show ?thesis by (auto simp: nested_inv_def)
qed

lemma walk_nested_run:
  assumes "try_fold (walk_nested u) (nested_start main) ns = Ok w"
  shows "nested_inv u main ns w"
  using assms
proof (rule try_fold_invariant [where I = "nested_inv u main"])
  show "nested_inv u main [] (nested_start main)" by (simp add: nested_inv_def nested_start_def)
qed (rule walk_nested_inv)

lemma validate_product_expectation_Ok:
  assumes "validate_product_expectation u p main plan = Ok ()"
  obtains w where "nested_inv u main (product_nested_bundles p) w" "nested_targets w = nested_signing_targets plan"
    "length (product_nested_bundles p) \<le> 512" "has_exact_extension (app_directory_name p) ''app''"
  using assms by (auto simp: validate_product_expectation_def and_then_Inr_iff dest: walk_nested_run split: if_splits)

lemma request_checks:
  assumes "IosDeviceBuildRequest_validate env r = Ok ()"
  shows "validate_product_expectation (env_unicode env) (product r) (request_bundle_identifier r) (signing r) = Ok ()"
    "validate_source_manifest (env_unicode env) (env_sha256 env) (source r) SourceLimits_default = Ok ()"
    "SigningPlan_validate (signing r) = Ok ()"
    "application_bundle (signing r) = Some (request_bundle_identifier r)"
    "validate_requested_artifact_selection (plan_mode (signing r)) (requested_artifacts r) = Ok ()"
    "validate_source_fields (env_url_parse env) r = Ok ()"
    "requested_artifacts r \<noteq> {}"
  using assms unfolding IosDeviceBuildRequest_validate_def run_checks_Inr_iff by (simp_all add: is_ok_unit reject_if_Inr)

lemma application_bundle_unique:
  assumes "plan_targets_ok plan" "application_bundle plan = Some b" "t \<in> set (plan_targets plan)"
  shows "target_kind t = Application \<longleftrightarrow> bundle_str (target_bundle_identifier t) = b"
proof -
  obtain a where a: "find (\<lambda>t. target_kind t = Application) (plan_targets plan) = Some a"
    "b = bundle_str (target_bundle_identifier a)"
    using assms(2) by (auto simp: application_bundle_def)
  then have mem: "a \<in> set (plan_targets plan)" "target_kind a = Application"
    by (auto simp: find_Some_iff)
  have inj: "inj_on (\<lambda>t. bundle_str (target_bundle_identifier t)) (set (plan_targets plan))"
    using assms(1) by (simp add: plan_targets_ok_def distinct_map)
  from assms(1) obtain c where "filter (\<lambda>t. target_kind t = Application) (plan_targets plan) = [c]"
    by (auto simp: plan_targets_ok_def length_Suc_conv)
  then have "set (filter (\<lambda>t. target_kind t = Application) (plan_targets plan)) = {c}" by simp
  then have "x \<in> set (plan_targets plan) \<and> target_kind x = Application \<longleftrightarrow> x = c" for x by auto
  with mem assms(3) have "target_kind t = Application \<longleftrightarrow> t = a" by metis
  with inj mem a(2) assms(3) show ?thesis by (auto dest: inj_onD)
qed

lemma artifact_selection_Ok:
  assumes "validate_requested_artifact_selection m artifacts = Ok ()" "artifacts \<noteq> {}"
  shows "if is_signed m then {Ipa, SigningReport} \<subseteq> artifacts else Ipa \<notin> artifacts \<and> artifacts \<noteq> {}"
  using assms by (auto simp: validate_requested_artifact_selection_def is_signed_def split: if_splits)

lemma source_fields_Ok:
  assumes "validate_source_fields url_parse r = Ok ()"
  shows "if source_mode r = Snapshot then source_repository r = None \<and> source_revision r = None
    else (\<exists>owner name revision. source_repository r = Some (''https://github.com/'' @ owner @ ''/'' @ name)
      \<and> source_revision r = Some revision \<and> length revision = 40 \<and> list_all is_lower_hex revision)"
proof (cases "source_mode r = Snapshot")
  case True
  with assms show ?thesis by (auto simp: validate_source_fields_def split: if_splits)
next
  case False
  then have "source_mode r = Git \<or> source_mode r = GitSnapshot" by (cases "source_mode r") auto
  with assms obtain repository revision where "source_repository r = Some repository" "source_revision r = Some revision"
    "validate_github_repository url_parse repository = Ok ()" "validate_git_revision revision = Ok ()"
    by (auto simp: validate_source_fields_def is_ok_unit split: option.splits sum.splits)
  moreover from this(3) obtain owner name where "repository = ''https://github.com/'' @ owner @ ''/'' @ name"
    by (rule validate_github_repository_Ok)
  moreover have "length revision = 40 \<and> list_all is_lower_hex revision"
    using calculation(4) by (simp add: validate_git_revision_def reject_if_Inr)
  ultimately show ?thesis using False by metis
qed

text \<open>
  C13 [request]: an accepted request is consistent across its parts: the signing plan has one application
  target and it is the target with the request's bundle identifier; the nested bundles of the product are
  exactly the extension and framework targets of the plan; their paths are strictly sorted, and their
  identifiers and portable names are all distinct, also from the application; a signed build asks for an
  IPA and a signing report, an unsigned one for no IPA but for something; the source fields fit the mode.
\<close>

theorem accepted_request_is_consistent:
  assumes "IosDeviceBuildRequest_validate env r = Ok ()"
  shows "(\<forall>t \<in> set (plan_targets (signing r)).
      target_kind t = Application \<longleftrightarrow> bundle_str (target_bundle_identifier t) = request_bundle_identifier r)
    \<and> (\<lambda>n. (nested_bundle_identifier n, nested_signing_kind (nested_kind n))) ` set (product_nested_bundles (product r))
      = {(bundle_str (target_bundle_identifier t), target_kind t) | t.
           t \<in> set (plan_targets (signing r)) \<and> target_kind t \<in> {Extension, Framework}}
    \<and> sorted_wrt (<) (map nested_relative_path (product_nested_bundles (product r)))
    \<and> distinct (request_bundle_identifier r # map nested_bundle_identifier (product_nested_bundles (product r)))
    \<and> distinct (map (portable_name_key (env_unicode env) \<circ> nested_relative_path) (product_nested_bundles (product r)))
    \<and> (if is_signed (plan_mode (signing r)) then {Ipa, SigningReport} \<subseteq> requested_artifacts r
       else Ipa \<notin> requested_artifacts r \<and> requested_artifacts r \<noteq> {})
    \<and> (if source_mode r = Snapshot then source_repository r = None \<and> source_revision r = None
       else (\<exists>owner name revision. source_repository r = Some (''https://github.com/'' @ owner @ ''/'' @ name)
         \<and> source_revision r = Some revision \<and> length revision = 40 \<and> list_all is_lower_hex revision))"
proof -
  note checks = request_checks [OF assms]
  obtain w where w: "nested_inv (env_unicode env) (request_bundle_identifier r) (product_nested_bundles (product r)) w"
    "nested_targets w = nested_signing_targets (signing r)"
    using checks(1) by (rule validate_product_expectation_Ok)
  have "plan_targets_ok (signing r)" using checks(3) SigningPlan_validate_ok [of "signing r"] by simp
  note application = application_bundle_unique [OF this checks(4)]
  have "nested_targets w = {(bundle_str (target_bundle_identifier t), target_kind t) | t.
      t \<in> set (plan_targets (signing r)) \<and> target_kind t \<in> {Extension, Framework}}"
    unfolding w(2) nested_signing_targets_def by auto
  moreover note artifact_selection_Ok [OF checks(5,7)] source_fields_Ok [OF checks(6)]
  ultimately show ?thesis using w(1) application by (simp add: nested_inv_def)
qed

section \<open>Digests of templates\<close>

definition retry_template :: "IosDeviceBuildRequest \<Rightarrow> IosDeviceBuildRequest" where
  "retry_template r = r\<lparr>request_operation_id := OPERATION_ID_PLACEHOLDER\<rparr>"

lemma placeholder_valid: "validate_identifier field OPERATION_ID_PLACEHOLDER = Ok ()"
  unfolding validate_identifier_Ok OPERATION_ID_PLACEHOLDER_def by code_simp

lemma retry_template_source:
  "validate_source_fields url_parse (retry_template r) = validate_source_fields url_parse r"
  by (simp add: validate_source_fields_def retry_template_def split: option.split)

lemma retry_template_validates:
  "IosDeviceBuildRequest_validate env r = Ok () \<Longrightarrow> IosDeviceBuildRequest_validate env (retry_template r) = Ok ()"
  unfolding IosDeviceBuildRequest_validate_def run_checks_Inr_iff
  by (simp add: retry_template_source) (simp add: retry_template_def placeholder_valid)

lemma retry_digest:
  assumes "IosDeviceBuildRequest_validate env r = Ok ()" "env_to_vec env (retry_template r) = Ok bs"
  shows "canonical_retry_template_sha256_v1 env r = Ok (hex_encode (env_sha256 env (RETRY_DOMAIN @ bs)))"
  using assms retry_template_validates [OF assms(1)]
  by (simp add: canonical_retry_template_sha256_v1_def canonical_request_bytes_def request_to_vec_def retry_template_def)

text \<open>
  C27 [retry]: the retry identity of accepted requests ignores exactly the operation identifier: both identities
  exist, and they are equal exactly when one request becomes the other by exchanging the operation identifier, or
  when the serialized templates of these two requests differ and their digest inputs collide. The placeholder never
  makes an accepted request fail. The serializer is asked to be lossless: some parser reads every document back.
\<close>

theorem retry_identity_ignores_only_operation_id:
  assumes lossless: "\<forall>q document. env_to_vec env q = Ok document \<longrightarrow> from_slice document = Some q"
    and "IosDeviceBuildRequest_validate env r = Ok ()" "IosDeviceBuildRequest_validate env r' = Ok ()"
    and "env_to_vec env (r\<lparr>request_operation_id := ''semantic-retry-template-v1''\<rparr>) = Ok bs"
    and "env_to_vec env (r'\<lparr>request_operation_id := ''semantic-retry-template-v1''\<rparr>) = Ok bs'"
  shows "\<exists>h h'. canonical_retry_template_sha256_v1 env r = Ok h \<and> canonical_retry_template_sha256_v1 env r' = Ok h'
    \<and> (h = h' \<longleftrightarrow> r\<lparr>request_operation_id := request_operation_id r'\<rparr> = r'
         \<or> (bs \<noteq> bs' \<and> env_sha256 env (RETRY_DOMAIN @ bs) = env_sha256 env (RETRY_DOMAIN @ bs')))"
proof -
  note templates = assms(4,5) [folded OPERATION_ID_PLACEHOLDER_def retry_template_def]
  note digests = retry_digest [OF assms(2) templates(1)] retry_digest [OF assms(3) templates(2)]
  have "bs = bs' \<longleftrightarrow> retry_template r = retry_template r'"
    using lossless templates by (metis option.inject sum.inject(2))
  also have "\<dots> \<longleftrightarrow> r\<lparr>request_operation_id := request_operation_id r'\<rparr> = r'"
    by (cases r; cases r') (auto simp: retry_template_def)
  finally show ?thesis
    using digests hex_encode_inject
      [of "env_sha256 env (RETRY_DOMAIN @ bs)" "env_sha256 env (RETRY_DOMAIN @ bs')"] by auto
qed

lemma revision_exchange:
  assumes "IosDeviceBuildRequest_validate env (r\<lparr>source_revision := Some v\<rparr>) = Ok ()"
    and "source_mode r \<noteq> Snapshot" "validate_git_revision v' = Ok ()"
  shows "IosDeviceBuildRequest_validate env (r\<lparr>source_revision := Some v'\<rparr>) = Ok ()"
proof -
  have "source_mode r = Git \<or> source_mode r = GitSnapshot" using assms(2) by (cases "source_mode r") auto
  with assms(1,3) show ?thesis
    unfolding IosDeviceBuildRequest_validate_def run_checks_Inr_iff
    by (auto simp: validate_source_fields_def split: option.splits sum.splits)
qed

lemma zero_revision_valid: "validate_git_revision (replicate 40 (CHR ''0'')) = Ok ()"
  unfolding validate_git_revision_def by code_simp

text \<open>
  [snapshot_template]: the digest embedded in a snapshot descriptor before publication is the one a
  verifier computes from the final request: once some published revision makes the request acceptable, the
  template digest with no revision, with that revision and with every other revision is the same.
\<close>

theorem snapshot_template_ignores_revision:
  assumes "source_mode r = GitSnapshot"
    and "IosDeviceBuildRequest_validate env (r\<lparr>source_revision := Some v\<rparr>) = Ok ()"
    and "validate_git_revision v' = Ok ()"
  shows "canonical_git_snapshot_request_template_sha256 env (r\<lparr>source_revision := None\<rparr>)
      = canonical_git_snapshot_request_template_sha256 env (r\<lparr>source_revision := Some v\<rparr>)
    \<and> canonical_git_snapshot_request_template_sha256 env (r\<lparr>source_revision := Some v'\<rparr>)
      = canonical_git_snapshot_request_template_sha256 env (r\<lparr>source_revision := Some v\<rparr>)
    \<and> canonical_git_snapshot_request_template_sha256 env (r\<lparr>source_revision := Some v\<rparr>)
      = map_sum Serialization (\<lambda>bs. hex_encode (env_sha256 env bs)) (env_to_vec env (r\<lparr>source_revision := None\<rparr>))"
proof -
  have valid: "IosDeviceBuildRequest_validate env (r\<lparr>source_revision := Some (replicate 40 (CHR ''0''))\<rparr>) = Ok ()"
    "IosDeviceBuildRequest_validate env (r\<lparr>source_revision := Some v'\<rparr>) = Ok ()"
    using assms zero_revision_valid by (auto intro: revision_exchange)
  then show ?thesis
    using assms by (cases "env_to_vec env (r\<lparr>source_revision := None\<rparr>)")
      (simp_all add: canonical_git_snapshot_request_template_sha256_def Let_def request_to_vec_def)
qed

section \<open>An accepted request\<close>

definition example_product :: IosDeviceProductExpectation where
  "example_product =
     \<lparr>app_directory_name = ''Ferry.app'', product_executable = ''ferry'', product_app_version = ''1.2'',
      product_build_number = ''7'',
      product_nested_bundles =
        [\<lparr>nested_relative_path = ''Frameworks/Kit.framework'', nested_bundle_identifier = ''com.example.kit'',
          nested_executable = ''Kit'', nested_kind = NestedFramework\<rparr>]\<rparr>"

definition example_request :: "string \<Rightarrow> IosDeviceBuildRequest" where
  "example_request operation =
     \<lparr>request_protocol_version = CURRENT_PROTOCOL_VERSION, request_operation_id = operation,
      product_name = ''Ferry'', request_bundle_identifier = ''com.example.app'', minimum_ios_version = ''16.0'',
      product = example_product, request_profile = Debug, source_mode = GitSnapshot,
      source_repository = Some ''https://github.com/ferry/app'', source_revision = Some (replicate 40 (CHR ''a'')),
      source = build_manifest zero_digest ''.'' example_entries, signing = example_unsigned_plan,
      requested_artifacts = {AppBundle}\<rparr>"

definition example_env :: request_env where
  "example_env =
     \<lparr>env_unicode = ascii_unicode, env_sha256 = zero_digest,
      env_url_parse = (\<lambda>_. Some (github_url ''ferry'' ''app'')), env_to_vec = (\<lambda>r. Ok (request_operation_id r))\<rparr>"

lemma example_safe_texts:
  "\<not> has_control ''Ferry''" "\<not> has_control ''Ferry.app''" "\<not> has_control ''ferry''" "\<not> has_control ''Kit''"
  "\<not> has_control ''Kit.framework''" "\<not> has_control ''Frameworks/Kit.framework''"
  "\<not> has_control ''https://github.com/ferry/app''" "\<not> has_control ''com.example.app''"
  "\<not> has_control ''com.example.kit''" "\<not> has_control ''1.2''" "\<not> has_control ''7''" "\<not> has_control ''16.0''"
  by (rule no_control_ascii, simp)+

lemma example_versions: "\<not> bad_version 32 ''1.2''" "\<not> bad_version 32 ''7''" "\<not> bad_version 16 ''16.0''"
proof -
  have texts: "''1.2'' = join ''.'' (map decimal [1, 2])" "''7'' = join ''.'' (map decimal [7])"
    "''16.0'' = join ''.'' (map decimal [16, 0])" by code_simp+
  show "\<not> bad_version 32 ''1.2''" unfolding good_version by (rule exI [of _ "[1, 2]"]) (simp add: texts)
  show "\<not> bad_version 32 ''7''" unfolding good_version by (rule exI [of _ "[7]"]) (simp add: texts)
  show "\<not> bad_version 16 ''16.0''" unfolding good_version by (rule exI [of _ "[16, 0]"]) (simp add: texts)
qed

lemma example_product_valid:
  "validate_product_expectation ascii_unicode example_product ''com.example.app'' example_unsigned_plan = Ok ()"
proof -
  have "\<not> reserved_basename ''FERRY''" "\<not> reserved_basename ''KIT''"
    "list_all valid_segment [''com'', ''example'', ''kit'']"
    "to_ascii_uppercase ''Ferry'' = ''FERRY''" "to_ascii_uppercase ''ferry'' = ''FERRY''" "to_ascii_uppercase ''Kit'' = ''KIT''"
    "has_exact_extension ''Ferry.app'' ''app''" "has_exact_extension ''Kit.framework'' ''framework''"
    by code_simp+
  then show ?thesis
    by (simp add: validate_product_expectation_def example_product_def validate_portable_component_def
        validate_safe_text_def example_safe_texts validate_bundle_version_def example_versions reject_if_def walk_nested_def
        nested_start_def validate_nested_bundle_path_def validate_bundle_identifier_def example_unsigned_plan_def
        nested_signing_targets_def nested_signing_kind_def Let_def)
qed

lemma example_request_valid:
  assumes "validate_identifier ''operation_id'' operation = Ok ()"
  shows "IosDeviceBuildRequest_validate example_env (example_request operation) = Ok ()"
proof -
  have names: "is_github_name ''ferry''" "is_github_name ''app''"
    "list_all valid_segment [''com'', ''example'', ''app'']" "list_all is_lower_hex (replicate 40 (CHR ''a''))"
    by code_simp+
  have "validate_source_fields (env_url_parse example_env) (example_request operation) = Ok ()"
    using names by (simp add: validate_source_fields_def example_request_def example_env_def validate_github_repository_def
        validate_safe_text_def github_url_def example_safe_texts validate_git_revision_def reject_if_def)
  moreover have "negotiate CURRENT_PROTOCOL_VERSION CURRENT_PROTOCOL_VERSION = Ok CURRENT_PROTOCOL_VERSION"
    by (simp add: negotiate_Ok is_compatible_with_def)
  moreover have "validate_ios_version ''16.0'' = Ok ()" "validate_bundle_identifier ''com.example.app'' = Ok ()"
    using names by (simp_all add: validate_ios_version_def example_versions validate_safe_text_def example_safe_texts reject_if_def
        validate_bundle_identifier_def)
  ultimately show ?thesis
    using assms example_product_valid example_unsigned_plan_valid example_manifest_valid
    unfolding IosDeviceBuildRequest_validate_def run_checks_Inr_iff
    by (simp add: example_request_def example_env_def validate_safe_text_def example_safe_texts application_bundle_def
        validate_requested_artifact_selection_def is_signed_def example_unsigned_plan_def)
qed

lemma example_operations: "validate_identifier ''operation_id'' ''op-1'' = Ok ()" "validate_identifier ''operation_id'' ''op-2'' = Ok ()"
  unfolding validate_identifier_Ok by code_simp+

theorem accepted_request_is_consistent_witness:
  "distinct (request_bundle_identifier (example_request ''op-1'')
     # map nested_bundle_identifier (product_nested_bundles (product (example_request ''op-1''))))"
  using accepted_request_is_consistent [OF example_request_valid [OF example_operations(1)]] by blast

text \<open>
  For the witness, the digest keeps the last byte of what follows the retry domain, and the serializer writes two
  requests that differ in the source revision as two different documents.
\<close>

definition other_revision :: "IosDeviceBuildRequest \<Rightarrow> IosDeviceBuildRequest" where
  "other_revision r = r\<lparr>source_revision := Some (replicate 40 (CHR ''0''))\<rparr>"

definition retry_env :: request_env where
  "retry_env = example_env
     \<lparr>env_sha256 := (\<lambda>b. if prefix RETRY_DOMAIN b then replicate 31 (CHR 0x00) @ [last b] else zero_digest b),
      env_to_vec := (\<lambda>q. if q = retry_template (example_request ''op-1'') then Ok ''a''
         else if q = retry_template (other_revision (example_request ''op-1'')) then Ok ''b'' else Err ''unsupported'')\<rparr>"

lemma validate_source_manifest_digest:
  "sha (manifest_preimage (project_path m) (manifest_entries m) (manifest_total_size m))
     = sha' (manifest_preimage (project_path m) (manifest_entries m) (manifest_total_size m)) \<Longrightarrow>
   validate_source_manifest u sha m l = validate_source_manifest u sha' m l"
  by (simp add: validate_source_manifest_def manifest_digest_def)

lemma retry_env_validates:
  "IosDeviceBuildRequest_validate retry_env r = IosDeviceBuildRequest_validate example_env r"
proof -
  have "validate_source_manifest ascii_unicode (env_sha256 retry_env) m l
      = validate_source_manifest ascii_unicode zero_digest m l" for m l
    by (rule validate_source_manifest_digest)
      (simp add: retry_env_def RETRY_DOMAIN_def manifest_preimage_def MANIFEST_DOMAIN_def)
  then show ?thesis
    by (simp add: IosDeviceBuildRequest_validate_def retry_env_def example_env_def)
qed

theorem retry_identity_ignores_only_operation_id_witness:
  "\<exists>h. canonical_retry_template_sha256_v1 retry_env (example_request ''op-1'') = Ok h
     \<and> canonical_retry_template_sha256_v1 retry_env (example_request ''op-2'') = Ok h
     \<and> canonical_retry_template_sha256_v1 retry_env (other_revision (example_request ''op-1'')) \<noteq> Ok h"
proof -
  let ?r = "\<lambda>operation. example_request operation"
  have differ: "retry_template (?r ''op-1'') \<noteq> retry_template (other_revision (?r ''op-1''))"
    by (simp add: retry_template_def other_revision_def example_request_def)
  have valid: "IosDeviceBuildRequest_validate retry_env (?r ''op-1'') = Ok ()"
    "IosDeviceBuildRequest_validate retry_env (?r ''op-2'') = Ok ()"
    using example_request_valid example_operations by (simp_all add: retry_env_validates)
  have "IosDeviceBuildRequest_validate retry_env (other_revision (?r ''op-1'')) = Ok ()"
    using revision_exchange [where env = retry_env and r = "?r ''op-1''" and v = "replicate 40 (CHR ''a'')"] valid(1) zero_revision_valid
    by (simp add: other_revision_def example_request_def)
  note valid = valid this
  define read where "read document = (if document = ''a'' then Some (retry_template (?r ''op-1''))
    else if document = ''b'' then Some (retry_template (other_revision (?r ''op-1''))) else None)" for document
  have lossless: "\<forall>q document. env_to_vec retry_env q = Ok document \<longrightarrow> read document = Some q"
    by (auto simp: retry_env_def read_def split: if_splits)
  note binding = retry_identity_ignores_only_operation_id [OF lossless]
  have documents: "env_to_vec retry_env ((?r operation)\<lparr>request_operation_id := ''semantic-retry-template-v1''\<rparr>) = Ok ''a''"
    "env_to_vec retry_env ((other_revision (?r ''op-1''))\<lparr>request_operation_id := ''semantic-retry-template-v1''\<rparr>) = Ok ''b''"
    for operation
    using differ by (auto simp: retry_env_def retry_template_def OPERATION_ID_PLACEHOLDER_def example_request_def)
  have "env_sha256 retry_env (RETRY_DOMAIN @ ''a'') \<noteq> env_sha256 retry_env (RETRY_DOMAIN @ ''b'')"
    by (simp add: retry_env_def)
  moreover have "(?r ''op-1'')\<lparr>request_operation_id := ''op-2''\<rparr> = ?r ''op-2''" by (simp add: example_request_def)
  ultimately show ?thesis
    using binding [OF valid(1,2) documents(1,1)] binding [OF valid(1,3) documents]
    by (auto simp: other_revision_def example_request_def)
qed

theorem snapshot_template_ignores_revision_witness:
  "canonical_git_snapshot_request_template_sha256 example_env ((example_request ''op-1'')\<lparr>source_revision := None\<rparr>)
   = canonical_git_snapshot_request_template_sha256 example_env
       ((example_request ''op-1'')\<lparr>source_revision := Some (replicate 40 (CHR ''a''))\<rparr>)"
proof -
  have "(example_request ''op-1'')\<lparr>source_revision := Some (replicate 40 (CHR ''a''))\<rparr> = example_request ''op-1''"
    "source_mode (example_request ''op-1'') = GitSnapshot" by (simp_all add: example_request_def)
  with snapshot_template_ignores_revision [of "example_request ''op-1''" example_env "replicate 40 (CHR ''a'')" "replicate 40 (CHR ''0'')"]
    example_request_valid [OF example_operations(1)] zero_revision_valid
  show ?thesis by simp
qed

end
