(* ===== verification/Build_Events.thy ===== *)
theory Build_Events
  imports Build_Request
begin

text \<open>
  Build results and events (\<^verbatim>\<open>src/crates/rustferry-remote/src/protocol.rs\<close>): the result of a build, the
  event envelope with its 25 kinds, its validation and its line codec. The derived serializers
  (\<open>serde_json::to_value\<close>, \<open>to_string\<close>, \<open>from_str\<close>) and the URL parser are parameters.
\<close>

section \<open>Results and event payloads\<close>

record CleanupConfirmation =
  cleanup_job_id :: string
  completed_at_ms :: u64
  workspace_removed :: bool
  signing_material_removed :: bool
  artifacts_retained :: bool

record IosDeviceBuildResult =
  result_protocol_version :: ProtocolVersion
  result_operation_id :: string
  result_job_id :: string
  result_state :: JobState
  result_artifacts :: "ArtifactManifest list"
  result_cleanup :: "CleanupConfirmation option"

definition IosDeviceBuildResult_validate :: "IosDeviceBuildResult \<Rightarrow> RemoteBuildError + unit" where
  "IosDeviceBuildResult_validate r =
     run_checks
       [and_then (negotiate CURRENT_PROTOCOL_VERSION (result_protocol_version r)) (\<lambda>_. Ok ()),
        validate_identifier ''operation_id'' (result_operation_id r),
        validate_identifier ''job_id'' (result_job_id r),
        reject_if (\<not> is_build_terminal (result_state r) \<and> \<not> is_terminal (result_state r))
          (InvalidEventPayload ''ios_device_build_result'' ''result state is not terminal''),
        reject_if (result_state r = Succeeded \<and> result_artifacts r = [])
          (InvalidEventPayload ''ios_device_build_result'' ''successful result has no artifact manifest'')]"

datatype DiagnosticSeverity = Information | SeverityWarning | SeverityError

record RemoteDiagnostic =
  diagnostic_code :: string
  diagnostic_severity :: DiagnosticSeverity
  diagnostic_message :: string
  diagnostic_help :: "string option"
  diagnostic_path :: "ProtocolPath option"
  diagnostic_line :: "u32 option"
  diagnostic_column :: "u32 option"

record RemoteErrorInfo =
  info_code :: string
  info_message :: string
  info_help :: "string option"
  info_retryable :: bool

datatype RemoteBuildEventKind =
    OperationStarted (command: string)
  | JobCreated (state: JobState)
  | JobQueued (position: "u64 option")
  | WorkerAssigned (worker_id: string)
  | SourcePrepared (file_count: u64) (total_bytes: u64)
  | SourceUploadStarted (total_bytes: u64)
  | SourceUploadProgress (uploaded_bytes: u64) (total_bytes: u64)
  | SourceVerified (sha256: string)
  | PhaseStarted (phase_message: "string option")
  | Progress (progress_message: string) (progress_current: "u64 option") (progress_total: "u64 option")
  | CommandStarted (tool: string) (arguments: "string list")
  | Diagnostic (diagnostic: RemoteDiagnostic)
  | SigningStarted (signing_mode: SigningMode)
  | ArtifactCreated (created_artifact_id: string) (artifact_type: IosArtifactType)
  | ArtifactValidated (artifact: ArtifactManifest)
  | ArtifactUploadStarted (upload_artifact_id: string) (total_bytes: u64)
  | ArtifactDownloadStarted (download_artifact_id: string) (total_bytes: u64)
  | ArtifactDownloadProgress (download_artifact_id: string) (downloaded_bytes: u64) (total_bytes: u64)
  | ArtifactDownloaded (artifact: ArtifactManifest) (local_path: ProtocolPath)
  | EventWarning (warning_code: string) (warning_message: string) (warning_help: "string option")
  | CleanupStarted
  | CleanupFinished (confirmation: CleanupConfirmation)
  | OperationFinished (success: bool) (duration_ms: u64) (finished_result: "IosDeviceBuildResult option")
      (finished_error: "RemoteErrorInfo option")
  | OperationCancelled (cancel_reason: string) (duration_ms: u64)
  | Unknown

definition event_name :: "RemoteBuildEventKind \<Rightarrow> string" where
  "event_name k =
     (case k of
        OperationStarted _ \<Rightarrow> ''operation_started'' | JobCreated _ \<Rightarrow> ''job_created'' | JobQueued _ \<Rightarrow> ''job_queued''
      | WorkerAssigned _ \<Rightarrow> ''worker_assigned'' | SourcePrepared _ _ \<Rightarrow> ''source_prepared''
      | SourceUploadStarted _ \<Rightarrow> ''source_upload_started'' | SourceUploadProgress _ _ \<Rightarrow> ''source_upload_progress''
      | SourceVerified _ \<Rightarrow> ''source_verified'' | PhaseStarted _ \<Rightarrow> ''phase_started'' | Progress _ _ _ \<Rightarrow> ''progress''
      | CommandStarted _ _ \<Rightarrow> ''command_started'' | Diagnostic _ \<Rightarrow> ''diagnostic'' | SigningStarted _ \<Rightarrow> ''signing_started''
      | ArtifactCreated _ _ \<Rightarrow> ''artifact_created'' | ArtifactValidated _ \<Rightarrow> ''artifact_validated''
      | ArtifactUploadStarted _ _ \<Rightarrow> ''artifact_upload_started''
      | ArtifactDownloadStarted _ _ \<Rightarrow> ''artifact_download_started''
      | ArtifactDownloadProgress _ _ _ \<Rightarrow> ''artifact_download_progress''
      | ArtifactDownloaded _ _ \<Rightarrow> ''artifact_downloaded'' | EventWarning _ _ _ \<Rightarrow> ''warning''
      | CleanupStarted \<Rightarrow> ''cleanup_started'' | CleanupFinished _ \<Rightarrow> ''cleanup_finished''
      | OperationFinished _ _ _ _ \<Rightarrow> ''operation_finished'' | OperationCancelled _ _ \<Rightarrow> ''operation_cancelled''
      | Unknown \<Rightarrow> ''unknown'')"

definition REMOTE_BUILD_EVENT_TYPES :: "string list" where
  "REMOTE_BUILD_EVENT_TYPES =
     [''operation_started'', ''job_created'', ''job_queued'', ''worker_assigned'', ''source_prepared'',
      ''source_upload_started'', ''source_upload_progress'', ''source_verified'', ''phase_started'', ''progress'',
      ''command_started'', ''diagnostic'', ''signing_started'', ''artifact_created'', ''artifact_validated'',
      ''artifact_upload_started'', ''artifact_download_started'', ''artifact_download_progress'',
      ''artifact_downloaded'', ''warning'', ''cleanup_started'', ''cleanup_finished'', ''operation_finished'',
      ''operation_cancelled'']"

record RemoteBuildEvent =
  event_protocol_version :: ProtocolVersion
  event_operation_id :: string
  event_job_id :: string
  timestamp_ms :: u64
  event_provider :: string
  event_phase :: string
  event_sequence :: u64
  event_kind :: RemoteBuildEventKind

section \<open>Validation and codec\<close>

text \<open>
  The serializers of the event and the URL parser. A failed parse says whether the input ended inside the
  document (\<open>is_eof\<close>) and what the parser displays.
\<close>

record event_env =
  event_url_parse :: "string \<Rightarrow> url option"
  to_value :: "RemoteBuildEvent \<Rightarrow> string + json"
  to_text :: "RemoteBuildEvent \<Rightarrow> string + string"
  from_text :: "string \<Rightarrow> (bool \<times> string) + RemoteBuildEvent"

fun validate_no_terminal_escape :: "json \<Rightarrow> RemoteBuildError + unit" where
  "validate_no_terminal_escape (JString text) =
     (if CHR 0x1B \<in> set text then Err (UnsafeEventText ''event'') else Ok ())"
| "validate_no_terminal_escape (JArray values) = run_checks (map validate_no_terminal_escape values)"
| "validate_no_terminal_escape (JObject values) = run_checks (map (\<lambda>m. validate_no_terminal_escape (snd m)) values)"
| "validate_no_terminal_escape _ = Ok ()"

definition validate_event_payload ::
    "(string \<Rightarrow> url option) \<Rightarrow> RemoteBuildEventKind \<Rightarrow> RemoteBuildError + unit" where
  "validate_event_payload url_parse k =
     (case k of
        JobCreated s \<Rightarrow>
          reject_if (s \<noteq> Created) (InvalidEventPayload ''job_created'' ''initial state must be created'')
      | SourceUploadProgress uploaded total_size \<Rightarrow>
          reject_if (uploaded > total_size)
            (InvalidEventPayload ''source_upload_progress'' ''uploaded bytes exceed total bytes'')
      | Progress _ (Some done_units) (Some total_units) \<Rightarrow>
          reject_if (done_units > total_units)
            (InvalidEventPayload ''progress'' ''completed units exceed total units'')
      | ArtifactDownloadProgress _ downloaded total_size \<Rightarrow>
          reject_if (downloaded > total_size)
            (InvalidEventPayload ''artifact_download_progress'' ''downloaded bytes exceed total bytes'')
      | ArtifactDownloaded _ path \<Rightarrow>
          and_then (ProtocolPath_validate url_parse path) (\<lambda>_.
            reject_if (path_semantics path \<noteq> ClientAbsolute)
              (InvalidEventPayload ''artifact_downloaded'' ''download destination must be client_absolute''))
      | Diagnostic d \<Rightarrow>
          (case diagnostic_path d of None \<Rightarrow> Ok () | Some path \<Rightarrow> ProtocolPath_validate url_parse path)
      | OperationFinished True _ _ (Some _) \<Rightarrow>
          Err (InvalidEventPayload ''operation_finished'' ''successful operation must not contain an error'')
      | OperationFinished False _ _ None \<Rightarrow>
          Err (InvalidEventPayload ''operation_finished'' ''failed operation requires a typed error'')
      | _ \<Rightarrow> Ok ())"

definition RemoteBuildEvent_validate :: "event_env \<Rightarrow> RemoteBuildEvent \<Rightarrow> RemoteBuildError + unit" where
  "RemoteBuildEvent_validate env e =
     run_checks
       [and_then (negotiate CURRENT_PROTOCOL_VERSION (event_protocol_version e)) (\<lambda>_. Ok ()),
        validate_identifier ''operation_id'' (event_operation_id e),
        validate_identifier ''job_id'' (event_job_id e),
        validate_identifier ''provider'' (event_provider e),
        validate_identifier ''phase'' (event_phase e),
        validate_event_payload (event_url_parse env) (event_kind e),
        and_then (map_err Serialization (to_value env e)) validate_no_terminal_escape]"

definition RemoteBuildEvent_new ::
    "event_env \<Rightarrow> string \<Rightarrow> string \<Rightarrow> u64 \<Rightarrow> string \<Rightarrow> string \<Rightarrow> u64 \<Rightarrow> RemoteBuildEventKind
     \<Rightarrow> RemoteBuildError + RemoteBuildEvent" where
  "RemoteBuildEvent_new env operation_id job_id timestamp provider phase seq k =
     (let e = \<lparr>event_protocol_version = CURRENT_PROTOCOL_VERSION, event_operation_id = operation_id,
        event_job_id = job_id, timestamp_ms = timestamp, event_provider = provider, event_phase = phase,
        event_sequence = seq, event_kind = k\<rparr> in
      and_then (RemoteBuildEvent_validate env e) (\<lambda>_. Ok e))"

definition encode_line :: "event_env \<Rightarrow> RemoteBuildEvent \<Rightarrow> RemoteBuildError + string" where
  "encode_line env e =
     and_then (RemoteBuildEvent_validate env e) (\<lambda>_.
     and_then (map_err Serialization (to_text env e)) (\<lambda>encoded. Ok (encoded @ [CHR 0x0A])))"

definition decode_line :: "event_env \<Rightarrow> string \<Rightarrow> RemoteBuildError + RemoteBuildEvent" where
  "decode_line env encoded =
     (if length encoded > MAX_EVENT_LINE_BYTES then Err (EventTooLarge (length encoded) MAX_EVENT_LINE_BYTES)
      else and_then (map_err (\<lambda>(is_eof, message). if is_eof then TruncatedEvent else MalformedEvent message)
             (from_text env encoded)) (\<lambda>e.
        and_then (RemoteBuildEvent_validate env e) (\<lambda>_. Ok e)))"

definition decode_line_bytes :: "event_env \<Rightarrow> bytes \<Rightarrow> RemoteBuildError + RemoteBuildEvent" where
  "decode_line_bytes env encoded =
     (if \<not> utf8_valid encoded then Err InvalidUtf8 else decode_line env encoded)"

section \<open>No terminal escapes\<close>

fun json_texts :: "json \<Rightarrow> string list" where
  "json_texts (JString t) = [t]"
| "json_texts (JArray vs) = concat (map json_texts vs)"
| "json_texts (JObject m) = concat (map (\<lambda>p. json_texts (snd p)) m)"
| "json_texts _ = []"

lemma validate_no_terminal_escape_ok:
  "is_ok (validate_no_terminal_escape j) \<longleftrightarrow> (\<forall>t \<in> set (json_texts j). CHR 0x1B \<notin> set t)"
  by (induction j rule: validate_no_terminal_escape.induct) (auto simp: run_checks_ok_iff)

text \<open>Every text an event carries, in its envelope and at any depth of its payload.\<close>

definition option_texts :: "string option \<Rightarrow> string list" where
  "option_texts t = (case t of None \<Rightarrow> [] | Some s \<Rightarrow> [s])"

definition manifest_texts :: "ArtifactManifest \<Rightarrow> string list" where
  "manifest_texts m =
     [am_operation_id m, am_job_id m, am_project_id m] @ option_texts (am_source_repository m)
     @ option_texts (am_source_revision m)
     @ [am_source_sha256 m, am_cargo_lock_sha256 m, am_config_sha256 m, am_rustferry_version m, am_worker_version m,
        am_provider m, worker_os (am_toolchain m), worker_architecture (am_toolchain m), xcode_version (am_toolchain m),
        iphoneos_sdk_version (am_toolchain m), rust_version (am_toolchain m), rust_target (am_toolchain m),
        am_app_name m, am_app_version m, am_build_number m, am_bundle_identifier m, am_build_profile m, am_architecture m]
     @ concat (map option_texts [evidence_team_id (am_signing m), evidence_certificate_fingerprint (am_signing m),
        evidence_profile_uuid (am_signing m), evidence_profile_expiration (am_signing m),
        evidence_entitlements_sha256 (am_signing m)])
     @ am_extensions m
     @ concat (map (\<lambda>a. [artifact_id a, artifact_file_name a, artifact_sha256 a] @ option_texts (artifact_media_type a))
         (am_artifacts m))
     @ [am_started_at m, am_finished_at m]"

definition result_texts :: "IosDeviceBuildResult \<Rightarrow> string list" where
  "result_texts r =
     [result_operation_id r, result_job_id r] @ concat (map manifest_texts (result_artifacts r))
     @ (case result_cleanup r of None \<Rightarrow> [] | Some c \<Rightarrow> [cleanup_job_id c])"

definition kind_texts :: "RemoteBuildEventKind \<Rightarrow> string list" where
  "kind_texts k =
     (case k of
        OperationStarted c \<Rightarrow> [c] | WorkerAssigned w \<Rightarrow> [w] | SourceVerified s \<Rightarrow> [s]
      | PhaseStarted m \<Rightarrow> option_texts m | Progress m _ _ \<Rightarrow> [m] | CommandStarted t args \<Rightarrow> t # args
      | Diagnostic d \<Rightarrow> [diagnostic_code d, diagnostic_message d] @ option_texts (diagnostic_help d)
          @ option_texts (map_option path_value (diagnostic_path d))
      | ArtifactCreated a _ \<Rightarrow> [a] | ArtifactValidated m \<Rightarrow> manifest_texts m
      | ArtifactUploadStarted a _ \<Rightarrow> [a] | ArtifactDownloadStarted a _ \<Rightarrow> [a] | ArtifactDownloadProgress a _ _ \<Rightarrow> [a]
      | ArtifactDownloaded m p \<Rightarrow> manifest_texts m @ [path_value p]
      | EventWarning c m h \<Rightarrow> [c, m] @ option_texts h
      | CleanupFinished c \<Rightarrow> [cleanup_job_id c]
      | OperationFinished _ _ r e \<Rightarrow> (case r of None \<Rightarrow> [] | Some x \<Rightarrow> result_texts x)
          @ (case e of None \<Rightarrow> [] | Some x \<Rightarrow> [info_code x, info_message x] @ option_texts (info_help x))
      | OperationCancelled r _ \<Rightarrow> [r]
      | _ \<Rightarrow> [])"

definition event_texts :: "RemoteBuildEvent \<Rightarrow> string list" where
  "event_texts e =
     [event_operation_id e, event_job_id e, event_provider e, event_phase e] @ kind_texts (event_kind e)"

lemma event_checks:
  assumes "RemoteBuildEvent_validate env e = Ok ()"
  shows "is_compatible_with CURRENT_PROTOCOL_VERSION (event_protocol_version e)"
    "validate_event_payload (event_url_parse env) (event_kind e) = Ok ()"
    "\<exists>j. to_value env e = Ok j \<and> is_ok (validate_no_terminal_escape j)"
proof -
  have "is_ok (negotiate CURRENT_PROTOCOL_VERSION (event_protocol_version e))"
    "is_ok (validate_event_payload (event_url_parse env) (event_kind e))"
    "is_ok (and_then (map_err Serialization (to_value env e)) validate_no_terminal_escape)"
    using assms unfolding RemoteBuildEvent_validate_def run_checks_Inr_iff by simp_all
  then show "is_compatible_with CURRENT_PROTOCOL_VERSION (event_protocol_version e)"
    "validate_event_payload (event_url_parse env) (event_kind e) = Ok ()"
    "\<exists>j. to_value env e = Ok j \<and> is_ok (validate_no_terminal_escape j)"
    by (auto simp: is_ok_conv negotiate_Ok and_then_Inr_iff)
qed

text \<open>
  [event_escape]: no text of an accepted event, in its envelope, its diagnostics, its errors or the
  manifests it carries, holds the escape character that starts terminal control sequences, provided the
  serializer puts every text of the event into the value it builds.
\<close>

theorem accepted_event_has_no_escape:
  assumes "decode_line env line = Ok e"
    and "\<And>j. to_value env e = Ok j \<Longrightarrow> set (event_texts e) \<subseteq> set (json_texts j)"
  shows "\<forall>t \<in> set (event_texts e). CHR 0x1B \<notin> set t"
proof -
  have "RemoteBuildEvent_validate env e = Ok ()"
    using assms(1) by (auto simp: decode_line_def and_then_Inr_iff split: if_splits)
  then obtain j where "to_value env e = Ok j" "is_ok (validate_no_terminal_escape j)"
    using event_checks(3) by blast
  with assms(2) show ?thesis by (auto simp: validate_no_terminal_escape_ok)
qed

text \<open>
  [event_payload]: the payload of an accepted event is coherent: a job starts in the created state,
  progress never exceeds its total, a download lands on an absolute client path, and a finished operation
  carries an error exactly when it failed.
\<close>

theorem accepted_event_payload_is_coherent:
  assumes "RemoteBuildEvent_validate env e = Ok ()"
  shows "case event_kind e of
      JobCreated s \<Rightarrow> s = Created
    | SourceUploadProgress uploaded total_size \<Rightarrow> uploaded \<le> total_size
    | Progress _ (Some done_units) (Some total_units) \<Rightarrow> done_units \<le> total_units
    | ArtifactDownloadProgress _ downloaded total_size \<Rightarrow> downloaded \<le> total_size
    | ArtifactDownloaded _ p \<Rightarrow> path_semantics p = ClientAbsolute \<and> is_absolute_path_text (path_value p)
    | OperationFinished ok _ _ failure \<Rightarrow> ok \<longleftrightarrow> failure = None
    | _ \<Rightarrow> True"
  using event_checks(2) [OF assms]
  by (cases "event_kind e")
    (auto simp: validate_event_payload_def reject_if_Inr and_then_Inr_iff ProtocolPath_validate_def
      split: option.splits bool.splits if_splits)

text \<open>
  [event_roundtrip]: a line the encoder writes decodes to the event it was written from, whatever the
  transport hands over as valid UTF-8, exactly when the line fits the decoder's limit; a longer line is
  refused by its size alone. The serializer's text is asked to parse back with the line feed at its end.
\<close>

theorem event_line_roundtrip:
  assumes "encode_line env e = Ok line" "utf8_valid line"
    and "\<And>text. to_text env e = Ok text \<Longrightarrow> from_text env (text @ [CHR 0x0A]) = Ok e"
  shows "decode_line_bytes env line =
    (if length line \<le> MAX_EVENT_LINE_BYTES then Ok e else Err (EventTooLarge (length line) MAX_EVENT_LINE_BYTES))"
proof -
  obtain body where "RemoteBuildEvent_validate env e = Ok ()" "to_text env e = Ok body" "line = body @ [CHR 0x0A]"
    using assms(1) by (auto simp: encode_line_def and_then_Inr_iff)
  with assms(2,3) show ?thesis by (simp add: decode_line_bytes_def decode_line_def)
qed

section \<open>An accepted event\<close>

lemma utf8_valid_ascii: "is_ascii s \<Longrightarrow> utf8_valid s"
  unfolding utf8_valid_iff
  by (rule exI [of _ "map byte s"], induction s) (auto simp: is_ascii_def is_scalar_def utf8_encode_def utf8_char_def)

definition example_event :: RemoteBuildEvent where
  "example_event =
     \<lparr>event_protocol_version = CURRENT_PROTOCOL_VERSION, event_operation_id = ''op-1'', event_job_id = ''job-1'',
      timestamp_ms = 5, event_provider = ''github'', event_phase = ''build'', event_sequence = 0,
      event_kind = Progress ''half'' (Some 1) (Some 2)\<rparr>"

definition example_event_env :: event_env where
  "example_event_env =
     \<lparr>event_url_parse = (\<lambda>_. None), to_value = (\<lambda>e. Ok (JArray (map JString (event_texts e)))),
      to_text = (\<lambda>_. Ok ''{}''), from_text = (\<lambda>_. Ok example_event)\<rparr>"

lemma example_event_valid: "RemoteBuildEvent_validate example_event_env example_event = Ok ()"
proof -
  have "validate_identifier f ''op-1'' = Ok ()" "validate_identifier f ''job-1'' = Ok ()"
    "validate_identifier f ''github'' = Ok ()" "validate_identifier f ''build'' = Ok ()" for f
    unfolding validate_identifier_Ok by code_simp+
  moreover have "negotiate CURRENT_PROTOCOL_VERSION CURRENT_PROTOCOL_VERSION = Ok CURRENT_PROTOCOL_VERSION"
    by (simp add: negotiate_Ok is_compatible_with_def)
  ultimately show ?thesis
    by (simp add: RemoteBuildEvent_validate_def example_event_def example_event_env_def validate_event_payload_def
        reject_if_def event_texts_def kind_texts_def)
qed

lemma example_line: "encode_line example_event_env example_event = Ok (''{}'' @ [CHR 0x0A])"
  using example_event_valid by (simp add: encode_line_def example_event_env_def)

theorem event_line_roundtrip_witness:
  "decode_line_bytes example_event_env (''{}'' @ [CHR 0x0A]) = Ok example_event"
proof -
  have "utf8_valid (''{}'' @ [CHR 0x0A])" by (rule utf8_valid_ascii) (simp add: is_ascii_def)
  from event_line_roundtrip [OF example_line this] show ?thesis
    by (simp add: example_event_env_def MAX_EVENT_LINE_BYTES_def)
qed

theorem accepted_event_has_no_escape_witness:
  "CHR 0x1B \<notin> set (event_operation_id example_event)"
proof -
  have "decode_line example_event_env ''{}'' = Ok example_event"
    using example_event_valid by (simp add: decode_line_def example_event_env_def MAX_EVENT_LINE_BYTES_def)
  from accepted_event_has_no_escape [OF this] have "\<forall>t \<in> set (event_texts example_event). CHR 0x1B \<notin> set t"
    by (auto simp: example_event_env_def)
  then show ?thesis by (simp add: event_texts_def)
qed

theorem accepted_event_payload_is_coherent_witness:
  "progress_current (event_kind example_event) = Some 1 \<and> progress_total (event_kind example_event) = Some 2 \<and> (1 :: u64) \<le> 2"
  using accepted_event_payload_is_coherent [OF example_event_valid] by (simp add: example_event_def)

end
