(* ===== verification/Provider.thy ===== *)
theory Provider
  imports Build_Events
begin

text \<open>
  The provider interface (\<^verbatim>\<open>src/crates/rustferry-remote/src/provider.rs\<close>, \<^verbatim>\<open>cancellation.rs\<close>): capabilities, the
  versioned handshake, requests and answers of the provider operations, the default bodies of the optional
  trait methods, and the shared cancellation token. A \<open>semver\<close> version is given as its displayed text. The
  required trait methods have no body in the sources; each provider supplies them.
\<close>

section \<open>Cancellation\<close>

text \<open>The token is one atomic flag that all its clones share; every operation is one atomic step on it.\<close>

record CancellationToken =
  requested :: bool

definition CancellationToken_new :: CancellationToken where
  "CancellationToken_new = \<lparr>requested = False\<rparr>"

definition token_cancel :: "CancellationToken \<Rightarrow> bool \<times> CancellationToken" where
  "token_cancel t = (\<not> requested t, t\<lparr>requested := True\<rparr>)"

definition is_cancelled :: "CancellationToken \<Rightarrow> bool" where
  "is_cancelled t = requested t"

definition token_check :: "CancellationToken \<Rightarrow> RemoteBuildError + unit" where
  "token_check t = (if is_cancelled t then Err RequestCancelled else Ok ())"

section \<open>Capabilities\<close>

record ProviderCapabilities =
  source_modes :: "SourceMode set"
  ios_device_build :: bool
  ios_simulator_build :: bool
  signing_modes :: "SigningMode set"
  personal_team :: bool
  live_events :: bool
  live_logs :: bool
  cancellation :: bool
  artifact_types :: "IosArtifactType set"
  cache :: bool
  max_source_bytes :: "u64 option"
  retention_seconds :: "u64 option"
  artifact_listing :: bool
  artifact_download :: bool
  cleanup :: bool
  physical_device_access :: bool

definition supports :: "ProviderCapabilities \<Rightarrow> ProviderFeature \<Rightarrow> bool" where
  "supports c f =
     (case f of
        SourceMode m \<Rightarrow> m \<in> source_modes c
      | IosDeviceBuild \<Rightarrow> ios_device_build c
      | IosSimulatorBuild \<Rightarrow> ios_simulator_build c
      | SigningMode m \<Rightarrow> m \<in> signing_modes c
      | PersonalTeamFeature \<Rightarrow> personal_team c
      | LiveEvents \<Rightarrow> live_events c
      | LiveLogs \<Rightarrow> live_logs c
      | Cancellation \<Rightarrow> cancellation c
      | ArtifactType k \<Rightarrow> k \<in> artifact_types c
      | Cache \<Rightarrow> cache c
      | ArtifactListing \<Rightarrow> artifact_listing c
      | ArtifactDownload \<Rightarrow> artifact_download c
      | Cleanup \<Rightarrow> cleanup c
      | PhysicalDeviceAccess \<Rightarrow> physical_device_access c)"

definition require :: "ProviderCapabilities \<Rightarrow> string \<Rightarrow> ProviderFeature \<Rightarrow> RemoteBuildError + unit" where
  "require c provider f = (if supports c f then Ok () else Err (UnsupportedCapability provider f))"

section \<open>Handshake\<close>

record HandshakeRequest =
  hs_protocol_version :: ProtocolVersion
  client_version :: string
  required_features :: "ProviderFeature list"

definition HandshakeRequest_validate :: "HandshakeRequest \<Rightarrow> RemoteBuildError + unit" where
  "HandshakeRequest_validate r =
     and_then (negotiate CURRENT_PROTOCOL_VERSION (hs_protocol_version r)) (\<lambda>_. Ok ())"

record HandshakeResponse =
  hr_protocol_version :: ProtocolVersion
  worker_version :: string
  hr_provider :: string
  hr_worker_id :: string
  hr_capabilities :: ProviderCapabilities

definition validate_for :: "HandshakeResponse \<Rightarrow> HandshakeRequest \<Rightarrow> RemoteBuildError + unit" where
  "validate_for response request =
     run_checks
       ([HandshakeRequest_validate request,
         and_then (negotiate (hs_protocol_version request) (hr_protocol_version response)) (\<lambda>_. Ok ()),
         validate_identifier ''provider'' (hr_provider response),
         validate_identifier ''worker_id'' (hr_worker_id response)]
        @ map (require (hr_capabilities response) (hr_provider response)) (required_features request))"

definition HandshakeResponse_negotiate ::
    "HandshakeRequest \<Rightarrow> string \<Rightarrow> string \<Rightarrow> string \<Rightarrow> ProviderCapabilities \<Rightarrow> RemoteBuildError + HandshakeResponse" where
  "HandshakeResponse_negotiate request provider worker version capabilities =
     and_then (negotiate CURRENT_PROTOCOL_VERSION (hs_protocol_version request)) (\<lambda>v.
       let response = \<lparr>hr_protocol_version = v, worker_version = version, hr_provider = provider,
             hr_worker_id = worker, hr_capabilities = capabilities\<rparr> in
       and_then (validate_for response request) (\<lambda>_. Ok response))"

section \<open>Provider requests and answers\<close>

record ProviderDoctorRequest =
  doctor_protocol_version :: ProtocolVersion
  doctor_operation_id :: string
  require_signing :: bool

datatype ProviderCheckStatus = Ready | CheckWarning | CheckError

record ProviderCheck =
  check_code :: string
  check_status :: ProviderCheckStatus
  check_message :: string
  check_help :: "string option"

record ProviderDoctorReport =
  report_protocol_version :: ProtocolVersion
  report_provider :: string
  report_ready :: bool
  report_checks :: "ProviderCheck list"
  report_capabilities :: ProviderCapabilities

record JobHandle =
  handle_job_id :: string
  handle_state :: JobState
  created_at_ms :: u64

record EventRequest =
  er_job_id :: string
  after_sequence :: "u64 option"
  limit :: u32

definition EventRequest_validate :: "EventRequest \<Rightarrow> RemoteBuildError + unit" where
  "EventRequest_validate r =
     run_checks
       [validate_identifier ''job_id'' (er_job_id r),
        reject_if (\<not> (1 \<le> limit r \<and> limit r \<le> 1000))
          (InvalidEventPayload ''event_request'' ''limit must be between 1 and 1000'')]"

record EventPage =
  page_job_id :: string
  page_state :: JobState
  page_events :: "RemoteBuildEvent list"
  page_next_sequence :: "u64 option"
  page_complete :: bool

record CancellationRequest =
  cr_job_id :: string
  cr_reason :: string

record CancellationAck =
  ack_job_id :: string
  ack_accepted :: bool
  ack_state :: JobState

record ArtifactListRequest =
  list_job_id :: string

record ArtifactDownloadRequest =
  dl_job_id :: string
  dl_artifact_id :: string
  dl_destination :: ProtocolPath

definition ArtifactDownloadRequest_validate ::
    "(string \<Rightarrow> url option) \<Rightarrow> ArtifactDownloadRequest \<Rightarrow> RemoteBuildError + unit" where
  "ArtifactDownloadRequest_validate url_parse r =
     run_checks
       [validate_identifier ''job_id'' (dl_job_id r),
        validate_identifier ''artifact_id'' (dl_artifact_id r),
        ProtocolPath_validate url_parse (dl_destination r),
        reject_if (path_semantics (dl_destination r) \<noteq> ClientAbsolute)
          (InvalidEventPayload ''artifact_download_request'' ''destination must be client_absolute'')]"

record ArtifactDownloadResult =
  dr_manifest :: ArtifactManifest
  dr_local_path :: ProtocolPath
  dr_local_file_identity :: string

record CleanupRequest =
  clean_job_id :: string
  remove_artifacts :: bool

text \<open>What the default bodies of the trait see of the provider.\<close>

record provider_self =
  provider_id :: string
  provider_capabilities :: ProviderCapabilities

definition default_cancel ::
    "provider_self \<Rightarrow> CancellationRequest \<Rightarrow> CancellationToken \<Rightarrow> RemoteBuildError + CancellationAck" where
  "default_cancel p r t =
     and_then (token_check t) (\<lambda>_.
     and_then (require (provider_capabilities p) (provider_id p) Cancellation) (\<lambda>_.
     Err (UnsupportedCapability (provider_id p) Cancellation)))"

definition default_list_artifacts ::
    "provider_self \<Rightarrow> ArtifactListRequest \<Rightarrow> CancellationToken \<Rightarrow> RemoteBuildError + ArtifactManifest list" where
  "default_list_artifacts p r t =
     and_then (token_check t) (\<lambda>_. Err (UnsupportedCapability (provider_id p) ArtifactListing))"

definition default_download_artifact ::
    "provider_self \<Rightarrow> ArtifactDownloadRequest \<Rightarrow> CancellationToken \<Rightarrow> RemoteBuildError + ArtifactDownloadResult" where
  "default_download_artifact p r t =
     and_then (token_check t) (\<lambda>_. Err (UnsupportedCapability (provider_id p) ArtifactDownload))"

definition default_cleanup ::
    "provider_self \<Rightarrow> CleanupRequest \<Rightarrow> CancellationToken \<Rightarrow> RemoteBuildError + CleanupConfirmation" where
  "default_cleanup p r t =
     and_then (token_check t) (\<lambda>_. Err (UnsupportedCapability (provider_id p) Cleanup))"

section \<open>One cancellation wins\<close>

datatype token_op = CancelOp | CheckOp

datatype token_answer = CancelAnswer bool | CheckAnswer "RemoteBuildError + unit"

definition token_step :: "token_op \<Rightarrow> CancellationToken \<Rightarrow> token_answer \<times> CancellationToken" where
  "token_step p t =
     (case p of CancelOp \<Rightarrow> (case token_cancel t of (first, t') \<Rightarrow> (CancelAnswer first, t'))
      | CheckOp \<Rightarrow> (CheckAnswer (token_check t), t))"

fun token_run :: "token_op list \<Rightarrow> CancellationToken \<Rightarrow> token_answer list" where
  "token_run [] t = []"
| "token_run (p # ps) t = (case token_step p t of (a, t') \<Rightarrow> a # token_run ps t')"

lemma token_run_nth:
  "i < length ps \<Longrightarrow> token_run ps t ! i =
     (let before = requested t \<or> CancelOp \<in> set (take i ps) in
      case ps ! i of CancelOp \<Rightarrow> CancelAnswer (\<not> before)
      | CheckOp \<Rightarrow> CheckAnswer (if before then Err RequestCancelled else Ok ()))"
proof (induction ps arbitrary: t i)
  case (Cons p ps)
  then show ?case
    by (cases i; cases p)
      (auto simp: token_step_def token_cancel_def token_check_def is_cancelled_def Let_def split: token_op.splits)
qed simp

text \<open>
  C28 [cancel_token]: whatever the order in which the holders of a token act on it, exactly the first
  cancellation is told that it requested the cancellation, and a check fails exactly when some cancellation
  came before it.
\<close>

theorem first_cancellation_wins:
  assumes "i < length ps"
  shows "token_run ps CancellationToken_new ! i =
    (let cancelled = CancelOp \<in> set (take i ps) in
     case ps ! i of CancelOp \<Rightarrow> CancelAnswer (\<not> cancelled)
     | CheckOp \<Rightarrow> CheckAnswer (if cancelled then Err RequestCancelled else Ok ()))"
  using token_run_nth [OF assms, of CancellationToken_new] by (simp add: CancellationToken_new_def)

theorem first_cancellation_wins_witness:
  "token_run [CheckOp, CancelOp, CancelOp, CheckOp] CancellationToken_new ! 2 = CancelAnswer False"
  using first_cancellation_wins [of 2 "[CheckOp, CancelOp, CancelOp, CheckOp]"] by (simp add: numeral_2_eq_2)

section \<open>The handshake is exact\<close>

lemma require_ok: "is_ok (require c p f) \<longleftrightarrow> supports c f"
  by (simp add: require_def)

lemma negotiate_current:
  "negotiate CURRENT_PROTOCOL_VERSION v = Ok w \<longleftrightarrow> major v = 1 \<and> w = ProtocolVersion_new 1 0"
  by (auto simp: negotiate_def is_compatible_with_def CURRENT_PROTOCOL_VERSION_def ProtocolVersion_new_def)

lemma negotiate_answer: "is_ok (negotiate v (ProtocolVersion_new 1 0)) \<longleftrightarrow> major v = 1"
  by (auto simp: negotiate_def is_compatible_with_def ProtocolVersion_new_def)

lemma validate_for_Ok:
  "validate_for response request = Ok () \<longleftrightarrow>
     major (hs_protocol_version request) = 1
     \<and> is_ok (negotiate (hs_protocol_version request) (hr_protocol_version response))
     \<and> is_ok (validate_identifier ''provider'' (hr_provider response))
     \<and> is_ok (validate_identifier ''worker_id'' (hr_worker_id response))
     \<and> set (required_features request) \<subseteq> {f. supports (hr_capabilities response) f}"
  unfolding validate_for_def run_checks_Inr_iff
  by (auto simp: HandshakeRequest_validate_def require_ok is_ok_conv [of "negotiate CURRENT_PROTOCOL_VERSION _"]
      negotiate_current)

text \<open>
  [handshake]: a worker answers a handshake exactly when the client speaks its major version, its own
  identifiers are safe and it supports every required feature; the version it answers is its own, which no
  client of that major version is older than, and every other field is what the worker was started with.
\<close>

theorem handshake_is_exact:
  "HandshakeResponse_negotiate request provider worker version capabilities = Ok response \<longleftrightarrow>
     major (hs_protocol_version request) = 1
     \<and> is_ok (validate_identifier ''provider'' provider) \<and> is_ok (validate_identifier ''worker_id'' worker)
     \<and> set (required_features request) \<subseteq> {f. supports capabilities f}
     \<and> response = \<lparr>hr_protocol_version = ProtocolVersion_new 1 0, worker_version = version, hr_provider = provider,
         hr_worker_id = worker, hr_capabilities = capabilities\<rparr>"
  unfolding HandshakeResponse_negotiate_def and_then_Inr_iff negotiate_current Let_def
  by (auto simp: validate_for_Ok negotiate_answer)

lemma handshake_client_accepts:
  "HandshakeResponse_negotiate request provider worker version capabilities = Ok response \<Longrightarrow>
   validate_for response request = Ok ()"
  by (auto simp: HandshakeResponse_negotiate_def and_then_Inr_iff Let_def)

text \<open>The defaults of the optional operations never succeed, and report a cancellation first.\<close>

lemma default_operations_fail:
  "default_cancel p r t = Err (if is_cancelled t then RequestCancelled else UnsupportedCapability (provider_id p) Cancellation)"
  "default_list_artifacts p a t = Err (if is_cancelled t then RequestCancelled else UnsupportedCapability (provider_id p) ArtifactListing)"
  "default_download_artifact p d t = Err (if is_cancelled t then RequestCancelled else UnsupportedCapability (provider_id p) ArtifactDownload)"
  "default_cleanup p c t = Err (if is_cancelled t then RequestCancelled else UnsupportedCapability (provider_id p) Cleanup)"
  by (simp_all add: default_cancel_def default_list_artifacts_def default_download_artifact_def default_cleanup_def
      token_check_def require_def)

end
