(* ===== verification/Rust_Io.thy ===== *)
theory Rust_Io
  imports Rust_Text
begin

text \<open>
  The parts of \<open>std::io\<close> the transports use. A reader is the list of what its successive \<open>read\<close> calls
  will deliver; a delivery longer than the caller's buffer is cut and its rest delivered next. A writer
  holds the bytes it took and, when it is limited, how many more it takes before it fails.
\<close>

section \<open>Readers and writers\<close>

datatype read_event = Chunk bytes | ReadError

type_synonym reader = "read_event list"

record writer =
  written :: bytes
  capacity :: "nat option"

fun read_some :: "nat \<Rightarrow> reader \<Rightarrow> bytes option \<times> reader" where
  "read_some n [] = (Some [], [])"
| "read_some n (ReadError # r) = (None, r)"
| "read_some n (Chunk b # r) = (Some (take n b), if length b \<le> n then r else Chunk (drop n b) # r)"

definition write_all :: "bytes \<Rightarrow> writer \<Rightarrow> bool \<times> writer" where
  "write_all bs w =
     (case capacity w of
        None \<Rightarrow> (True, w\<lparr>written := written w @ bs\<rparr>)
      | Some n \<Rightarrow>
          if length bs \<le> n then (True, w\<lparr>written := written w @ bs, capacity := Some (n - length bs)\<rparr>)
          else (False, w\<lparr>written := written w @ take n bs, capacity := Some 0\<rparr>))"

lemma read_some_length: "read_some n r = (Some b, r') \<Longrightarrow> length b \<le> n"
  by (induction n r rule: read_some.induct) auto

section \<open>Steps on a state\<close>

text \<open>
  A function that may fail and mutates its state returns its result with the new state. The \<open>?\<close> operator on such
  a step keeps the state of a failure, and a step that only computes leaves the state alone.
\<close>

definition and_next :: "('e + 'a) \<times> 's \<Rightarrow> ('a \<Rightarrow> 's \<Rightarrow> ('e + 'b) \<times> 's) \<Rightarrow> ('e + 'b) \<times> 's" where
  "and_next x f = (case x of (Inl e, st) \<Rightarrow> (Err e, st) | (Inr a, st) \<Rightarrow> f a st)"

definition pure_step :: "'e + 'a \<Rightarrow> 's \<Rightarrow> ('e + 'a) \<times> 's" where
  "pure_step x st = (x, st)"

lemma and_next_simps [simp]: "and_next (Inl e, st) f = (Err e, st)" "and_next (Inr a, st) f = f a st"
  by (simp_all add: and_next_def)

lemma and_next_Ok: "and_next x f = (Ok b, st) \<longleftrightarrow> (\<exists>a st'. x = (Ok a, st') \<and> f a st' = (Ok b, st))"
  by (auto simp: and_next_def split: prod.splits sum.splits)

lemma pure_step_Ok [simp]: "pure_step x st = (Ok a, st') \<longleftrightarrow> x = Ok a \<and> st' = st"
  by (auto simp: pure_step_def)

text \<open>A relation between the states before and after that every step keeps is kept by a sequence of steps.\<close>

lemma and_next_keeps:
  assumes "R st (snd x)" "\<And>a st'. R st' (snd (f a st'))" "\<And>a b c. R a b \<Longrightarrow> R b c \<Longrightarrow> R a c"
  shows "R st (snd (and_next x f))"
  using assms by (cases x) (auto simp: and_next_def split: sum.split)

section \<open>What a reader delivers\<close>

text \<open>
  The bytes a reader delivers before it first reports the end of input or fails, and which of the
  two happens.
\<close>

fun reader_data :: "reader \<Rightarrow> bytes" where
  "reader_data [] = []"
| "reader_data (ReadError # r) = []"
| "reader_data (Chunk b # r) = (if b = [] then [] else b @ reader_data r)"

fun reader_ends :: "reader \<Rightarrow> bool" where
  "reader_ends [] = True"
| "reader_ends (ReadError # r) = False"
| "reader_ends (Chunk b # r) = (b = [] \<or> reader_ends r)"

lemma read_some_data:
  "0 < n \<Longrightarrow> reader_data r \<noteq> [] \<Longrightarrow>
   \<exists>b r'. read_some n r = (Some b, r') \<and> b \<noteq> [] \<and> length b \<le> n
     \<and> reader_data r = b @ reader_data r' \<and> reader_ends r' = reader_ends r"
  by (induction n r rule: read_some.induct) (auto split: if_splits)

lemma read_some_no_data:
  "reader_data r = [] \<Longrightarrow> \<exists>r'. read_some n r = (if reader_ends r then Some [] else None, r')"
  by (induction n r rule: read_some.induct) (auto split: if_splits)

section \<open>What a writer takes\<close>

lemma write_all_unlimited [simp]:
  "capacity w = None \<Longrightarrow> write_all b w = (True, w\<lparr>written := written w @ b\<rparr>)"
  by (simp add: write_all_def)

lemma write_all_prefix:
  assumes "write_all b w = (ok, w')"
  shows "\<exists>k \<le> length b. written w' = written w @ take k b \<and> (ok \<longrightarrow> k = length b)"
proof -
  let ?k = "case capacity w of None \<Rightarrow> length b | Some n \<Rightarrow> min n (length b)"
  have "?k \<le> length b \<and> written w' = written w @ take ?k b \<and> (ok \<longrightarrow> ?k = length b)"
    using assms by (auto simp: write_all_def min_def split: option.splits if_splits)
  then show ?thesis by blast
qed

section \<open>Bounded reads\<close>

text \<open>
  \<open>reader.take(limit).read_to_end(&mut out)\<close>: it reads until the limit or the end of the input, and stops
  at a failing read. How large the pieces are makes no difference to the bytes.
\<close>

function take_to_end :: "nat \<Rightarrow> bytes \<Rightarrow> reader \<Rightarrow> bytes option \<times> reader" where
  "take_to_end limit out r =
     (if limit = 0 then (Some out, r)
      else case read_some limit r of
          (None, r') \<Rightarrow> (None, r')
        | (Some b, r') \<Rightarrow>
            if b = [] then (Some out, r') else take_to_end (limit - length b) (out @ b) r')"
  by pat_completeness auto
termination
  by (relation "measure (\<lambda>(limit, out, r). limit)") (auto simp flip: length_greater_0_conv)

declare take_to_end.simps [simp del]

lemma take_to_end_data:
  "fst (take_to_end limit out r) =
     (if limit \<le> length (reader_data r) then Some (out @ take limit (reader_data r))
      else if reader_ends r then Some (out @ reader_data r) else None)"
proof (induction limit out r rule: take_to_end.induct)
  case (1 limit out r)
  show ?case
  proof (cases "limit = 0 \<or> reader_data r = []")
    case True
    then show ?thesis using read_some_no_data [of r limit] by (subst take_to_end.simps) auto
  next
    case False
    then obtain b r1 where b: "read_some limit r = (Some b, r1)" "b \<noteq> []" "length b \<le> limit"
      "reader_data r = b @ reader_data r1" "reader_ends r1 = reader_ends r"
      using read_some_data [of limit r] by auto
    with False have step: "take_to_end limit out r = take_to_end (limit - length b) (out @ b) r1"
      by (subst take_to_end.simps) simp
    have "fst (take_to_end (limit - length b) (out @ b) r1) =
      (if limit - length b \<le> length (reader_data r1) then Some ((out @ b) @ take (limit - length b) (reader_data r1))
       else if reader_ends r1 then Some ((out @ b) @ reader_data r1) else None)"
      using False b by (intro 1) auto
    with step b show ?thesis by auto
  qed
qed

end
