(* ===== verification/Data_Plane.thy ===== *)
theory Data_Plane
  imports Rust_Io
begin

text \<open>
  The length-framed binary transport (\<^verbatim>\<open>src/crates/rustferry-remote/src/data_plane.rs\<close>): frame
  kinds and their payload bounds, the 24-byte header codec, bounded and streamed payload transfer
  over readers that may deliver their bytes in arbitrary pieces or fail, and the per-direction
  sequence validator.

  Readers and writers are those of \<open>Rust_Io\<close>. The width of \<open>usize\<close> is a parameter.
\<close>

section \<open>Frames\<close>

definition WORKER_DATA_PLANE_SCHEMA_VERSION :: u16 where
  "WORKER_DATA_PLANE_SCHEMA_VERSION = 1"

definition WORKER_DATA_PLANE_HEADER_BYTES :: nat where
  "WORKER_DATA_PLANE_HEADER_BYTES = 24"

definition MAX_WORKER_DATA_PLANE_REQUEST_BYTES :: u64 where
  "MAX_WORKER_DATA_PLANE_REQUEST_BYTES = 1024 * 1024"

definition MAX_WORKER_DATA_PLANE_CONTROL_BYTES :: u64 where
  "MAX_WORKER_DATA_PLANE_CONTROL_BYTES = 64 * 1024"

definition MAX_WORKER_DATA_PLANE_RESULT_BYTES :: u64 where
  "MAX_WORKER_DATA_PLANE_RESULT_BYTES = MAX_SOURCE_BUNDLE_DESCRIPTOR_BYTES"

definition MAX_WORKER_DATA_PLANE_SOURCE_BYTES :: u64 where
  "MAX_WORKER_DATA_PLANE_SOURCE_BYTES = 640 * 1024 * 1024"

definition MAX_WORKER_DATA_PLANE_ARTIFACT_BYTES :: u64 where
  "MAX_WORKER_DATA_PLANE_ARTIFACT_BYTES = 2 * 1024 * 1024 * 1024"

definition WORKER_DATA_PLANE_MAGIC :: bytes where
  "WORKER_DATA_PLANE_MAGIC = ''RFDP''"

datatype WorkerDataPlaneFrameKind =
    BuildRequest | SourceDescriptor | SourceArchive | Cancel | JobAccepted | Event
  | ArtifactDescriptor | Artifact | Complete | FrameError | ArtifactReceipt

record WorkerDataPlaneFrameHeader =
  kind :: WorkerDataPlaneFrameKind
  sequence :: u64
  payload_bytes :: u64

record WorkerDataPlaneSequence =
  next_sequence :: "u64 option"

datatype WorkerDataPlaneFrameError =
    Io | EmptyInput | TruncatedHeader | InvalidMagic
  | UnsupportedSchemaVersion (supported: u16) (received_schema: u16)
  | UnknownFrameKind
  | PayloadTooLarge WorkerDataPlaneFrameKind u64 u64
  | TruncatedPayload | PayloadSizeUnsupported
  | StreamingRequired WorkerDataPlaneFrameKind
  | UnexpectedSequence (expected: u64) (received: u64)
  | SequenceExhausted

definition maximum_payload_bytes :: "WorkerDataPlaneFrameKind \<Rightarrow> u64" where
  "maximum_payload_bytes k =
     (case k of
        BuildRequest \<Rightarrow> MAX_WORKER_DATA_PLANE_REQUEST_BYTES
      | SourceDescriptor \<Rightarrow> MAX_SOURCE_BUNDLE_DESCRIPTOR_BYTES
      | ArtifactDescriptor \<Rightarrow> MAX_SOURCE_BUNDLE_DESCRIPTOR_BYTES
      | SourceArchive \<Rightarrow> MAX_WORKER_DATA_PLANE_SOURCE_BYTES
      | Cancel \<Rightarrow> MAX_WORKER_DATA_PLANE_CONTROL_BYTES
      | JobAccepted \<Rightarrow> MAX_WORKER_DATA_PLANE_CONTROL_BYTES
      | FrameError \<Rightarrow> MAX_WORKER_DATA_PLANE_CONTROL_BYTES
      | ArtifactReceipt \<Rightarrow> MAX_WORKER_DATA_PLANE_CONTROL_BYTES
      | Event \<Rightarrow> of_nat MAX_EVENT_LINE_BYTES
      | Artifact \<Rightarrow> MAX_WORKER_DATA_PLANE_ARTIFACT_BYTES
      | Complete \<Rightarrow> MAX_WORKER_DATA_PLANE_RESULT_BYTES)"

text \<open>\<open>kind as u16\<close> and \<open>from_wire\<close>.\<close>

definition to_wire :: "WorkerDataPlaneFrameKind \<Rightarrow> u16" where
  "to_wire k =
     (case k of BuildRequest \<Rightarrow> 1 | SourceDescriptor \<Rightarrow> 2 | SourceArchive \<Rightarrow> 3 | Cancel \<Rightarrow> 4
      | JobAccepted \<Rightarrow> 5 | Event \<Rightarrow> 6 | ArtifactDescriptor \<Rightarrow> 7 | Artifact \<Rightarrow> 8 | Complete \<Rightarrow> 9
      | FrameError \<Rightarrow> 10 | ArtifactReceipt \<Rightarrow> 11)"

definition from_wire :: "u16 \<Rightarrow> WorkerDataPlaneFrameError + WorkerDataPlaneFrameKind" where
  "from_wire v =
     (if v = 1 then Ok BuildRequest
      else if v = 2 then Ok SourceDescriptor
      else if v = 3 then Ok SourceArchive
      else if v = 4 then Ok Cancel
      else if v = 5 then Ok JobAccepted
      else if v = 6 then Ok Event
      else if v = 7 then Ok ArtifactDescriptor
      else if v = 8 then Ok Artifact
      else if v = 9 then Ok Complete
      else if v = 10 then Ok FrameError
      else if v = 11 then Ok ArtifactReceipt
      else Err UnknownFrameKind)"

definition WorkerDataPlaneSequence_new :: WorkerDataPlaneSequence where
  "WorkerDataPlaneSequence_new = \<lparr>next_sequence = Some 0\<rparr>"

definition accept ::
    "WorkerDataPlaneSequence \<Rightarrow> WorkerDataPlaneFrameHeader
     \<Rightarrow> WorkerDataPlaneFrameError + WorkerDataPlaneSequence" where
  "accept sq header =
     (case next_sequence sq of
        None \<Rightarrow> Err SequenceExhausted
      | Some e \<Rightarrow>
          if sequence header \<noteq> e then Err (UnexpectedSequence e (sequence header))
          else Ok (sq\<lparr>next_sequence := checked_add e 1\<rparr>))"

definition WorkerDataPlaneFrameHeader_new ::
    "WorkerDataPlaneFrameKind \<Rightarrow> u64 \<Rightarrow> u64 \<Rightarrow> WorkerDataPlaneFrameError + WorkerDataPlaneFrameHeader" where
  "WorkerDataPlaneFrameHeader_new k sq n =
     (let maximum = maximum_payload_bytes k in
      if n > maximum then Err (PayloadTooLarge k n maximum)
      else Ok \<lparr>kind = k, sequence = sq, payload_bytes = n\<rparr>)"

section \<open>Header codec\<close>

definition encode_header :: "WorkerDataPlaneFrameHeader \<Rightarrow> bytes" where
  "encode_header h =
     WORKER_DATA_PLANE_MAGIC @ be_bytes 2 (unat WORKER_DATA_PLANE_SCHEMA_VERSION)
       @ be_bytes 2 (unat (to_wire (kind h))) @ be_bytes 8 (unat (sequence h))
       @ be_bytes 8 (unat (payload_bytes h))"

definition write_worker_data_plane_header ::
    "writer \<Rightarrow> WorkerDataPlaneFrameHeader \<Rightarrow> (WorkerDataPlaneFrameError + unit) \<times> writer" where
  "write_worker_data_plane_header w h =
     (let (ok, w') = write_all (encode_header h) w in (if ok then Ok () else Err Io, w'))"

text \<open>The checks that follow reading the 24 header bytes.\<close>

definition slice :: "nat \<Rightarrow> nat \<Rightarrow> bytes \<Rightarrow> bytes" where
  "slice a b s = take (b - a) (drop a s)"

definition decode_header :: "bytes \<Rightarrow> WorkerDataPlaneFrameError + WorkerDataPlaneFrameHeader" where
  "decode_header encoded =
     (if slice 0 4 encoded \<noteq> WORKER_DATA_PLANE_MAGIC then Err InvalidMagic
      else
        let schema_version = of_nat (of_be_bytes (slice 4 6 encoded)) :: u16 in
        if schema_version \<noteq> WORKER_DATA_PLANE_SCHEMA_VERSION
        then Err (UnsupportedSchemaVersion WORKER_DATA_PLANE_SCHEMA_VERSION schema_version)
        else and_then (from_wire (of_nat (of_be_bytes (slice 6 8 encoded))))
          (\<lambda>k. WorkerDataPlaneFrameHeader_new k
                 (of_nat (of_be_bytes (slice 8 16 encoded)))
                 (of_nat (of_be_bytes (slice 16 24 encoded)))))"

text \<open>
  The loops of \<open>read_header_exact\<close> and \<open>read_payload_exact\<close> differ in the error they report when the
  input ends, which may depend on the offset.
\<close>

function read_exact_loop ::
    "(nat \<Rightarrow> WorkerDataPlaneFrameError) \<Rightarrow> nat \<Rightarrow> bytes \<Rightarrow> reader
     \<Rightarrow> (WorkerDataPlaneFrameError + bytes) \<times> reader" where
  "read_exact_loop eof len out r =
     (if length out < len then
        (case read_some (len - length out) r of
           (None, r') \<Rightarrow> (Err Io, r')
         | (Some b, r') \<Rightarrow>
             if b = [] then (Err (eof (length out)), r')
             else read_exact_loop eof len (out @ b) r')
      else (Ok out, r))"
  by pat_completeness auto
termination
  by (relation "measure (\<lambda>(eof, len, out, r). len - length out)")
    (auto simp flip: length_greater_0_conv)

declare read_exact_loop.simps [simp del]

definition read_header_exact :: "nat \<Rightarrow> reader \<Rightarrow> (WorkerDataPlaneFrameError + bytes) \<times> reader" where
  "read_header_exact len r =
     read_exact_loop (\<lambda>offset. if offset = 0 then EmptyInput else TruncatedHeader) len [] r"

definition read_payload_exact :: "nat \<Rightarrow> reader \<Rightarrow> (WorkerDataPlaneFrameError + bytes) \<times> reader" where
  "read_payload_exact len r = read_exact_loop (\<lambda>offset. TruncatedPayload) len [] r"

definition read_worker_data_plane_header ::
    "reader \<Rightarrow> (WorkerDataPlaneFrameError + WorkerDataPlaneFrameHeader) \<times> reader" where
  "read_worker_data_plane_header r =
     (case read_header_exact WORKER_DATA_PLANE_HEADER_BYTES r of
        (Inl e, r') \<Rightarrow> (Err e, r')
      | (Inr encoded, r') \<Rightarrow> (decode_header encoded, r'))"

section \<open>Payloads\<close>

definition write_worker_data_plane_frame ::
    "writer \<Rightarrow> WorkerDataPlaneFrameKind \<Rightarrow> u64 \<Rightarrow> bytes \<Rightarrow> (WorkerDataPlaneFrameError + unit) \<times> writer" where
  "write_worker_data_plane_frame w k sq payload =
     (if length payload \<ge> 2 ^ 64 then (Err PayloadSizeUnsupported, w)
      else case WorkerDataPlaneFrameHeader_new k sq (of_nat (length payload)) of
          Inl e \<Rightarrow> (Err e, w)
        | Inr header \<Rightarrow>
            (case write_worker_data_plane_header w header of
               (Inl e, w') \<Rightarrow> (Err e, w')
             | (Inr _, w') \<Rightarrow>
                 (let (ok, w'') = write_all payload w' in (if ok then Ok () else Err Io, w''))))"

definition read_worker_data_plane_payload ::
    "nat \<Rightarrow> reader \<Rightarrow> WorkerDataPlaneFrameHeader \<Rightarrow> (WorkerDataPlaneFrameError + bytes) \<times> reader" where
  "read_worker_data_plane_payload usize_max r header =
     (if kind header \<in> {SourceArchive, Artifact} then (Err (StreamingRequired (kind header)), r)
      else if unat (payload_bytes header) > usize_max then (Err PayloadSizeUnsupported, r)
      else read_payload_exact (unat (payload_bytes header)) r)"

lemma unat_sub_count:
  "n \<le> unat (x :: u64) \<Longrightarrow> unat (x - of_nat n) = unat x - n"
proof -
  assume n: "n \<le> unat x"
  then have "unat (of_nat n :: u64) = n"
    using unsigned_less [of x, where ?'a = nat] by (simp add: unat_of_nat)
  with n show ?thesis by (simp add: unat_sub_if')
qed

lemma chunk_bound:
  assumes "read_some (unat (min remaining (16 * 1024 :: u64))) r = (Some b, r')"
  shows "length b \<le> unat remaining"
proof -
  have "length b \<le> unat (min remaining (16 * 1024))" using assms by (rule read_some_length)
  also have "\<dots> \<le> unat remaining"
    using min.cobounded1 by (simp add: word_le_nat_alt [symmetric])
  finally show ?thesis .
qed

lemma copy_step:
  assumes "read_some (unat (min remaining (16 * 1024 :: u64))) r = (Some b, r')" "b \<noteq> []"
  shows "unat (remaining - of_nat (length b)) < unat remaining"
  using chunk_bound [OF assms(1)] assms(2) by (simp add: unat_sub_count flip: length_greater_0_conv)

text \<open>
  The copy loop, with its 16 KiB buffer. The conversion of the chunk size to \<open>usize\<close> cannot fail:
  it is at most the buffer size.
\<close>

function copy_loop ::
    "u64 \<Rightarrow> u64 \<Rightarrow> reader \<Rightarrow> writer \<Rightarrow> (WorkerDataPlaneFrameError + u64) \<times> reader \<times> writer" where
  "copy_loop remaining copied r w =
     (if remaining = 0 then (Ok copied, r, w)
      else
        let chunk = unat (min remaining (16 * 1024)) in
        case read_some chunk r of
          (None, r') \<Rightarrow> (Err Io, r', w)
        | (Some b, r') \<Rightarrow>
            if b = [] then (Err TruncatedPayload, r', w)
            else (case write_all b w of
                (False, w') \<Rightarrow> (Err Io, r', w')
              | (True, w') \<Rightarrow>
                  copy_loop (remaining - of_nat (length b)) (copied + of_nat (length b)) r' w'))"
  by pat_completeness auto
termination
  by (relation "measure (\<lambda>(remaining, copied, r, w). unat remaining)")
    (auto intro: copy_step [OF sym])

declare copy_loop.simps [simp del]

definition copy_worker_data_plane_payload ::
    "reader \<Rightarrow> writer \<Rightarrow> WorkerDataPlaneFrameHeader \<Rightarrow> (WorkerDataPlaneFrameError + u64) \<times> reader \<times> writer" where
  "copy_worker_data_plane_payload r w header = copy_loop (payload_bytes header) 0 r w"

definition write_worker_data_plane_stream ::
    "writer \<Rightarrow> WorkerDataPlaneFrameKind \<Rightarrow> u64 \<Rightarrow> reader \<Rightarrow> u64
     \<Rightarrow> (WorkerDataPlaneFrameError + u64) \<times> reader \<times> writer" where
  "write_worker_data_plane_stream w k sq r n =
     (case WorkerDataPlaneFrameHeader_new k sq n of
        Inl e \<Rightarrow> (Err e, r, w)
      | Inr header \<Rightarrow>
          (case write_worker_data_plane_header w header of
             (Inl e, w') \<Rightarrow> (Err e, r, w')
           | (Inr _, w') \<Rightarrow> copy_worker_data_plane_payload r w' header))"

section \<open>Reading an exact number of bytes\<close>

lemma read_exact_loop_enough:
  "length out \<le> len \<Longrightarrow> len - length out \<le> length (reader_data r) \<Longrightarrow>
   \<exists>r'. read_exact_loop eof len out r = (Ok (out @ take (len - length out) (reader_data r)), r')
     \<and> reader_data r' = drop (len - length out) (reader_data r) \<and> reader_ends r' = reader_ends r"
proof (induction eof len out r rule: read_exact_loop.induct)
  case (1 eof len out r)
  show ?case
  proof (cases "length out < len")
    case True
    with 1 have "reader_data r \<noteq> []" by auto
    with True obtain b r1 where b: "read_some (len - length out) r = (Some b, r1)" "b \<noteq> []"
      "length b \<le> len - length out" "reader_data r = b @ reader_data r1" "reader_ends r1 = reader_ends r"
      using read_some_data [of "len - length out" r] by auto
    with 1 True have "\<exists>r'. read_exact_loop eof len (out @ b) r1
        = (Ok ((out @ b) @ take (len - length (out @ b)) (reader_data r1)), r')
      \<and> reader_data r' = drop (len - length (out @ b)) (reader_data r1) \<and> reader_ends r' = reader_ends r1"
      by (intro 1(1)) auto
    with True b show ?thesis by (subst read_exact_loop.simps) auto
  next
    case False
    with 1 show ?thesis by (subst read_exact_loop.simps) auto
  qed
qed

lemma read_exact_loop_short:
  "length out \<le> len \<Longrightarrow> length (reader_data r) < len - length out \<Longrightarrow>
   fst (read_exact_loop eof len out r)
     = Err (if reader_ends r then eof (length out + length (reader_data r)) else Io)"
proof (induction eof len out r rule: read_exact_loop.induct)
  case (1 eof len out r)
  then have less: "length out < len" by simp
  show ?case
  proof (cases "reader_data r = []")
    case True
    with less show ?thesis
      using read_some_no_data [of r "len - length out"] by (subst read_exact_loop.simps) auto
  next
    case False
    with less obtain b r1 where b: "read_some (len - length out) r = (Some b, r1)" "b \<noteq> []"
      "length b \<le> len - length out" "reader_data r = b @ reader_data r1" "reader_ends r1 = reader_ends r"
      using read_some_data [of "len - length out" r] by auto
    with 1 less have "fst (read_exact_loop eof len (out @ b) r1)
      = Err (if reader_ends r1 then eof (length (out @ b) + length (reader_data r1)) else Io)"
      by (intro 1(1)) auto
    with less b show ?thesis by (subst read_exact_loop.simps) (simp add: add.assoc)
  qed
qed

section \<open>The header codec is canonical\<close>

lemma to_wire_inject: "to_wire k = to_wire k' \<longleftrightarrow> k = k'"
  by (cases k; cases k'; simp add: to_wire_def)

lemma from_wire_iff: "from_wire v = Ok k \<longleftrightarrow> v = to_wire k"
  by (cases k) (auto simp: from_wire_def to_wire_def split: if_splits)

lemma length_encode_header [simp]: "length (encode_header h) = 24"
  by (simp add: encode_header_def WORKER_DATA_PLANE_MAGIC_def)

lemma unat_be_bytes:
  "(of_nat (of_be_bytes (be_bytes 2 (unat x))) :: u16) = x"
  "(of_nat (of_be_bytes (be_bytes 8 (unat y))) :: u64) = y"
  using unsigned_less [of x, where ?'a = nat] unsigned_less [of y, where ?'a = nat]
  by (simp_all add: of_be_bytes_be_bytes)

lemma be_bytes_unat_of_nat:
  "length b = 2 \<Longrightarrow> be_bytes 2 (unat (of_nat (of_be_bytes b) :: u16)) = b"
  "length c = 8 \<Longrightarrow> be_bytes 8 (unat (of_nat (of_be_bytes c) :: u64)) = c"
  using of_be_bytes_less [of b] of_be_bytes_less [of c] be_bytes_of_be_bytes [of b] be_bytes_of_be_bytes [of c]
  by (simp_all add: unat_of_nat)

definition header_wf :: "WorkerDataPlaneFrameHeader \<Rightarrow> bool" where
  "header_wf h \<longleftrightarrow> payload_bytes h \<le> maximum_payload_bytes (kind h)"

lemma header_new_ok:
  "WorkerDataPlaneFrameHeader_new k sq n = Ok h \<longleftrightarrow>
     header_wf h \<and> h = \<lparr>kind = k, sequence = sq, payload_bytes = n\<rparr>"
  by (auto simp: WorkerDataPlaneFrameHeader_new_def header_wf_def Let_def not_less)

lemma slice_append:
  "length a = n \<Longrightarrow> m = n + length b \<Longrightarrow> slice n m (a @ b @ c) = b"
  by (simp add: slice_def)

lemma slices_24: "length s = 24 \<Longrightarrow> s = slice 0 4 s @ slice 4 6 s @ slice 6 8 s @ slice 8 16 s @ slice 16 24 s"
proof -
  assume "length s = 24"
  then have "slice 16 24 s = drop 16 s" by (simp add: slice_def)
  moreover have step: "slice i j s @ drop j s = drop i s" if "i \<le> j" for i j
    using that by (metis append_take_drop_id drop_drop le_add_diff_inverse2 slice_def)
  ultimately show ?thesis by (simp add: step)
qed

lemma decode_encode_header:
  assumes "header_wf h" shows "decode_header (encode_header h) = Ok h"
proof -
  let ?m = "WORKER_DATA_PLANE_MAGIC" and ?v = "be_bytes 2 (unat WORKER_DATA_PLANE_SCHEMA_VERSION)"
  let ?k = "be_bytes 2 (unat (to_wire (kind h)))" and ?s = "be_bytes 8 (unat (sequence h))"
  let ?p = "be_bytes 8 (unat (payload_bytes h))"
  have e: "encode_header h = ?m @ ?v @ ?k @ ?s @ ?p" by (simp add: encode_header_def)
  have m: "length ?m = 4" by (simp add: WORKER_DATA_PLANE_MAGIC_def)
  have "slice 0 4 (encode_header h) = ?m"
    using slice_append [of "[]" 0 4 ?m "?v @ ?k @ ?s @ ?p"] m e by simp
  moreover have "slice 4 6 (encode_header h) = ?v"
    using slice_append [of ?m 4 6 ?v "?k @ ?s @ ?p"] m e by simp
  moreover have "slice 6 8 (encode_header h) = ?k"
    using slice_append [of "?m @ ?v" 6 8 ?k "?s @ ?p"] m e by simp
  moreover have "slice 8 16 (encode_header h) = ?s"
    using slice_append [of "?m @ ?v @ ?k" 8 16 ?s ?p] m e by simp
  moreover have "slice 16 24 (encode_header h) = ?p"
    using slice_append [of "?m @ ?v @ ?k @ ?s" 16 24 ?p "[]"] m e by simp
  moreover have "from_wire (to_wire (kind h)) = Ok (kind h)" by (simp add: from_wire_iff)
  ultimately show ?thesis
    using assms by (simp add: decode_header_def unat_be_bytes header_new_ok)
qed

lemma decode_header_Ok:
  assumes "length s = 24" "decode_header s = Ok h"
  shows "s = encode_header h \<and> header_wf h"
proof -
  from assms(2) have m: "slice 0 4 s = WORKER_DATA_PLANE_MAGIC"
    and v: "(of_nat (of_be_bytes (slice 4 6 s)) :: u16) = WORKER_DATA_PLANE_SCHEMA_VERSION"
    by (auto simp: decode_header_def Let_def split: if_splits)
  with assms(2) have k: "of_nat (of_be_bytes (slice 6 8 s)) = to_wire (kind h)" and wf: "header_wf h"
    and sq: "of_nat (of_be_bytes (slice 8 16 s)) = sequence h"
    and p: "of_nat (of_be_bytes (slice 16 24 s)) = payload_bytes h"
    by (auto simp: decode_header_def Let_def and_then_Inr_iff header_new_ok from_wire_iff)
  have len: "length (slice 4 6 s) = 2" "length (slice 6 8 s) = 2" "length (slice 8 16 s) = 8"
    "length (slice 16 24 s) = 8" using assms(1) by (simp_all add: slice_def)
  have "slice 4 6 s = be_bytes 2 (unat WORKER_DATA_PLANE_SCHEMA_VERSION)"
    "slice 6 8 s = be_bytes 2 (unat (to_wire (kind h)))"
    "slice 8 16 s = be_bytes 8 (unat (sequence h))"
    "slice 16 24 s = be_bytes 8 (unat (payload_bytes h))"
    using be_bytes_unat_of_nat len v k sq p by metis+
  with slices_24 [OF assms(1)] m wf show ?thesis by (simp add: encode_header_def)
qed

text \<open>
  [header_codec]: the header codec is canonical: 24 bytes decode to a header exactly when they are
  the encoding of that header and its payload fits the bound of its kind; no two byte strings decode
  to the same header.
\<close>

theorem header_codec_canonical:
  assumes "length s = 24"
  shows "decode_header s = Ok h \<longleftrightarrow>
    s = encode_header h \<and> payload_bytes h \<le> maximum_payload_bytes (kind h)"
  using decode_header_Ok [OF assms] decode_encode_header by (auto simp: header_wf_def)

theorem header_codec_canonical_witness:
  "decode_header (encode_header \<lparr>kind = Event, sequence = 7, payload_bytes = 512\<rparr>)
     = Ok \<lparr>kind = Event, sequence = 7, payload_bytes = 512\<rparr>"
proof -
  let ?h = "\<lparr>kind = Event, sequence = 7, payload_bytes = 512\<rparr>"
  have "payload_bytes ?h \<le> maximum_payload_bytes (kind ?h)"
    by (simp add: maximum_payload_bytes_def MAX_EVENT_LINE_BYTES_def)
  then show ?thesis using header_codec_canonical [of "encode_header ?h" ?h] by simp
qed

section \<open>Payload transfer\<close>

lemma write_frame_ok:
  assumes "capacity w = None" "length payload \<le> unat (maximum_payload_bytes k)"
  shows "write_worker_data_plane_frame w k sq payload =
    (Ok (), w\<lparr>written := written w
       @ encode_header \<lparr>kind = k, sequence = sq, payload_bytes = of_nat (length payload)\<rparr> @ payload\<rparr>)"
proof -
  let ?n = "of_nat (length payload) :: u64"
  have less: "length payload < 2 ^ 64"
    using assms(2) unsigned_less [of "maximum_payload_bytes k", where ?'a = nat] by simp
  then have "unat ?n = length payload" by (simp add: unat_of_nat)
  with assms(2) have "\<not> ?n > maximum_payload_bytes k" by (simp add: word_less_nat_alt)
  then show ?thesis
    using assms less
    by (simp add: write_worker_data_plane_frame_def WorkerDataPlaneFrameHeader_new_def
        write_worker_data_plane_header_def)
qed

lemma header_payload_length:
  "length payload \<le> unat (maximum_payload_bytes k) \<Longrightarrow> unat (of_nat (length payload) :: u64) = length payload"
  using unsigned_less [of "maximum_payload_bytes k", where ?'a = nat] by (simp add: unat_of_nat)

lemma read_header_of_encoding:
  assumes "header_wf h" "reader_data r = encode_header h @ rest"
  shows "\<exists>r'. read_worker_data_plane_header r = (Ok h, r') \<and> reader_data r' = rest
    \<and> reader_ends r' = reader_ends r"
  using read_exact_loop_enough [of "[]" 24 r "\<lambda>offset. if offset = 0 then EmptyInput else TruncatedHeader"]
    decode_encode_header [OF assms(1)] assms(2)
  by (auto simp: read_worker_data_plane_header_def read_header_exact_def WORKER_DATA_PLANE_HEADER_BYTES_def)

lemma read_payload_of_data:
  assumes "kind h \<notin> {SourceArchive, Artifact}" "unat (payload_bytes h) \<le> usize_max"
    and "reader_data r = payload @ rest" "length payload = unat (payload_bytes h)"
  shows "\<exists>r'. read_worker_data_plane_payload usize_max r h = (Ok payload, r') \<and> reader_data r' = rest"
  using read_exact_loop_enough [of "[]" "length payload" r "\<lambda>_. TruncatedPayload"] assms
  by (auto simp: read_worker_data_plane_payload_def read_payload_exact_def)

text \<open>
  C32 [frame_roundtrip]: a frame written to a connection is read back as it was sent. For every kind that
  is not streamed and every payload within the kind's bound, writing succeeds, and a reader that
  delivers the written bytes in whatever pieces, followed by anything, yields the same header and
  payload and stops exactly at the end of the frame.
\<close>

theorem frame_roundtrip:
  assumes "length payload \<le> unat (maximum_payload_bytes k)" "k \<notin> {SourceArchive, Artifact}"
    and "length payload \<le> usize_max"
    and "reader_data r = written (snd (write_worker_data_plane_frame \<lparr>written = [], capacity = None\<rparr> k sq payload)) @ rest"
  shows "fst (write_worker_data_plane_frame \<lparr>written = [], capacity = None\<rparr> k sq payload) = Ok ()
    \<and> (\<exists>h r1 r2. read_worker_data_plane_header r = (Ok h, r1) \<and> kind h = k \<and> sequence h = sq
         \<and> read_worker_data_plane_payload usize_max r1 h = (Ok payload, r2) \<and> reader_data r2 = rest)"
proof -
  let ?h = "\<lparr>kind = k, sequence = sq, payload_bytes = of_nat (length payload)\<rparr>"
  have len: "unat (payload_bytes ?h) = length payload"
    using header_payload_length [OF assms(1)] by simp
  then have "header_wf ?h" using assms(1) by (simp add: header_wf_def word_le_nat_alt)
  moreover have "reader_data r = encode_header ?h @ payload @ rest"
    using assms(4) write_frame_ok [of "\<lparr>written = [], capacity = None\<rparr>", OF _ assms(1)] by simp
  ultimately obtain r1 where r1: "read_worker_data_plane_header r = (Ok ?h, r1)" "reader_data r1 = payload @ rest"
    using read_header_of_encoding by blast
  moreover obtain r2 where "read_worker_data_plane_payload usize_max r1 ?h = (Ok payload, r2)" "reader_data r2 = rest"
    using read_payload_of_data [of ?h usize_max r1 payload rest] assms(2,3) r1 len by auto
  ultimately have "\<exists>h r1 r2. read_worker_data_plane_header r = (Ok h, r1) \<and> kind h = k \<and> sequence h = sq
         \<and> read_worker_data_plane_payload usize_max r1 h = (Ok payload, r2) \<and> reader_data r2 = rest"
    by (intro exI conjI) simp_all
  then show ?thesis using write_frame_ok [of "\<lparr>written = [], capacity = None\<rparr>", OF _ assms(1)] by simp
qed

theorem frame_roundtrip_witness:
  "\<exists>h r1 r2. read_worker_data_plane_header
        [Chunk ''RFD'', Chunk (''P'' @ [CHR 0x00, CHR 0x01, CHR 0x00, CHR 0x04] @ replicate 7 (CHR 0x00)),
         Chunk ([CHR 0x03] @ replicate 7 (CHR 0x00) @ [CHR 0x02] @ ''{''), Chunk ''}x'', ReadError] = (Ok h, r1)
     \<and> kind h = Cancel \<and> sequence h = 3
     \<and> read_worker_data_plane_payload 65535 r1 h = (Ok ''{}'', r2) \<and> reader_data r2 = ''x''"
proof -
  let ?r = "[Chunk ''RFD'', Chunk (''P'' @ [CHR 0x00, CHR 0x01, CHR 0x00, CHR 0x04] @ replicate 7 (CHR 0x00)),
         Chunk ([CHR 0x03] @ replicate 7 (CHR 0x00) @ [CHR 0x02] @ ''{''), Chunk ''}x'', ReadError]"
  have bound: "length ''{}'' \<le> unat (maximum_payload_bytes Cancel)"
    by (simp add: maximum_payload_bytes_def MAX_WORKER_DATA_PLANE_CONTROL_BYTES_def)
  have "encode_header \<lparr>kind = Cancel, sequence = 3, payload_bytes = 2\<rparr> @ ''{}x'' = reader_data ?r"
    by code_simp
  then have "reader_data ?r
    = written (snd (write_worker_data_plane_frame \<lparr>written = [], capacity = None\<rparr> Cancel 3 ''{}'')) @ ''x''"
    using write_frame_ok [OF _ bound, of "\<lparr>written = [], capacity = None\<rparr>"] by simp
  with bound show ?thesis
    using frame_roundtrip [of "''{}''" Cancel 65535] by simp
qed

text \<open>
  An input that ends before a whole header is never taken for a header: an
  empty input, an input cut inside the header and a failing connection are told apart.
\<close>

theorem short_header_is_rejected:
  assumes "length (reader_data r) < 24"
  shows "fst (read_worker_data_plane_header r) =
    Err (if \<not> reader_ends r then Io else if reader_data r = [] then EmptyInput else TruncatedHeader)"
  using read_exact_loop_short [of "[]" 24 r "\<lambda>offset. if offset = 0 then EmptyInput else TruncatedHeader"] assms
  by (auto simp: read_worker_data_plane_header_def read_header_exact_def WORKER_DATA_PLANE_HEADER_BYTES_def
      split: prod.splits sum.splits)

theorem short_header_is_rejected_witness:
  "fst (read_worker_data_plane_header [Chunk ''RF'', Chunk ''DP'']) = Err TruncatedHeader"
  using short_header_is_rejected [of "[Chunk ''RF'', Chunk ''DP'']"] by simp

section \<open>Streamed payloads\<close>

lemma copy_loop_safe:
  "copy_loop remaining copied r w = (res, r', w') \<Longrightarrow>
   \<exists>k \<le> unat remaining. k \<le> length (reader_data r) \<and> written w' = written w @ take k (reader_data r)
     \<and> (\<forall>c. res = Ok c \<longrightarrow> k = unat remaining \<and> c = copied + remaining)"
proof (induction remaining copied r w rule: copy_loop.induct)
  case (1 remaining copied r w)
  let ?n = "unat (min remaining (16 * 1024))"
  show ?case
  proof (cases "remaining = 0 \<or> reader_data r = []")
    case True
    then show ?thesis
      using 1(2) read_some_no_data [of r ?n]
      by (subst (asm) copy_loop.simps) (auto simp: Let_def split: if_splits)
  next
    case False
    then have pos: "0 < ?n" by (simp add: min_def unat_gt_0)
    obtain b r1 where b: "read_some ?n r = (Some b, r1)" "b \<noteq> []" "reader_data r = b @ reader_data r1"
      using read_some_data [OF pos] False by blast
    have le: "length b \<le> unat remaining" using chunk_bound b(1) by blast
    obtain ok w1 where w1: "write_all b w = (ok, w1)" by fastforce
    obtain k where k: "k \<le> length b" "written w1 = written w @ take k b" "ok \<longrightarrow> k = length b"
      using write_all_prefix [OF w1] by blast
    show ?thesis
    proof (cases ok)
      case True
      let ?rem = "remaining - of_nat (length b)"
      have rec: "copy_loop ?rem (copied + of_nat (length b)) r1 w1 = (res, r', w')"
        using 1(2) False b w1 True by (subst (asm) copy_loop.simps) (simp add: Let_def)
      obtain j where j: "j \<le> unat ?rem" "j \<le> length (reader_data r1)"
        "written w' = written w1 @ take j (reader_data r1)"
        "\<forall>c. res = Ok c \<longrightarrow> j = unat ?rem \<and> c = (copied + of_nat (length b)) + ?rem"
        using 1(1) [OF _ refl b(1) [symmetric] refl b(2) w1 [symmetric]] False True rec by blast
      have "unat ?rem = unat remaining - length b" using le by (rule unat_sub_count)
      with j k True le b(3) show ?thesis by (intro exI [of _ "length b + j"]) auto
    next
      case fail: False
      then have "res = Err Io \<and> w' = w1"
        using 1(2) False b w1 by (subst (asm) copy_loop.simps) (simp add: Let_def)
      with k le b(3) show ?thesis by (intro exI [of _ k]) auto
    qed
  qed
qed

lemma copy_loop_complete:
  "unat remaining \<le> length (reader_data r) \<Longrightarrow> capacity w = None \<Longrightarrow>
   \<exists>r'. copy_loop remaining copied r w
       = (Ok (copied + remaining), r', w\<lparr>written := written w @ take (unat remaining) (reader_data r)\<rparr>)
     \<and> reader_data r' = drop (unat remaining) (reader_data r)"
proof (induction remaining copied r w rule: copy_loop.induct)
  case (1 remaining copied r w)
  let ?n = "unat (min remaining (16 * 1024))"
  show ?case
  proof (cases "remaining = 0")
    case True
    then show ?thesis by (subst copy_loop.simps) simp
  next
    case False
    then have pos: "0 < ?n" by (simp add: min_def unat_gt_0)
    moreover have "reader_data r \<noteq> []" using 1(2) False by (auto simp: unat_eq_0)
    ultimately obtain b r1 where b: "read_some ?n r = (Some b, r1)" "b \<noteq> []" "reader_data r = b @ reader_data r1"
      using read_some_data by blast
    have le: "length b \<le> unat remaining" using chunk_bound b(1) by blast
    let ?rem = "remaining - of_nat (length b)" and ?w = "w\<lparr>written := written w @ b\<rparr>"
    have rem: "unat ?rem = unat remaining - length b" using le by (rule unat_sub_count)
    have w1: "write_all b w = (True, ?w)" using 1(3) by simp
    have "unat ?rem \<le> length (reader_data r1)" "capacity ?w = None" using 1(2,3) b(3) rem by simp_all
    from 1(1) [OF False refl b(1) [symmetric] refl b(2) w1 [symmetric] refl this]
    obtain r' where r': "copy_loop ?rem (copied + of_nat (length b)) r1 ?w
        = (Ok ((copied + of_nat (length b)) + ?rem), r',
           ?w\<lparr>written := written ?w @ take (unat ?rem) (reader_data r1)\<rparr>)"
      "reader_data r' = drop (unat ?rem) (reader_data r1)"
      by blast
    then show ?thesis
      using False b w1 rem le by (subst copy_loop.simps) (simp add: Let_def)
  qed
qed

text \<open>
  [copy_exact]: streaming a payload moves exactly the declared bytes. On any reader and any writer
  the sink receives a prefix of what the reader delivers, never more than declared, and success means
  all declared bytes and reports their number; when the reader can deliver them and the sink does not
  fail, the copy does succeed and leaves the rest of the input unread.
\<close>

theorem streamed_copy_is_exact:
  fixes r :: reader and w :: writer and h :: WorkerDataPlaneFrameHeader
  defines "n \<equiv> unat (payload_bytes h)"
  shows "(case copy_worker_data_plane_payload r w h of (res, r', w') \<Rightarrow>
      \<exists>k \<le> n. written w' = written w @ take k (reader_data r)
        \<and> (\<forall>c. res = Ok c \<longrightarrow> k = n \<and> n \<le> length (reader_data r) \<and> c = payload_bytes h))
    \<and> (n \<le> length (reader_data r) \<and> capacity w = None \<longrightarrow>
        (\<exists>r'. copy_worker_data_plane_payload r w h
            = (Ok (payload_bytes h), r', w\<lparr>written := written w @ take n (reader_data r)\<rparr>)
          \<and> reader_data r' = drop n (reader_data r)))"
proof (intro conjI impI)
  obtain res r' w' where c: "copy_loop (payload_bytes h) 0 r w = (res, r', w')"
    by (metis prod_cases3)
  from copy_loop_safe [OF this] show "case copy_worker_data_plane_payload r w h of (res, r', w') \<Rightarrow>
      \<exists>k \<le> n. written w' = written w @ take k (reader_data r)
        \<and> (\<forall>c. res = Ok c \<longrightarrow> k = n \<and> n \<le> length (reader_data r) \<and> c = payload_bytes h)"
    using c by (auto simp: copy_worker_data_plane_payload_def n_def)
next
  assume "n \<le> length (reader_data r) \<and> capacity w = None"
  then show "\<exists>r'. copy_worker_data_plane_payload r w h
            = (Ok (payload_bytes h), r', w\<lparr>written := written w @ take n (reader_data r)\<rparr>)
          \<and> reader_data r' = drop n (reader_data r)"
    using copy_loop_complete [of "payload_bytes h" r w 0]
    by (auto simp: copy_worker_data_plane_payload_def n_def)
qed

theorem streamed_copy_is_exact_witness:
  "\<exists>r'. copy_worker_data_plane_payload [Chunk ''ab'', Chunk ''cde''] \<lparr>written = [], capacity = None\<rparr>
          \<lparr>kind = Artifact, sequence = 1, payload_bytes = 4\<rparr>
     = (Ok 4, r', \<lparr>written = ''abcd'', capacity = None\<rparr>) \<and> reader_data r' = ''e''"
  using streamed_copy_is_exact [of "\<lparr>kind = Artifact, sequence = 1, payload_bytes = 4\<rparr>"
      "\<lparr>written = [], capacity = None\<rparr>" "[Chunk ''ab'', Chunk ''cde'']"] by simp

section \<open>Frame order\<close>

text \<open>A direction of a connection: the frames accepted one after the other.\<close>

definition accept_all ::
    "WorkerDataPlaneSequence \<Rightarrow> WorkerDataPlaneFrameHeader list
     \<Rightarrow> WorkerDataPlaneFrameError + WorkerDataPlaneSequence" where
  "accept_all sq hs = try_fold accept sq hs"

lemma accept_all_from:
  "is_ok (accept_all \<lparr>next_sequence = Some e\<rparr> hs) \<longleftrightarrow>
     map (\<lambda>h. unat (sequence h)) hs = [unat e ..< unat e + length hs] \<and> unat e + length hs \<le> 2 ^ 64"
proof (induction hs arbitrary: e)
  case Nil
  then show ?case using unsigned_less [of e, where ?'a = nat] by (simp add: accept_all_def)
next
  case (Cons h hs)
  have "[unat e ..< unat e + length (h # hs)] = unat e # [Suc (unat e) ..< Suc (unat e) + length hs]"
    by (simp add: upt_rec)
  then have rhs: "map (\<lambda>h. unat (sequence h)) (h # hs) = [unat e ..< unat e + length (h # hs)] \<longleftrightarrow>
      sequence h = e \<and> map (\<lambda>h. unat (sequence h)) hs = [Suc (unat e) ..< Suc (unat e) + length hs]"
    by (simp only: list.map list.inject word_unat_eq_iff)
  have lhs: "is_ok (accept_all \<lparr>next_sequence = Some e\<rparr> (h # hs)) \<longleftrightarrow>
      sequence h = e \<and> is_ok (accept_all \<lparr>next_sequence = checked_add e 1\<rparr> hs)"
    by (auto simp: accept_all_def accept_def)
  show ?case
  proof (cases "checked_add e 1")
    case None
    then have "unat e + 1 = 2 ^ 64"
      using unsigned_less [of e, where ?'a = nat] by (simp add: checked_add_None)
    with None show ?thesis
      unfolding rhs lhs by (cases hs) (auto simp: accept_all_def accept_def)
  next
    case (Some e')
    then have "unat e' = Suc (unat e)" by (auto dest: checked_add_Some)
    with Some Cons.IH [of e'] show ?thesis unfolding rhs lhs by simp
  qed
qed

text \<open>
  C11 [sequence]: a direction of the data plane accepts exactly the frames numbered from zero without a
  gap, duplicate, replay or reordering, and at most \<open>2^64\<close> of them: the counter never wraps around.
\<close>

theorem sequence_accepts_exactly_consecutive:
  "is_ok (accept_all WorkerDataPlaneSequence_new hs) \<longleftrightarrow>
     map (\<lambda>h. unat (sequence h)) hs = [0 ..< length hs] \<and> length hs \<le> 2 ^ 64"
  using accept_all_from [of 0 hs] by (simp add: WorkerDataPlaneSequence_new_def)

section \<open>Frame streams are unambiguous\<close>

type_synonym frame = "WorkerDataPlaneFrameKind \<times> u64 \<times> bytes"

fun frame_bytes :: "frame \<Rightarrow> bytes" where
  "frame_bytes (k, sq, payload) =
     encode_header \<lparr>kind = k, sequence = sq, payload_bytes = of_nat (length payload)\<rparr> @ payload"

fun frame_wf :: "frame \<Rightarrow> bool" where
  "frame_wf (k, sq, payload) \<longleftrightarrow> length payload \<le> unat (maximum_payload_bytes k)"

lemma frame_header_wf:
  "frame_wf (k, sq, p) \<Longrightarrow> header_wf \<lparr>kind = k, sequence = sq, payload_bytes = of_nat (length p)\<rparr>"
  by (simp add: header_wf_def word_le_nat_alt header_payload_length)

interpretation frames: nonempty_code frame_bytes frame_wf
proof unfold_locales
  fix f g :: frame and r s
  assume wf: "frame_wf f" "frame_wf g" and eq: "frame_bytes f @ r = frame_bytes g @ s"
  obtain k i p k' i' p' where f: "f = (k, i, p)" and g: "g = (k', i', p')" by (metis prod_cases3)
  let ?h = "\<lparr>kind = k, sequence = i, payload_bytes = of_nat (length p)\<rparr>"
  let ?h' = "\<lparr>kind = k', sequence = i', payload_bytes = of_nat (length p')\<rparr>"
  from eq f g have heads: "encode_header ?h = encode_header ?h'" and tails: "p @ r = p' @ s"
    by (simp_all add: append_eq_append_conv)
  have "?h = ?h'"
    using decode_encode_header [OF frame_header_wf] wf f g heads by (metis sum.inject(2))
  moreover from this have "length p = length p'"
    using wf f g header_payload_length by (metis frame_wf.simps WorkerDataPlaneFrameHeader.ext_inject)
  ultimately show "f = g \<and> r = s" using f g tails by simp
next
  fix f :: frame
  assume "frame_wf f"
  have "length (frame_bytes f) \<noteq> 0" by (cases f) simp
  then show "frame_bytes f \<noteq> []" by auto
qed

text \<open>
  [frame_stream]: the bytes on the wire determine the frames: two sequences of bounded frames that
  serialize to the same bytes are the same sequence, however many frames there are.
\<close>

theorem frame_streams_are_unambiguous:
  assumes "\<forall>f \<in> set fs. frame_wf f" "\<forall>g \<in> set gs. frame_wf g"
    and "concat (map frame_bytes fs) = concat (map frame_bytes gs)"
  shows "fs = gs"
  using assms by (rule frames.concat_inject)

theorem frame_streams_are_unambiguous_witness:
  "[(Cancel, 0, ''{}'')] = [(Cancel, 0, ''{}'')] \<and> frame_wf (Cancel, 0, ''{}'')"
proof -
  have "frame_wf (Cancel, 0, ''{}'')"
    by (simp add: maximum_payload_bytes_def MAX_WORKER_DATA_PLANE_CONTROL_BYTES_def)
  then show ?thesis
    using frame_streams_are_unambiguous [of "[(Cancel, 0, ''{}'')]" "[(Cancel, 0, ''{}'')]"] by auto
qed

end
