(* ===== verification/Snapshot_Session.thy ===== *)
theory Snapshot_Session
  imports Provider Data_Plane
begin

text \<open>
  The control messages of one framed snapshot build (\<^verbatim>\<open>src/crates/rustferry-remote/src/snapshot_session.rs\<close>) and the
  compile evidence they carry (\<^verbatim>\<open>handoff.rs\<close>): compact build parameters and the request they stand for, the
  build start, the job acknowledgement, the artifact descriptor with its receipt, completion and failure.
\<close>

section \<open>Compile evidence\<close>

definition SEALED_UNSIGNED_ARCHIVE_SCHEMA_VERSION :: u32 where "SEALED_UNSIGNED_ARCHIVE_SCHEMA_VERSION = 1"
definition COMPILE_PHASE_EVIDENCE_SCHEMA_VERSION :: u32 where "COMPILE_PHASE_EVIDENCE_SCHEMA_VERSION = 1"
definition COMPILE_HANDOFF_SCHEMA_VERSION :: u32 where "COMPILE_HANDOFF_SCHEMA_VERSION = 1"
definition IOS_DEVICE_RUST_TARGET :: string where "IOS_DEVICE_RUST_TARGET = ''aarch64-apple-ios''"

record UnsignedXcarchiveExpectation =
  xe_app_directory_name :: string
  xe_bundle_identifier :: string
  xe_executable :: string
  xe_app_version :: string
  xe_build_number :: string
  xe_minimum_os :: string
  xe_sdk_version :: string
  xe_sdk_build_version :: string
  xe_nested_bundles :: "UnsignedNestedBundleExpectation list"
  xe_required_resources :: "(string \<times> string) list"

datatype ApplePlatform =
    PlatformIos | PlatformIosSimulator | PlatformMacos | PlatformMacCatalyst
  | PlatformVisionOs | PlatformVisionOsSimulator | PlatformOther u32 | PlatformLegacyIphoneOs

record MachOSliceEvidence =
  slice_architecture :: string
  slice_platform :: ApplePlatform
  slice_minimum_os :: "string option"
  slice_sdk :: "string option"

record UnsignedAppInspection =
  ai_app_directory_name :: string
  ai_bundle_identifier :: string
  ai_executable :: string
  ai_main_executable :: "MachOSliceEvidence list"
  ai_nested_executables :: "(string \<times> MachOSliceEvidence list) list"
  ai_extensions :: "string list"
  ai_resources :: "(string \<times> string) list"
  ai_entries :: "string list"

record UnsignedXcarchiveInspection =
  xi_application_path :: string
  xi_architectures :: "string list"
  xi_app :: UnsignedAppInspection
  xi_entries :: "string list"

record SealedUnsignedArchive =
  sealed_schema_version :: u32
  sealed_transport :: Source_Manifest.SourceArchive
  sealed_contents :: SourceManifest
  sealed_expectation :: UnsignedXcarchiveExpectation

record CompileToolchainEvidence =
  ct_worker_os :: string
  ct_worker_architecture :: string
  ct_xcode_version :: string
  ct_iphoneos_sdk_version :: string
  ct_iphoneos_sdk_build_version :: string
  ct_developer_directory_sha256 :: string
  ct_rust_version :: string
  ct_rust_target :: string

record CompilePhaseEvidence =
  ce_schema_version :: u32
  ce_job_id :: string
  ce_provider :: string
  ce_request_sha256 :: string
  ce_source_sha256 :: string
  ce_cargo_lock_sha256 :: string
  ce_config_sha256 :: string
  ce_rustferry_version :: string
  ce_worker_version :: string
  ce_toolchain :: CompileToolchainEvidence
  ce_sealed_archive :: SealedUnsignedArchive
  ce_archive_inspection :: UnsignedXcarchiveInspection
  ce_started_at_unix_seconds :: u64
  ce_finished_at_unix_seconds :: u64

record CompileHandoff =
  handoff_schema_version :: u32
  handoff_request :: IosDeviceBuildRequest
  handoff_compile :: CompilePhaseEvidence

section \<open>Field validators\<close>

definition SNAPSHOT_SESSION_SCHEMA_VERSION :: u32 where "SNAPSHOT_SESSION_SCHEMA_VERSION = 1"
definition MAX_SNAPSHOT_SESSION_DESCRIPTOR_BYTES :: u64 where
  "MAX_SNAPSHOT_SESSION_DESCRIPTOR_BYTES = 8 * 1024 * 1024"
definition MAX_PUBLIC_ERROR_CODE_BYTES :: nat where "MAX_PUBLIC_ERROR_CODE_BYTES = 96"
definition MAX_PUBLIC_ERROR_MESSAGE_BYTES :: nat where "MAX_PUBLIC_ERROR_MESSAGE_BYTES = 512"
definition MAX_PUBLIC_VERSION_BYTES :: nat where "MAX_PUBLIC_VERSION_BYTES = 128"
definition MAX_PUBLIC_TOOLCHAIN_TEXT_BYTES :: nat where "MAX_PUBLIC_TOOLCHAIN_TEXT_BYTES = 512"
definition MAX_ARTIFACT_FILE_NAME_BYTES :: nat where "MAX_ARTIFACT_FILE_NAME_BYTES = 255"
definition MAX_MEDIA_TYPE_BYTES :: nat where "MAX_MEDIA_TYPE_BYTES = 128"

definition session_invalid :: "string \<Rightarrow> string \<Rightarrow> RemoteBuildError" where
  "session_invalid event reason = InvalidEventPayload event reason"

definition require_schema :: "u32 \<Rightarrow> string \<Rightarrow> RemoteBuildError + unit" where
  "require_schema v event =
     (if v = SNAPSHOT_SESSION_SCHEMA_VERSION then Ok () else Err (session_invalid event ''snapshot session schema is unsupported''))"

definition session_validate_sha256 :: "string \<Rightarrow> string \<Rightarrow> RemoteBuildError + unit" where
  "session_validate_sha256 v event =
     (if length v = 64 \<and> list_all is_lower_hex v then Ok ()
      else Err (session_invalid event ''SHA-256 must be lowercase hexadecimal''))"

definition validate_public_identifier :: "string \<Rightarrow> nat \<Rightarrow> string \<Rightarrow> RemoteBuildError + unit" where
  "validate_public_identifier v maximum event =
     (if v \<noteq> [] \<and> length v \<le> maximum
        \<and> list_all (\<lambda>b. is_ascii_alphanumeric b \<or> b \<in> {CHR ''-'', CHR ''_'', CHR ''.'', CHR '':''}) v
      then Ok () else Err (session_invalid event ''public identifier is invalid''))"

definition validate_public_text :: "string \<Rightarrow> nat \<Rightarrow> string \<Rightarrow> RemoteBuildError + unit" where
  "validate_public_text v maximum event =
     (if v \<noteq> [] \<and> length v \<le> maximum \<and> \<not> has_control v then Ok ()
      else Err (session_invalid event ''public text is empty, oversized, or contains controls''))"

definition session_validate_bundle_identifier :: "string \<Rightarrow> RemoteBuildError + unit" where
  "session_validate_bundle_identifier v =
     (if length v > 255 \<or> length (split (CHR ''.'') v) < 2
        \<or> list_ex (\<lambda>s. s = [] \<or> prefix ''-'' s \<or> suffix ''-'' s
            \<or> \<not> list_all (\<lambda>b. is_ascii_alphanumeric b \<or> b = CHR ''-'') s) (split (CHR ''.'') v)
      then Err (session_invalid ''snapshot_build_parameters'' ''bundle identifier is invalid'') else Ok ())"

definition session_validate_ios_version :: "string \<Rightarrow> RemoteBuildError + unit" where
  "session_validate_ios_version v =
     (if bad_version 16 v then Err (session_invalid ''snapshot_build_parameters'' ''minimum iOS version is invalid'') else Ok ())"

definition validate_portable_component_with_limit :: "string \<Rightarrow> nat \<Rightarrow> RemoteBuildError + unit" where
  "validate_portable_component_with_limit v maximum =
     (if v = [] \<or> length v > maximum \<or> v = ''.'' \<or> v = ''..''
        \<or> list_ex (\<lambda>c. c \<in> set ''/:*?<>|'' \<or> c \<in> {CHR 0x5C, CHR 0x00, CHR 0x22}) v
        \<or> last v \<in> {CHR ''.'', CHR '' ''} \<or> has_control v
      then Err (session_invalid ''snapshot_artifact_descriptor'' ''filename component is not portable'') else Ok ())"

definition session_validate_portable_component :: "string \<Rightarrow> RemoteBuildError + unit" where
  "session_validate_portable_component v = validate_portable_component_with_limit v 255"

definition validate_transfer_archive :: "Source_Manifest.SourceArchive \<Rightarrow> u64 \<Rightarrow> string \<Rightarrow> RemoteBuildError + unit" where
  "validate_transfer_archive a maximum event =
     (if archive_size a = 0 \<or> archive_size a > maximum
      then Err (session_invalid event ''transfer size is outside the fixed limit'')
      else session_validate_sha256 (archive_sha256 a) event)"

definition require_unsigned_xcarchive :: "SigningPlan \<Rightarrow> IosArtifactType set \<Rightarrow> RemoteBuildError + unit" where
  "require_unsigned_xcarchive plan artifacts =
     (if plan_mode plan \<noteq> UnsignedCompileOnly
      then Err (session_invalid ''snapshot_build_parameters'' ''snapshot session v1 supports unsigned compile-only builds'')
      else if artifacts \<noteq> {Xcarchive}
      then Err (session_invalid ''snapshot_build_parameters'' ''snapshot session v1 returns exactly one Xcode archive'')
      else Ok ())"

section \<open>Build parameters\<close>

record SnapshotBuildParameters =
  sp_protocol_version :: ProtocolVersion
  sp_operation_id :: string
  sp_product_name :: string
  sp_bundle_identifier :: string
  sp_minimum_ios_version :: string
  sp_product :: IosDeviceProductExpectation
  sp_profile :: BuildProfile
  sp_signing :: SigningPlan
  sp_requested_artifacts :: "IosArtifactType set"

definition validate_shape :: "SnapshotBuildParameters \<Rightarrow> RemoteBuildError + unit" where
  "validate_shape p =
     run_checks
       [and_then (negotiate CURRENT_PROTOCOL_VERSION (sp_protocol_version p)) (\<lambda>_. Ok ()),
        validate_identifier ''operation_id'' (sp_operation_id p),
        validate_public_text (sp_product_name p) 255 ''snapshot_build_parameters'',
        session_validate_bundle_identifier (sp_bundle_identifier p),
        session_validate_ios_version (sp_minimum_ios_version p),
        session_validate_portable_component (app_directory_name (sp_product p)),
        session_validate_portable_component (product_executable (sp_product p)),
        map_err (\<lambda>_. session_invalid ''snapshot_build_parameters'' ''unsigned signing plan is invalid'')
          (SigningPlan_validate (sp_signing p)),
        require_unsigned_xcarchive (sp_signing p) (sp_requested_artifacts p)]"

definition SnapshotBuildParameters_from_request ::
    "request_env \<Rightarrow> IosDeviceBuildRequest \<Rightarrow> RemoteBuildError + SnapshotBuildParameters" where
  "SnapshotBuildParameters_from_request env r =
     and_then (IosDeviceBuildRequest_validate env r) (\<lambda>_.
     if source_mode r \<noteq> Snapshot
     then Err (session_invalid ''snapshot_build_parameters'' ''snapshot session requires snapshot source mode'')
     else and_then (require_unsigned_xcarchive (signing r) (requested_artifacts r)) (\<lambda>_.
       let p = \<lparr>sp_protocol_version = request_protocol_version r, sp_operation_id = request_operation_id r,
         sp_product_name = product_name r, sp_bundle_identifier = request_bundle_identifier r,
         sp_minimum_ios_version = minimum_ios_version r, sp_product = product r, sp_profile = request_profile r,
         sp_signing = signing r, sp_requested_artifacts = requested_artifacts r\<rparr> in
       and_then (validate_shape p) (\<lambda>_. Ok p)))"

definition reconstruct_request ::
    "request_env \<Rightarrow> SnapshotBuildParameters \<Rightarrow> SourceBundleDescriptor \<Rightarrow> SourceArchiveLimits
     \<Rightarrow> RemoteBuildError + IosDeviceBuildRequest" where
  "reconstruct_request env p d limits =
     and_then (validate_shape p) (\<lambda>_.
     and_then (map_err (\<lambda>_. session_invalid ''snapshot_build_parameters'' ''source bundle descriptor is invalid'')
       (SourceBundleDescriptor_validate (env_unicode env) (env_sha256 env) d limits)) (\<lambda>_.
     let r = \<lparr>request_protocol_version = sp_protocol_version p, request_operation_id = sp_operation_id p,
       product_name = sp_product_name p, request_bundle_identifier = sp_bundle_identifier p,
       minimum_ios_version = sp_minimum_ios_version p, product = sp_product p, request_profile = sp_profile p,
       source_mode = Snapshot, source_repository = None, source_revision = None, source = bundle_manifest d,
       signing = sp_signing p, requested_artifacts = sp_requested_artifacts p\<rparr> in
     and_then (IosDeviceBuildRequest_validate env r) (\<lambda>_.
     and_then (require_unsigned_xcarchive (signing r) (requested_artifacts r)) (\<lambda>_. Ok r))))"

section \<open>Session messages\<close>

record SnapshotBuildStart =
  start_schema_version :: u32
  start_parameters :: SnapshotBuildParameters
  start_source_descriptor_size :: u64
  start_source_descriptor_sha256 :: string
  start_source_archive :: Source_Manifest.SourceArchive

definition SnapshotBuildStart_validate :: "SnapshotBuildStart \<Rightarrow> RemoteBuildError + unit" where
  "SnapshotBuildStart_validate s =
     run_checks
       [require_schema (start_schema_version s) ''snapshot_build_start'',
        validate_shape (start_parameters s),
        reject_if (start_source_descriptor_size s = 0
            \<or> start_source_descriptor_size s > MAX_SNAPSHOT_SESSION_DESCRIPTOR_BYTES)
          (session_invalid ''snapshot_build_start'' ''source descriptor size is outside the fixed limit''),
        session_validate_sha256 (start_source_descriptor_sha256 s) ''snapshot_build_start'',
        validate_transfer_archive (start_source_archive s) MAX_WORKER_DATA_PLANE_SOURCE_BYTES ''snapshot_build_start'']"

definition SnapshotBuildStart_new ::
    "SnapshotBuildParameters \<Rightarrow> u64 \<Rightarrow> string \<Rightarrow> Source_Manifest.SourceArchive \<Rightarrow> RemoteBuildError + SnapshotBuildStart" where
  "SnapshotBuildStart_new p descriptor_size sha a =
     (let s = \<lparr>start_schema_version = SNAPSHOT_SESSION_SCHEMA_VERSION, start_parameters = p,
        start_source_descriptor_size = descriptor_size, start_source_descriptor_sha256 = sha, start_source_archive = a\<rparr> in
      and_then (SnapshotBuildStart_validate s) (\<lambda>_. Ok s))"

definition start_reconstruct_request ::
    "request_env \<Rightarrow> SnapshotBuildStart \<Rightarrow> SourceBundleDescriptor \<Rightarrow> SourceArchiveLimits
     \<Rightarrow> RemoteBuildError + IosDeviceBuildRequest" where
  "start_reconstruct_request env s d limits =
     and_then (SnapshotBuildStart_validate s) (\<lambda>_.
     and_then (map_err (\<lambda>_. session_invalid ''snapshot_build_start'' ''source bundle descriptor is invalid'')
       (SourceBundleDescriptor_validate (env_unicode env) (env_sha256 env) d limits)) (\<lambda>_.
     if bundle_archive d \<noteq> start_source_archive s
     then Err (session_invalid ''snapshot_build_start'' ''source archive declaration does not match the descriptor'')
     else reconstruct_request env (start_parameters s) d limits))"

record SnapshotJobAccepted =
  ja_schema_version :: u32
  ja_protocol_version :: ProtocolVersion
  ja_operation_id :: string
  ja_job_id :: string
  ja_state :: JobState
  ja_created_at_ms :: u64

definition SnapshotJobAccepted_validate :: "SnapshotJobAccepted \<Rightarrow> RemoteBuildError + unit" where
  "SnapshotJobAccepted_validate a =
     run_checks
       [require_schema (ja_schema_version a) ''snapshot_job_accepted'',
        and_then (negotiate CURRENT_PROTOCOL_VERSION (ja_protocol_version a)) (\<lambda>_. Ok ()),
        validate_identifier ''operation_id'' (ja_operation_id a),
        validate_identifier ''job_id'' (ja_job_id a),
        reject_if (ja_state a \<noteq> Created)
          (session_invalid ''snapshot_job_accepted'' ''accepted job state must be created'')]"

definition SnapshotJobAccepted_new :: "string \<Rightarrow> string \<Rightarrow> u64 \<Rightarrow> RemoteBuildError + SnapshotJobAccepted" where
  "SnapshotJobAccepted_new operation job at =
     (let a = \<lparr>ja_schema_version = SNAPSHOT_SESSION_SCHEMA_VERSION, ja_protocol_version = CURRENT_PROTOCOL_VERSION,
        ja_operation_id = operation, ja_job_id = job, ja_state = Created, ja_created_at_ms = at\<rparr> in
      and_then (SnapshotJobAccepted_validate a) (\<lambda>_. Ok a))"

definition job_handle :: "SnapshotJobAccepted \<Rightarrow> JobHandle" where
  "job_handle a = \<lparr>handle_job_id = ja_job_id a, handle_state = ja_state a, created_at_ms = ja_created_at_ms a\<rparr>"

record SnapshotArtifactDescriptor =
  ad_schema_version :: u32
  ad_protocol_version :: ProtocolVersion
  ad_operation_id :: string
  ad_job_id :: string
  ad_artifact :: ArtifactRecord
  ad_compile :: CompilePhaseEvidence

definition validate_artifact_record :: "ArtifactRecord \<Rightarrow> RemoteBuildError + unit" where
  "validate_artifact_record a =
     run_checks
       [validate_identifier ''artifact_id'' (artifact_id a),
        reject_if (artifact_kind_of a \<noteq> KindXcarchive)
          (session_invalid ''snapshot_artifact_descriptor'' ''artifact kind must be xcarchive''),
        validate_portable_component_with_limit (artifact_file_name a) MAX_ARTIFACT_FILE_NAME_BYTES,
        reject_if (\<not> suffix ''.zip'' (to_ascii_lowercase (artifact_file_name a)))
          (session_invalid ''snapshot_artifact_descriptor'' ''xcarchive transport filename must end with .zip''),
        reject_if (artifact_size a = 0 \<or> artifact_size a > MAX_WORKER_DATA_PLANE_ARTIFACT_BYTES)
          (session_invalid ''snapshot_artifact_descriptor'' ''artifact size is outside the fixed limit''),
        session_validate_sha256 (artifact_sha256 a) ''snapshot_artifact_descriptor'',
        (case artifact_media_type a of None \<Rightarrow> Ok ()
         | Some m \<Rightarrow> validate_public_text m MAX_MEDIA_TYPE_BYTES ''snapshot_artifact_descriptor'')]"

definition sealed_archive_source_limits :: SourceLimits where
  "sealed_archive_source_limits =
     \<lparr>max_file_count = 50000, max_file_size = 512 * 1024 * 1024,
      max_total_size = MAX_WORKER_DATA_PLANE_ARTIFACT_BYTES, max_depth = 128, max_ignore_file_size = 64 * 1024,
      max_ignore_rules = 1\<rparr>"

definition validate_compile_evidence :: "request_env \<Rightarrow> CompilePhaseEvidence \<Rightarrow> RemoteBuildError + unit" where
  "validate_compile_evidence env c =
     (let event = ''snapshot_artifact_descriptor''; t = ce_toolchain c; sealed = ce_sealed_archive c in
      run_checks
        ([reject_if (ce_schema_version c \<noteq> COMPILE_PHASE_EVIDENCE_SCHEMA_VERSION
             \<or> sealed_schema_version sealed \<noteq> SEALED_UNSIGNED_ARCHIVE_SCHEMA_VERSION)
            (session_invalid event ''compile evidence schema is unsupported''),
          validate_identifier ''job_id'' (ce_job_id c),
          validate_identifier ''provider'' (ce_provider c)]
         @ map (\<lambda>digest. session_validate_sha256 digest event)
             [ce_request_sha256 c, ce_source_sha256 c, ce_cargo_lock_sha256 c, ce_config_sha256 c,
              ct_developer_directory_sha256 t, archive_sha256 (sealed_transport sealed)]
         @ map (\<lambda>v. validate_public_text v MAX_PUBLIC_VERSION_BYTES event)
             [ce_rustferry_version c, ce_worker_version c]
         @ map (\<lambda>v. validate_public_text v MAX_PUBLIC_TOOLCHAIN_TEXT_BYTES event)
             [ct_worker_os t, ct_worker_architecture t, ct_xcode_version t, ct_iphoneos_sdk_version t,
              ct_iphoneos_sdk_build_version t, ct_rust_version t]
         @ [reject_if (ct_rust_target t \<noteq> IOS_DEVICE_RUST_TARGET
              \<or> ce_started_at_unix_seconds c > ce_finished_at_unix_seconds c
              \<or> project_path (sealed_contents sealed) \<noteq> ''.'')
              (session_invalid event ''compile evidence does not prove a bounded physical-iPhone archive''),
            validate_transfer_archive (sealed_transport sealed) MAX_WORKER_DATA_PLANE_ARTIFACT_BYTES event,
            map_err (\<lambda>_. session_invalid event ''sealed archive content manifest is invalid'')
              (validate_source_manifest (env_unicode env) (env_sha256 env) (sealed_contents sealed)
                sealed_archive_source_limits)]))"

definition SnapshotArtifactDescriptor_validate ::
    "request_env \<Rightarrow> SnapshotArtifactDescriptor \<Rightarrow> RemoteBuildError + unit" where
  "SnapshotArtifactDescriptor_validate env d =
     run_checks
       [require_schema (ad_schema_version d) ''snapshot_artifact_descriptor'',
        and_then (negotiate CURRENT_PROTOCOL_VERSION (ad_protocol_version d)) (\<lambda>_. Ok ()),
        validate_identifier ''operation_id'' (ad_operation_id d),
        validate_identifier ''job_id'' (ad_job_id d),
        validate_artifact_record (ad_artifact d),
        validate_compile_evidence env (ad_compile d),
        reject_if (ce_job_id (ad_compile d) \<noteq> ad_job_id d
            \<or> archive_size (sealed_transport (ce_sealed_archive (ad_compile d))) \<noteq> artifact_size (ad_artifact d)
            \<or> archive_sha256 (sealed_transport (ce_sealed_archive (ad_compile d))) \<noteq> artifact_sha256 (ad_artifact d))
          (session_invalid ''snapshot_artifact_descriptor'' ''artifact record does not match compile evidence'')]"

definition SnapshotArtifactDescriptor_new ::
    "request_env \<Rightarrow> string \<Rightarrow> ArtifactRecord \<Rightarrow> CompilePhaseEvidence \<Rightarrow> RemoteBuildError + SnapshotArtifactDescriptor" where
  "SnapshotArtifactDescriptor_new env operation a c =
     (let d = \<lparr>ad_schema_version = SNAPSHOT_SESSION_SCHEMA_VERSION, ad_protocol_version = CURRENT_PROTOCOL_VERSION,
        ad_operation_id = operation, ad_job_id = ce_job_id c, ad_artifact = a, ad_compile = c\<rparr> in
      and_then (SnapshotArtifactDescriptor_validate env d) (\<lambda>_. Ok d))"

record SnapshotArtifactReceipt =
  rc_schema_version :: u32
  rc_protocol_version :: ProtocolVersion
  rc_operation_id :: string
  rc_job_id :: string
  rc_artifact_id :: string
  rc_size :: u64
  rc_sha256 :: string
  rc_local_path :: ProtocolPath

definition receipt_validate_for ::
    "request_env \<Rightarrow> SnapshotArtifactReceipt \<Rightarrow> SnapshotArtifactDescriptor \<Rightarrow> RemoteBuildError + unit" where
  "receipt_validate_for env r d =
     run_checks
       [require_schema (rc_schema_version r) ''snapshot_artifact_receipt'',
        and_then (negotiate CURRENT_PROTOCOL_VERSION (rc_protocol_version r)) (\<lambda>_. Ok ()),
        validate_identifier ''operation_id'' (rc_operation_id r),
        validate_identifier ''job_id'' (rc_job_id r),
        validate_identifier ''artifact_id'' (rc_artifact_id r),
        session_validate_sha256 (rc_sha256 r) ''snapshot_artifact_receipt'',
        ProtocolPath_validate (env_url_parse env) (rc_local_path r),
        reject_if (path_semantics (rc_local_path r) \<noteq> ClientAbsolute)
          (session_invalid ''snapshot_artifact_receipt'' ''receipt path must be client_absolute''),
        SnapshotArtifactDescriptor_validate env d,
        reject_if (rc_protocol_version r \<noteq> ad_protocol_version d \<or> rc_operation_id r \<noteq> ad_operation_id d
            \<or> rc_job_id r \<noteq> ad_job_id d \<or> rc_artifact_id r \<noteq> artifact_id (ad_artifact d)
            \<or> rc_size r \<noteq> artifact_size (ad_artifact d) \<or> rc_sha256 r \<noteq> artifact_sha256 (ad_artifact d))
          (session_invalid ''snapshot_artifact_receipt'' ''receipt does not match the offered artifact'')]"

definition SnapshotArtifactReceipt_new ::
    "request_env \<Rightarrow> SnapshotArtifactDescriptor \<Rightarrow> ProtocolPath \<Rightarrow> RemoteBuildError + SnapshotArtifactReceipt" where
  "SnapshotArtifactReceipt_new env d path =
     and_then (SnapshotArtifactDescriptor_validate env d) (\<lambda>_.
     let r = \<lparr>rc_schema_version = SNAPSHOT_SESSION_SCHEMA_VERSION, rc_protocol_version = ad_protocol_version d,
       rc_operation_id = ad_operation_id d, rc_job_id = ad_job_id d, rc_artifact_id = artifact_id (ad_artifact d),
       rc_size = artifact_size (ad_artifact d), rc_sha256 = artifact_sha256 (ad_artifact d), rc_local_path = path\<rparr> in
     and_then (receipt_validate_for env r d) (\<lambda>_. Ok r))"

record SnapshotBuildComplete =
  bc_schema_version :: u32
  bc_protocol_version :: ProtocolVersion
  bc_operation_id :: string
  bc_job_id :: string
  bc_cleanup :: CleanupConfirmation

definition SnapshotBuildComplete_validate :: "SnapshotBuildComplete \<Rightarrow> RemoteBuildError + unit" where
  "SnapshotBuildComplete_validate c =
     run_checks
       [require_schema (bc_schema_version c) ''snapshot_build_complete'',
        and_then (negotiate CURRENT_PROTOCOL_VERSION (bc_protocol_version c)) (\<lambda>_. Ok ()),
        validate_identifier ''operation_id'' (bc_operation_id c),
        validate_identifier ''job_id'' (bc_job_id c),
        reject_if (cleanup_job_id (bc_cleanup c) \<noteq> bc_job_id c \<or> \<not> workspace_removed (bc_cleanup c)
            \<or> \<not> signing_material_removed (bc_cleanup c) \<or> artifacts_retained (bc_cleanup c))
          (session_invalid ''snapshot_build_complete'' ''successful completion requires non-retaining cleanup proof'')]"

definition SnapshotBuildComplete_new :: "string \<Rightarrow> CleanupConfirmation \<Rightarrow> RemoteBuildError + SnapshotBuildComplete" where
  "SnapshotBuildComplete_new operation cl =
     (let c = \<lparr>bc_schema_version = SNAPSHOT_SESSION_SCHEMA_VERSION, bc_protocol_version = CURRENT_PROTOCOL_VERSION,
        bc_operation_id = operation, bc_job_id = cleanup_job_id cl, bc_cleanup = cl\<rparr> in
      and_then (SnapshotBuildComplete_validate c) (\<lambda>_. Ok c))"

record SnapshotSessionError =
  se_schema_version :: u32
  se_protocol_version :: ProtocolVersion
  se_operation_id :: "string option"
  se_job_id :: "string option"
  se_code :: string
  se_message :: string
  se_retryable :: bool
  se_cleanup :: "CleanupConfirmation option"

definition validate_optional :: "string \<Rightarrow> string option \<Rightarrow> RemoteBuildError + unit" where
  "validate_optional field v = (case v of None \<Rightarrow> Ok () | Some s \<Rightarrow> validate_identifier field s)"

definition SnapshotSessionError_validate :: "SnapshotSessionError \<Rightarrow> RemoteBuildError + unit" where
  "SnapshotSessionError_validate e =
     run_checks
       [require_schema (se_schema_version e) ''snapshot_session_error'',
        and_then (negotiate CURRENT_PROTOCOL_VERSION (se_protocol_version e)) (\<lambda>_. Ok ()),
        validate_optional ''operation_id'' (se_operation_id e),
        validate_optional ''job_id'' (se_job_id e),
        validate_public_identifier (se_code e) MAX_PUBLIC_ERROR_CODE_BYTES ''snapshot_session_error'',
        validate_public_text (se_message e) MAX_PUBLIC_ERROR_MESSAGE_BYTES ''snapshot_session_error'',
        reject_if (case se_cleanup e of None \<Rightarrow> False | Some cl \<Rightarrow> se_job_id e \<noteq> Some (cleanup_job_id cl))
          (session_invalid ''snapshot_session_error'' ''cleanup proof does not match the failed job'')]"

definition SnapshotSessionError_new ::
    "string option \<Rightarrow> string option \<Rightarrow> string \<Rightarrow> string \<Rightarrow> bool \<Rightarrow> CleanupConfirmation option
     \<Rightarrow> RemoteBuildError + SnapshotSessionError" where
  "SnapshotSessionError_new operation job code message retry cl =
     (let e = \<lparr>se_schema_version = SNAPSHOT_SESSION_SCHEMA_VERSION, se_protocol_version = CURRENT_PROTOCOL_VERSION,
        se_operation_id = operation, se_job_id = job, se_code = code, se_message = message, se_retryable = retry,
        se_cleanup = cl\<rparr> in
      and_then (SnapshotSessionError_validate e) (\<lambda>_. Ok e))"

section \<open>Parameters and requests\<close>

text \<open>The fields a request keeps in its compact form.\<close>

definition compact :: "IosDeviceBuildRequest \<Rightarrow> SnapshotBuildParameters" where
  "compact r =
     \<lparr>sp_protocol_version = request_protocol_version r, sp_operation_id = request_operation_id r,
      sp_product_name = product_name r, sp_bundle_identifier = request_bundle_identifier r,
      sp_minimum_ios_version = minimum_ios_version r, sp_product = product r, sp_profile = request_profile r,
      sp_signing = signing r, sp_requested_artifacts = requested_artifacts r\<rparr>"

lemma session_bundle_identifier_weaker:
  "validate_bundle_identifier v = Ok () \<Longrightarrow> session_validate_bundle_identifier v = Ok ()"
  by (auto simp: validate_bundle_identifier_def session_validate_bundle_identifier_def validate_safe_text_def
      and_then_Inr_iff valid_segment_def list_ex_iff split: list.splits if_splits)

lemma session_ios_version_weaker:
  "validate_ios_version v = Ok () \<Longrightarrow> session_validate_ios_version v = Ok ()"
  by (auto simp: validate_ios_version_def session_validate_ios_version_def and_then_Inr_iff reject_if_Inr)

lemma session_portable_component_weaker:
  "validate_portable_component field v = Ok () \<Longrightarrow> session_validate_portable_component v = Ok ()"
  by (auto simp: validate_portable_component_def session_validate_portable_component_def
      validate_portable_component_with_limit_def validate_safe_text_def and_then_Inr_iff split: if_splits)

lemma public_text_safe_text:
  "validate_public_text v n event = Ok () \<longleftrightarrow> validate_safe_text field v n = Ok ()"
  by (auto simp: validate_public_text_def validate_safe_text_def)

text \<open>The compact form of an accepted request always passes the shape check of the session.\<close>

lemma compact_shape:
  assumes "IosDeviceBuildRequest_validate env r = Ok ()"
    and "require_unsigned_xcarchive (signing r) (requested_artifacts r) = Ok ()"
  shows "validate_shape (compact r) = Ok ()"
proof -
  have "validate_portable_component ''app_directory_name'' (app_directory_name (product r)) = Ok ()"
    "validate_portable_component ''executable'' (product_executable (product r)) = Ok ()"
    using request_checks(1) [OF assms(1)]
    by (auto simp: validate_product_expectation_def and_then_Inr_iff split: if_splits)
  then have "session_validate_portable_component (app_directory_name (product r)) = Ok ()"
    "session_validate_portable_component (product_executable (product r)) = Ok ()"
    by (auto intro: session_portable_component_weaker)
  with assms session_bundle_identifier_weaker session_ios_version_weaker show ?thesis
    unfolding IosDeviceBuildRequest_validate_def validate_shape_def run_checks_Inr_iff
    by (simp add: compact_def public_text_safe_text [of _ _ _ "''product_name''"] is_ok_unit)
qed

lemma from_request_Ok:
  "SnapshotBuildParameters_from_request env r = Ok p \<longleftrightarrow>
     IosDeviceBuildRequest_validate env r = Ok () \<and> source_mode r = Snapshot
     \<and> require_unsigned_xcarchive (signing r) (requested_artifacts r) = Ok () \<and> p = compact r"
  using compact_shape [of env r]
  by (auto simp: SnapshotBuildParameters_from_request_def and_then_Inr_iff Let_def compact_def split: if_splits)

lemma snapshot_source_fields:
  assumes "IosDeviceBuildRequest_validate env r = Ok ()" "source_mode r = Snapshot"
  shows "source_repository r = None \<and> source_revision r = None"
  using source_fields_Ok [OF request_checks(6) [OF assms(1)]] assms(2) by simp

lemma reconstruct_request_Ok:
  "reconstruct_request env p d limits = Ok r \<longleftrightarrow>
     SourceBundleDescriptor_validate (env_unicode env) (env_sha256 env) d limits = Ok ()
     \<and> SnapshotBuildParameters_from_request env r = Ok p \<and> source r = bundle_manifest d"
proof
  assume "reconstruct_request env p d limits = Ok r"
  then show "SourceBundleDescriptor_validate (env_unicode env) (env_sha256 env) d limits = Ok ()
     \<and> SnapshotBuildParameters_from_request env r = Ok p \<and> source r = bundle_manifest d"
    unfolding from_request_Ok by (auto simp: reconstruct_request_def and_then_Inr_iff Let_def compact_def)
next
  assume r: "SourceBundleDescriptor_validate (env_unicode env) (env_sha256 env) d limits = Ok ()
     \<and> SnapshotBuildParameters_from_request env r = Ok p \<and> source r = bundle_manifest d"
  then have ok: "IosDeviceBuildRequest_validate env r = Ok ()" "source_mode r = Snapshot"
    "require_unsigned_xcarchive (signing r) (requested_artifacts r) = Ok ()" "p = compact r"
    unfolding from_request_Ok by auto
  have "\<lparr>request_protocol_version = sp_protocol_version p, request_operation_id = sp_operation_id p,
       product_name = sp_product_name p, request_bundle_identifier = sp_bundle_identifier p,
       minimum_ios_version = sp_minimum_ios_version p, product = sp_product p, request_profile = sp_profile p,
       source_mode = Snapshot, source_repository = None, source_revision = None, source = bundle_manifest d,
       signing = sp_signing p, requested_artifacts = sp_requested_artifacts p\<rparr> = r"
    using ok snapshot_source_fields [OF ok(1,2)] r by (simp add: compact_def)
  with ok compact_shape [OF ok(1,3)] r show "reconstruct_request env p d limits = Ok r"
    by (simp add: reconstruct_request_def Let_def)
qed

text \<open>
  C18 [session_request]: a build start and a source descriptor stand for exactly one request. The worker
  reconstructs a request if and only if the start passes its checks, the descriptor is valid within the
  limits, the descriptor names the archive the start declared, the request is one the client turns into these
  parameters, and its source is the manifest of the descriptor. So reconstruction inverts the client's
  compaction, and what the session left out of the message is never open to substitution.
\<close>

theorem session_reconstructs_the_request:
  "start_reconstruct_request env s d limits = Ok r \<longleftrightarrow>
     SnapshotBuildStart_validate s = Ok ()
     \<and> SourceBundleDescriptor_validate (env_unicode env) (env_sha256 env) d limits = Ok ()
     \<and> bundle_archive d = start_source_archive s
     \<and> SnapshotBuildParameters_from_request env r = Ok (start_parameters s)
     \<and> source r = bundle_manifest d"
  by (auto simp: start_reconstruct_request_def and_then_Inr_iff reconstruct_request_Ok split: if_splits)

section \<open>Receipts\<close>

text \<open>
  [receipt]: the receipts the worker accepts for an offered artifact are exactly those the client builds
  from it: the schema, version, operation, job, artifact, size and digest are all the descriptor's, and only
  the local path, an absolute client path, is the client's choice.
\<close>

theorem accepted_receipts_are_the_built_ones:
  "receipt_validate_for env r d = Ok () \<longleftrightarrow> SnapshotArtifactReceipt_new env d (rc_local_path r) = Ok r"
proof -
  have new: "SnapshotArtifactReceipt_new env d path = Ok x \<longleftrightarrow>
      SnapshotArtifactDescriptor_validate env d = Ok () \<and> receipt_validate_for env x d = Ok ()
      \<and> x = \<lparr>rc_schema_version = SNAPSHOT_SESSION_SCHEMA_VERSION, rc_protocol_version = ad_protocol_version d,
          rc_operation_id = ad_operation_id d, rc_job_id = ad_job_id d, rc_artifact_id = artifact_id (ad_artifact d),
          rc_size = artifact_size (ad_artifact d), rc_sha256 = artifact_sha256 (ad_artifact d), rc_local_path = path\<rparr>"
    for path x
    by (auto simp: SnapshotArtifactReceipt_new_def and_then_Inr_iff Let_def)
  have "receipt_validate_for env r d = Ok () \<Longrightarrow> SnapshotArtifactDescriptor_validate env d = Ok ()
      \<and> rc_schema_version r = SNAPSHOT_SESSION_SCHEMA_VERSION \<and> rc_protocol_version r = ad_protocol_version d
      \<and> rc_operation_id r = ad_operation_id d \<and> rc_job_id r = ad_job_id d
      \<and> rc_artifact_id r = artifact_id (ad_artifact d) \<and> rc_size r = artifact_size (ad_artifact d)
      \<and> rc_sha256 r = artifact_sha256 (ad_artifact d)"
    unfolding receipt_validate_for_def run_checks_Inr_iff
    by (simp add: is_ok_unit reject_if_Inr require_schema_def split: if_splits)
  with new show ?thesis by auto
qed

end
