(* ===== verification/Artifact_Spool.thy ===== *)
theory Artifact_Spool
  imports Snapshot_Session
begin

text \<open>
  Local files of the SSH client (\<^verbatim>\<open>src/crates/rustferry-ssh/src/session.rs\<close>): hashing and copying open
  files, checking that a file holds the declared bytes, and the create-only artifact spool with its
  publication, commit and cleanup.

  What the operating system answers is an argument: a pass over an open file is the list of the answers its
  calls get, and nothing is assumed of them. Paths and metadata are those of the Unix build.
\<close>

section \<open>Errors\<close>

datatype SnapshotSessionClientError =
    DataPlane WorkerDataPlaneFrameError
  | InvalidBuildStart | InvalidSourceDescriptor | SourceDescriptorMismatch | SourceArchiveMismatch
  | SourceFileChanged | InvalidControlFrame
  | UnexpectedServerFrame string WorkerDataPlaneFrameKind
  | JobIdentityMismatch | EventIdentityMismatch | EventSequenceMismatch | MissingProgressEvent
  | ArtifactIdentityMismatch | CompileEvidenceMismatch | ArtifactPayloadMismatch | ArtifactVerificationFailed
  | ArtifactPublicationFailed | ArtifactCommitNotAuthorized | ArtifactCleanupFailed | CompletionIdentityMismatch
  | Server SnapshotSessionError
  | ArtifactSpoolPathInvalid | ArtifactSpoolExists | ArtifactSpoolInvalid | LocalIo

section \<open>Open files\<close>

record file_metadata =
  md_is_file :: bool
  md_is_symlink :: bool
  md_len :: u64
  md_modified :: "int option"
  md_device :: u64
  md_inode :: u64
  md_mode :: u32
  md_nlink :: u64

record FileState =
  state_length :: u64
  state_modified :: "int option"
  state_device :: u64
  state_inode :: u64

definition from_metadata :: "file_metadata \<Rightarrow> FileState" where
  "from_metadata m =
     \<lparr>state_length = md_len m, state_modified = md_modified m, state_device = md_device m, state_inode = md_inode m\<rparr>"

definition lowercase_hex :: "bytes \<Rightarrow> string" where
  "lowercase_hex bs =
     concat (map (\<lambda>b. [''0123456789abcdef'' ! (byte b div 16), ''0123456789abcdef'' ! (byte b mod 16)]) bs)"

lemma hash_loop_step:
  assumes "read_some (16 * 1024) r = (Some b, r')" "b \<noteq> []" "checked_add t (of_nat (length b)) = Some n"
  shows "unat (n :: u64) = unat t + length b" "t < n"
proof -
  have "length b \<le> 16 * 1024" using read_some_length assms(1) by blast
  then have "unat (of_nat (length b) :: u64) = length b" by (simp add: unat_of_nat)
  with checked_add_Some [OF assms(3)] show n: "unat n = unat t + length b" by simp
  with assms(2) show "t < n" by (simp add: word_less_nat_alt)
qed

lemma hash_loop_decreases:
  assumes "(Some b, r') = read_some 16384 r" "b \<noteq> []" "checked_add t (of_nat (length b)) = Some n" "\<not> n > e"
  shows "Suc (unat (e :: u64)) - unat n < Suc (unat e) - unat t"
  using hash_loop_step(2) [of r b r' t n] assms by (simp add: word_less_nat_alt)

text \<open>
  The reading loop of \<open>hash_to_end\<close> with its 16 KiB buffer. The hasher is fed piece by piece; its state is
  the bytes it has seen, and \<open>finalize\<close> applies the digest to them.
\<close>

function hash_loop ::
    "(bytes \<Rightarrow> bytes) \<Rightarrow> u64 \<Rightarrow> u64 \<Rightarrow> bytes \<Rightarrow> reader \<Rightarrow> (SnapshotSessionClientError + u64 \<times> string) \<times> reader" where
  "hash_loop sha expected_size so_far seen r =
     (case read_some (16 * 1024) r of
        (None, r') \<Rightarrow> (Err LocalIo, r')
      | (Some b, r') \<Rightarrow>
          if b = [] then (Ok (so_far, lowercase_hex (sha seen)), r')
          else (case checked_add so_far (of_nat (length b)) of
              None \<Rightarrow> (Err LocalIo, r')
            | Some n \<Rightarrow>
                if n > expected_size then (Ok (n, []), r')
                else hash_loop sha expected_size n (seen @ b) r'))"
  by pat_completeness auto

termination
  by (relation "measure (\<lambda>(sha, expected_size, so_far, seen, r). unat expected_size + 1 - unat so_far)")
    (auto dest: hash_loop_decreases)

declare hash_loop.simps [simp del]

definition hash_to_end ::
    "(bytes \<Rightarrow> bytes) \<Rightarrow> reader \<Rightarrow> u64 \<Rightarrow> (SnapshotSessionClientError + u64 \<times> string) \<times> reader" where
  "hash_to_end sha r expected_size = hash_loop sha expected_size 0 [] r"

function copy_hash_loop ::
    "(bytes \<Rightarrow> bytes) \<Rightarrow> u64 \<Rightarrow> bytes \<Rightarrow> reader \<Rightarrow> writer \<Rightarrow> (SnapshotSessionClientError + string) \<times> reader \<times> writer" where
  "copy_hash_loop sha remaining seen r w =
     (if remaining = 0 then (Ok (lowercase_hex (sha seen)), r, w)
      else
        let chunk = unat (min remaining (16 * 1024)) in
        case read_some chunk r of
          (None, r') \<Rightarrow> (Err (DataPlane Io), r', w)
        | (Some b, r') \<Rightarrow>
            if b = [] then (Err (DataPlane TruncatedPayload), r', w)
            else (case write_all b w of
                (False, w') \<Rightarrow> (Err (DataPlane Io), r', w')
              | (True, w') \<Rightarrow> copy_hash_loop sha (remaining - of_nat (length b)) (seen @ b) r' w'))"
  by pat_completeness auto
termination
  by (relation "measure (\<lambda>(sha, remaining, seen, r, w). unat remaining)") (auto intro: copy_step [OF sym])

declare copy_hash_loop.simps [simp del]

definition copy_exact_hashed ::
    "(bytes \<Rightarrow> bytes) \<Rightarrow> reader \<Rightarrow> writer \<Rightarrow> u64 \<Rightarrow> (SnapshotSessionClientError + string) \<times> reader \<times> writer" where
  "copy_exact_hashed sha r w n = copy_hash_loop sha n [] r w"

section \<open>Checked passes over open files\<close>

text \<open>The answers of the calls in one checked pass over an open file, in their order.\<close>

record file_pass =
  pass_before :: "file_metadata option"
  pass_seek :: bool
  pass_reader :: reader
  pass_after :: "file_metadata option"
  pass_rewind :: bool

definition validate_open_file_bytes ::
    "(bytes \<Rightarrow> bytes) \<Rightarrow> file_pass \<Rightarrow> u64 \<Rightarrow> string \<Rightarrow> SnapshotSessionClientError \<Rightarrow> SnapshotSessionClientError + unit" where
  "validate_open_file_bytes sha f expected_size expected_sha256 mismatch =
     (case pass_before f of
        None \<Rightarrow> Err LocalIo
      | Some before \<Rightarrow>
          if \<not> md_is_file before \<or> md_len before \<noteq> expected_size then Err mismatch
          else if \<not> pass_seek f then Err LocalIo
          else and_then (fst (hash_to_end sha (pass_reader f) expected_size)) (\<lambda>(n, d).
            case pass_after f of
              None \<Rightarrow> Err LocalIo
            | Some after \<Rightarrow>
                if \<not> pass_rewind f then Err LocalIo
                else if from_metadata before \<noteq> from_metadata after \<or> n \<noteq> expected_size \<or> d \<noteq> expected_sha256
                then Err mismatch
                else Ok ()))"

text \<open>
  \<open>serde_json::from_reader\<close> on the hashing reader: the parser is a parameter that yields its result with
  the bytes it drew through the reader.
\<close>

type_synonym descriptor_parser = "reader \<Rightarrow> SourceBundleDescriptor option \<times> bytes"

text \<open>The hasher and the saturating counter of \<open>HashingReader\<close> after the given bytes went through.\<close>

definition HashingReader_finish :: "(bytes \<Rightarrow> bytes) \<Rightarrow> bytes \<Rightarrow> u64 \<times> string" where
  "HashingReader_finish sha seen =
     (if length seen < 2 ^ 64 then of_nat (length seen) else - 1, lowercase_hex (sha seen))"

definition parse_validated_descriptor ::
    "(bytes \<Rightarrow> bytes) \<Rightarrow> descriptor_parser \<Rightarrow> file_pass \<Rightarrow> u64 \<Rightarrow> string
     \<Rightarrow> SnapshotSessionClientError + SourceBundleDescriptor" where
  "parse_validated_descriptor sha parse f expected_size expected_sha256 =
     (case pass_before f of
        None \<Rightarrow> Err LocalIo
      | Some before \<Rightarrow>
          if \<not> pass_seek f then Err LocalIo
          else case parse (pass_reader f) of
              (None, _) \<Rightarrow> Err InvalidSourceDescriptor
            | (Some descriptor, seen) \<Rightarrow>
                (case pass_after f of
                   None \<Rightarrow> Err LocalIo
                 | Some after \<Rightarrow>
                     if \<not> pass_rewind f then Err LocalIo
                     else if from_metadata before \<noteq> from_metadata after
                       \<or> HashingReader_finish sha seen \<noteq> (expected_size, expected_sha256)
                     then Err SourceDescriptorMismatch
                     else Ok descriptor))"

text \<open>The answers while a validated file is streamed: a checked pass, then the streaming pass with one more read.\<close>

record file_stream =
  stream_check :: file_pass
  stream_pass :: file_pass

definition stream_validated_file ::
    "(bytes \<Rightarrow> bytes) \<Rightarrow> writer \<Rightarrow> WorkerDataPlaneFrameKind \<Rightarrow> u64 \<Rightarrow> file_stream \<Rightarrow> u64 \<Rightarrow> string
     \<Rightarrow> SnapshotSessionClientError \<Rightarrow> (SnapshotSessionClientError + unit) \<times> writer" where
  "stream_validated_file sha w k sq f expected_size expected_sha256 mismatch =
     (case validate_open_file_bytes sha (stream_check f) expected_size expected_sha256 mismatch of
        Inl e \<Rightarrow> (Err e, w)
      | Inr _ \<Rightarrow>
     (case pass_before (stream_pass f) of
        None \<Rightarrow> (Err LocalIo, w)
      | Some before \<Rightarrow>
     if \<not> pass_seek (stream_pass f) then (Err LocalIo, w)
     else (case WorkerDataPlaneFrameHeader_new k sq expected_size of
        Inl e \<Rightarrow> (Err (DataPlane e), w)
      | Inr header \<Rightarrow>
     (case write_worker_data_plane_header w header of
        (Inl e, w') \<Rightarrow> (Err (DataPlane e), w')
      | (Inr _, w') \<Rightarrow>
     (case copy_exact_hashed sha (pass_reader (stream_pass f)) w' expected_size of
        (Inl e, r, w'') \<Rightarrow> (Err e, w'')
      | (Inr d, r, w'') \<Rightarrow>
     (case fst (read_some 1 r) of
        None \<Rightarrow> (Err LocalIo, w'')
      | Some extra \<Rightarrow>
     (case pass_after (stream_pass f) of
        None \<Rightarrow> (Err LocalIo, w'')
      | Some after \<Rightarrow>
     if \<not> pass_rewind (stream_pass f) then (Err LocalIo, w'')
     else if extra \<noteq> [] \<or> from_metadata before \<noteq> from_metadata after \<or> d \<noteq> expected_sha256
     then (Err SourceFileChanged, w'')
     else (Ok (), w''))))))))"

section \<open>What the passes establish\<close>

lemma lowercase_hex_is_hex_encode: "lowercase_hex bs = hex_encode bs"
proof -
  have "list_all (\<lambda>n. ''0123456789abcdef'' ! n = hex_digit n) [0..<16]" by code_simp
  then have "''0123456789abcdef'' ! n = hex_digit n" if "n < 16" for n using that by (simp add: list_all_iff)
  moreover have "byte b div 16 < 16" for b using byte_less_256 [of b] by linarith
  ultimately show ?thesis by (simp add: lowercase_hex_def hex_encode_def)
qed

lemma hash_loop_data:
  "fst (hash_loop sha e t seen r) = Ok (e, d) \<Longrightarrow> d \<noteq> [] \<Longrightarrow> t \<le> e \<Longrightarrow>
     unat e = unat t + length (reader_data r) \<and> d = lowercase_hex (sha (seen @ reader_data r))"
proof (induction sha e t seen r rule: hash_loop.induct)
  case (1 sha e t seen r)
  show ?case
  proof (cases "reader_data r = []")
    case True
    with 1(2) show ?thesis
      using read_some_no_data [of r "16 * 1024"] by (subst (asm) hash_loop.simps) (auto split: if_splits)
  next
    case False
    then obtain b r1 where b: "read_some (16 * 1024) r = (Some b, r1)" "b \<noteq> []" "reader_data r = b @ reader_data r1"
      using read_some_data [of "16 * 1024" r] by auto
    have "fst (hash_loop sha e t seen r) = Ok (e, d)" by (rule 1(2))
    then obtain n where n: "checked_add t (of_nat (length b)) = Some n" "\<not> n > e"
      "fst (hash_loop sha e n (seen @ b) r1) = Ok (e, d)"
      using b(1,2) 1(3) by (subst (asm) hash_loop.simps) (auto split: option.splits if_splits)
    have "unat e = unat n + length (reader_data r1) \<and> d = lowercase_hex (sha ((seen @ b) @ reader_data r1))"
      using 1(1) [OF b(1) [symmetric] refl b(2) n(1,2) n(3) 1(3)] n(2) by simp
    with hash_loop_step(1) [OF b(1,2) n(1)] b(3) show ?thesis by simp
  qed
qed

lemma hash_loop_complete:
  "reader_ends r \<Longrightarrow> unat e = unat t + length (reader_data r) \<Longrightarrow>
   fst (hash_loop sha e t seen r) = Ok (e, lowercase_hex (sha (seen @ reader_data r)))"
proof (induction sha e t seen r rule: hash_loop.induct)
  case (1 sha e t seen r)
  show ?case
  proof (cases "reader_data r = []")
    case True
    with 1(2,3) show ?thesis
      using read_some_no_data [of r "16 * 1024"] by (subst hash_loop.simps) (auto simp: word_unat_eq_iff)
  next
    case False
    then obtain b r1 where b: "read_some (16 * 1024) r = (Some b, r1)" "b \<noteq> []"
      "reader_data r = b @ reader_data r1" "reader_ends r1 = reader_ends r"
      using read_some_data [of "16 * 1024" r] by auto
    have len: "length b \<le> 16 * 1024" using read_some_length b(1) by blast
    then have count: "unat (of_nat (length b) :: u64) = length b" by (simp add: unat_of_nat)
    obtain n where n: "checked_add t (of_nat (length b)) = Some n"
      using 1(3) b(3) count unsigned_less [of e, where ?'a = nat]
      by (cases "checked_add t (of_nat (length b) :: u64)") (auto simp: checked_add_None)
    have un: "unat n = unat t + length b" using hash_loop_step(1) b n by blast
    then have less: "\<not> n > e" using 1(3) b(3) by (simp add: word_less_nat_alt)
    have "fst (hash_loop sha e n (seen @ b) r1) = Ok (e, lowercase_hex (sha ((seen @ b) @ reader_data r1)))"
      using 1(1) [OF b(1) [symmetric] refl b(2) n less] 1(2,3) b un by simp
    with b n less show ?thesis by (subst hash_loop.simps) simp
  qed
qed

text \<open>
  A file that passes the check was a regular file of the declared length, delivered exactly the declared
  number of bytes with the declared digest, and had the same state before and after.
\<close>

lemma validate_open_file_bytes_Ok:
  assumes "validate_open_file_bytes sha f n d mismatch = Ok ()" "d \<noteq> []"
  shows "length (reader_data (pass_reader f)) = unat n \<and> hex_encode (sha (reader_data (pass_reader f))) = d"
proof -
  have "fst (hash_to_end sha (pass_reader f) n) = Ok (n, d)"
    using assms(1) by (auto simp: validate_open_file_bytes_def and_then_Inr_iff split: option.splits if_splits)
  with hash_loop_data [of sha n 0 "[]"] assms(2) show ?thesis
    by (simp add: hash_to_end_def lowercase_hex_is_hex_encode)
qed

lemma validate_open_file_bytes_accepts:
  assumes "pass_before f = Some m" "pass_after f = Some m" "md_is_file m" "md_len m = n" "pass_seek f" "pass_rewind f"
    and "reader_ends (pass_reader f)" "length (reader_data (pass_reader f)) = unat n"
  shows "validate_open_file_bytes sha f n (hex_encode (sha (reader_data (pass_reader f)))) mismatch = Ok ()"
  using assms hash_loop_complete [of "pass_reader f" n 0 sha "[]"]
  by (simp add: validate_open_file_bytes_def hash_to_end_def lowercase_hex_is_hex_encode)

text \<open>Copying with a digest is the data plane's copy followed by hashing what was copied.\<close>

lemma copy_hash_loop_is_copy:
  "copy_hash_loop sha remaining seen r w =
     (case copy_loop remaining c r w of
        (Inl e, r', w') \<Rightarrow> (Err (DataPlane e), r', w')
      | (Inr _, r', w') \<Rightarrow> (Ok (hex_encode (sha (seen @ take (unat remaining) (reader_data r)))), r', w'))"
proof (induction sha remaining seen r w arbitrary: c rule: copy_hash_loop.induct)
  case (1 sha remaining seen r w)
  let ?n = "unat (min remaining (16 * 1024))"
  show ?case
  proof (cases "remaining = 0 \<or> reader_data r = []")
    case True
    then show ?thesis
      using read_some_no_data [of r ?n]
      by (subst copy_hash_loop.simps, subst copy_loop.simps) (auto simp: Let_def lowercase_hex_is_hex_encode)
  next
    case False
    then have pos: "0 < ?n" by (simp add: min_def unat_gt_0)
    obtain b r1 where b: "read_some ?n r = (Some b, r1)" "b \<noteq> []" "reader_data r = b @ reader_data r1"
      using read_some_data [OF pos] False by blast
    have le: "length b \<le> unat remaining" using chunk_bound b(1) by blast
    obtain ok w1 where w1: "write_all b w = (ok, w1)" by fastforce
    show ?thesis
    proof (cases ok)
      case True
      have rem: "unat (remaining - of_nat (length b)) = unat remaining - length b" using le by (rule unat_sub_count)
      have nz: "remaining \<noteq> 0" using False by simp
      have IH: "copy_hash_loop sha (remaining - of_nat (length b)) (seen @ b) r1 w1 =
        (case copy_loop (remaining - of_nat (length b)) (c + of_nat (length b)) r1 w1 of
           (Inl e, r', w') \<Rightarrow> (Err (DataPlane e), r', w')
         | (Inr _, r', w') \<Rightarrow> (Ok (hex_encode (sha ((seen @ b) @ take (unat (remaining - of_nat (length b))) (reader_data r1)))), r', w'))"
        using 1(1) [OF nz refl b(1) [symmetric] refl b(2) w1 [symmetric]] True by simp
      have "copy_hash_loop sha remaining seen r w = copy_hash_loop sha (remaining - of_nat (length b)) (seen @ b) r1 w1"
        "copy_loop remaining c r w = copy_loop (remaining - of_nat (length b)) (c + of_nat (length b)) r1 w1"
        using nz b(1,2) w1 True by (subst copy_hash_loop.simps copy_loop.simps; simp add: Let_def)+
      with IH rem le b(3) show ?thesis by (simp split: prod.splits sum.splits)
    next
      case fail: False
      with False b w1 show ?thesis
        by (subst copy_hash_loop.simps, subst copy_loop.simps) (simp add: Let_def)
    qed
  qed
qed

lemma copy_exact_hashed_Ok:
  assumes "copy_exact_hashed sha r w n = (Ok d, r', w')"
  shows "unat n \<le> length (reader_data r) \<and> written w' = written w @ take (unat n) (reader_data r)
    \<and> d = hex_encode (sha (take (unat n) (reader_data r)))"
proof -
  obtain res where res: "copy_loop n 0 r w = (res, r', w')" "is_ok res" "d = hex_encode (sha (take (unat n) (reader_data r)))"
    using assms copy_hash_loop_is_copy [of sha n "[]" r w 0]
    by (auto simp: copy_exact_hashed_def split: prod.splits sum.splits)
  with copy_loop_safe [OF res(1)] show ?thesis by (auto simp: is_ok_conv)
qed

lemma copy_exact_hashed_complete:
  assumes "unat n \<le> length (reader_data r)" "capacity w = None"
  shows "\<exists>r'. copy_exact_hashed sha r w n
      = (Ok (hex_encode (sha (take (unat n) (reader_data r)))), r', w\<lparr>written := written w @ take (unat n) (reader_data r)\<rparr>)
    \<and> reader_data r' = drop (unat n) (reader_data r)"
  using copy_loop_complete [OF assms, of 0] copy_hash_loop_is_copy [of sha n "[]" r w 0]
  by (auto simp: copy_exact_hashed_def)

section \<open>The artifact spool\<close>

record PublishedArtifact =
  pub_path :: string
  pub_is_staging_link :: bool
  pub_size :: u64
  pub_sha256 :: string

record CreateOnlyArtifactSpool =
  spool_path :: string
  publication :: "PublishedArtifact option"
  commit_authorized :: bool
  armed :: bool

definition is_absolute :: "string \<Rightarrow> bool" where
  "is_absolute p \<longleftrightarrow> prefix ''/'' p"

text \<open>The answers about a new link: metadata of the handle and of the path, and whether both are one file.\<close>

record new_link =
  link_opened :: "file_metadata option"
  link_metadata :: "file_metadata option"
  link_open :: bool
  link_same :: bool

definition validate_new_link :: "new_link \<Rightarrow> SnapshotSessionClientError + unit" where
  "validate_new_link l =
     (case link_opened l of
        None \<Rightarrow> Err LocalIo
      | Some opened \<Rightarrow>
     (case link_metadata l of
        None \<Rightarrow> Err ArtifactSpoolInvalid
      | Some linked \<Rightarrow>
     if \<not> link_open l then Err ArtifactSpoolInvalid
     else if \<not> md_is_file opened \<or> md_is_symlink linked \<or> \<not> md_is_file linked
       \<or> md_len opened \<noteq> 0 \<or> md_len linked \<noteq> 0 \<or> \<not> link_same l
     then Err ArtifactSpoolInvalid
     else if and (md_mode opened) 63 \<noteq> 0 \<or> md_nlink opened \<noteq> 1 then Err ArtifactSpoolInvalid
     else Ok ()))"

datatype open_answer = Opened | AlreadyExists | OpenFailed

definition CreateOnlyArtifactSpool_create ::
    "string \<Rightarrow> open_answer \<Rightarrow> new_link \<Rightarrow> SnapshotSessionClientError + CreateOnlyArtifactSpool" where
  "CreateOnlyArtifactSpool_create path opened l =
     (if \<not> is_absolute path \<or> has_control path then Err ArtifactSpoolPathInvalid
      else case opened of
          AlreadyExists \<Rightarrow> Err ArtifactSpoolExists
        | OpenFailed \<Rightarrow> Err LocalIo
        | Opened \<Rightarrow>
            and_then (validate_new_link l) (\<lambda>_.
              Ok \<lparr>spool_path = path, publication = None, commit_authorized = False, armed = True\<rparr>))"

text \<open>
  The components of an absolute path, by which \<open>Path\<close> compares, and the comparison of two directory
  entries by path or by canonical path.
\<close>

definition path_components :: "string \<Rightarrow> string list" where
  "path_components p = filter (\<lambda>s. s \<noteq> [] \<and> s \<noteq> ''.'') (split (CHR ''/'') p)"

definition same_directory_entry :: "(string \<Rightarrow> string option) \<Rightarrow> string \<Rightarrow> string \<Rightarrow> bool" where
  "same_directory_entry canonicalize l r \<longleftrightarrow> path_components l = path_components r
     \<or> (case (canonicalize l, canonicalize r) of (Some a, Some b) \<Rightarrow> path_components a = path_components b | _ \<Rightarrow> False)"

text \<open>The answers about a published file, for one validation.\<close>

record published_file =
  pf_link :: "file_metadata option"
  pf_open :: bool
  pf_metadata :: "file_metadata option"
  pf_same_spool :: bool
  pf_same_retained :: bool
  pf_seek :: bool
  pf_reader :: reader
  pf_sync :: bool
  pf_parent_sync :: bool

definition open_publication_file :: "published_file \<Rightarrow> SnapshotSessionClientError + unit" where
  "open_publication_file f =
     (case pf_link f of
        None \<Rightarrow> Err ArtifactPublicationFailed
      | Some linked \<Rightarrow>
          if md_is_symlink linked \<or> \<not> md_is_file linked then Err ArtifactPublicationFailed
          else if pf_open f then Ok () else Err ArtifactPublicationFailed)"

definition open_publication_identity :: "published_file \<Rightarrow> SnapshotSessionClientError + unit" where
  "open_publication_identity f =
     and_then (open_publication_file f) (\<lambda>_.
       case pf_metadata f of
         None \<Rightarrow> Err ArtifactPublicationFailed
       | Some m \<Rightarrow> if \<not> md_is_file m \<or> \<not> pf_same_spool f then Err ArtifactPublicationFailed else Ok ())"

definition validate_published_artifact ::
    "(bytes \<Rightarrow> bytes) \<Rightarrow> published_file \<Rightarrow> u64 \<Rightarrow> string \<Rightarrow> SnapshotSessionClientError + unit" where
  "validate_published_artifact sha f expected_size expected_sha256 =
     and_then (open_publication_file f) (\<lambda>_.
       case pf_metadata f of
         None \<Rightarrow> Err ArtifactPublicationFailed
       | Some m \<Rightarrow>
           if \<not> md_is_file m \<or> md_len m \<noteq> expected_size \<or> \<not> pf_same_spool f \<or> \<not> pf_same_retained f
           then Err ArtifactPublicationFailed
           else if \<not> pf_seek f then Err ArtifactPublicationFailed
           else and_then (map_err (\<lambda>_. ArtifactPublicationFailed) (fst (hash_to_end sha (pf_reader f) expected_size)))
             (\<lambda>(n, d).
               if n \<noteq> expected_size \<or> d \<noteq> expected_sha256 then Err ArtifactPublicationFailed
               else if \<not> pf_sync f \<or> \<not> pf_parent_sync f then Err ArtifactPublicationFailed
               else Ok ()))"

definition register_publication ::
    "(bytes \<Rightarrow> bytes) \<Rightarrow> (string \<Rightarrow> string option) \<Rightarrow> published_file \<Rightarrow> published_file
     \<Rightarrow> ProtocolPath \<Rightarrow> u64 \<Rightarrow> string \<Rightarrow> CreateOnlyArtifactSpool
     \<Rightarrow> (SnapshotSessionClientError + unit) \<times> CreateOnlyArtifactSpool" where
  "register_publication sha canonicalize identity final published_path expected_size expected_sha256 sp =
     (if path_semantics published_path \<noteq> ClientAbsolute then (Err ArtifactPublicationFailed, sp)
      else
        let path = path_value published_path in
        if \<not> is_absolute path \<or> has_control path then (Err ArtifactPublicationFailed, sp)
        else case open_publication_identity identity of
            Inl e \<Rightarrow> (Err e, sp)
          | Inr _ \<Rightarrow>
              (validate_published_artifact sha final expected_size expected_sha256,
               sp\<lparr>publication := Some \<lparr>pub_path = path,
                 pub_is_staging_link = same_directory_entry canonicalize (spool_path sp) path,
                 pub_size = expected_size, pub_sha256 = expected_sha256\<rparr>\<rparr>))"

definition authorize_commit ::
    "CreateOnlyArtifactSpool \<Rightarrow> (SnapshotSessionClientError + unit) \<times> CreateOnlyArtifactSpool" where
  "authorize_commit sp =
     (if publication sp = None \<or> \<not> armed sp then (Err ArtifactCommitNotAuthorized, sp)
      else (Ok (), sp\<lparr>commit_authorized := True\<rparr>))"

text \<open>
  Removing a link the session owns. The entry is moved into a private quarantine directory first, and only
  what is there is inspected: an entry that is not the spool's file is put back or, when its path is taken
  meanwhile, left in the quarantine. When the owned entry cannot be unlinked, the early return drops the quarantine
  directory, which deletes it with its contents as far as the operating system lets it (\<open>rm_quarantine_drop\<close>).
  \<open>entry_fate\<close> is what became of the directory entry.
\<close>

datatype rename_answer = Renamed | RenameNotFound | RenameFailed

record link_removal =
  rm_parent :: bool
  rm_quarantine :: bool
  rm_quarantine_utf8 :: bool
  rm_rename :: rename_answer
  rm_metadata :: "file_metadata option"
  rm_open :: bool
  rm_same :: bool
  rm_temp_path :: bool
  rm_unlink :: bool
  rm_quarantine_drop :: bool
  rm_quarantine_close :: bool
  rm_parent_sync :: bool
  rm_restore :: bool

datatype entry_fate = EntryUntouched | EntryAbsent | EntryRemoved | EntryRestored | EntryQuarantined

definition owned_link :: "link_removal \<Rightarrow> bool" where
  "owned_link o1 \<longleftrightarrow> (case rm_metadata o1 of None \<Rightarrow> False
     | Some m \<Rightarrow> \<not> md_is_symlink m \<and> md_is_file m \<and> rm_open o1 \<and> rm_same o1)"

definition remove_owned_link_with :: "link_removal \<Rightarrow> (SnapshotSessionClientError + unit) \<times> entry_fate" where
  "remove_owned_link_with o1 =
     (if \<not> rm_parent o1 \<or> \<not> rm_quarantine o1 \<or> \<not> rm_quarantine_utf8 o1 then (Err ArtifactCleanupFailed, EntryUntouched)
      else case rm_rename o1 of
          RenameNotFound \<Rightarrow> (if rm_quarantine_close o1 then Ok () else Err ArtifactCleanupFailed, EntryAbsent)
        | RenameFailed \<Rightarrow> (Err ArtifactCleanupFailed, EntryUntouched)
        | Renamed \<Rightarrow>
            if \<not> rm_temp_path o1 then (Err ArtifactCleanupFailed, EntryQuarantined)
            else if owned_link o1 then
              (if rm_unlink o1 \<and> rm_quarantine_close o1 \<and> rm_parent_sync o1 then Ok () else Err ArtifactCleanupFailed,
               if rm_unlink o1 \<or> rm_quarantine_drop o1 then EntryRemoved else EntryQuarantined)
            else (Err ArtifactCleanupFailed, if rm_restore o1 then EntryRestored else EntryQuarantined))"

definition cleanup_failure ::
    "link_removal \<Rightarrow> link_removal \<Rightarrow> CreateOnlyArtifactSpool
     \<Rightarrow> (SnapshotSessionClientError + unit) \<times> CreateOnlyArtifactSpool" where
  "cleanup_failure published staging sp =
     (if \<not> armed sp then (Ok (), sp)
      else
        let failed_publication = publication sp \<noteq> None \<and> \<not> is_ok (fst (remove_owned_link_with published));
            is_staging = (case publication sp of None \<Rightarrow> False | Some p \<Rightarrow> pub_is_staging_link p);
            failed_staging = \<not> is_staging \<and> \<not> is_ok (fst (remove_owned_link_with staging)) in
        if failed_publication \<or> failed_staging then (Err ArtifactCleanupFailed, sp)
        else (Ok (), sp\<lparr>armed := False, publication := None, commit_authorized := False\<rparr>))"

text \<open>The answers during a commit: two validations around the removal of the staging link, and a cleanup.\<close>

record commit_answers =
  ca_first :: published_file
  ca_staging :: link_removal
  ca_second :: published_file
  ca_cleanup_published :: link_removal
  ca_cleanup_staging :: link_removal

definition commit_inner_with ::
    "(bytes \<Rightarrow> bytes) \<Rightarrow> commit_answers \<Rightarrow> CreateOnlyArtifactSpool
     \<Rightarrow> (SnapshotSessionClientError + unit) \<times> CreateOnlyArtifactSpool" where
  "commit_inner_with sha a sp =
     (if \<not> commit_authorized sp then (Err ArtifactCommitNotAuthorized, sp)
      else case publication sp of
          None \<Rightarrow> (Err ArtifactCommitNotAuthorized, sp)
        | Some p \<Rightarrow>
            (case validate_published_artifact sha (ca_first a) (pub_size p) (pub_sha256 p) of
               Inl e \<Rightarrow> (Err e, sp)
             | Inr _ \<Rightarrow>
                 if pub_is_staging_link p then (Ok (), sp\<lparr>armed := False\<rparr>)
                 else (case fst (remove_owned_link_with (ca_staging a)) of
                     Inl e \<Rightarrow> (Err e, sp)
                   | Inr _ \<Rightarrow>
                       (case validate_published_artifact sha (ca_second a) (pub_size p) (pub_sha256 p) of
                          Inl e \<Rightarrow> (Err e, sp)
                        | Inr _ \<Rightarrow> (Ok (), sp\<lparr>armed := False\<rparr>)))))"

definition commit_with ::
    "(bytes \<Rightarrow> bytes) \<Rightarrow> commit_answers \<Rightarrow> CreateOnlyArtifactSpool
     \<Rightarrow> (SnapshotSessionClientError + unit) \<times> CreateOnlyArtifactSpool" where
  "commit_with sha a sp =
     (case commit_inner_with sha a sp of
        (Inr _, sp') \<Rightarrow> (Ok (), sp')
      | (Inl e, sp') \<Rightarrow>
          (case cleanup_failure (ca_cleanup_published a) (ca_cleanup_staging a) sp' of
             (Inl e', sp'') \<Rightarrow> (Err e', sp'')
           | (Inr _, sp'') \<Rightarrow> (Err e, sp'')))"

section \<open>What a commit establishes\<close>

lemma validate_published_artifact_Ok:
  assumes "validate_published_artifact sha f n d = Ok ()" "d \<noteq> []"
  shows "pf_same_spool f \<and> pf_same_retained f \<and> length (reader_data (pf_reader f)) = unat n
    \<and> hex_encode (sha (reader_data (pf_reader f))) = d"
proof -
  have ok: "fst (hash_to_end sha (pf_reader f) n) = Ok (n, d)" "pf_same_spool f" "pf_same_retained f"
    using assms(1) by (auto simp: validate_published_artifact_def and_then_Inr_iff split: option.splits if_splits)
  with hash_loop_data [of sha n 0 "[]"] assms(2) show ?thesis
    by (simp add: hash_to_end_def lowercase_hex_is_hex_encode)
qed

lemma removal_Ok_fate: "fst (remove_owned_link_with o1) = Ok () \<Longrightarrow> snd (remove_owned_link_with o1) \<in> {EntryAbsent, EntryRemoved}"
  by (auto simp: remove_owned_link_with_def split: rename_answer.splits if_splits)

lemma removal_only_of_owned: "snd (remove_owned_link_with o1) = EntryRemoved \<Longrightarrow> owned_link o1"
  by (auto simp: remove_owned_link_with_def split: rename_answer.splits if_splits)

text \<open>The steps of a spool's life after it was created, with the answers they meet.\<close>

datatype spool_step =
    RegisterStep published_file published_file ProtocolPath u64 string
  | AuthorizeStep
  | CleanupStep link_removal link_removal
  | CommitStep commit_answers

definition spool_apply ::
    "(bytes \<Rightarrow> bytes) \<Rightarrow> (string \<Rightarrow> string option) \<Rightarrow> spool_step \<Rightarrow> CreateOnlyArtifactSpool
     \<Rightarrow> (SnapshotSessionClientError + unit) \<times> CreateOnlyArtifactSpool" where
  "spool_apply sha canonicalize step sp =
     (case step of
        RegisterStep identity final path n d \<Rightarrow> register_publication sha canonicalize identity final path n d sp
      | AuthorizeStep \<Rightarrow> authorize_commit sp
      | CleanupStep published staging \<Rightarrow> cleanup_failure published staging sp
      | CommitStep a \<Rightarrow> commit_with sha a sp)"

text \<open>Every spool state reachable from a created spool, with the steps that succeeded.\<close>

inductive spool_reach ::
    "(bytes \<Rightarrow> bytes) \<Rightarrow> (string \<Rightarrow> string option) \<Rightarrow> spool_step list \<Rightarrow> CreateOnlyArtifactSpool \<Rightarrow> bool"
  for sha canonicalize where
  create: "CreateOnlyArtifactSpool_create path opened l = Ok sp \<Longrightarrow> spool_reach sha canonicalize [] sp"
| step: "spool_reach sha canonicalize past sp \<Longrightarrow> spool_apply sha canonicalize s sp = (res, sp') \<Longrightarrow>
    spool_reach sha canonicalize (if is_ok res then s # past else past) sp'"

inductive_cases spool_reach_elim: "spool_reach sha canonicalize past sp"

definition spool_inv :: "spool_step list \<Rightarrow> CreateOnlyArtifactSpool \<Rightarrow> bool" where
  "spool_inv past sp \<longleftrightarrow> (commit_authorized sp \<longrightarrow> AuthorizeStep \<in> set past)
     \<and> (commit_authorized sp \<longrightarrow> publication sp \<noteq> None)"

lemma cleanup_result:
  "cleanup_failure published staging sp = (res, sp') \<Longrightarrow>
     sp' = sp \<or> sp' = sp\<lparr>armed := False, publication := None, commit_authorized := False\<rparr>"
  by (auto simp: cleanup_failure_def Let_def split: if_splits)

lemma commit_inner_result:
  "commit_inner_with sha a sp = (res, sp') \<Longrightarrow> sp' = (if is_ok res then sp\<lparr>armed := False\<rparr> else sp)"
  by (cases res) (auto simp: commit_inner_with_def split: if_splits option.splits sum.splits)

lemma spool_apply_inv:
  assumes "spool_inv past sp" "spool_apply sha canonicalize s sp = (res, sp')"
  shows "spool_inv (if is_ok res then s # past else past) sp'"
proof (cases s)
  case (RegisterStep identity final path n d)
  with assms show ?thesis
    by (auto simp: spool_apply_def register_publication_def Let_def spool_inv_def split: if_splits sum.splits)
next
  case AuthorizeStep
  with assms show ?thesis by (auto simp: spool_apply_def authorize_commit_def spool_inv_def split: if_splits)
next
  case (CleanupStep published staging)
  with assms show ?thesis by (auto simp: spool_apply_def spool_inv_def dest: cleanup_result)
next
  case (CommitStep a)
  obtain r1 sp1 where inner: "commit_inner_with sha a sp = (r1, sp1)" by fastforce
  then have "sp1 = (if is_ok r1 then sp\<lparr>armed := False\<rparr> else sp)" by (rule commit_inner_result)
  with inner CommitStep assms show ?thesis
    by (auto simp: spool_apply_def commit_with_def spool_inv_def split: sum.splits prod.splits dest!: cleanup_result)
qed

lemma spool_reach_inv: "spool_reach sha canonicalize past sp \<Longrightarrow> spool_inv past sp"
proof (induction rule: spool_reach.induct)
  case (create path opened l sp)
  then show ?case
    by (auto simp: CreateOnlyArtifactSpool_create_def spool_inv_def and_then_Inr_iff split: if_splits open_answer.splits)
next
  case (step past sp s res sp')
  then show ?case by (blast intro: spool_apply_inv)
qed

text \<open>The last validation a commit makes of the published file.\<close>

definition final_check :: "commit_answers \<Rightarrow> PublishedArtifact \<Rightarrow> published_file" where
  "final_check a p = (if pub_is_staging_link p then ca_first a else ca_second a)"

lemma commit_Ok:
  assumes "commit_with sha a sp = (Ok (), sp')"
  obtains p where "commit_authorized sp" "publication sp = Some p" "sp' = sp\<lparr>armed := False\<rparr>"
    "validate_published_artifact sha (final_check a p) (pub_size p) (pub_sha256 p) = Ok ()"
    "pub_is_staging_link p \<or> fst (remove_owned_link_with (ca_staging a)) = Ok ()"
  using assms
  by (auto simp: commit_with_def commit_inner_with_def final_check_def is_ok_unit
      split: prod.splits sum.splits option.splits if_splits)

text \<open>
  C14 [spool_commit]: in every life of a spool, a commit that succeeds was authorized after a publication was
  registered; the last thing it did was to find the published path to be the spool's own file holding exactly
  the registered number of bytes with the registered digest; a separate staging link is gone, and removed only
  if it was the spool's own file; and the committed artifact is out of reach of every later cleanup.
\<close>

theorem commit_is_authorized_and_final:
  assumes "spool_reach sha canonicalize past sp" "commit_with sha a sp = (Ok (), sp')"
    and "publication sp = Some p" "pub_sha256 p \<noteq> []"
  shows "AuthorizeStep \<in> set past
    \<and> pf_same_spool (final_check a p)
    \<and> length (reader_data (pf_reader (final_check a p))) = unat (pub_size p)
    \<and> hex_encode (sha (reader_data (pf_reader (final_check a p)))) = pub_sha256 p
    \<and> (pub_is_staging_link p \<or> snd (remove_owned_link_with (ca_staging a)) = EntryAbsent
        \<or> snd (remove_owned_link_with (ca_staging a)) = EntryRemoved \<and> owned_link (ca_staging a))
    \<and> (\<forall>published staging. cleanup_failure published staging sp' = (Ok (), sp'))"
proof -
  obtain q where q: "commit_authorized sp" "publication sp = Some q" "sp' = sp\<lparr>armed := False\<rparr>"
    "validate_published_artifact sha (final_check a q) (pub_size q) (pub_sha256 q) = Ok ()"
    "pub_is_staging_link q \<or> fst (remove_owned_link_with (ca_staging a)) = Ok ()"
    using assms(2) by (rule commit_Ok)
  with assms(3) have "q = p" by simp
  note q = q [unfolded this]
  have "AuthorizeStep \<in> set past"
    using spool_reach_inv [OF assms(1)] q(1) by (simp add: spool_inv_def)
  moreover note validate_published_artifact_Ok [OF q(4) assms(4)]
  moreover have "pub_is_staging_link p \<or> snd (remove_owned_link_with (ca_staging a)) = EntryAbsent
        \<or> snd (remove_owned_link_with (ca_staging a)) = EntryRemoved \<and> owned_link (ca_staging a)"
    using q(5) removal_Ok_fate removal_only_of_owned by blast
  moreover have "cleanup_failure published staging sp' = (Ok (), sp')" for published staging
    by (simp add: cleanup_failure_def q(3))
  ultimately show ?thesis by blast
qed

section \<open>A committed artifact\<close>

definition example_metadata :: "nat \<Rightarrow> file_metadata" where
  "example_metadata n =
     \<lparr>md_is_file = True, md_is_symlink = False, md_len = of_nat n, md_modified = Some 5, md_device = 1, md_inode = 9,
      md_mode = 384, md_nlink = 1\<rparr>"

definition example_link :: new_link where
  "example_link =
     \<lparr>link_opened = Some (example_metadata 0), link_metadata = Some (example_metadata 0), link_open = True,
      link_same = True\<rparr>"

definition example_published :: "bytes \<Rightarrow> published_file" where
  "example_published bs =
     \<lparr>pf_link = Some (example_metadata (length bs)), pf_open = True, pf_metadata = Some (example_metadata (length bs)),
      pf_same_spool = True, pf_same_retained = True, pf_seek = True, pf_reader = [Chunk bs], pf_sync = True,
      pf_parent_sync = True\<rparr>"

definition example_removal :: link_removal where
  "example_removal =
     \<lparr>rm_parent = True, rm_quarantine = True, rm_quarantine_utf8 = True, rm_rename = Renamed,
      rm_metadata = Some (example_metadata 3), rm_open = True, rm_same = True, rm_temp_path = True, rm_unlink = True, rm_quarantine_drop = True,
      rm_quarantine_close = True, rm_parent_sync = True, rm_restore = True\<rparr>"

definition example_spool :: CreateOnlyArtifactSpool where
  "example_spool = \<lparr>spool_path = ''/tmp/spool'', publication = None, commit_authorized = False, armed = True\<rparr>"

lemma example_link_valid: "validate_new_link example_link = Ok ()"
proof -
  have "and (384 :: u32) 63 = 0" by code_simp
  then show ?thesis by (simp add: validate_new_link_def example_link_def example_metadata_def)
qed

lemma example_spool_created: "CreateOnlyArtifactSpool_create ''/tmp/spool'' Opened example_link = Ok example_spool"
proof -
  have "\<not> has_control ''/tmp/spool''" by (rule no_control_ascii) simp
  then show ?thesis
    by (simp add: CreateOnlyArtifactSpool_create_def example_link_valid is_absolute_def example_spool_def)
qed

lemma example_published_valid:
  assumes "bs \<noteq> []" "length bs < 2 ^ 64"
  shows "validate_published_artifact sha (example_published bs) (of_nat (length bs)) (hex_encode (sha bs)) = Ok ()"
proof -
  have "fst (hash_loop sha (of_nat (length bs)) 0 [] [Chunk bs]) = Ok (of_nat (length bs), lowercase_hex (sha bs))"
    using assms hash_loop_complete [of "[Chunk bs]" "of_nat (length bs)" 0 sha "[]"]
    by (simp add: unat_of_nat)
  then show ?thesis
    by (simp add: validate_published_artifact_def example_published_def open_publication_file_def example_metadata_def
        hash_to_end_def lowercase_hex_is_hex_encode)
qed

definition example_registered :: "(bytes \<Rightarrow> bytes) \<Rightarrow> CreateOnlyArtifactSpool" where
  "example_registered sha =
     example_spool\<lparr>publication := Some \<lparr>pub_path = ''/tmp/out.zip'', pub_is_staging_link = False, pub_size = 3,
       pub_sha256 = hex_encode (sha ''abc'')\<rparr>\<rparr>"

lemma example_register:
  "register_publication sha (\<lambda>_. None) (example_published ''abc'') (example_published ''abc'')
     \<lparr>path_semantics = ClientAbsolute, path_value = ''/tmp/out.zip''\<rparr> 3 (hex_encode (sha ''abc'')) example_spool
   = (Ok (), example_registered sha)"
proof -
  have "\<not> has_control ''/tmp/out.zip''" by (rule no_control_ascii) simp
  moreover have "path_components ''/tmp/spool'' \<noteq> path_components ''/tmp/out.zip''" by code_simp
  moreover have "open_publication_identity (example_published ''abc'') = Ok ()"
    by (simp add: open_publication_identity_def open_publication_file_def example_published_def example_metadata_def)
  ultimately show ?thesis
    using example_published_valid [of "''abc''" sha]
    by (simp add: register_publication_def is_absolute_def same_directory_entry_def example_registered_def Let_def)
      (simp add: example_spool_def)
qed

definition example_commit :: commit_answers where
  "example_commit =
     \<lparr>ca_first = example_published ''abc'', ca_staging = example_removal, ca_second = example_published ''abc'',
      ca_cleanup_published = example_removal, ca_cleanup_staging = example_removal\<rparr>"

theorem commit_is_authorized_and_final_witness:
  "hex_encode (zero_digest (reader_data (pf_reader (final_check example_commit (the (publication (example_registered zero_digest)))))))
     = pub_sha256 (the (publication (example_registered zero_digest)))"
proof -
  let ?sp = "example_registered zero_digest" and ?canon = "\<lambda>_ :: string. None :: string option"
  let ?reg = "RegisterStep (example_published ''abc'') (example_published ''abc'')
    \<lparr>path_semantics = ClientAbsolute, path_value = ''/tmp/out.zip''\<rparr> 3 (hex_encode (zero_digest ''abc''))"
  have "spool_reach zero_digest ?canon [] example_spool" using example_spool_created by (rule spool_reach.create)
  from spool_reach.step [OF this, of ?reg "Ok ()" ?sp]
  have "spool_reach zero_digest ?canon [?reg] ?sp"
    using example_register [of zero_digest] by (simp add: spool_apply_def)
  from spool_reach.step [OF this, of AuthorizeStep "Ok ()" "?sp\<lparr>commit_authorized := True\<rparr>"]
  have reach: "spool_reach zero_digest ?canon [AuthorizeStep, ?reg] (?sp\<lparr>commit_authorized := True\<rparr>)"
    by (simp add: spool_apply_def authorize_commit_def example_registered_def example_spool_def)
  have commit: "commit_with zero_digest example_commit (?sp\<lparr>commit_authorized := True\<rparr>)
      = (Ok (), ?sp\<lparr>commit_authorized := True, armed := False\<rparr>)"
    using example_published_valid [of "''abc''" zero_digest]
    by (simp add: commit_with_def commit_inner_with_def example_registered_def example_commit_def remove_owned_link_with_def
        owned_link_def example_removal_def example_metadata_def)
  have "hex_encode (zero_digest ''abc'') \<noteq> []" by (simp add: zero_digest_def hex_encode_def)
  with commit_is_authorized_and_final [OF reach commit, of "the (publication ?sp)"] show ?thesis
    by (simp add: example_registered_def)
qed

end
