(* ===== verification/Ssh_Config.thy ===== *)
theory Ssh_Config
  imports Artifact_Spool
begin

text \<open>
  The SSH endpoint configuration (\<^verbatim>\<open>src/crates/rustferry-ssh/src/config.rs\<close>): the grammars of names, users,
  hosts and fingerprints, the known-hosts file with its single pinned key, and the checks of the identity file and
  of the directories above it.

  The \<open>base64\<close> engines and SHA-256 are arguments. Every question to the file system is answered by a state of its
  own, because other processes run between two questions: a world gives the file system at each of them, in the
  order in which they are asked. The Unix build is modelled.
\<close>

section \<open>Standard library\<close>

text \<open>\<open>str::trim\<close> and \<open>str::split_ascii_whitespace\<close>.\<close>

definition trim :: "string \<Rightarrow> string" where
  "trim s = utf8_encode (rev (dropWhile is_whitespace (rev (dropWhile is_whitespace (chars s)))))"

definition split_ascii_whitespace :: "string \<Rightarrow> string list" where
  "split_ascii_whitespace s = filter (\<lambda>t. t \<noteq> []) (split_by is_ascii_whitespace s)"

text \<open>
  \<open>IpAddr::from_str\<close>, as a parser that returns the rest of its input. A number has a bounded count of digits, and
  outside hexadecimal groups neither a leading zero nor a value above 255.
\<close>

definition read_number :: "(char \<Rightarrow> bool) \<Rightarrow> nat \<Rightarrow> (string \<Rightarrow> bool) \<Rightarrow> string \<Rightarrow> string option" where
  "read_number digit most fits s =
     (let ds = takeWhile digit s in
      if ds = [] \<or> most < length ds \<or> \<not> fits ds then None else Some (drop (length ds) s))"

definition read_given_char :: "char \<Rightarrow> string \<Rightarrow> string option" where
  "read_given_char c s = strip_prefix [c] s"

definition read_separator :: "char \<Rightarrow> nat \<Rightarrow> (string \<Rightarrow> string option) \<Rightarrow> string \<Rightarrow> string option" where
  "read_separator sep index inner s =
     (if 0 < index then Option.bind (read_given_char sep s) inner else inner s)"

definition read_octet :: "string \<Rightarrow> string option" where
  "read_octet = read_number is_ascii_digit 3
     (\<lambda>ds. \<not> (hd ds = CHR ''0'' \<and> 1 < length ds) \<and> digits_value ds \<le> 255)"

definition read_ipv4_addr :: "string \<Rightarrow> string option" where
  "read_ipv4_addr s =
     Option.bind (read_separator (CHR ''.'') 0 read_octet s) (\<lambda>s.
     Option.bind (read_separator (CHR ''.'') 1 read_octet s) (\<lambda>s.
     Option.bind (read_separator (CHR ''.'') 2 read_octet s) (\<lambda>s.
     read_separator (CHR ''.'') 3 read_octet s)))"

text \<open>The number of groups read, whether they end in an embedded IPv4 address, and the rest of the input.\<close>

function read_groups :: "nat \<Rightarrow> nat \<Rightarrow> string \<Rightarrow> nat \<times> bool \<times> string" where
  "read_groups bound i s =
     (if bound \<le> i then (bound, False, s)
      else
        case (if i < bound - 1 then read_separator (CHR '':'') i read_ipv4_addr s else None) of
          Some rest \<Rightarrow> (i + 2, True, rest)
        | None \<Rightarrow>
            case read_separator (CHR '':'') i (read_number is_ascii_hexdigit 4 (\<lambda>_. True)) s of
              Some rest \<Rightarrow> read_groups bound (Suc i) rest
            | None \<Rightarrow> (i, False, s))"
  by pat_completeness auto
termination by (relation "measure (\<lambda>(bound, i, s). bound - i)") auto

declare read_groups.simps [simp del]

definition read_ipv6_addr :: "string \<Rightarrow> string option" where
  "read_ipv6_addr s =
     (case read_groups 8 0 s of (head_size, head_ipv4, s) \<Rightarrow>
      if head_size = 8 then Some s
      else if head_ipv4 then None
      else Option.bind (read_given_char (CHR '':'') s) (\<lambda>s.
           Option.bind (read_given_char (CHR '':'') s) (\<lambda>s.
           case read_groups (8 - (head_size + 1)) 0 s of (_, _, s) \<Rightarrow> Some s)))"

definition is_ip_addr :: "string \<Rightarrow> bool" where
  "is_ip_addr s \<longleftrightarrow>
     (case read_ipv4_addr s of Some rest \<Rightarrow> rest = [] | None \<Rightarrow> read_ipv6_addr s = Some [])"

text \<open>
  \<open>Path::ancestors().skip(1)\<close> of an absolute path, nearest first, written with single separators.
\<close>

definition path_text :: "string list \<Rightarrow> string" where
  "path_text cs = ''/'' @ join ''/'' cs"

definition proper_ancestors :: "string \<Rightarrow> string list" where
  "proper_ancestors p = map path_text (rev (butlast (prefixes (path_components p))))"

section \<open>Errors and validated text\<close>

definition MAX_REMOTE_NAME_BYTES :: nat where
  "MAX_REMOTE_NAME_BYTES = 64"

definition MAX_HOST_BYTES :: nat where
  "MAX_HOST_BYTES = 253"

definition MAX_USER_BYTES :: nat where
  "MAX_USER_BYTES = 64"

definition MAX_KNOWN_HOSTS_BYTES :: u64 where
  "MAX_KNOWN_HOSTS_BYTES = 16 * 1024"

definition MAX_HOST_KEY_BLOB_BYTES :: nat where
  "MAX_HOST_KEY_BLOB_BYTES = 16 * 1024"

datatype SshConfigError =
    InvalidField string string
  | InvalidPort
  | PathNotAbsolute string
  | UnsafePath string
  | PathUnreadable string
  | PathNotRegularFile string
  | EmptyFile string
  | IdentityFilePermissions
  | IdentityPathPermissions
  | KnownHostsFilePermissions
  | InvalidHostKeyFingerprint
  | InvalidKnownHosts
  | KnownHostsSnapshotFailed

datatype SshHostKeySha256 = SshHostKeySha256 (fingerprint_text: string)
datatype SshRemoteName = SshRemoteName (remote_name_text: string)
datatype SshHost = SshHost (host_text: string)
datatype SshUser = SshUser (user_text: string)

text \<open>The two engines of the \<open>base64\<close> crate: with padding, and without.\<close>

record base64 =
  standard_encode :: "bytes \<Rightarrow> string"
  standard_decode :: "string \<Rightarrow> bytes option"
  no_pad_encode :: "bytes \<Rightarrow> string"
  no_pad_decode :: "string \<Rightarrow> bytes option"

definition SshHostKeySha256_new :: "base64 \<Rightarrow> string \<Rightarrow> SshConfigError + SshHostKeySha256" where
  "SshHostKeySha256_new b v =
     (case strip_prefix ''SHA256:'' v of
        None \<Rightarrow> Err InvalidHostKeyFingerprint
      | Some encoded \<Rightarrow>
     case no_pad_decode b encoded of
        None \<Rightarrow> Err InvalidHostKeyFingerprint
      | Some digest \<Rightarrow>
          if length digest \<noteq> 32 \<or> no_pad_encode b digest \<noteq> encoded then Err InvalidHostKeyFingerprint
          else Ok (SshHostKeySha256 v))"

definition validate_atom :: "string \<Rightarrow> string \<Rightarrow> nat \<Rightarrow> bool \<Rightarrow> SshConfigError + unit" where
  "validate_atom field v maximum require_alphanumeric_first =
     (case v of
        [] \<Rightarrow> Err (InvalidField field ''value length is outside the accepted bound'')
      | first # rest \<Rightarrow>
          if length v > maximum then Err (InvalidField field ''value length is outside the accepted bound'')
          else if \<not> (is_ascii_alphanumeric first \<or> (\<not> require_alphanumeric_first \<and> first = CHR ''_''))
          then Err (InvalidField field ''value has an unsafe leading byte'')
          else if \<not> list_all (\<lambda>c. is_ascii_alphanumeric c \<or> c \<in> {CHR ''.'', CHR ''_'', CHR ''-''}) rest
          then Err (InvalidField field
            ''value may contain only ASCII letters, digits, dot, underscore, and hyphen'')
          else Ok ())"

definition SshRemoteName_new :: "string \<Rightarrow> SshConfigError + SshRemoteName" where
  "SshRemoteName_new v =
     and_then (validate_atom ''remote_name'' v MAX_REMOTE_NAME_BYTES True) (\<lambda>_. Ok (SshRemoteName v))"

definition SshUser_new :: "string \<Rightarrow> SshConfigError + SshUser" where
  "SshUser_new v = and_then (validate_atom ''user'' v MAX_USER_BYTES False) (\<lambda>_. Ok (SshUser v))"

definition valid_dns_label :: "string \<Rightarrow> bool" where
  "valid_dns_label l \<longleftrightarrow>
     l \<noteq> [] \<and> length l \<le> 63 \<and> list_all (\<lambda>c. is_ascii_alphanumeric c \<or> c = CHR ''-'') l
     \<and> is_ascii_alphanumeric (hd l) \<and> is_ascii_alphanumeric (last l)"

definition valid_dns_name :: "string \<Rightarrow> bool" where
  "valid_dns_name v \<longleftrightarrow>
     (if \<not> is_ascii v \<or> list_ex (\<lambda>c. is_control (byte c)) v then False
      else
        let name = (case strip_suffix ''.'' v of Some n \<Rightarrow> n | None \<Rightarrow> v) in
        name \<noteq> [] \<and> list_all valid_dns_label (split (CHR ''.'') name))"

definition SshHost_new :: "string \<Rightarrow> SshConfigError + SshHost" where
  "SshHost_new v =
     (if v = [] \<or> length v > MAX_HOST_BYTES
      then Err (InvalidField ''host'' ''value length is outside 1..=253 bytes'')
      else if is_ip_addr v \<or> valid_dns_name v then Ok (SshHost v)
      else Err (InvalidField ''host'' ''value must be an ASCII DNS name or an IP literal''))"

definition expected_host_token :: "SshHost \<Rightarrow> u16 \<Rightarrow> string" where
  "expected_host_token host port =
     (if port = 22 then host_text host else ''['' @ host_text host @ '']:'' @ decimal (unat port))"

section \<open>The known-hosts file\<close>

definition supported_host_key_type :: "string \<Rightarrow> bool" where
  "supported_host_key_type t \<longleftrightarrow>
     t \<in> {''ssh-ed25519'', ''ecdsa-sha2-nistp256'', ''ecdsa-sha2-nistp384'', ''ecdsa-sha2-nistp521'', ''ssh-rsa'',
          ''sk-ssh-ed25519@openssh.com'', ''sk-ecdsa-sha2-nistp256@openssh.com''}"

definition key_blob_type_matches :: "bytes \<Rightarrow> string \<Rightarrow> bool" where
  "key_blob_type_matches blob expected_type \<longleftrightarrow>
     (if length blob < 4 then False
      else
        let len = of_be_bytes (take 4 blob) in
        if length blob < 4 + len then False
        else take len (drop 4 blob) = expected_type \<and> length blob > 4 + len)"

definition known_hosts_entries :: "string \<Rightarrow> string list" where
  "known_hosts_entries s = filter (\<lambda>l. l \<noteq> [] \<and> \<not> prefix ''#'' l) (map trim (text_lines s))"

definition host_key_fingerprint :: "base64 \<Rightarrow> (bytes \<Rightarrow> bytes) \<Rightarrow> bytes \<Rightarrow> string" where
  "host_key_fingerprint b digest blob = ''SHA256:'' @ no_pad_encode b (digest blob)"

definition known_hosts_line :: "base64 \<Rightarrow> string \<Rightarrow> string \<Rightarrow> bytes \<Rightarrow> bytes" where
  "known_hosts_line b host key_type blob = host @ '' '' @ key_type @ '' '' @ standard_encode b blob @ [CHR 0x0A]"

definition validate_known_hosts_bytes ::
    "base64 \<Rightarrow> (bytes \<Rightarrow> bytes) \<Rightarrow> bytes \<Rightarrow> string \<Rightarrow> SshHostKeySha256 \<Rightarrow> SshConfigError + bytes" where
  "validate_known_hosts_bytes b digest bs expected_host fingerprint =
     (if \<not> utf8_valid bs then Err InvalidKnownHosts
      else case known_hosts_entries bs of
        [entry] \<Rightarrow>
          (case split_ascii_whitespace entry of
             host # key_type # encoded_key # _ \<Rightarrow>
               if host \<noteq> expected_host \<or> \<not> supported_host_key_type key_type then Err InvalidKnownHosts
               else
                 (case standard_decode b encoded_key of
                    None \<Rightarrow> Err InvalidKnownHosts
                  | Some blob \<Rightarrow>
                      if blob = [] \<or> length blob > MAX_HOST_KEY_BLOB_BYTES \<or> \<not> key_blob_type_matches blob key_type
                      then Err InvalidKnownHosts
                      else if host_key_fingerprint b digest blob \<noteq> fingerprint_text fingerprint
                      then Err InvalidKnownHosts
                      else Ok (known_hosts_line b host key_type blob))
           | _ \<Rightarrow> Err InvalidKnownHosts)
      | _ \<Rightarrow> Err InvalidKnownHosts)"

section \<open>Files\<close>

record path_metadata = file_metadata +
  md_is_dir :: bool
  md_uid :: u32

text \<open>
  The file system as one question finds it: what a path names, without following a final link; its canonical
  form; the file that opening it yields; and the metadata and the contents behind an open file.
\<close>

record fs_state =
  fs_symlink_metadata :: "string \<Rightarrow> path_metadata option"
  fs_canonicalize :: "string \<Rightarrow> string option"
  fs_open :: "string \<Rightarrow> nat option"
  fs_metadata :: "nat \<Rightarrow> path_metadata option"
  fs_read :: "nat \<Rightarrow> bytes option"

type_synonym world = "nat \<Rightarrow> fs_state"

definition later :: "nat \<Rightarrow> world \<Rightarrow> world" where
  "later n w = (\<lambda>k. w (n + k))"

definition same_open_file_identity :: "path_metadata \<Rightarrow> path_metadata \<Rightarrow> bool" where
  "same_open_file_identity opened m \<longleftrightarrow> md_device opened = md_device m \<and> md_inode opened = md_inode m"

definition open_no_follow :: "world \<Rightarrow> string \<Rightarrow> string \<Rightarrow> SshConfigError + nat" where
  "open_no_follow w path field =
     (case fs_symlink_metadata (w 0) path of
        None \<Rightarrow> Err (PathUnreadable field)
      | Some preflight \<Rightarrow>
          if md_is_symlink preflight \<or> \<not> md_is_file preflight then Err (PathNotRegularFile field)
          else case fs_open (w 1) path of
            None \<Rightarrow> Err (PathUnreadable field)
          | Some file \<Rightarrow> Ok file)"

definition recheck_open_file_identity :: "world \<Rightarrow> string \<Rightarrow> path_metadata \<Rightarrow> string \<Rightarrow> SshConfigError + unit" where
  "recheck_open_file_identity w path opened field =
     (case fs_symlink_metadata (w 0) path of
        None \<Rightarrow> Err (PathUnreadable field)
      | Some m \<Rightarrow>
          if md_is_symlink m \<or> \<not> md_is_file m then Err (PathNotRegularFile field)
          else if \<not> same_open_file_identity opened m then Err (PathUnreadable field)
          else Ok ())"

text \<open>The masks of the permission checks are octal 022 and 077, and the sticky bit is octal 1000.\<close>

definition validate_known_hosts_metadata :: "path_metadata \<Rightarrow> SshConfigError + unit" where
  "validate_known_hosts_metadata m =
     (if \<not> md_is_file m then Err (PathNotRegularFile ''known_hosts_file'')
      else if md_len m = 0 then Err (EmptyFile ''known_hosts_file'')
      else if md_len m > MAX_KNOWN_HOSTS_BYTES then Err InvalidKnownHosts
      else if and (md_mode m) 18 \<noteq> 0 then Err KnownHostsFilePermissions
      else Ok ())"

definition validate_identity_metadata :: "path_metadata \<Rightarrow> SshConfigError + unit" where
  "validate_identity_metadata m =
     (if \<not> md_is_file m then Err (PathNotRegularFile ''identity_file'')
      else if md_len m = 0 then Err (EmptyFile ''identity_file'')
      else if and (md_mode m) 63 \<noteq> 0 then Err IdentityFilePermissions
      else if md_nlink m \<noteq> 1 then Err IdentityPathPermissions
      else Ok ())"

definition validate_sensitive_path :: "string \<Rightarrow> string \<Rightarrow> SshConfigError + unit" where
  "validate_sensitive_path path field =
     (if \<not> is_absolute path then Err (PathNotAbsolute field)
      else if list_ex (\<lambda>c. is_control c \<or> c = byte (CHR ''%'') \<or> c = byte (CHR ''$'')) (chars path)
      then Err (UnsafePath field)
      else Ok ())"

text \<open>One ancestor of the identity file: a link of a trusted owner is passed over.\<close>

definition validate_identity_ancestor :: "u32 \<Rightarrow> path_metadata option \<Rightarrow> SshConfigError + unit" where
  "validate_identity_ancestor key_uid answer =
     (case answer of
        None \<Rightarrow> Err IdentityPathPermissions
      | Some m \<Rightarrow>
          let trusted_owner = (md_uid m = key_uid \<or> md_uid m = 0) in
          if md_is_symlink m then (if \<not> trusted_owner then Err IdentityPathPermissions else Ok ())
          else
            let writable_by_another_principal = (and (md_mode m) 18 \<noteq> 0);
                sticky = (and (md_mode m) 512 \<noteq> 0)
            in if \<not> md_is_dir m \<or> \<not> trusted_owner \<or> (writable_by_another_principal \<and> \<not> sticky)
               then Err IdentityPathPermissions else Ok ())"

fun validate_unix_identity_ancestors :: "world \<Rightarrow> string list \<Rightarrow> u32 \<Rightarrow> SshConfigError + unit" where
  "validate_unix_identity_ancestors w [] key_uid = Ok ()"
| "validate_unix_identity_ancestors w (ancestor # rest) key_uid =
     and_then (validate_identity_ancestor key_uid (fs_symlink_metadata (w 0) ancestor)) (\<lambda>_.
       validate_unix_identity_ancestors (later 1 w) rest key_uid)"

definition validate_unix_identity_path :: "world \<Rightarrow> string \<Rightarrow> path_metadata \<Rightarrow> SshConfigError + unit" where
  "validate_unix_identity_path w path opened =
     (case fs_canonicalize (w 0) path of
        None \<Rightarrow> Err (PathUnreadable ''identity_file'')
      | Some canonical \<Rightarrow>
     case fs_symlink_metadata (w 1) canonical of
        None \<Rightarrow> Err (PathUnreadable ''identity_file'')
      | Some m \<Rightarrow>
          if md_device m \<noteq> md_device opened \<or> md_inode m \<noteq> md_inode opened
          then Err (PathUnreadable ''identity_file'')
          else
            let above = proper_ancestors path in
            and_then (validate_unix_identity_ancestors (later 2 w) above (md_uid opened)) (\<lambda>_.
              validate_unix_identity_ancestors (later (2 + length above) w) (proper_ancestors canonical)
                (md_uid opened)))"

definition read_known_hosts_no_follow :: "world \<Rightarrow> string \<Rightarrow> SshConfigError + bytes" where
  "read_known_hosts_no_follow w path =
     and_then (validate_sensitive_path path ''known_hosts_file'') (\<lambda>_.
     and_then (open_no_follow w path ''known_hosts_file'') (\<lambda>file.
     case fs_metadata (w 2) file of
       None \<Rightarrow> Err (PathUnreadable ''known_hosts_file'')
     | Some opened \<Rightarrow>
     and_then (validate_known_hosts_metadata opened) (\<lambda>_.
     and_then (recheck_open_file_identity (later 3 w) path opened ''known_hosts_file'') (\<lambda>_.
     case fs_read (w 4) file of
       None \<Rightarrow> Err (PathUnreadable ''known_hosts_file'')
     | Some contents \<Rightarrow>
         let bs = take (unat MAX_KNOWN_HOSTS_BYTES + 1) contents in
         if length bs > unat MAX_KNOWN_HOSTS_BYTES then Err InvalidKnownHosts
         else and_then (recheck_open_file_identity (later 5 w) path opened ''known_hosts_file'') (\<lambda>_. Ok bs)))))"

definition open_identity_no_follow :: "world \<Rightarrow> string \<Rightarrow> SshConfigError + nat" where
  "open_identity_no_follow w path =
     and_then (validate_sensitive_path path ''identity_file'') (\<lambda>_.
     and_then (open_no_follow w path ''identity_file'') (\<lambda>file.
     case fs_metadata (w 2) file of
       None \<Rightarrow> Err (PathUnreadable ''identity_file'')
     | Some m \<Rightarrow>
     and_then (validate_identity_metadata m) (\<lambda>_.
     and_then (recheck_open_file_identity (later 3 w) path m ''identity_file'') (\<lambda>_.
     and_then (validate_unix_identity_path (later 4 w) path m) (\<lambda>_. Ok file)))))"

record SshIdentityFileGuard =
  guard_path :: string
  guard_file :: nat

definition SshIdentityFileGuard_revalidate :: "world \<Rightarrow> SshIdentityFileGuard \<Rightarrow> SshConfigError + unit" where
  "SshIdentityFileGuard_revalidate w g =
     (case fs_metadata (w 0) (guard_file g) of
        None \<Rightarrow> Err (PathUnreadable ''identity_file'')
      | Some opened \<Rightarrow>
     and_then (validate_identity_metadata opened) (\<lambda>_.
     and_then (recheck_open_file_identity (later 1 w) (guard_path g) opened ''identity_file'') (\<lambda>_.
       validate_unix_identity_path (later 2 w) (guard_path g) opened)))"

section \<open>The endpoint\<close>

record SshEndpointConfig =
  endpoint_remote_name :: SshRemoteName
  endpoint_host :: SshHost
  endpoint_user :: SshUser
  endpoint_port :: u16
  endpoint_known_hosts_file :: string
  endpoint_host_key_sha256 :: SshHostKeySha256
  endpoint_identity_file :: "string option"

text \<open>
  The answers of one validation: while the known-hosts file is read, while the identity file is opened, and while
  its guard is checked again.
\<close>

record endpoint_world =
  reading_known_hosts :: world
  opening_identity :: world
  checking_identity :: world

definition validated_known_hosts_bytes ::
    "base64 \<Rightarrow> (bytes \<Rightarrow> bytes) \<Rightarrow> endpoint_world \<Rightarrow> SshEndpointConfig \<Rightarrow> SshConfigError + bytes" where
  "validated_known_hosts_bytes b digest e c =
     and_then (read_known_hosts_no_follow (reading_known_hosts e) (endpoint_known_hosts_file c)) (\<lambda>bs.
       validate_known_hosts_bytes b digest bs (expected_host_token (endpoint_host c) (endpoint_port c))
         (endpoint_host_key_sha256 c))"

definition open_identity_file_guard ::
    "endpoint_world \<Rightarrow> SshEndpointConfig \<Rightarrow> SshConfigError + SshIdentityFileGuard option" where
  "open_identity_file_guard e c =
     (case endpoint_identity_file c of
        None \<Rightarrow> Ok None
      | Some path \<Rightarrow>
          and_then (open_identity_no_follow (opening_identity e) path) (\<lambda>file.
          let guard = \<lparr>guard_path = path, guard_file = file\<rparr> in
          and_then (SshIdentityFileGuard_revalidate (checking_identity e) guard) (\<lambda>_. Ok (Some guard))))"

definition validate_files ::
    "base64 \<Rightarrow> (bytes \<Rightarrow> bytes) \<Rightarrow> endpoint_world \<Rightarrow> SshEndpointConfig \<Rightarrow> SshConfigError + unit" where
  "validate_files b digest e c =
     and_then (validated_known_hosts_bytes b digest e c) (\<lambda>_.
     and_then (open_identity_file_guard e c) (\<lambda>_. Ok ()))"

definition SshEndpointConfig_new ::
    "base64 \<Rightarrow> (bytes \<Rightarrow> bytes) \<Rightarrow> endpoint_world \<Rightarrow> SshRemoteName \<Rightarrow> SshHost \<Rightarrow> SshUser \<Rightarrow> u16 \<Rightarrow> string
      \<Rightarrow> SshHostKeySha256 \<Rightarrow> string option \<Rightarrow> SshConfigError + SshEndpointConfig" where
  "SshEndpointConfig_new b digest e remote_name host user port known_hosts_file host_key_sha256 identity_file =
     (if port = 0 then Err InvalidPort
      else
        let config = \<lparr>endpoint_remote_name = remote_name, endpoint_host = host, endpoint_user = user,
          endpoint_port = port, endpoint_known_hosts_file = known_hosts_file,
          endpoint_host_key_sha256 = host_key_sha256, endpoint_identity_file = identity_file\<rparr> in
        and_then (validate_files b digest e config) (\<lambda>_. Ok config))"

section \<open>Addresses and names are plain text\<close>

definition address_char :: "char \<Rightarrow> bool" where
  "address_char c \<longleftrightarrow> is_ascii_hexdigit c \<or> c = CHR ''.'' \<or> c = CHR '':''"

definition consumes :: "(string \<Rightarrow> string option) \<Rightarrow> bool" where
  "consumes p \<longleftrightarrow> (\<forall>s r. p s = Some r \<longrightarrow> (\<exists>u. s = u @ r \<and> list_all address_char u))"

lemma consumesD: "consumes p \<Longrightarrow> p s = Some r \<Longrightarrow> \<exists>u. s = u @ r \<and> list_all address_char u"
  by (simp add: consumes_def)

lemma consumes_bind:
  assumes "consumes p" "consumes q"
  shows "consumes (\<lambda>s. Option.bind (p s) q)"
  unfolding consumes_def
proof (intro allI impI)
  fix s r assume "Option.bind (p s) q = Some r"
  then obtain t where "p s = Some t" "q t = Some r" by (auto simp: bind_eq_Some_conv)
  with assms obtain u v where "s = u @ t" "t = v @ r" "list_all address_char u" "list_all address_char v"
    by (meson consumesD)
  then show "\<exists>u. s = u @ r \<and> list_all address_char u" by (intro exI [of _ "u @ v"]) simp
qed

lemma consumes_number:
  assumes "\<And>c. digit c \<Longrightarrow> address_char c"
  shows "consumes (read_number digit most fits)"
  unfolding consumes_def read_number_def Let_def
proof (intro allI impI)
  fix s r
  let ?ds = "takeWhile digit s"
  assume "(if ?ds = [] \<or> most < length ?ds \<or> \<not> fits ?ds then None else Some (drop (length ?ds) s)) = Some r"
  then have "s = ?ds @ r" by (auto simp: dropWhile_eq_drop [symmetric] split: if_splits)
  moreover have "list_all address_char ?ds" by (auto simp: list_all_iff dest!: set_takeWhileD intro: assms)
  ultimately show "\<exists>u. s = u @ r \<and> list_all address_char u" by blast
qed

lemma consumes_char: "address_char c \<Longrightarrow> consumes (read_given_char c)"
  by (auto simp: consumes_def read_given_char_def strip_prefix_Some)

lemma consumes_separator:
  "address_char sep \<Longrightarrow> consumes inner \<Longrightarrow> consumes (read_separator sep i inner)"
  using consumes_bind [OF consumes_char [of sep], of inner]
  by (cases "0 < i") (simp_all add: read_separator_def [abs_def])

lemma consumes_octet: "consumes read_octet"
  unfolding read_octet_def
  by (rule consumes_number) (simp add: address_char_def is_ascii_hexdigit_def)

lemma consumes_ipv4: "consumes read_ipv4_addr"
proof -
  have "consumes (read_separator (CHR ''.'') i read_octet)" for i
    by (rule consumes_separator [OF _ consumes_octet]) (simp add: address_char_def)
  then show ?thesis unfolding read_ipv4_addr_def [abs_def] by (intro consumes_bind)
qed

lemma consumes_groups: "\<exists>u. s = u @ snd (snd (read_groups bound i s)) \<and> list_all address_char u"
proof (induction bound i s rule: read_groups.induct)
  case (1 bound i s)
  have colon: "address_char (CHR '':'')" by (simp add: address_char_def)
  have v4: "consumes (read_separator (CHR '':'') i read_ipv4_addr)"
    by (rule consumes_separator [OF colon consumes_ipv4])
  have group: "consumes (read_separator (CHR '':'') i (read_number is_ascii_hexdigit 4 (\<lambda>_. True)))"
    by (rule consumes_separator [OF colon consumes_number]) (simp add: address_char_def)
  show ?case
  proof (cases "bound \<le> i")
    case True
    then show ?thesis by (subst read_groups.simps) simp
  next
    case False
    let ?v4 = "if i < bound - 1 then read_separator (CHR '':'') i read_ipv4_addr s else None"
    let ?g = "read_separator (CHR '':'') i (read_number is_ascii_hexdigit 4 (\<lambda>_. True)) s"
    show ?thesis
    proof (cases ?v4)
      case (Some rest)
      then have "read_separator (CHR '':'') i read_ipv4_addr s = Some rest" by (simp split: if_splits)
      with v4 have "\<exists>u. s = u @ rest \<and> list_all address_char u" by (rule consumesD)
      with False Some show ?thesis by (subst read_groups.simps) simp
    next
      case None
      show ?thesis
      proof (cases ?g)
        case none: None
        with False None show ?thesis by (subst read_groups.simps) simp
      next
        case (Some rest)
        from consumesD [OF group Some] obtain u where u: "s = u @ rest" "list_all address_char u" by blast
        from "1.IH" [OF False None Some] obtain v
          where v: "rest = v @ snd (snd (read_groups bound (Suc i) rest))" "list_all address_char v" by blast
        have step: "read_groups bound i s = read_groups bound (Suc i) rest"
          using False None Some by (subst read_groups.simps) simp
        from u v have "s = (u @ v) @ snd (snd (read_groups bound (Suc i) rest))" "list_all address_char (u @ v)"
          by simp_all
        then show ?thesis unfolding step by blast
      qed
    qed
  qed
qed

lemma consumes_ipv6: "consumes read_ipv6_addr"
proof -
  let ?rear = "\<lambda>n s. case read_groups (8 - (n + 1)) 0 s of (_, _, s) \<Rightarrow> Some s"
  have rear: "consumes (?rear n)" for n
    unfolding consumes_def using consumes_groups by (auto split: prod.splits) (metis snd_conv)
  have colon: "consumes (read_given_char (CHR '':''))"
    by (rule consumes_char) (simp add: address_char_def)
  have tail: "consumes (\<lambda>s. Option.bind (read_given_char (CHR '':'') s)
      (\<lambda>s. Option.bind (read_given_char (CHR '':'') s) (?rear n)))" for n
    by (intro consumes_bind colon rear)
  show ?thesis unfolding consumes_def
  proof (intro allI impI)
    fix s r assume r: "read_ipv6_addr s = Some r"
    obtain n v t where g: "read_groups 8 0 s = (n, v, t)" by (cases "read_groups 8 0 s") auto
    with consumes_groups [of s 8 0] obtain u where u: "s = u @ t" "list_all address_char u" by auto
    have "\<exists>w. t = w @ r \<and> list_all address_char w"
    proof (cases "n = 8")
      case True
      with r g show ?thesis by (simp add: read_ipv6_addr_def)
    next
      case False
      with r g have "Option.bind (read_given_char (CHR '':'') t)
          (\<lambda>s. Option.bind (read_given_char (CHR '':'') s) (?rear n)) = Some r"
        by (simp add: read_ipv6_addr_def split: if_splits)
      with tail show ?thesis by (rule consumesD)
    qed
    with u show "\<exists>u. s = u @ r \<and> list_all address_char u" by (metis append_assoc list_all_append)
  qed
qed

lemma is_ip_addr_text: "is_ip_addr s \<Longrightarrow> list_all address_char s"
  using consumesD [OF consumes_ipv4, of s "[]"] consumesD [OF consumes_ipv6, of s "[]"]
  by (auto simp: is_ip_addr_def split: option.splits)

text \<open>
  Text that OpenSSH reads as the one word it is: it does not look like an option and holds no white space, no
  quote and no expansion.
\<close>

definition plain_char :: "char \<Rightarrow> bool" where
  "plain_char c \<longleftrightarrow> is_ascii_alphanumeric c \<or> c \<in> {CHR ''.'', CHR ''_'', CHR ''-'', CHR '':''}"

definition plain_argument :: "string \<Rightarrow> bool" where
  "plain_argument s \<longleftrightarrow> s \<noteq> [] \<and> hd s \<noteq> CHR ''-'' \<and> list_all plain_char s"

lemma address_char_plain: "address_char c \<Longrightarrow> plain_char c \<and> c \<noteq> CHR ''-''"
proof -
  assume *: "address_char c"
  then have "byte c \<noteq> byte (CHR ''-'')" by (auto simp: address_char_def ascii_class_defs)
  then have "c \<noteq> CHR ''-''" by blast
  with * show ?thesis by (auto simp: address_char_def plain_char_def ascii_class_defs)
qed

lemma alphanumeric_not_hyphen: "is_ascii_alphanumeric c \<Longrightarrow> c \<noteq> CHR ''-''"
  by (auto simp: ascii_class_defs)

lemma plain_char_graphic: "plain_char c \<Longrightarrow> is_ascii_graphic c"
  by (auto simp: plain_char_def ascii_class_defs)

lemma validate_atom_plain: "validate_atom field v most first = Ok () \<Longrightarrow> plain_argument v"
  by (auto simp: validate_atom_def plain_argument_def plain_char_def list_all_iff dest: alphanumeric_not_hyphen
      split: list.splits if_splits)

lemma SshUser_new_plain: "SshUser_new v = Ok user \<Longrightarrow> user = SshUser v \<and> plain_argument v"
  by (auto simp: SshUser_new_def and_then_Inr_iff intro: validate_atom_plain)

lemma SshRemoteName_new_plain: "SshRemoteName_new v = Ok n \<Longrightarrow> n = SshRemoteName v \<and> plain_argument v"
  by (auto simp: SshRemoteName_new_def and_then_Inr_iff intro: validate_atom_plain)

lemma list_all_join: "list_all P sep \<Longrightarrow> \<forall>x \<in> set xs. list_all P x \<Longrightarrow> list_all P (join sep xs)"
  by (induction sep xs rule: join.induct) auto

lemma hd_join: "xs \<noteq> [] \<Longrightarrow> hd xs \<noteq> [] \<Longrightarrow> hd (join sep xs) = hd (hd xs)"
  by (induction sep xs rule: join.induct) auto

lemma dns_labels_plain:
  assumes "list_all valid_dns_label (split (CHR ''.'') name)"
  shows "plain_argument name"
proof -
  let ?ls = "split (CHR ''.'') name"
  have l: "valid_dns_label l" if "l \<in> set ?ls" for l using assms that by (simp add: list_all_iff)
  have "list_all plain_char (join ''.'' ?ls)"
    by (rule list_all_join) (auto simp: plain_char_def valid_dns_label_def list_all_iff dest!: l)
  then have "list_all plain_char name" by simp
  moreover have h: "valid_dns_label (hd ?ls)" by (rule l) simp
  then have "hd (join ''.'' ?ls) = hd (hd ?ls)" by (intro hd_join) (simp_all add: valid_dns_label_def)
  with h have "hd name \<noteq> CHR ''-''" by (simp add: valid_dns_label_def alphanumeric_not_hyphen)
  moreover have "name \<noteq> []"
    using h by (auto simp: valid_dns_label_def)
  ultimately show ?thesis by (simp add: plain_argument_def)
qed

lemma valid_dns_name_plain: "valid_dns_name v \<Longrightarrow> plain_argument v"
  by (auto simp: valid_dns_name_def Let_def strip_suffix_Some plain_argument_def plain_char_def
      dest!: dns_labels_plain split: option.splits if_splits)

lemma SshHost_new_plain: "SshHost_new v = Ok host \<Longrightarrow> host = SshHost v \<and> plain_argument v"
proof -
  assume "SshHost_new v = Ok host"
  then have v: "v \<noteq> []" "host = SshHost v" "is_ip_addr v \<or> valid_dns_name v"
    by (auto simp: SshHost_new_def split: if_splits)
  from v(3) show ?thesis
  proof
    assume "is_ip_addr v"
    then have "list_all address_char v" by (rule is_ip_addr_text)
    with v(1,2) show ?thesis
      by (cases v) (auto simp: plain_argument_def list_all_iff dest: address_char_plain)
  qed (use v valid_dns_name_plain in blast)
qed

section \<open>One pinned key\<close>

text \<open>What the documentation of the \<open>base64\<close> crate says of its padded engine.\<close>

definition base64_laws :: "base64 \<Rightarrow> bool" where
  "base64_laws b \<longleftrightarrow>
     (\<forall>x. standard_decode b (standard_encode b x) = Some x) \<and> standard_encode b [] = []
     \<and> (\<forall>x. list_all is_ascii_graphic (standard_encode b x))"

text \<open>A non-empty word of graphic ASCII characters.\<close>

definition ascii_word :: "string \<Rightarrow> bool" where
  "ascii_word s \<longleftrightarrow> s \<noteq> [] \<and> list_all is_ascii_graphic s"

lemma graphic_char:
  assumes "is_ascii_graphic c"
  shows "byte c < 128" "\<not> is_ascii_whitespace c" "\<not> is_whitespace (byte c)" "\<not> is_control (byte c)"
  using assms by (auto simp: is_ascii_graphic_def is_ascii_whitespace_def is_whitespace_def is_control_def)

lemma utf8_encode_ascii: "is_ascii s \<Longrightarrow> utf8_encode (map byte s) = s"
  by (induction s) (auto simp: utf8_encode_def utf8_char_def is_ascii_def)

lemma dropWhile_hd: "s = [] \<or> \<not> P (hd s) \<Longrightarrow> dropWhile P s = s"
  by (cases s) auto

lemma trim_ascii:
  assumes "is_ascii s" "s \<noteq> []" "\<not> is_whitespace (byte (hd s))" "\<not> is_whitespace (byte (last s))"
  shows "trim s = s"
proof -
  have "dropWhile is_whitespace (map byte s) = map byte s"
    by (rule dropWhile_hd) (use assms in \<open>simp add: hd_map\<close>)
  moreover have "dropWhile is_whitespace (rev (map byte s)) = rev (map byte s)"
    by (rule dropWhile_hd) (use assms in \<open>simp add: hd_rev last_map\<close>)
  ultimately show ?thesis using assms by (simp add: trim_def chars_ascii utf8_encode_ascii)
qed

definition three_words :: "string \<Rightarrow> string \<Rightarrow> string \<Rightarrow> string" where
  "three_words x y z = x @ '' '' @ y @ '' '' @ z"

lemma ascii_word_last: "ascii_word s \<Longrightarrow> is_ascii_graphic (last s)"
  by (simp add: ascii_word_def list_all_iff)

lemma ascii_word_hd: "ascii_word s \<Longrightarrow> is_ascii_graphic (hd s)"
  by (simp add: ascii_word_def list_all_iff)

lemma three_words_ascii:
  "ascii_word x \<Longrightarrow> ascii_word y \<Longrightarrow> ascii_word z \<Longrightarrow> is_ascii (three_words x y z)"
  by (auto simp: three_words_def is_ascii_def ascii_word_def list_all_iff dest: graphic_char)

lemma three_words_split:
  assumes "ascii_word x" "ascii_word y" "ascii_word z"
  shows "split_ascii_whitespace (three_words x y z) = [x, y, z]"
proof -
  have w: "split_by is_ascii_whitespace s = [s]" if "ascii_word s" for s
    using that by (intro split_by_singleton) (auto simp: ascii_word_def list_all_iff dest: graphic_char)
  have space: "is_ascii_whitespace (CHR '' '')" by (simp add: is_ascii_whitespace_def)
  have "split_by is_ascii_whitespace (three_words x y z) = [x, y, z]"
    unfolding three_words_def
    by (simp add: split_append_sep [where c = "CHR '' ''"] space w assms)
  with assms show ?thesis by (simp add: split_ascii_whitespace_def ascii_word_def)
qed

lemma known_hosts_entries_line:
  assumes "ascii_word x" "ascii_word y" "ascii_word z" "hd x \<noteq> CHR ''#''"
  shows "known_hosts_entries (three_words x y z @ [CHR 0x0A]) = [three_words x y z]"
proof -
  let ?l = "three_words x y z"
  have x: "x \<noteq> []" and z: "z \<noteq> []" using assms by (simp_all add: ascii_word_def)
  then have ends: "hd ?l = hd x" "last ?l = last z" "?l \<noteq> []" by (simp_all add: three_words_def)
  have nl: "CHR 0x0A \<notin> set ?l"
    using assms by (auto simp: three_words_def ascii_word_def list_all_iff is_ascii_graphic_def)
  have "split (CHR 0x0A) (?l @ [CHR 0x0A]) = [?l, []]"
    using split_append_sep [of "\<lambda>c. c = CHR 0x0A" ?l "CHR 0x0A" "[]"] nl by (simp add: split_no_sep)
  moreover have "last z \<noteq> CHR 0x0D"
    using ascii_word_last [OF assms(3)] by (auto simp: is_ascii_graphic_def)
  with ends have "strip_suffix [CHR 0x0D] ?l = None" by (auto simp: strip_suffix_def suffix_def)
  ultimately have "text_lines (?l @ [CHR 0x0A]) = [?l]" by (simp add: text_lines_def)
  moreover have "trim ?l = ?l"
    using ends ascii_word_last [OF assms(3)] ascii_word_hd [OF assms(1)]
    by (intro trim_ascii three_words_ascii assms) (simp_all add: graphic_char)
  ultimately show ?thesis using ends assms(4) by (cases ?l) (simp_all add: known_hosts_entries_def)
qed

lemma known_hosts_line_words: "known_hosts_line b x y blob = three_words x y (standard_encode b blob) @ [CHR 0x0A]"
  by (simp add: known_hosts_line_def three_words_def)

lemma supported_type_word: "supported_host_key_type t \<Longrightarrow> ascii_word t"
  by (auto simp: supported_host_key_type_def ascii_word_def is_ascii_graphic_def)

lemma encoded_word: "base64_laws b \<Longrightarrow> x \<noteq> [] \<Longrightarrow> ascii_word (standard_encode b x)"
  unfolding base64_laws_def ascii_word_def by (metis option.inject)

lemma decimal_graphic: "list_all is_ascii_graphic (decimal n)"
  using decimal_digits [of n] by (auto simp: list_all_iff is_ascii_digit_def is_ascii_graphic_def)

lemma expected_host_token_word:
  assumes "SshHost_new v = Ok host"
  shows "ascii_word (expected_host_token host port)" "hd (expected_host_token host port) \<noteq> CHR ''#''"
proof -
  have v: "host = SshHost v" "v \<noteq> []" "list_all plain_char v"
    using SshHost_new_plain [OF assms] by (simp_all add: plain_argument_def)
  then have g: "list_all is_ascii_graphic v" by (auto simp: list_all_iff intro: plain_char_graphic)
  have "plain_char (hd v)" using v by (simp add: list_all_iff)
  then have h: "hd v \<noteq> CHR ''#''" by (auto simp: plain_char_def ascii_class_defs)
  show "ascii_word (expected_host_token host port)"
    using v g decimal_graphic by (simp add: expected_host_token_def ascii_word_def is_ascii_graphic_def)
  show "hd (expected_host_token host port) \<noteq> CHR ''#''"
    using v h by (simp add: expected_host_token_def)
qed

lemma validate_known_hosts_Ok:
  "validate_known_hosts_bytes b digest bs token fp = Ok out \<longleftrightarrow>
   (\<exists>entry t encoded rest blob. utf8_valid bs \<and> known_hosts_entries bs = [entry]
      \<and> split_ascii_whitespace entry = token # t # encoded # rest \<and> supported_host_key_type t
      \<and> standard_decode b encoded = Some blob \<and> blob \<noteq> [] \<and> length blob \<le> MAX_HOST_KEY_BLOB_BYTES
      \<and> key_blob_type_matches blob t \<and> host_key_fingerprint b digest blob = fingerprint_text fp
      \<and> out = known_hosts_line b token t blob)"
  by (auto simp: validate_known_hosts_bytes_def not_less split: list.splits option.splits if_splits)

text \<open>The line of a supported key with the pinned fingerprint is accepted, and kept as it is.\<close>

lemma known_hosts_line_accepted:
  assumes "base64_laws b" "ascii_word token" "hd token \<noteq> CHR ''#''" "supported_host_key_type t" "blob \<noteq> []"
    "length blob \<le> MAX_HOST_KEY_BLOB_BYTES" "key_blob_type_matches blob t"
    "host_key_fingerprint b digest blob = fingerprint_text fp"
  shows "validate_known_hosts_bytes b digest (known_hosts_line b token t blob) token fp
    = Ok (known_hosts_line b token t blob)"
  unfolding validate_known_hosts_Ok
proof (intro exI conjI)
  let ?e = "standard_encode b blob"
  note words = assms(2) supported_type_word [OF assms(4)] encoded_word [OF assms(1,5)]
  show "utf8_valid (known_hosts_line b token t blob)"
    using three_words_ascii [OF words]
    by (intro utf8_valid_ascii) (simp add: known_hosts_line_words is_ascii_def ball_Un)
  show "known_hosts_entries (known_hosts_line b token t blob) = [three_words token t ?e]"
    unfolding known_hosts_line_words by (rule known_hosts_entries_line [OF words assms(3)])
  show "split_ascii_whitespace (three_words token t ?e) = token # t # ?e # []"
    by (rule three_words_split [OF words])
  show "standard_decode b ?e = Some blob" using assms(1) by (simp add: base64_laws_def)
qed (use assms in simp_all)

text \<open>
  C17 [known_hosts]: what validation keeps of a known-hosts file pins one key. For an accepted host, the published
  bytes are the one line of the endpoint with a key of a supported type whose SHA-256 digest is the configured
  fingerprint; the file had exactly one entry, and it named the endpoint and this key. The published line is a fixed
  point: validating it again accepts it and publishes the same bytes.
\<close>

theorem known_hosts_pin_one_key:
  assumes "base64_laws b" "SshHost_new v = Ok host"
    "validate_known_hosts_bytes b digest bs (expected_host_token host port) fp = Ok out"
  shows "\<exists>entry t encoded rest blob. known_hosts_entries bs = [entry]
      \<and> split_ascii_whitespace entry = expected_host_token host port # t # encoded # rest
      \<and> standard_decode b encoded = Some blob \<and> supported_host_key_type t \<and> key_blob_type_matches blob t
      \<and> length blob \<le> MAX_HOST_KEY_BLOB_BYTES
      \<and> host_key_fingerprint b digest blob = fingerprint_text fp
      \<and> out = known_hosts_line b (expected_host_token host port) t blob
      \<and> known_hosts_entries out = [butlast out]
      \<and> validate_known_hosts_bytes b digest out (expected_host_token host port) fp = Ok out"
proof -
  let ?token = "expected_host_token host port"
  from assms(3) obtain entry t encoded rest blob where *: "known_hosts_entries bs = [entry]"
      "split_ascii_whitespace entry = ?token # t # encoded # rest" "supported_host_key_type t"
      "standard_decode b encoded = Some blob" "blob \<noteq> []" "length blob \<le> MAX_HOST_KEY_BLOB_BYTES"
      "key_blob_type_matches blob t" "host_key_fingerprint b digest blob = fingerprint_text fp"
      "out = known_hosts_line b ?token t blob"
    unfolding validate_known_hosts_Ok by blast
  note token = expected_host_token_word [OF assms(2)]
  have "validate_known_hosts_bytes b digest out ?token fp = Ok out"
    unfolding *(9) by (rule known_hosts_line_accepted [OF assms(1) token *(3,5,6,7,8)])
  moreover have "known_hosts_entries out = [butlast out]"
    unfolding *(9) known_hosts_line_words
    using known_hosts_entries_line [OF token(1) supported_type_word [OF *(3)] encoded_word [OF assms(1) *(5)] token(2)]
    by simp
  ultimately show ?thesis using * by blast
qed

section \<open>An example\<close>

text \<open>An engine that satisfies the laws: two lowercase hexadecimal digits for each byte.\<close>

definition hex_value :: "char \<Rightarrow> nat" where
  "hex_value c = (if is_ascii_digit c then byte c - 48 else byte c - 87)"

fun hex_decode :: "string \<Rightarrow> bytes option" where
  "hex_decode [] = Some []"
| "hex_decode (h # l # s) =
     (if is_lower_hex h \<and> is_lower_hex l
      then map_option (\<lambda>bs. char_of (16 * hex_value h + hex_value l) # bs) (hex_decode s) else None)"
| "hex_decode [_] = None"

definition hex_engine :: base64 where
  "hex_engine = \<lparr>standard_encode = hex_encode, standard_decode = hex_decode,
     no_pad_encode = hex_encode, no_pad_decode = hex_decode\<rparr>"

lemma hex_value_digit: "n < 16 \<Longrightarrow> hex_value (hex_digit n) = n"
  by (auto simp: hex_value_def hex_digit_def is_ascii_digit_def)

lemma hex_decode_encode: "hex_decode (hex_encode bs) = Some bs"
proof (induction bs)
  case (Cons c bs)
  have "byte c div 16 < 16" using byte_less_256 [of c] by linarith
  then show ?case using Cons
    by (simp add: hex_encode_def hex_value_digit hex_digit_lower)
qed (simp add: hex_encode_def)

lemma hex_engine_laws: "base64_laws hex_engine"
proof -
  have "list_all is_ascii_graphic (hex_encode x)" for x
    using hex_encode_lower [of x] by (auto simp: list_all_iff ascii_class_defs)
  then show ?thesis by (simp add: base64_laws_def hex_engine_def hex_decode_encode)
qed

text \<open>A digest of 32 bytes, a short Ed25519 key, and a file that names it after a comment.\<close>

definition pad_digest :: "bytes \<Rightarrow> bytes" where
  "pad_digest blob = take 32 (blob @ replicate 32 (CHR ''.''))"

definition mac_key :: bytes where
  "mac_key = be_bytes 4 11 @ ''ssh-ed25519'' @ ''key''"

definition mac_host :: SshHost where
  "mac_host = SshHost ''mac.example''"

definition mac_fingerprint :: SshHostKeySha256 where
  "mac_fingerprint = SshHostKeySha256 (host_key_fingerprint hex_engine pad_digest mac_key)"

definition mac_line :: bytes where
  "mac_line = known_hosts_line hex_engine ''[mac.example]:2222'' ''ssh-ed25519'' mac_key"

definition mac_file :: bytes where
  "mac_file = ''# the build machine'' @ [CHR 0x0D, CHR 0x0A, CHR 0x09] @ butlast mac_line @ '' root@mac''"

lemma mac_host_new: "SshHost_new ''mac.example'' = Ok mac_host"
  by code_simp

lemma mac_token: "expected_host_token mac_host 2222 = ''[mac.example]:2222''"
  by code_simp

lemmas text_eval = text_lines_def trim_def strip_suffix_def suffix_def is_whitespace_def utf8_encode_def utf8_char_def
  char_of_def bit_0

lemma mac_key_encoded: "hex_encode mac_key = ''0000000b7373682d656432353531396b6579''"
  by code_simp

lemma mac_line_text: "mac_line = ''[mac.example]:2222 ssh-ed25519 0000000b7373682d656432353531396b6579'' @ [CHR 0x0A]"
  by (simp add: mac_line_def known_hosts_line_def hex_engine_def mac_key_encoded)

lemma mac_file_entries: "known_hosts_entries mac_file = [butlast mac_line @ '' root@mac'']"
  by (simp add: mac_file_def mac_line_text known_hosts_entries_def text_eval)

lemma mac_file_valid:
  "validate_known_hosts_bytes hex_engine pad_digest mac_file (expected_host_token mac_host 2222) mac_fingerprint
     = Ok mac_line"
  unfolding validate_known_hosts_Ok
proof (intro exI conjI)
  show "utf8_valid mac_file"
    by (intro utf8_valid_ascii) (simp add: mac_file_def mac_line_text is_ascii_def)
  show "split_ascii_whitespace (butlast mac_line @ '' root@mac'')
      = expected_host_token mac_host 2222 # ''ssh-ed25519'' # hex_encode mac_key # [''root@mac'']"
    by (simp add: mac_line_text mac_token mac_key_encoded split_ascii_whitespace_def is_ascii_whitespace_def)
  show "standard_decode hex_engine (hex_encode mac_key) = Some mac_key"
    by (simp add: hex_engine_def hex_decode_encode)
  show "key_blob_type_matches mac_key ''ssh-ed25519''"
    by code_simp
qed (simp_all add: mac_file_entries mac_token mac_line_def mac_fingerprint_def supported_host_key_type_def mac_key_def
    MAX_HOST_KEY_BLOB_BYTES_def)

text \<open>The theorem at a file with a comment, a carriage return, leading white space and a trailing comment.\<close>

theorem known_hosts_pin_one_key_witness:
  "base64_laws hex_engine \<and> SshHost_new ''mac.example'' = Ok mac_host
   \<and> (\<exists>entry t encoded rest blob. known_hosts_entries mac_file = [entry]
      \<and> split_ascii_whitespace entry = expected_host_token mac_host 2222 # t # encoded # rest
      \<and> standard_decode hex_engine encoded = Some blob \<and> supported_host_key_type t \<and> key_blob_type_matches blob t
      \<and> length blob \<le> MAX_HOST_KEY_BLOB_BYTES
      \<and> host_key_fingerprint hex_engine pad_digest blob = fingerprint_text mac_fingerprint
      \<and> mac_line = known_hosts_line hex_engine (expected_host_token mac_host 2222) t blob
      \<and> known_hosts_entries mac_line = [butlast mac_line]
      \<and> validate_known_hosts_bytes hex_engine pad_digest mac_line (expected_host_token mac_host 2222) mac_fingerprint
          = Ok mac_line)"
  using hex_engine_laws mac_host_new known_hosts_pin_one_key [OF hex_engine_laws mac_host_new mac_file_valid] by blast

section \<open>The identity file is private\<close>

text \<open>A directory above the identity file that no one but its owner and the superuser can rearrange.\<close>

definition trusted_ancestor :: "u32 \<Rightarrow> path_metadata \<Rightarrow> bool" where
  "trusted_ancestor key_uid m \<longleftrightarrow> (md_uid m = key_uid \<or> md_uid m = 0)
     \<and> (md_is_symlink m \<or> md_is_dir m \<and> (and (md_mode m) 18 = 0 \<or> and (md_mode m) 512 \<noteq> 0))"

lemma validate_identity_ancestor_Ok:
  "validate_identity_ancestor uid answer = Ok u \<longleftrightarrow> (\<exists>m. answer = Some m \<and> trusted_ancestor uid m)"
  by (auto simp: validate_identity_ancestor_def trusted_ancestor_def Let_def split: option.splits if_splits)

lemma validate_unix_identity_ancestors_Ok:
  "validate_unix_identity_ancestors w xs uid = Ok () \<longleftrightarrow>
   (\<forall>i < length xs. \<exists>m. fs_symlink_metadata (w i) (xs ! i) = Some m \<and> trusted_ancestor uid m)"
proof (induction xs arbitrary: w)
  case (Cons x xs)
  then show ?case
    by (auto simp: and_then_Inr_iff validate_identity_ancestor_Ok later_def less_Suc_eq_0_disj)
qed simp

lemma validate_sensitive_path_Ok:
  "validate_sensitive_path path field = Ok () \<longleftrightarrow> is_absolute path \<and> \<not> has_control path
     \<and> byte (CHR ''%'') \<notin> set (chars path) \<and> byte (CHR ''$'') \<notin> set (chars path)"
  by (auto simp: validate_sensitive_path_def has_control_def list_ex_iff)

lemma validate_identity_metadata_Ok:
  "validate_identity_metadata m = Ok () \<longleftrightarrow>
   md_is_file m \<and> md_len m \<noteq> 0 \<and> and (md_mode m) 63 = 0 \<and> md_nlink m = 1"
  by (simp add: validate_identity_metadata_def)

lemma recheck_open_file_identity_Ok:
  "recheck_open_file_identity w path opened field = Ok () \<longleftrightarrow>
   (\<exists>m. fs_symlink_metadata (w 0) path = Some m \<and> \<not> md_is_symlink m \<and> md_is_file m \<and> same_open_file_identity opened m)"
  by (auto simp: recheck_open_file_identity_def split: option.splits)

lemma validate_unix_identity_path_Ok:
  "validate_unix_identity_path w path opened = Ok () \<longleftrightarrow>
   (\<exists>canonical m. fs_canonicalize (w 0) path = Some canonical \<and> fs_symlink_metadata (w 1) canonical = Some m
      \<and> same_open_file_identity opened m
      \<and> validate_unix_identity_ancestors (later 2 w) (proper_ancestors path) (md_uid opened) = Ok ()
      \<and> validate_unix_identity_ancestors (later (2 + length (proper_ancestors path)) w) (proper_ancestors canonical)
          (md_uid opened) = Ok ())"
  by (auto simp: validate_unix_identity_path_def same_open_file_identity_def Let_def and_then_Inr_iff
      split: option.splits)

lemma guard_revalidate_Ok:
  "SshIdentityFileGuard_revalidate w g = Ok () \<longleftrightarrow>
   (\<exists>opened. fs_metadata (w 0) (guard_file g) = Some opened \<and> validate_identity_metadata opened = Ok ()
      \<and> recheck_open_file_identity (later 1 w) (guard_path g) opened ''identity_file'' = Ok ()
      \<and> validate_unix_identity_path (later 2 w) (guard_path g) opened = Ok ())"
  by (auto simp: SshIdentityFileGuard_revalidate_def and_then_Inr_iff split: option.splits)

lemma open_identity_file_guard_Ok:
  assumes "open_identity_file_guard e c = Ok (Some g)"
  shows "endpoint_identity_file c = Some (guard_path g)"
    "validate_sensitive_path (guard_path g) ''identity_file'' = Ok ()"
    "SshIdentityFileGuard_revalidate (checking_identity e) g = Ok ()"
proof -
  from assms obtain path where p: "endpoint_identity_file c = Some path"
    by (auto simp: open_identity_file_guard_def split: option.splits)
  with assms obtain h where "open_identity_no_follow (opening_identity e) path = Ok h"
      "g = \<lparr>guard_path = path, guard_file = h\<rparr>"
      "SshIdentityFileGuard_revalidate (checking_identity e) g = Ok ()"
    by (auto simp: open_identity_file_guard_def and_then_Inr_iff Let_def)
  with p show "endpoint_identity_file c = Some (guard_path g)"
    "validate_sensitive_path (guard_path g) ''identity_file'' = Ok ()"
    "SshIdentityFileGuard_revalidate (checking_identity e) g = Ok ()"
    by (auto simp: open_identity_no_follow_def and_then_Inr_iff)
qed

text \<open>
  C16 [identity_private]: an identity file is handed to OpenSSH only behind a guard, and when the guard is given out its
  open file is a regular, non-empty file with one link that neither group nor others may access; its path is
  absolute and free of control characters and of OpenSSH's expansions; the path and its canonical form both name
  this very file; and every directory above the path and above its canonical form belongs to the key's owner or the
  superuser and cannot be rearranged by others. Every one of these was asked of the file system at its own time.
\<close>

theorem identity_file_is_private:
  assumes "open_identity_file_guard e c = Ok (Some g)"
  shows "\<exists>m named canonical at_canonical. let w = checking_identity e; path = guard_path g;
        above = length (proper_ancestors path) in
      endpoint_identity_file c = Some path \<and> is_absolute path \<and> \<not> has_control path
      \<and> byte (CHR ''%'') \<notin> set (chars path) \<and> byte (CHR ''$'') \<notin> set (chars path)
      \<and> fs_metadata (w 0) (guard_file g) = Some m
      \<and> md_is_file m \<and> md_len m \<noteq> 0 \<and> and (md_mode m) 63 = 0 \<and> md_nlink m = 1
      \<and> fs_symlink_metadata (w 1) path = Some named \<and> \<not> md_is_symlink named \<and> same_open_file_identity m named
      \<and> fs_canonicalize (w 2) path = Some canonical
      \<and> fs_symlink_metadata (w 3) canonical = Some at_canonical \<and> same_open_file_identity m at_canonical
      \<and> (\<forall>i < above. \<exists>a. fs_symlink_metadata (w (4 + i)) (proper_ancestors path ! i) = Some a
            \<and> trusted_ancestor (md_uid m) a)
      \<and> (\<forall>i < length (proper_ancestors canonical).
            \<exists>a. fs_symlink_metadata (w (4 + above + i)) (proper_ancestors canonical ! i) = Some a
              \<and> trusted_ancestor (md_uid m) a)"
proof -
  note g = open_identity_file_guard_Ok [OF assms]
  from g(3) obtain m where m: "fs_metadata (checking_identity e 0) (guard_file g) = Some m"
      "validate_identity_metadata m = Ok ()"
      "recheck_open_file_identity (later 1 (checking_identity e)) (guard_path g) m ''identity_file'' = Ok ()"
      "validate_unix_identity_path (later 2 (checking_identity e)) (guard_path g) m = Ok ()"
    unfolding guard_revalidate_Ok by blast
  from m(3) obtain named where n: "fs_symlink_metadata (checking_identity e 1) (guard_path g) = Some named"
      "\<not> md_is_symlink named" "same_open_file_identity m named"
    unfolding recheck_open_file_identity_Ok by (auto simp: later_def)
  from m(4) obtain canonical at_canonical where k:
      "fs_canonicalize (later 2 (checking_identity e) 0) (guard_path g) = Some canonical"
      "fs_symlink_metadata (later 2 (checking_identity e) 1) canonical = Some at_canonical"
      "same_open_file_identity m at_canonical"
      "validate_unix_identity_ancestors (later 2 (later 2 (checking_identity e))) (proper_ancestors (guard_path g))
         (md_uid m) = Ok ()"
      "validate_unix_identity_ancestors (later (2 + length (proper_ancestors (guard_path g)))
         (later 2 (checking_identity e))) (proper_ancestors canonical) (md_uid m) = Ok ()"
    unfolding validate_unix_identity_path_Ok by blast
  show ?thesis
    unfolding Let_def
    using g(1,2) m(1,2) n k
    by (intro exI [of _ m] exI [of _ named] exI [of _ canonical] exI [of _ at_canonical])
      (simp add: validate_sensitive_path_Ok validate_identity_metadata_Ok validate_unix_identity_ancestors_Ok
        later_def eval_nat_numeral)
qed

text \<open>An endpoint whose files are in order, in a file system that stays as it is.\<close>

definition mac_file_metadata :: "u64 \<Rightarrow> u32 \<Rightarrow> path_metadata" where
  "mac_file_metadata inode mode = \<lparr>md_is_file = True, md_is_symlink = False, md_len = 90, md_modified = None,
     md_device = 1, md_inode = inode, md_mode = mode, md_nlink = 1, md_is_dir = False, md_uid = 501\<rparr>"

definition mac_directory_metadata :: "u64 \<Rightarrow> u32 \<Rightarrow> path_metadata" where
  "mac_directory_metadata inode mode = \<lparr>md_is_file = False, md_is_symlink = False, md_len = 96, md_modified = None,
     md_device = 1, md_inode = inode, md_mode = mode, md_nlink = 2, md_is_dir = True, md_uid = 501\<rparr>"

definition mac_fs :: fs_state where
  "mac_fs = \<lparr>
     fs_symlink_metadata = (\<lambda>p. if p = ''/me/key'' then Some (mac_file_metadata 1 384)
       else if p = ''/me/hosts'' then Some (mac_file_metadata 2 420)
       else if p = ''/tmp/ferry/hosts'' then Some (mac_file_metadata 3 384)
       else if p = ''/tmp/ferry'' then Some (mac_directory_metadata 4 448)
       else if p = ''/tmp'' then Some (mac_directory_metadata 5 1023)
       else Some (mac_directory_metadata 6 493)),
     fs_canonicalize = Some,
     fs_open = (\<lambda>p. if p = ''/me/key'' then Some 1 else if p = ''/me/hosts'' then Some 2 else Some 4),
     fs_metadata = (\<lambda>h. if h = 1 then Some (mac_file_metadata 1 384) else if h = 2 then Some (mac_file_metadata 2 420)
       else Some (mac_directory_metadata 4 448)),
     fs_read = (\<lambda>h. Some mac_file)\<rparr>"

definition mac_world :: endpoint_world where
  "mac_world = \<lparr>reading_known_hosts = \<lambda>_. mac_fs, opening_identity = \<lambda>_. mac_fs, checking_identity = \<lambda>_. mac_fs\<rparr>"

definition mac_endpoint :: SshEndpointConfig where
  "mac_endpoint = \<lparr>endpoint_remote_name = SshRemoteName ''studio'', endpoint_host = mac_host,
     endpoint_user = SshUser ''_ferry'', endpoint_port = 2222, endpoint_known_hosts_file = ''/me/hosts'',
     endpoint_host_key_sha256 = mac_fingerprint, endpoint_identity_file = Some ''/me/key''\<rparr>"

definition mac_guard :: SshIdentityFileGuard where
  "mac_guard = \<lparr>guard_path = ''/me/key'', guard_file = 1\<rparr>"

lemma mac_ancestors: "proper_ancestors ''/me/key'' = [''/me'', ''/'']"
  by (simp add: proper_ancestors_def path_components_def path_text_def)

lemma mac_paths:
  "validate_sensitive_path ''/me/key'' field = Ok ()" "validate_sensitive_path ''/me/hosts'' field = Ok ()"
  by (simp_all add: validate_sensitive_path_def is_absolute_def is_control_def)

lemma mac_guard_revalidate: "SshIdentityFileGuard_revalidate (\<lambda>_. mac_fs) mac_guard = Ok ()"
  by (simp add: SshIdentityFileGuard_revalidate_def mac_guard_def mac_fs_def mac_file_metadata_def later_def
      validate_identity_metadata_def recheck_open_file_identity_def validate_unix_identity_path_def
      same_open_file_identity_def mac_ancestors validate_identity_ancestor_def mac_directory_metadata_def)

lemma mac_guard_opened: "open_identity_file_guard mac_world mac_endpoint = Ok (Some mac_guard)"
proof -
  have "open_identity_no_follow (\<lambda>_. mac_fs) ''/me/key'' = Ok 1"
    using mac_guard_revalidate
    by (simp add: open_identity_no_follow_def mac_paths open_no_follow_def SshIdentityFileGuard_revalidate_def
        mac_guard_def later_def and_then_Inr_iff mac_fs_def mac_file_metadata_def split: option.splits)
  then show ?thesis
    using mac_guard_revalidate
    by (simp add: open_identity_file_guard_def mac_world_def mac_endpoint_def mac_guard_def)
qed

lemma mac_known_hosts_read: "validated_known_hosts_bytes hex_engine pad_digest mac_world mac_endpoint = Ok mac_line"
proof -
  have "length mac_file \<le> 16384" by (simp add: mac_file_def mac_line_text)
  then have "read_known_hosts_no_follow (\<lambda>_. mac_fs) ''/me/hosts'' = Ok mac_file"
    by (simp add: read_known_hosts_no_follow_def mac_paths open_no_follow_def mac_fs_def mac_file_metadata_def later_def
        validate_known_hosts_metadata_def recheck_open_file_identity_def same_open_file_identity_def
        MAX_KNOWN_HOSTS_BYTES_def)
  with mac_file_valid show ?thesis
    by (simp add: validated_known_hosts_bytes_def mac_world_def mac_endpoint_def)
qed

text \<open>The theorem at this endpoint.\<close>

theorem identity_file_is_private_witness:
  "open_identity_file_guard mac_world mac_endpoint = Ok (Some mac_guard)
   \<and> (\<exists>m. fs_metadata (checking_identity mac_world 0) (guard_file mac_guard) = Some m \<and> and (md_mode m) 63 = 0)"
  using mac_guard_opened identity_file_is_private [OF mac_guard_opened] by (auto simp: Let_def)

end
