(* ===== verification/Stdio.thy ===== *)
theory Stdio
  imports Provider Rust_Io
begin

text \<open>
  The one-request control plane of a worker (\<^verbatim>\<open>src/crates/rustferry-remote/src/stdio.rs\<close>): request and response
  envelopes with their validation, the strict mirror types the decoder reads into, and the bounded codec over
  readers and writers. The derived JSON serializers are parameters: a serializer is the pieces it hands to its
  writer and whether it gets to its end by itself.
\<close>

section \<open>Envelopes\<close>

definition WORKER_STDIO_SCHEMA_VERSION :: u32 where "WORKER_STDIO_SCHEMA_VERSION = 1"
definition MAX_WORKER_STDIO_REQUEST_BYTES :: nat where "MAX_WORKER_STDIO_REQUEST_BYTES = 64 * 1024"
definition MAX_WORKER_STDIO_RESPONSE_BYTES :: nat where "MAX_WORKER_STDIO_RESPONSE_BYTES = 1024 * 1024"
definition MAX_REQUIRED_FEATURES :: nat where "MAX_REQUIRED_FEATURES = 64"
definition MAX_VERSION_BYTES :: nat where "MAX_VERSION_BYTES = 128"
definition MAX_PROVIDER_CHECKS :: nat where "MAX_PROVIDER_CHECKS = 256"
definition MAX_CHECK_MESSAGE_BYTES :: nat where "MAX_CHECK_MESSAGE_BYTES = 512"
definition MAX_CHECK_HELP_BYTES :: nat where "MAX_CHECK_HELP_BYTES = 1024"

datatype WorkerStdioRequest = HandshakeOp HandshakeRequest | ProviderDoctorOp ProviderDoctorRequest

record WorkerStdioRequestEnvelope =
  request_schema_version :: u32
  envelope_request :: WorkerStdioRequest

record WorkerStdioErrorResponse =
  stdio_error_code :: string
  stdio_error_message :: string
  stdio_error_retryable :: bool

datatype WorkerStdioResponse =
    HandshakeAnswer HandshakeResponse
  | ProviderDoctorAnswer ProviderDoctorReport
  | ErrorAnswer WorkerStdioErrorResponse

record WorkerStdioResponseEnvelope =
  response_schema_version :: u32
  envelope_response :: WorkerStdioResponse

text \<open>The constructors carry a prefix where the frame errors of the data plane have the same name.\<close>

datatype WorkerStdioCodecError =
    StdioIo
  | StdioEmptyInput
  | TruncatedJson
  | MalformedJson
  | RequestTooLarge
  | ResponseTooLarge
  | StdioUnsupportedSchemaVersion u32 u32
  | StdioIncompatibleProtocolVersion ProtocolVersion ProtocolVersion
  | InvalidRequest
  | InvalidResponse

definition codec_error_code :: "WorkerStdioCodecError \<Rightarrow> string" where
  "codec_error_code e =
     (case e of
        StdioIo \<Rightarrow> ''stdio_io_failed''
      | StdioEmptyInput \<Rightarrow> ''empty_request''
      | TruncatedJson \<Rightarrow> ''truncated_json''
      | MalformedJson \<Rightarrow> ''malformed_json''
      | RequestTooLarge \<Rightarrow> ''request_too_large''
      | ResponseTooLarge \<Rightarrow> ''response_too_large''
      | StdioUnsupportedSchemaVersion _ _ \<Rightarrow> ''unsupported_schema_version''
      | StdioIncompatibleProtocolVersion _ _ \<Rightarrow> ''incompatible_protocol_version''
      | InvalidRequest \<Rightarrow> ''invalid_request''
      | InvalidResponse \<Rightarrow> ''invalid_response'')"

definition public_message :: "WorkerStdioCodecError \<Rightarrow> string" where
  "public_message e =
     (case e of
        StdioIo \<Rightarrow> ''worker stdio transport failed''
      | StdioEmptyInput \<Rightarrow> ''worker request is empty''
      | TruncatedJson \<Rightarrow> ''worker request ended before one JSON document was complete''
      | MalformedJson \<Rightarrow> ''worker request is not a valid strict JSON envelope''
      | RequestTooLarge \<Rightarrow> ''worker request exceeds the accepted byte limit''
      | ResponseTooLarge \<Rightarrow> ''worker response exceeds the accepted byte limit''
      | StdioUnsupportedSchemaVersion _ _ \<Rightarrow> ''worker stdio schema version is unsupported''
      | StdioIncompatibleProtocolVersion _ _ \<Rightarrow> ''worker and client protocol versions are incompatible''
      | InvalidRequest \<Rightarrow> ''worker request failed semantic validation''
      | InvalidResponse \<Rightarrow> ''worker response failed semantic validation'')"

definition RequestEnvelope_new :: "WorkerStdioRequest \<Rightarrow> WorkerStdioRequestEnvelope" where
  "RequestEnvelope_new r = \<lparr>request_schema_version = WORKER_STDIO_SCHEMA_VERSION, envelope_request = r\<rparr>"

definition ResponseEnvelope_new :: "WorkerStdioResponse \<Rightarrow> WorkerStdioResponseEnvelope" where
  "ResponseEnvelope_new r = \<lparr>response_schema_version = WORKER_STDIO_SCHEMA_VERSION, envelope_response = r\<rparr>"

definition ResponseEnvelope_error :: "string \<Rightarrow> string \<Rightarrow> bool \<Rightarrow> WorkerStdioResponseEnvelope" where
  "ResponseEnvelope_error c m r =
     ResponseEnvelope_new (ErrorAnswer \<lparr>stdio_error_code = c, stdio_error_message = m, stdio_error_retryable = r\<rparr>)"

definition validate_schema_version :: "u32 \<Rightarrow> WorkerStdioCodecError + unit" where
  "validate_schema_version v =
     (if v = WORKER_STDIO_SCHEMA_VERSION then Ok ()
      else Err (StdioUnsupportedSchemaVersion WORKER_STDIO_SCHEMA_VERSION v))"

definition valid_identifier :: "string \<Rightarrow> bool" where
  "valid_identifier v \<longleftrightarrow> v \<noteq> [] \<and> length v \<le> 160
     \<and> list_all (\<lambda>b. is_ascii_alphanumeric b \<or> b \<in> {CHR ''-'', CHR ''_'', CHR ''.'', CHR '':''}) v"

definition valid_public_text :: "string \<Rightarrow> nat \<Rightarrow> bool" where
  "valid_public_text v maximum_bytes \<longleftrightarrow> v \<noteq> [] \<and> length v \<le> maximum_bytes \<and> \<not> has_control v"

text \<open>The version check that every branch of both validators makes.\<close>

definition check_protocol :: "ProtocolVersion \<Rightarrow> WorkerStdioCodecError + unit" where
  "check_protocol v =
     and_then (map_err (\<lambda>_. StdioIncompatibleProtocolVersion CURRENT_PROTOCOL_VERSION v)
       (negotiate CURRENT_PROTOCOL_VERSION v)) (\<lambda>_. Ok ())"

definition RequestEnvelope_validate :: "WorkerStdioRequestEnvelope \<Rightarrow> WorkerStdioCodecError + unit" where
  "RequestEnvelope_validate e =
     and_then (validate_schema_version (request_schema_version e)) (\<lambda>_.
       case envelope_request e of
         HandshakeOp r \<Rightarrow>
           run_checks
             [check_protocol (hs_protocol_version r),
              reject_if (length (required_features r) > MAX_REQUIRED_FEATURES) InvalidRequest,
              reject_if (length (client_version r) > MAX_VERSION_BYTES) InvalidRequest]
       | ProviderDoctorOp r \<Rightarrow>
           run_checks
             [check_protocol (doctor_protocol_version r),
              reject_if (\<not> valid_identifier (doctor_operation_id r)) InvalidRequest])"

definition bad_check :: "ProviderCheck \<Rightarrow> bool" where
  "bad_check c \<longleftrightarrow> \<not> valid_identifier (check_code c) \<or> \<not> valid_public_text (check_message c) MAX_CHECK_MESSAGE_BYTES
     \<or> (case check_help c of None \<Rightarrow> False | Some help \<Rightarrow> \<not> valid_public_text help MAX_CHECK_HELP_BYTES)"

definition ResponseEnvelope_validate :: "WorkerStdioResponseEnvelope \<Rightarrow> WorkerStdioCodecError + unit" where
  "ResponseEnvelope_validate e =
     and_then (validate_schema_version (response_schema_version e)) (\<lambda>_.
       case envelope_response e of
         HandshakeAnswer r \<Rightarrow>
           run_checks
             [check_protocol (hr_protocol_version r),
              reject_if (\<not> valid_identifier (hr_provider r) \<or> \<not> valid_identifier (hr_worker_id r)) InvalidResponse,
              reject_if (length (worker_version r) > MAX_VERSION_BYTES) InvalidResponse]
       | ProviderDoctorAnswer r \<Rightarrow>
           run_checks
             [check_protocol (report_protocol_version r),
              reject_if (\<not> valid_identifier (report_provider r)) InvalidResponse,
              reject_if (length (report_checks r) > MAX_PROVIDER_CHECKS \<or> list_ex bad_check (report_checks r)
                \<or> report_ready r \<noteq> list_all (\<lambda>c. check_status c \<noteq> CheckError) (report_checks r)) InvalidResponse]
       | ErrorAnswer x \<Rightarrow>
           reject_if (\<not> valid_identifier (stdio_error_code x)
             \<or> \<not> valid_public_text (stdio_error_message x) MAX_CHECK_MESSAGE_BYTES) InvalidResponse)"

section \<open>Bounded codec\<close>

record BoundedOutput =
  out_bytes :: bytes
  out_maximum :: nat
  exceeded :: bool

definition BoundedOutput_new :: "nat \<Rightarrow> BoundedOutput" where
  "BoundedOutput_new maximum = \<lparr>out_bytes = [], out_maximum = maximum, exceeded = False\<rparr>"

text \<open>\<open>write\<close> takes all of its input or fails, so \<open>write_all\<close> is one \<open>write\<close>.\<close>

definition BoundedOutput_write :: "bytes \<Rightarrow> BoundedOutput \<Rightarrow> bool \<times> BoundedOutput" where
  "BoundedOutput_write bs w =
     (if length bs > out_maximum w - length (out_bytes w) then (False, w\<lparr>exceeded := True\<rparr>)
      else (True, w\<lparr>out_bytes := out_bytes w @ bs\<rparr>))"

text \<open>
  \<open>serde_json::to_writer\<close>: the pieces go to the writer until one fails; the flag says whether the serializer
  itself gets to the end.
\<close>

type_synonym serialized = "bytes list \<times> bool"

fun to_writer :: "serialized \<Rightarrow> BoundedOutput \<Rightarrow> bool \<times> BoundedOutput" where
  "to_writer ([], complete) w = (complete, w)"
| "to_writer (piece # rest, complete) w =
     (case BoundedOutput_write piece w of
        (False, w') \<Rightarrow> (False, w')
      | (True, w') \<Rightarrow> to_writer (rest, complete) w')"

definition encode_bounded ::
    "nat \<Rightarrow> WorkerStdioCodecError \<Rightarrow> WorkerStdioCodecError \<Rightarrow> serialized \<Rightarrow> writer
     \<Rightarrow> (WorkerStdioCodecError + unit) \<times> writer" where
  "encode_bounded maximum too_large invalid pieces w =
     (case to_writer pieces (BoundedOutput_new maximum) of
        (False, encoded) \<Rightarrow> (Err (if exceeded encoded then too_large else invalid), w)
      | (True, encoded) \<Rightarrow>
          (case BoundedOutput_write [CHR 0x0A] encoded of
             (False, _) \<Rightarrow> (Err too_large, w)
           | (True, encoded') \<Rightarrow>
               (case write_all (out_bytes encoded') w of (ok, w') \<Rightarrow> (if ok then Ok () else Err StdioIo, w'))))"

definition encode_worker_stdio_request ::
    "(WorkerStdioRequestEnvelope \<Rightarrow> serialized) \<Rightarrow> writer \<Rightarrow> WorkerStdioRequestEnvelope
     \<Rightarrow> (WorkerStdioCodecError + unit) \<times> writer" where
  "encode_worker_stdio_request serialize w e =
     (case RequestEnvelope_validate e of
        Inl x \<Rightarrow> (Err x, w)
      | Inr _ \<Rightarrow> encode_bounded MAX_WORKER_STDIO_REQUEST_BYTES RequestTooLarge InvalidRequest (serialize e) w)"

definition encode_worker_stdio_response ::
    "(WorkerStdioResponseEnvelope \<Rightarrow> serialized) \<Rightarrow> writer \<Rightarrow> WorkerStdioResponseEnvelope
     \<Rightarrow> (WorkerStdioCodecError + unit) \<times> writer" where
  "encode_worker_stdio_response serialize w e =
     (case ResponseEnvelope_validate e of
        Inl x \<Rightarrow> (Err x, w)
      | Inr _ \<Rightarrow> encode_bounded MAX_WORKER_STDIO_RESPONSE_BYTES ResponseTooLarge InvalidResponse (serialize e) w)"

definition read_bounded :: "reader \<Rightarrow> nat \<Rightarrow> bool \<Rightarrow> (WorkerStdioCodecError + bytes) \<times> reader" where
  "read_bounded r maximum is_request =
     (case take_to_end (maximum + 1) [] r of
        (None, r') \<Rightarrow> (Err StdioIo, r')
      | (Some bs, r') \<Rightarrow>
          (if length bs > maximum then Err (if is_request then RequestTooLarge else ResponseTooLarge)
           else if list_all is_ascii_whitespace bs then Err StdioEmptyInput
           else Ok bs, r'))"

text \<open>A failed parse says whether the input ended inside the document.\<close>

definition decode_json :: "(bytes \<Rightarrow> bool + 'a) \<Rightarrow> bytes \<Rightarrow> WorkerStdioCodecError + 'a" where
  "decode_json from_slice bs = map_err (\<lambda>is_eof. if is_eof then TruncatedJson else MalformedJson) (from_slice bs)"

section \<open>Strict mirror types\<close>

text \<open>
  The decoder reads into types that refuse unknown fields and copies them, field by field, into the public
  types.
\<close>

record StrictProtocolVersion =
  strict_major :: u16
  strict_minor :: u16

definition version_from_strict :: "StrictProtocolVersion \<Rightarrow> ProtocolVersion" where
  "version_from_strict v = ProtocolVersion_new (strict_major v) (strict_minor v)"

datatype StrictProviderFeature =
    StrictSourceMode SourceMode
  | StrictIosDeviceBuild
  | StrictIosSimulatorBuild
  | StrictSigningMode SigningMode
  | StrictPersonalTeam
  | StrictLiveEvents
  | StrictLiveLogs
  | StrictCancellation
  | StrictArtifactType IosArtifactType
  | StrictCache
  | StrictArtifactListing
  | StrictArtifactDownload
  | StrictCleanup
  | StrictPhysicalDeviceAccess

definition feature_from_strict :: "StrictProviderFeature \<Rightarrow> ProviderFeature" where
  "feature_from_strict f =
     (case f of
        StrictSourceMode v \<Rightarrow> SourceMode v
      | StrictIosDeviceBuild \<Rightarrow> IosDeviceBuild
      | StrictIosSimulatorBuild \<Rightarrow> IosSimulatorBuild
      | StrictSigningMode v \<Rightarrow> SigningMode v
      | StrictPersonalTeam \<Rightarrow> PersonalTeamFeature
      | StrictLiveEvents \<Rightarrow> LiveEvents
      | StrictLiveLogs \<Rightarrow> LiveLogs
      | StrictCancellation \<Rightarrow> Cancellation
      | StrictArtifactType v \<Rightarrow> ArtifactType v
      | StrictCache \<Rightarrow> Cache
      | StrictArtifactListing \<Rightarrow> ArtifactListing
      | StrictArtifactDownload \<Rightarrow> ArtifactDownload
      | StrictCleanup \<Rightarrow> Cleanup
      | StrictPhysicalDeviceAccess \<Rightarrow> PhysicalDeviceAccess)"

record StrictHandshakeRequest =
  shq_protocol_version :: StrictProtocolVersion
  shq_client_version :: string
  shq_required_features :: "StrictProviderFeature list"

record StrictProviderDoctorRequest =
  sdq_protocol_version :: StrictProtocolVersion
  sdq_operation_id :: string
  sdq_require_signing :: bool

datatype StrictRequest = StrictHandshake StrictHandshakeRequest | StrictProviderDoctor StrictProviderDoctorRequest

record StrictRequestEnvelope =
  sqe_schema_version :: u32
  sqe_request :: StrictRequest

definition request_from_strict :: "StrictRequestEnvelope \<Rightarrow> WorkerStdioRequestEnvelope" where
  "request_from_strict e =
     \<lparr>request_schema_version = sqe_schema_version e,
      envelope_request =
        (case sqe_request e of
           StrictHandshake r \<Rightarrow>
             HandshakeOp \<lparr>hs_protocol_version = version_from_strict (shq_protocol_version r),
               client_version = shq_client_version r,
               required_features = map feature_from_strict (shq_required_features r)\<rparr>
         | StrictProviderDoctor r \<Rightarrow>
             ProviderDoctorOp \<lparr>doctor_protocol_version = version_from_strict (sdq_protocol_version r),
               doctor_operation_id = sdq_operation_id r, require_signing = sdq_require_signing r\<rparr>)\<rparr>"

record StrictProviderCapabilities =
  strict_source_modes :: "SourceMode set"
  strict_ios_device_build :: bool
  strict_ios_simulator_build :: bool
  strict_signing_modes :: "SigningMode set"
  strict_personal_team :: bool
  strict_live_events :: bool
  strict_live_logs :: bool
  strict_cancellation :: bool
  strict_artifact_types :: "IosArtifactType set"
  strict_cache :: bool
  strict_max_source_bytes :: "u64 option"
  strict_retention_seconds :: "u64 option"
  strict_artifact_listing :: bool
  strict_artifact_download :: bool
  strict_cleanup :: bool
  strict_physical_device_access :: bool

definition capabilities_from_strict :: "StrictProviderCapabilities \<Rightarrow> ProviderCapabilities" where
  "capabilities_from_strict c =
     \<lparr>source_modes = strict_source_modes c, ios_device_build = strict_ios_device_build c,
      ios_simulator_build = strict_ios_simulator_build c, signing_modes = strict_signing_modes c,
      personal_team = strict_personal_team c, live_events = strict_live_events c, live_logs = strict_live_logs c,
      cancellation = strict_cancellation c, artifact_types = strict_artifact_types c, cache = strict_cache c,
      max_source_bytes = strict_max_source_bytes c, retention_seconds = strict_retention_seconds c,
      artifact_listing = strict_artifact_listing c, artifact_download = strict_artifact_download c,
      cleanup = strict_cleanup c, physical_device_access = strict_physical_device_access c\<rparr>"

record StrictHandshakeResponse =
  shr_protocol_version :: StrictProtocolVersion
  shr_worker_version :: string
  shr_provider :: string
  shr_worker_id :: string
  shr_capabilities :: StrictProviderCapabilities

record StrictProviderCheck =
  strict_check_code :: string
  strict_check_status :: ProviderCheckStatus
  strict_check_message :: string
  strict_check_help :: "string option"

record StrictProviderDoctorReport =
  sdr_protocol_version :: StrictProtocolVersion
  sdr_provider :: string
  sdr_ready :: bool
  sdr_checks :: "StrictProviderCheck list"
  sdr_capabilities :: StrictProviderCapabilities

datatype StrictResponse =
    StrictHandshakeAnswer StrictHandshakeResponse
  | StrictProviderDoctorAnswer StrictProviderDoctorReport
  | StrictErrorAnswer WorkerStdioErrorResponse

record StrictResponseEnvelope =
  sre_schema_version :: u32
  sre_response :: StrictResponse

definition response_from_strict :: "StrictResponseEnvelope \<Rightarrow> WorkerStdioResponseEnvelope" where
  "response_from_strict e =
     \<lparr>response_schema_version = sre_schema_version e,
      envelope_response =
        (case sre_response e of
           StrictHandshakeAnswer r \<Rightarrow>
             HandshakeAnswer \<lparr>hr_protocol_version = version_from_strict (shr_protocol_version r),
               worker_version = shr_worker_version r, hr_provider = shr_provider r, hr_worker_id = shr_worker_id r,
               hr_capabilities = capabilities_from_strict (shr_capabilities r)\<rparr>
         | StrictProviderDoctorAnswer r \<Rightarrow>
             ProviderDoctorAnswer \<lparr>report_protocol_version = version_from_strict (sdr_protocol_version r),
               report_provider = sdr_provider r, report_ready = sdr_ready r,
               report_checks = map (\<lambda>c. \<lparr>check_code = strict_check_code c, check_status = strict_check_status c,
                 check_message = strict_check_message c, check_help = strict_check_help c\<rparr>) (sdr_checks r),
               report_capabilities = capabilities_from_strict (sdr_capabilities r)\<rparr>
         | StrictErrorAnswer x \<Rightarrow> ErrorAnswer x)\<rparr>"

section \<open>Decoding\<close>

definition decode_worker_stdio_request ::
    "(bytes \<Rightarrow> bool + StrictRequestEnvelope) \<Rightarrow> reader
     \<Rightarrow> (WorkerStdioCodecError + WorkerStdioRequestEnvelope) \<times> reader" where
  "decode_worker_stdio_request from_slice r =
     (case read_bounded r MAX_WORKER_STDIO_REQUEST_BYTES True of
        (read, r') \<Rightarrow>
          (and_then read (\<lambda>bs. and_then (decode_json from_slice bs) (\<lambda>strict.
             let e = request_from_strict strict in and_then (RequestEnvelope_validate e) (\<lambda>_. Ok e))), r'))"

definition decode_worker_stdio_response ::
    "(bytes \<Rightarrow> bool + StrictResponseEnvelope) \<Rightarrow> reader
     \<Rightarrow> (WorkerStdioCodecError + WorkerStdioResponseEnvelope) \<times> reader" where
  "decode_worker_stdio_response from_slice r =
     (case read_bounded r MAX_WORKER_STDIO_RESPONSE_BYTES False of
        (read, r') \<Rightarrow>
          (and_then read (\<lambda>bs. and_then (decode_json from_slice bs) (\<lambda>strict.
             let e = response_from_strict strict in and_then (ResponseEnvelope_validate e) (\<lambda>_. Ok e))), r'))"

section \<open>What the encoder writes\<close>

lemma to_writer_spec:
  assumes "length (out_bytes w) \<le> out_maximum w" "\<not> exceeded w" "to_writer (ps, complete) w = (ok, w')"
  shows "if length (out_bytes w) + length (concat ps) \<le> out_maximum w
    then ok = complete \<and> w' = w\<lparr>out_bytes := out_bytes w @ concat ps\<rparr> else \<not> ok \<and> exceeded w'"
  using assms
proof (induction ps arbitrary: w)
  case (Cons p ps)
  show ?case
  proof (cases "length p \<le> out_maximum w - length (out_bytes w)")
    case True
    with Cons.prems have "to_writer (ps, complete) (w\<lparr>out_bytes := out_bytes w @ p\<rparr>) = (ok, w')"
      by (simp add: BoundedOutput_write_def)
    with Cons.IH [of "w\<lparr>out_bytes := out_bytes w @ p\<rparr>"] Cons.prems True show ?thesis
      by (auto simp: add.assoc split: if_splits)
  next
    case False
    with Cons.prems show ?thesis by (auto simp: BoundedOutput_write_def)
  qed
qed simp

text \<open>The document the encoder builds: the pieces and a line feed.\<close>

definition document :: "serialized \<Rightarrow> bytes" where
  "document s = concat (fst s) @ [CHR 0x0A]"

lemma encode_bounded_spec:
  "encode_bounded maximum too_large invalid s w =
     (if length (concat (fst s)) \<le> maximum \<and> \<not> snd s then (Err invalid, w)
      else if length (document s) > maximum then (Err too_large, w)
      else (case write_all (document s) w of (ok, w') \<Rightarrow> (if ok then Ok () else Err StdioIo, w')))"
proof -
  obtain ps complete where s: "s = (ps, complete)" by force
  obtain ok o1 where r: "to_writer (ps, complete) (BoundedOutput_new maximum) = (ok, o1)" by force
  from to_writer_spec [OF _ _ r] s r show ?thesis
    by (auto simp: encode_bounded_def BoundedOutput_new_def BoundedOutput_write_def document_def split: bool.splits if_splits)
qed

lemma read_bounded_spec:
  "fst (read_bounded r maximum is_request) =
     (if length (reader_data r) > maximum then Err (if is_request then RequestTooLarge else ResponseTooLarge)
      else if \<not> reader_ends r then Err StdioIo
      else if list_all is_ascii_whitespace (reader_data r) then Err StdioEmptyInput
      else Ok (reader_data r))"
  using take_to_end_data [of "maximum + 1" "[]" r]
  by (auto simp: read_bounded_def split: prod.splits option.splits if_splits)

text \<open>
  Both directions share one contract: the encoder validates and then writes through the bounded output, the
  decoder reads at most one byte more than the limit, parses into the strict type, converts and validates.
\<close>

locale bounded_codec =
  fixes validate :: "'e \<Rightarrow> WorkerStdioCodecError + unit"
    and from_strict :: "'s \<Rightarrow> 'e"
    and maximum :: nat
    and is_request :: bool
    and too_large :: WorkerStdioCodecError
    and invalid :: WorkerStdioCodecError
    and encode :: "('e \<Rightarrow> serialized) \<Rightarrow> writer \<Rightarrow> 'e \<Rightarrow> (WorkerStdioCodecError + unit) \<times> writer"
    and decode :: "(bytes \<Rightarrow> bool + 's) \<Rightarrow> reader \<Rightarrow> (WorkerStdioCodecError + 'e) \<times> reader"
  assumes encode_law: "encode serialize w e =
      (case validate e of Inl x \<Rightarrow> (Err x, w) | Inr _ \<Rightarrow> encode_bounded maximum too_large invalid (serialize e) w)"
    and decode_law: "fst (decode from_slice r) =
      and_then (fst (read_bounded r maximum is_request)) (\<lambda>bs.
        and_then (decode_json from_slice bs) (\<lambda>strict. let e = from_strict strict in and_then (validate e) (\<lambda>_. Ok e)))"
    and errors_law: "too_large \<noteq> StdioIo" "invalid \<noteq> StdioIo" "validate e \<noteq> Err StdioIo"
begin

lemma encode_Ok:
  assumes "encode serialize w e = (Ok (), w')"
  shows "validate e = Ok ()" "length (document (serialize e)) \<le> maximum"
    "written w' = written w @ document (serialize e)"
proof -
  show v: "validate e = Ok ()" using assms by (auto simp: encode_law split: sum.splits)
  with assms have e: "encode_bounded maximum too_large invalid (serialize e) w = (Ok (), w')" by (simp add: encode_law)
  then show "length (document (serialize e)) \<le> maximum" by (auto simp: encode_bounded_spec split: if_splits)
  from e have "write_all (document (serialize e)) w = (True, w')"
    by (auto simp: encode_bounded_spec split: if_splits prod.splits)
  from write_all_prefix [OF this] show "written w' = written w @ document (serialize e)" by auto
qed

lemma encode_exact:
  "encode serialize w e =
     (case validate e of
        Inl x \<Rightarrow> (Err x, w)
      | Inr _ \<Rightarrow>
          if length (concat (fst (serialize e))) \<le> maximum \<and> \<not> snd (serialize e) then (Err invalid, w)
          else if length (document (serialize e)) > maximum then (Err too_large, w)
          else (case write_all (document (serialize e)) w of (ok, w') \<Rightarrow> (if ok then Ok () else Err StdioIo, w')))"
  by (simp add: encode_law encode_bounded_spec split: sum.split)

lemma encode_atomic:
  assumes "encode serialize w e = (Err x, w')" "x \<noteq> StdioIo"
  shows "w' = w"
  using assms by (auto simp: encode_law encode_bounded_spec split: sum.splits if_splits prod.splits)

lemma encode_Io:
  assumes "encode serialize w e = (Err StdioIo, w')"
  shows "\<exists>k \<le> length (document (serialize e)). written w' = written w @ take k (document (serialize e))"
proof -
  have "write_all (document (serialize e)) w = (False, w')"
    using assms errors_law by (auto simp: encode_law encode_bounded_spec split: sum.splits if_splits prod.splits)
  from write_all_prefix [OF this] show ?thesis by blast
qed

lemma roundtrip:
  assumes "encode serialize w e = (Ok (), w')"
    and "reader_data r = document (serialize e)" "reader_ends r"
    and "from_slice (document (serialize e)) = Ok strict" "from_strict strict = e"
    and "\<not> list_all is_ascii_whitespace (document (serialize e))"
  shows "fst (decode from_slice r) = Ok e"
  using encode_Ok [OF assms(1)] assms(2-6)
  by (simp add: decode_law read_bounded_spec decode_json_def)

lemma decode_data:
  "fst (decode from_slice r) =
     (let input = reader_data r in
      if length input > maximum then Err (if is_request then RequestTooLarge else ResponseTooLarge)
      else if \<not> reader_ends r then Err StdioIo
      else if list_all is_ascii_whitespace input then Err StdioEmptyInput
      else (case from_slice input of
          Inl is_eof \<Rightarrow> Err (if is_eof then TruncatedJson else MalformedJson)
        | Inr strict \<Rightarrow>
            (case validate (from_strict strict) of Inl x \<Rightarrow> Err x | Inr _ \<Rightarrow> Ok (from_strict strict))))"
  by (simp add: decode_law read_bounded_spec decode_json_def Let_def and_then_def split: sum.splits)

end

lemma check_protocol_not_Io: "check_protocol v \<noteq> Err StdioIo"
  by (cases "negotiate CURRENT_PROTOCOL_VERSION v") (simp_all add: check_protocol_def)

interpretation request_codec: bounded_codec RequestEnvelope_validate request_from_strict
  MAX_WORKER_STDIO_REQUEST_BYTES True RequestTooLarge InvalidRequest
  encode_worker_stdio_request decode_worker_stdio_request
proof unfold_locales
  fix e
  show "RequestEnvelope_validate e \<noteq> Err StdioIo"
    using check_protocol_not_Io
    by (auto simp: RequestEnvelope_validate_def and_then_def validate_schema_version_def reject_if_def
        split: WorkerStdioRequest.splits sum.splits if_splits)
qed (simp_all add: encode_worker_stdio_request_def decode_worker_stdio_request_def split_beta)

interpretation response_codec: bounded_codec ResponseEnvelope_validate response_from_strict
  MAX_WORKER_STDIO_RESPONSE_BYTES False ResponseTooLarge InvalidResponse
  encode_worker_stdio_response decode_worker_stdio_response
proof unfold_locales
  fix e
  show "ResponseEnvelope_validate e \<noteq> Err StdioIo"
    using check_protocol_not_Io
    by (auto simp: ResponseEnvelope_validate_def and_then_def validate_schema_version_def reject_if_def
        split: WorkerStdioResponse.splits sum.splits if_splits)
qed (simp_all add: encode_worker_stdio_response_def decode_worker_stdio_response_def split_beta)

text \<open>
  C26 [stdio_decode]: what the two decoders answer depends only on the bytes the transport delivers, not on
  how it cuts them: too many bytes, a failing transport, a blank document, a truncated or malformed one and a
  rejected envelope are told apart in this order, and everything else is the decoded envelope.
\<close>

theorem stdio_decoding_is_chunk_safe:
  "fst (decode_worker_stdio_request parse_request r) =
     (let input = reader_data r in
      if length input > 64 * 1024 then Err RequestTooLarge
      else if \<not> reader_ends r then Err StdioIo
      else if list_all is_ascii_whitespace input then Err StdioEmptyInput
      else (case parse_request input of
          Inl is_eof \<Rightarrow> Err (if is_eof then TruncatedJson else MalformedJson)
        | Inr strict \<Rightarrow>
            (case RequestEnvelope_validate (request_from_strict strict) of
               Inl x \<Rightarrow> Err x | Inr _ \<Rightarrow> Ok (request_from_strict strict))))
   \<and> fst (decode_worker_stdio_response parse_response r) =
     (let input = reader_data r in
      if length input > 1024 * 1024 then Err ResponseTooLarge
      else if \<not> reader_ends r then Err StdioIo
      else if list_all is_ascii_whitespace input then Err StdioEmptyInput
      else (case parse_response input of
          Inl is_eof \<Rightarrow> Err (if is_eof then TruncatedJson else MalformedJson)
        | Inr strict \<Rightarrow>
            (case ResponseEnvelope_validate (response_from_strict strict) of
               Inl x \<Rightarrow> Err x | Inr _ \<Rightarrow> Ok (response_from_strict strict))))"
  unfolding request_codec.decode_data response_codec.decode_data
  by (simp add: MAX_WORKER_STDIO_REQUEST_BYTES_def MAX_WORKER_STDIO_RESPONSE_BYTES_def)

text \<open>
  C25 [stdio_atomic]: the encoder of a response hands the transport one whole bounded document or nothing, and which
  of the two is decided by the envelope alone: a rejected envelope, a serializer that stops within the limit and a
  document of more than one mebibyte, line feed included, are told apart in this order and leave the transport
  untouched; every other response is written as all its bytes and one line feed, which succeeds exactly when the
  transport takes all of them, and a failing transport has taken a beginning of the document.
\<close>

theorem stdio_response_is_all_or_nothing:
  "encode_worker_stdio_response serialize w e =
     (case ResponseEnvelope_validate e of
        Inl x \<Rightarrow> (Err x, w)
      | Inr _ \<Rightarrow>
          let json = concat (fst (serialize e)); document = json @ [CHR 0x0A]; stops = \<not> snd (serialize e) in
          if length json \<le> 1024 * 1024 \<and> stops then (Err InvalidResponse, w)
          else if length document > 1024 * 1024 then (Err ResponseTooLarge, w)
          else
            (case capacity w of
               None \<Rightarrow> (Ok (), w\<lparr>written := written w @ document\<rparr>)
             | Some n \<Rightarrow>
                 if length document \<le> n
                 then (Ok (), w\<lparr>written := written w @ document, capacity := Some (n - length document)\<rparr>)
                 else (Err StdioIo, w\<lparr>written := written w @ take n document, capacity := Some 0\<rparr>)))"
  unfolding response_codec.encode_exact
  by (simp add: MAX_WORKER_STDIO_RESPONSE_BYTES_def document_def write_all_def Let_def split: sum.split option.split)

text \<open>
  [stdio_roundtrip]: a request the client encodes is the request the worker decodes, however the transport
  cuts it, when the parser reads back the document the serializer wrote and that document is not blank.
\<close>

theorem stdio_request_roundtrip:
  assumes "encode_worker_stdio_request serialize w e = (Ok (), w')"
    and "written w' = written w @ reader_data r" "reader_ends r"
    and "parse (document (serialize e)) = Ok strict" "request_from_strict strict = e"
    and "\<not> list_all is_ascii_whitespace (document (serialize e))"
  shows "fst (decode_worker_stdio_request parse r) = Ok e"
proof -
  have "reader_data r = document (serialize e)"
    using request_codec.encode_Ok(3) [OF assms(1)] assms(2) by simp
  then show ?thesis
    using request_codec.roundtrip [of serialize w e w' r parse strict] assms by blast
qed

definition example_strict_request :: StrictRequestEnvelope where
  "example_strict_request =
     \<lparr>sqe_schema_version = 1, sqe_request = StrictHandshake
        \<lparr>shq_protocol_version = \<lparr>strict_major = 1, strict_minor = 0\<rparr>, shq_client_version = ''0.1.0'',
         shq_required_features = [StrictIosDeviceBuild]\<rparr>\<rparr>"

lemma example_stdio_valid: "RequestEnvelope_validate (request_from_strict example_strict_request) = Ok ()"
proof -
  have "check_protocol (version_from_strict \<lparr>strict_major = 1, strict_minor = 0\<rparr>) = Ok ()"
    by (simp add: check_protocol_def version_from_strict_def negotiate_def is_compatible_with_def
        CURRENT_PROTOCOL_VERSION_def ProtocolVersion_new_def)
  then show ?thesis
    by (simp add: example_strict_request_def request_from_strict_def RequestEnvelope_validate_def
        validate_schema_version_def WORKER_STDIO_SCHEMA_VERSION_def reject_if_def MAX_REQUIRED_FEATURES_def MAX_VERSION_BYTES_def)
qed

theorem stdio_request_roundtrip_witness:
  "fst (decode_worker_stdio_request (\<lambda>_. Ok example_strict_request) [Chunk ''{'', Chunk ''}'', Chunk [CHR 0x0A]])
   = Ok (request_from_strict example_strict_request)"
proof -
  let ?w = "\<lparr>written = [], capacity = None\<rparr>" and ?r = "[Chunk ''{'', Chunk ''}'', Chunk [CHR 0x0A]]"
  have "encode_worker_stdio_request (\<lambda>_. ([''{'', ''}''], True)) ?w (request_from_strict example_strict_request)
      = (Ok (), ?w\<lparr>written := ''{}'' @ [CHR 0x0A]\<rparr>)"
    using example_stdio_valid
    by (simp add: encode_worker_stdio_request_def encode_bounded_spec document_def MAX_WORKER_STDIO_REQUEST_BYTES_def)
  from stdio_request_roundtrip [OF this, of ?r "\<lambda>_. Ok example_strict_request" example_strict_request]
  show ?thesis by (simp add: document_def is_ascii_whitespace_def)
qed

lemma stdio_identifier_agrees: "valid_identifier v \<longleftrightarrow> validate_identifier field v = Ok ()"
  by (auto simp: valid_identifier_def validate_identifier_Ok)

lemma public_text_safe: "valid_public_text v n \<longleftrightarrow> validate_safe_text field v n = Ok ()"
  by (auto simp: valid_public_text_def validate_safe_text_Ok)

text \<open>
  [stdio_doctor]: a doctor report that the client accepts is honest and printable: it is ready exactly when
  no check failed, it has at most 256 checks, and their codes are identifiers and their texts bounded and free
  of control characters.
\<close>

theorem accepted_doctor_report_is_honest:
  assumes "fst (decode_worker_stdio_response parse r) = Ok e" "envelope_response e = ProviderDoctorAnswer report"
  shows "(report_ready report \<longleftrightarrow> CheckError \<notin> check_status ` set (report_checks report))
    \<and> length (report_checks report) \<le> 256
    \<and> (\<forall>c \<in> set (report_checks report). \<not> has_control (check_message c) \<and> length (check_message c) \<le> 512
         \<and> validate_identifier ''check'' (check_code c) = Ok ()
         \<and> (\<forall>help. check_help c = Some help \<longrightarrow> \<not> has_control help \<and> length help \<le> 1024))"
proof -
  have "ResponseEnvelope_validate e = Ok ()"
    using assms(1) unfolding response_codec.decode_data by (auto simp: Let_def split: if_splits sum.splits)
  with assms(2) have "is_ok (reject_if (length (report_checks report) > MAX_PROVIDER_CHECKS \<or> list_ex bad_check (report_checks report)
      \<or> report_ready report \<noteq> list_all (\<lambda>c. check_status c \<noteq> CheckError) (report_checks report)) InvalidResponse)"
    unfolding ResponseEnvelope_validate_def and_then_Inr_iff by (auto simp only: WorkerStdioResponse.case run_checks_Inr_iff list.set)
  then have "length (report_checks report) \<le> 256" "\<forall>c \<in> set (report_checks report). \<not> bad_check c"
    "report_ready report \<longleftrightarrow> CheckError \<notin> check_status ` set (report_checks report)"
    by (simp_all add: list_ex_iff list_all_iff MAX_PROVIDER_CHECKS_def) force
  then show ?thesis
    by (auto simp: bad_check_def stdio_identifier_agrees [where field = "''check''"] valid_public_text_def MAX_CHECK_MESSAGE_BYTES_def
        MAX_CHECK_HELP_BYTES_def split: option.splits)
qed

definition example_strict_report :: StrictResponseEnvelope where
  "example_strict_report =
     \<lparr>sre_schema_version = 1, sre_response = StrictProviderDoctorAnswer
        \<lparr>sdr_protocol_version = \<lparr>strict_major = 1, strict_minor = 0\<rparr>, sdr_provider = ''ssh-macos'', sdr_ready = True,
         sdr_checks = [\<lparr>strict_check_code = ''xcode'', strict_check_status = Ready, strict_check_message = ''ok'',
           strict_check_help = None\<rparr>],
         sdr_capabilities =
           \<lparr>strict_source_modes = {}, strict_ios_device_build = True, strict_ios_simulator_build = False,
            strict_signing_modes = {}, strict_personal_team = False, strict_live_events = False, strict_live_logs = False,
            strict_cancellation = False, strict_artifact_types = {}, strict_cache = False, strict_max_source_bytes = None,
            strict_retention_seconds = None, strict_artifact_listing = False, strict_artifact_download = False,
            strict_cleanup = False, strict_physical_device_access = False\<rparr>\<rparr>\<rparr>"

lemma example_report_valid: "ResponseEnvelope_validate (response_from_strict example_strict_report) = Ok ()"
proof -
  have "check_protocol (version_from_strict \<lparr>strict_major = 1, strict_minor = 0\<rparr>) = Ok ()"
    by (simp add: check_protocol_def version_from_strict_def negotiate_def is_compatible_with_def
        CURRENT_PROTOCOL_VERSION_def ProtocolVersion_new_def)
  moreover have "valid_identifier ''ssh-macos''" "valid_identifier ''xcode''" by code_simp+
  moreover have "\<not> has_control ''ok''" by (rule no_control_ascii) simp
  ultimately show ?thesis
    by (simp add: example_strict_report_def response_from_strict_def ResponseEnvelope_validate_def
        validate_schema_version_def WORKER_STDIO_SCHEMA_VERSION_def reject_if_def bad_check_def valid_public_text_def
        MAX_PROVIDER_CHECKS_def MAX_CHECK_MESSAGE_BYTES_def)
qed

theorem accepted_doctor_report_is_honest_witness:
  "\<exists>report. envelope_response (response_from_strict example_strict_report) = ProviderDoctorAnswer report
     \<and> length (report_checks report) \<le> 256
     \<and> (report_ready report \<longleftrightarrow> CheckError \<notin> check_status ` set (report_checks report))"
proof -
  have "fst (decode_worker_stdio_response (\<lambda>_. Ok example_strict_report) [Chunk ''{}'']) = Ok (response_from_strict example_strict_report)"
    unfolding response_codec.decode_data using example_report_valid
    by (simp add: MAX_WORKER_STDIO_RESPONSE_BYTES_def is_ascii_whitespace_def)
  moreover obtain report where "envelope_response (response_from_strict example_strict_report) = ProviderDoctorAnswer report"
    by (simp add: example_strict_report_def response_from_strict_def)
  ultimately show ?thesis using accepted_doctor_report_is_honest by blast
qed

section \<open>The strict types mirror the public ones\<close>

lemma feature_from_strict_bij: "bij feature_from_strict"
proof (rule bijI)
  show "inj feature_from_strict"
    by (rule injI) (simp add: feature_from_strict_def split: StrictProviderFeature.splits)
  show "surj feature_from_strict"
  proof (rule surjI)
    fix f
    show "feature_from_strict
      (case f of SourceMode v \<Rightarrow> StrictSourceMode v | IosDeviceBuild \<Rightarrow> StrictIosDeviceBuild
       | IosSimulatorBuild \<Rightarrow> StrictIosSimulatorBuild | SigningMode v \<Rightarrow> StrictSigningMode v
       | PersonalTeamFeature \<Rightarrow> StrictPersonalTeam | LiveEvents \<Rightarrow> StrictLiveEvents | LiveLogs \<Rightarrow> StrictLiveLogs
       | Cancellation \<Rightarrow> StrictCancellation | ArtifactType v \<Rightarrow> StrictArtifactType v | Cache \<Rightarrow> StrictCache
       | ArtifactListing \<Rightarrow> StrictArtifactListing | ArtifactDownload \<Rightarrow> StrictArtifactDownload
       | Cleanup \<Rightarrow> StrictCleanup | PhysicalDeviceAccess \<Rightarrow> StrictPhysicalDeviceAccess) = f"
      by (cases f) (simp_all add: feature_from_strict_def)
  qed
qed

lemma version_from_strict_inject: "version_from_strict a = version_from_strict b \<longleftrightarrow> a = b"
  by (cases a; cases b) (simp add: version_from_strict_def ProtocolVersion_new_def)

lemma capabilities_from_strict_inject: "capabilities_from_strict a = capabilities_from_strict b \<longleftrightarrow> a = b"
  by (cases a; cases b) (simp add: capabilities_from_strict_def)

lemma map_feature_inject: "map feature_from_strict a = map feature_from_strict b \<longleftrightarrow> a = b"
  using feature_from_strict_bij by (simp add: bij_def inj_map_eq_map)

end
