(* ===== verification/Ssh_Transport.thy ===== *)
theory Ssh_Transport
  imports Ssh_Config Stdio
begin

text \<open>
  The OpenSSH invocation and the exchange with the worker (\<^verbatim>\<open>src/crates/rustferry-ssh/src/transport.rs\<close>): the private
  directory and the trust snapshot in it, the fixed argument list, the bounded readers of the child's pipes, and
  the polling loop that ends in a response, a failure, a cancellation or a timeout.

  The \<open>tempfile\<close> and \<open>same_file\<close> crates, the clock and the child process are answers of the environment. Durations
  and instants are milliseconds. The Unix build is modelled.
\<close>

section \<open>Paths handed to OpenSSH\<close>

definition validate_openssh_path :: "string \<Rightarrow> SshConfigError + unit" where
  "validate_openssh_path path =
     (if \<not> is_absolute path then Err KnownHostsSnapshotFailed
      else if \<not> utf8_valid path then Err KnownHostsSnapshotFailed
      else if list_ex (\<lambda>c. is_control c \<or> c = byte (CHR ''%'') \<or> c = byte (CHR ''$'')) (chars path)
      then Err KnownHostsSnapshotFailed
      else Ok ())"

text \<open>The loop over the characters escapes a backslash and a double quote.\<close>

fun escape_option_path :: "string \<Rightarrow> string" where
  "escape_option_path [] = []"
| "escape_option_path (c # s) =
     (if c = CHR 0x5C \<or> c = CHR 0x22 then CHR 0x5C # c # escape_option_path s else c # escape_option_path s)"

definition known_hosts_option :: "string \<Rightarrow> SshConfigError + string" where
  "known_hosts_option path =
     and_then (validate_openssh_path path) (\<lambda>_.
       Ok (''UserKnownHostsFile='' @ [CHR 0x22] @ escape_option_path path @ [CHR 0x22]))"

section \<open>The private snapshot directory\<close>

record PrivateSnapshotDirectory =
  directory_path :: string
  directory_handle :: nat

definition validate_temp_ancestor :: "u32 \<Rightarrow> path_metadata option \<Rightarrow> SshConfigError + unit" where
  "validate_temp_ancestor current_uid answer =
     (case answer of
        None \<Rightarrow> Err KnownHostsSnapshotFailed
      | Some m \<Rightarrow>
          let owned_by_trusted_principal = (md_uid m = current_uid \<or> md_uid m = 0);
              writable_by_another_principal = (and (md_mode m) 18 \<noteq> 0);
              sticky = (and (md_mode m) 512 \<noteq> 0)
          in if md_is_symlink m \<or> \<not> md_is_dir m \<or> \<not> owned_by_trusted_principal
               \<or> (writable_by_another_principal \<and> \<not> sticky)
             then Err KnownHostsSnapshotFailed else Ok ())"

fun validate_unix_temp_ancestors :: "world \<Rightarrow> string list \<Rightarrow> u32 \<Rightarrow> SshConfigError + unit" where
  "validate_unix_temp_ancestors w [] current_uid = Ok ()"
| "validate_unix_temp_ancestors w (ancestor # rest) current_uid =
     and_then (validate_temp_ancestor current_uid (fs_symlink_metadata (w 0) ancestor)) (\<lambda>_.
       validate_unix_temp_ancestors (later 1 w) rest current_uid)"

text \<open>
  The answers while a snapshot is made: the temporary directory of the process, the file system at each question,
  what the \<open>tempfile\<close> crate creates below a directory, whether permissions are set and bytes written, the identity
  of the open snapshot, and the identity and metadata of its path when it is checked.
\<close>

type_synonym file_identity = "u64 \<times> u64"

record snapshot_check =
  check_named_identity :: "string \<Rightarrow> file_identity option"
  check_metadata :: "string \<Rightarrow> path_metadata option"

record snapshot_world =
  sw_temp_dir :: string
  sw_directory :: world
  sw_tempdir_in :: "string \<Rightarrow> string option"
  sw_set_directory_mode :: bool
  sw_tempfile_in :: "string \<Rightarrow> (string \<times> u32) option"
  sw_set_file_mode :: bool
  sw_write :: bool
  sw_identity :: "file_identity option"
  sw_check :: snapshot_check

definition create_private_snapshot_directory :: "snapshot_world \<Rightarrow> SshConfigError + PrivateSnapshotDirectory" where
  "create_private_snapshot_directory s =
     (let w = sw_directory s in
      and_then (validate_openssh_path (sw_temp_dir s)) (\<lambda>_.
      case fs_canonicalize (w 0) (sw_temp_dir s) of
        None \<Rightarrow> Err KnownHostsSnapshotFailed
      | Some parent \<Rightarrow>
      and_then (validate_openssh_path parent) (\<lambda>_.
      case sw_tempdir_in s parent of
        None \<Rightarrow> Err KnownHostsSnapshotFailed
      | Some temporary \<Rightarrow>
      if \<not> sw_set_directory_mode s then Err KnownHostsSnapshotFailed
      else case fs_canonicalize (w 1) temporary of
        None \<Rightarrow> Err KnownHostsSnapshotFailed
      | Some canonical \<Rightarrow>
      if path_components canonical \<noteq> path_components temporary then Err KnownHostsSnapshotFailed
      else and_then (validate_openssh_path canonical) (\<lambda>_.
      case fs_symlink_metadata (w 2) canonical of
        None \<Rightarrow> Err KnownHostsSnapshotFailed
      | Some path_md \<Rightarrow>
      if md_is_symlink path_md \<or> \<not> md_is_dir path_md then Err KnownHostsSnapshotFailed
      else case fs_open (w 3) canonical of
        None \<Rightarrow> Err KnownHostsSnapshotFailed
      | Some handle \<Rightarrow>
      case fs_metadata (w 4) handle of
        None \<Rightarrow> Err KnownHostsSnapshotFailed
      | Some opened \<Rightarrow>
      if md_device opened \<noteq> md_device path_md \<or> md_inode opened \<noteq> md_inode path_md
        \<or> and (md_mode opened) 63 \<noteq> 0
      then Err KnownHostsSnapshotFailed
      else and_then (validate_unix_temp_ancestors (later 5 w) (proper_ancestors canonical) (md_uid opened)) (\<lambda>_.
        Ok \<lparr>directory_path = temporary, directory_handle = handle\<rparr>)))))"

section \<open>The invocation\<close>

text \<open>The mode of the snapshot is octal 600, that is 384.\<close>

definition SSH_CONNECT_TIMEOUT_SECONDS :: nat where
  "SSH_CONNECT_TIMEOUT_SECONDS = 15"

definition SSH_OPERATION_TIMEOUT :: nat where
  "SSH_OPERATION_TIMEOUT = 2 * 60 * 1000"

definition SSH_SNAPSHOT_SESSION_TIMEOUT :: nat where
  "SSH_SNAPSHOT_SESSION_TIMEOUT = 2 * 60 * 60 * 1000"

text \<open>A named temporary file with what was done to it through its handle.\<close>

record NamedTempFile =
  temp_path :: string
  temp_mode :: u32
  temp_contents :: bytes

record SshInvocation =
  invocation_program :: string
  invocation_arguments :: "string list"
  invocation_timeout :: nat
  known_hosts_snapshot :: NamedTempFile
  known_hosts_identity :: file_identity
  snapshot_directory :: PrivateSnapshotDirectory
  identity_file_guard :: "SshIdentityFileGuard option"

definition revalidate_identity_file :: "world \<Rightarrow> SshInvocation \<Rightarrow> SshConfigError + unit" where
  "revalidate_identity_file w invocation =
     (case identity_file_guard invocation of None \<Rightarrow> Ok () | Some guard \<Rightarrow> SshIdentityFileGuard_revalidate w guard)"

definition revalidate_trust_snapshot :: "snapshot_check \<Rightarrow> SshInvocation \<Rightarrow> SshConfigError + unit" where
  "revalidate_trust_snapshot k invocation =
     (let path = temp_path (known_hosts_snapshot invocation) in
      case check_named_identity k path of
        None \<Rightarrow> Err KnownHostsSnapshotFailed
      | Some named \<Rightarrow>
      case check_metadata k path of
        None \<Rightarrow> Err KnownHostsSnapshotFailed
      | Some m \<Rightarrow>
          if named \<noteq> known_hosts_identity invocation \<or> md_is_symlink m \<or> \<not> md_is_file m
          then Err KnownHostsSnapshotFailed else Ok ())"

definition ssh_arguments :: "string \<Rightarrow> SshEndpointConfig \<Rightarrow> string \<Rightarrow> string list" where
  "ssh_arguments known_hosts c remote_mode =
     [''-F'', ''none'', ''-o'', ''BatchMode=yes'', ''-o'', ''StrictHostKeyChecking=yes'', ''-o'', known_hosts,
      ''-o'', ''GlobalKnownHostsFile=none'', ''-o'', ''ForwardAgent=no'', ''-o'', ''ClearAllForwardings=yes'',
      ''-o'', ''RequestTTY=no'', ''-o'', ''PermitLocalCommand=no'', ''-o'', ''ConnectionAttempts=1'',
      ''-o'', ''ConnectTimeout='' @ decimal SSH_CONNECT_TIMEOUT_SECONDS, ''-o'', ''ServerAliveInterval=10'',
      ''-o'', ''ServerAliveCountMax=2'', ''-o'', ''LogLevel=ERROR'', ''-T'']
     @ (case endpoint_identity_file c of
          None \<Rightarrow> []
        | Some identity \<Rightarrow> [''-o'', ''IdentitiesOnly=yes'', ''-i'', identity])
     @ [''-p'', decimal (unat (endpoint_port c)), ''-l'', user_text (endpoint_user c), host_text (endpoint_host c),
        ''ferry-worker-macos'', ''serve'', remote_mode]"

definition build_ssh_invocation_for ::
    "base64 \<Rightarrow> (bytes \<Rightarrow> bytes) \<Rightarrow> endpoint_world \<Rightarrow> snapshot_world \<Rightarrow> SshEndpointConfig \<Rightarrow> string \<Rightarrow> nat
      \<Rightarrow> SshConfigError + SshInvocation" where
  "build_ssh_invocation_for b digest e s c remote_mode timeout =
     and_then (validated_known_hosts_bytes b digest e c) (\<lambda>known_hosts_bytes.
     and_then (open_identity_file_guard e c) (\<lambda>guard.
     and_then (create_private_snapshot_directory s) (\<lambda>directory.
     case sw_tempfile_in s (directory_path directory) of
       None \<Rightarrow> Err KnownHostsSnapshotFailed
     | Some (path, mode) \<Rightarrow>
     let snapshot = \<lparr>temp_path = path, temp_mode = mode, temp_contents = []\<rparr> in
     if \<not> sw_set_file_mode s then Err KnownHostsSnapshotFailed
     else let snapshot = snapshot\<lparr>temp_mode := 384\<rparr> in
     if \<not> sw_write s then Err KnownHostsSnapshotFailed
     else let snapshot = snapshot\<lparr>temp_contents := temp_contents snapshot @ known_hosts_bytes\<rparr> in
     case sw_identity s of
       None \<Rightarrow> Err KnownHostsSnapshotFailed
     | Some identity \<Rightarrow>
     and_then (known_hosts_option (temp_path snapshot)) (\<lambda>option.
     let invocation = \<lparr>invocation_program = ''ssh'', invocation_arguments = ssh_arguments option c remote_mode,
           invocation_timeout = timeout, known_hosts_snapshot = snapshot, known_hosts_identity = identity,
           snapshot_directory = directory, identity_file_guard = guard\<rparr> in
     and_then (revalidate_trust_snapshot (sw_check s) invocation) (\<lambda>_. Ok invocation)))))"

definition build_ssh_invocation ::
    "base64 \<Rightarrow> (bytes \<Rightarrow> bytes) \<Rightarrow> endpoint_world \<Rightarrow> snapshot_world \<Rightarrow> SshEndpointConfig \<Rightarrow> SshConfigError + SshInvocation" where
  "build_ssh_invocation b digest e s c = build_ssh_invocation_for b digest e s c ''--stdio'' SSH_OPERATION_TIMEOUT"

definition build_ssh_session_invocation ::
    "base64 \<Rightarrow> (bytes \<Rightarrow> bytes) \<Rightarrow> endpoint_world \<Rightarrow> snapshot_world \<Rightarrow> SshEndpointConfig \<Rightarrow> SshConfigError + SshInvocation" where
  "build_ssh_session_invocation b digest e s c =
     build_ssh_invocation_for b digest e s c ''--stdio-session-v1'' SSH_SNAPSHOT_SESSION_TIMEOUT"

section \<open>The quoted option\<close>

lemma escape_option_path_concat:
  "escape_option_path p = concat (map (\<lambda>c. if c \<in> {CHR 0x5C, CHR 0x22} then [CHR 0x5C, c] else [c]) p)"
  by (induction p) simp_all

text \<open>Different paths are quoted differently, and the closing quote ends the value.\<close>

lemma escape_option_path_inject: "escape_option_path p = escape_option_path q \<Longrightarrow> p = q"
proof (induction p arbitrary: q)
  case Nil
  then show ?case by (cases q) (auto split: if_splits)
next
  case (Cons c p)
  then show ?case by (cases q) (auto split: if_splits)
qed

lemma known_hosts_option_Ok:
  "known_hosts_option p = Ok opt \<Longrightarrow>
   validate_openssh_path p = Ok () \<and> opt = ''UserKnownHostsFile='' @ [CHR 0x22] @ escape_option_path p @ [CHR 0x22]"
  by (auto simp: known_hosts_option_def and_then_Inr_iff)

lemma known_hosts_option_inject: "known_hosts_option p = Ok opt \<Longrightarrow> known_hosts_option q = Ok opt \<Longrightarrow> p = q"
  by (auto dest!: known_hosts_option_Ok intro: escape_option_path_inject)

section \<open>The trust snapshot\<close>

lemma open_identity_file_guard_path:
  "open_identity_file_guard e c = Ok g \<Longrightarrow> endpoint_identity_file c = map_option guard_path g"
  by (auto simp: open_identity_file_guard_def and_then_Inr_iff Let_def split: option.splits)

lemma private_directory_Ok:
  assumes "create_private_snapshot_directory s = Ok d"
  shows "\<exists>canonical named opened. let w = sw_directory s in
    path_components canonical = path_components (directory_path d) \<and> validate_openssh_path canonical = Ok ()
    \<and> fs_symlink_metadata (w 2) canonical = Some named \<and> \<not> md_is_symlink named \<and> md_is_dir named
    \<and> fs_metadata (w 4) (directory_handle d) = Some opened \<and> same_open_file_identity opened named
    \<and> and (md_mode opened) 63 = 0
    \<and> validate_unix_temp_ancestors (later 5 w) (proper_ancestors canonical) (md_uid opened) = Ok ()"
proof -
  let ?w = "sw_directory s"
  from assms obtain parent temporary canonical named where *:
      "fs_canonicalize (?w 0) (sw_temp_dir s) = Some parent" "sw_tempdir_in s parent = Some temporary"
      "fs_canonicalize (?w 1) temporary = Some canonical" "fs_symlink_metadata (?w 2) canonical = Some named"
    by (auto simp: create_private_snapshot_directory_def Let_def and_then_Inr_iff split: option.splits if_splits)
  with assms obtain handle opened where k: "fs_open (?w 3) canonical = Some handle"
      "fs_metadata (?w 4) handle = Some opened"
    by (auto simp: create_private_snapshot_directory_def Let_def and_then_Inr_iff split: option.splits if_splits)
  from assms * k show ?thesis
    by (intro exI [of _ canonical] exI [of _ named] exI [of _ opened])
      (auto simp: create_private_snapshot_directory_def Let_def and_then_Inr_iff same_open_file_identity_def
        split: if_splits)
qed

text \<open>A directory that no one but its owner and the superuser can rearrange, and that is no link.\<close>

lemma validate_temp_ancestor_Ok:
  "validate_temp_ancestor uid answer = Ok u \<longleftrightarrow>
   (\<exists>m. answer = Some m \<and> \<not> md_is_symlink m \<and> trusted_ancestor uid m)"
  by (auto simp: validate_temp_ancestor_def trusted_ancestor_def Let_def split: option.splits if_splits)

lemma validate_unix_temp_ancestors_Ok:
  "validate_unix_temp_ancestors w xs uid = Ok () \<longleftrightarrow>
   (\<forall>i < length xs. \<exists>m. fs_symlink_metadata (w i) (xs ! i) = Some m \<and> \<not> md_is_symlink m \<and> trusted_ancestor uid m)"
proof (induction xs arbitrary: w)
  case (Cons x xs)
  then show ?case
    by (auto simp: and_then_Inr_iff validate_temp_ancestor_Ok later_def less_Suc_eq_0_disj)
qed simp

lemma build_ssh_invocation_for_Ok:
  assumes "build_ssh_invocation_for b digest e s c mode timeout = Ok v"
  shows "validated_known_hosts_bytes b digest e c = Ok (temp_contents (known_hosts_snapshot v))"
    "open_identity_file_guard e c = Ok (identity_file_guard v)"
    "create_private_snapshot_directory s = Ok (snapshot_directory v)"
    "\<exists>m. sw_tempfile_in s (directory_path (snapshot_directory v)) = Some (temp_path (known_hosts_snapshot v), m)"
    "temp_mode (known_hosts_snapshot v) = 384"
    "revalidate_trust_snapshot (sw_check s) v = Ok ()"
    "\<exists>opt. known_hosts_option (temp_path (known_hosts_snapshot v)) = Ok opt
      \<and> invocation_arguments v = ssh_arguments opt c mode"
    "invocation_program v = ''ssh''"
proof -
  from assms obtain bs g d where *: "validated_known_hosts_bytes b digest e c = Ok bs"
      "open_identity_file_guard e c = Ok g" "create_private_snapshot_directory s = Ok d"
    by (auto simp: build_ssh_invocation_for_def and_then_Inr_iff)
  with assms obtain path m where t: "sw_tempfile_in s (directory_path d) = Some (path, m)"
    by (cases "sw_tempfile_in s (directory_path d)") (auto simp: build_ssh_invocation_for_def)
  with assms * obtain i where i: "sw_set_file_mode s" "sw_write s" "sw_identity s = Some i"
    by (cases "sw_identity s") (simp_all add: build_ssh_invocation_for_def Let_def split: if_splits)
  with assms * t obtain opt where "known_hosts_option path = Ok opt"
    by (cases "known_hosts_option path") (simp_all add: build_ssh_invocation_for_def Let_def)
  with assms * t i show "validated_known_hosts_bytes b digest e c = Ok (temp_contents (known_hosts_snapshot v))"
    "open_identity_file_guard e c = Ok (identity_file_guard v)"
    "create_private_snapshot_directory s = Ok (snapshot_directory v)"
    "\<exists>m. sw_tempfile_in s (directory_path (snapshot_directory v)) = Some (temp_path (known_hosts_snapshot v), m)"
    "temp_mode (known_hosts_snapshot v) = 384"
    "revalidate_trust_snapshot (sw_check s) v = Ok ()"
    "\<exists>opt. known_hosts_option (temp_path (known_hosts_snapshot v)) = Ok opt
      \<and> invocation_arguments v = ssh_arguments opt c mode"
    "invocation_program v = ''ssh''"
    by (auto simp: build_ssh_invocation_for_def Let_def and_then_Inr_iff)
qed

text \<open>
  C5 [ssh_invocation]: OpenSSH is asked for the configured endpoint, and trusts the pinned key alone. For an endpoint with
  a validated host and user, the argument list of every invocation of the program \<open>ssh\<close> is exactly the one written out
  here: no configuration file, batch mode with strict host-key checking, the private snapshot as the only known-hosts
  file, no forwarding, no local command, the identity file that was opened and no other, the configured port, user and
  host, and the worker command. Host and user are plain words that cannot be taken for an option, the snapshot's path
  is quoted with its backslashes and double quotes escaped, and no other path is quoted to the same option. The
  snapshot holds one line: the endpoint with a key of a supported type whose digest is the configured fingerprint. It is
  readable by its owner alone and lies in a directory that was checked through its handle.
\<close>

theorem invocation_trusts_only_the_pinned_key:
  assumes "SshHost_new h = Ok (endpoint_host c)" "SshUser_new u = Ok (endpoint_user c)"
    "build_ssh_invocation_for b digest e s c mode timeout = Ok v"
  shows "\<exists>opt t blob opened. let snapshot = known_hosts_snapshot v in
      invocation_program v = ''ssh''
      \<and> invocation_arguments v =
          [''-F'', ''none'', ''-o'', ''BatchMode=yes'', ''-o'', ''StrictHostKeyChecking=yes'', ''-o'', opt,
           ''-o'', ''GlobalKnownHostsFile=none'', ''-o'', ''ForwardAgent=no'', ''-o'', ''ClearAllForwardings=yes'',
           ''-o'', ''RequestTTY=no'', ''-o'', ''PermitLocalCommand=no'', ''-o'', ''ConnectionAttempts=1'',
           ''-o'', ''ConnectTimeout=15'', ''-o'', ''ServerAliveInterval=10'', ''-o'', ''ServerAliveCountMax=2'',
           ''-o'', ''LogLevel=ERROR'', ''-T'']
          @ (case identity_file_guard v of None \<Rightarrow> [] | Some g \<Rightarrow> [''-o'', ''IdentitiesOnly=yes'', ''-i'', guard_path g])
          @ [''-p'', decimal (unat (endpoint_port c)), ''-l'', u, h, ''ferry-worker-macos'', ''serve'', mode]
      \<and> plain_argument h \<and> plain_argument u
      \<and> opt = ''UserKnownHostsFile='' @ [CHR 0x22]
          @ concat (map (\<lambda>c. if c \<in> {CHR 0x5C, CHR 0x22} then [CHR 0x5C, c] else [c]) (temp_path snapshot)) @ [CHR 0x22]
      \<and> {path. known_hosts_option path = Ok opt} = {temp_path snapshot}
      \<and> temp_contents snapshot = known_hosts_line b (expected_host_token (endpoint_host c) (endpoint_port c)) t blob
      \<and> supported_host_key_type t \<and> key_blob_type_matches blob t
      \<and> host_key_fingerprint b digest blob = fingerprint_text (endpoint_host_key_sha256 c)
      \<and> temp_mode snapshot = 384
      \<and> fs_metadata (sw_directory s 4) (directory_handle (snapshot_directory v)) = Some opened
      \<and> and (md_mode opened) 63 = 0"
proof -
  note v = build_ssh_invocation_for_Ok [OF assms(3)]
  from SshHost_new_plain [OF assms(1)] SshUser_new_plain [OF assms(2)]
  have plain: "plain_argument h" "plain_argument u" "host_text (endpoint_host c) = h" "user_text (endpoint_user c) = u"
    by (metis SshHost.sel SshUser.sel)+
  from v(7) obtain opt where opt: "known_hosts_option (temp_path (known_hosts_snapshot v)) = Ok opt"
      "invocation_arguments v = ssh_arguments opt c mode" by blast
  have only: "{path. known_hosts_option path = Ok opt} = {temp_path (known_hosts_snapshot v)}"
    using opt(1) known_hosts_option_inject by blast
  have seconds: "decimal SSH_CONNECT_TIMEOUT_SECONDS = ''15''" by code_simp
  have identity: "(case endpoint_identity_file c of None \<Rightarrow> [] | Some p \<Rightarrow> [''-o'', ''IdentitiesOnly=yes'', ''-i'', p])
      = (case identity_file_guard v of None \<Rightarrow> [] | Some g \<Rightarrow> [''-o'', ''IdentitiesOnly=yes'', ''-i'', guard_path g])"
    unfolding open_identity_file_guard_path [OF v(2)] by (cases "identity_file_guard v") simp_all
  from v(1) obtain t blob where line: "supported_host_key_type t" "key_blob_type_matches blob t"
      "host_key_fingerprint b digest blob = fingerprint_text (endpoint_host_key_sha256 c)"
      "temp_contents (known_hosts_snapshot v)
        = known_hosts_line b (expected_host_token (endpoint_host c) (endpoint_port c)) t blob"
    unfolding validated_known_hosts_bytes_def and_then_Inr_iff validate_known_hosts_Ok by blast
  from private_directory_Ok [OF v(3)] obtain opened where d:
      "fs_metadata (sw_directory s 4) (directory_handle (snapshot_directory v)) = Some opened"
      "and (md_mode opened) 63 = 0" by (auto simp: Let_def)
  note arguments = opt(2) [unfolded ssh_arguments_def plain(3,4) seconds identity]
  note quoted = known_hosts_option_Ok [OF opt(1), THEN conjunct2, unfolded escape_option_path_concat]
  show ?thesis
    unfolding Let_def
    by (intro exI [of _ opt] exI [of _ t] exI [of _ blob] exI [of _ opened] conjI only plain(1,2) line d v(5,8) quoted)
      (use arguments in simp)
qed

text \<open>The example endpoint, with a temporary directory of its own.\<close>

definition mac_snapshot_world :: snapshot_world where
  "mac_snapshot_world = \<lparr>sw_temp_dir = ''/tmp'', sw_directory = (\<lambda>_. mac_fs), sw_tempdir_in = (\<lambda>p. Some (p @ ''/ferry'')),
     sw_set_directory_mode = True, sw_tempfile_in = (\<lambda>p. Some (p @ ''/hosts'', 384)), sw_set_file_mode = True,
     sw_write = True, sw_identity = Some (1, 3),
     sw_check = \<lparr>check_named_identity = (\<lambda>_. Some (1, 3)), check_metadata = fs_symlink_metadata mac_fs\<rparr>\<rparr>"

definition mac_invocation :: SshInvocation where
  "mac_invocation = \<lparr>invocation_program = ''ssh'',
     invocation_arguments = ssh_arguments (''UserKnownHostsFile='' @ [CHR 0x22] @ ''/tmp/ferry/hosts'' @ [CHR 0x22])
       mac_endpoint ''--stdio'',
     invocation_timeout = SSH_OPERATION_TIMEOUT,
     known_hosts_snapshot = \<lparr>temp_path = ''/tmp/ferry/hosts'', temp_mode = 384, temp_contents = mac_line\<rparr>,
     known_hosts_identity = (1, 3), snapshot_directory = \<lparr>directory_path = ''/tmp/ferry'', directory_handle = 4\<rparr>,
     identity_file_guard = Some mac_guard\<rparr>"

lemma mac_openssh_paths:
  "validate_openssh_path ''/tmp'' = Ok ()" "validate_openssh_path ''/tmp/ferry'' = Ok ()"
  "validate_openssh_path ''/tmp/ferry/hosts'' = Ok ()"
  by (simp_all add: validate_openssh_path_def is_absolute_def is_control_def utf8_valid_ascii is_ascii_def)

lemma mac_temp_ancestors: "proper_ancestors ''/tmp/ferry'' = [''/tmp'', ''/'']"
  by (simp add: proper_ancestors_def path_components_def path_text_def)

lemma mac_snapshot_directory:
  "create_private_snapshot_directory mac_snapshot_world = Ok \<lparr>directory_path = ''/tmp/ferry'', directory_handle = 4\<rparr>"
  by (simp add: create_private_snapshot_directory_def mac_snapshot_world_def mac_fs_def mac_openssh_paths later_def
      mac_directory_metadata_def mac_temp_ancestors validate_temp_ancestor_def Let_def)

lemma mac_invocation_built:
  "build_ssh_invocation_for hex_engine pad_digest mac_world mac_snapshot_world mac_endpoint ''--stdio''
     SSH_OPERATION_TIMEOUT = Ok mac_invocation"
  by (simp add: build_ssh_invocation_for_def mac_known_hosts_read mac_guard_opened mac_snapshot_directory
      known_hosts_option_def mac_openssh_paths mac_invocation_def revalidate_trust_snapshot_def Let_def)
    (simp add: mac_snapshot_world_def mac_openssh_paths mac_fs_def mac_file_metadata_def known_hosts_option_def
      revalidate_trust_snapshot_def Let_def)

lemma mac_user_new: "SshUser_new ''_ferry'' = Ok (SshUser ''_ferry'')"
  by code_simp

theorem invocation_trusts_only_the_pinned_key_witness:
  "build_ssh_invocation_for hex_engine pad_digest mac_world mac_snapshot_world mac_endpoint ''--stdio''
     SSH_OPERATION_TIMEOUT = Ok mac_invocation
   \<and> drop 29 (invocation_arguments mac_invocation) =
       [''-o'', ''IdentitiesOnly=yes'', ''-i'', ''/me/key'', ''-p'', ''2222'', ''-l'', ''_ferry'', ''mac.example'',
        ''ferry-worker-macos'', ''serve'', ''--stdio'']
   \<and> (\<exists>t blob. temp_contents (known_hosts_snapshot mac_invocation) = known_hosts_line hex_engine ''[mac.example]:2222'' t blob
       \<and> host_key_fingerprint hex_engine pad_digest blob = fingerprint_text mac_fingerprint)"
proof -
  have "SshHost_new ''mac.example'' = Ok (endpoint_host mac_endpoint)"
      "SshUser_new ''_ferry'' = Ok (endpoint_user mac_endpoint)"
    by (simp_all add: mac_endpoint_def mac_host_new mac_user_new)
  note trusts = invocation_trusts_only_the_pinned_key [OF this mac_invocation_built, unfolded Let_def]
  have g: "identity_file_guard mac_invocation = Some mac_guard" "guard_path mac_guard = ''/me/key''"
      "expected_host_token (endpoint_host mac_endpoint) (endpoint_port mac_endpoint) = ''[mac.example]:2222''"
      "endpoint_host_key_sha256 mac_endpoint = mac_fingerprint" "decimal (unat (endpoint_port mac_endpoint)) = ''2222''"
    by (simp_all add: mac_invocation_def mac_guard_def mac_endpoint_def mac_token) code_simp
  from trusts have "drop 29 (invocation_arguments mac_invocation) =
      [''-o'', ''IdentitiesOnly=yes'', ''-i'', ''/me/key'', ''-p'', ''2222'', ''-l'', ''_ferry'', ''mac.example'',
       ''ferry-worker-macos'', ''serve'', ''--stdio'']"
    by (elim exE conjE) (simp add: g)
  moreover from trusts have "\<exists>t blob. temp_contents (known_hosts_snapshot mac_invocation)
        = known_hosts_line hex_engine ''[mac.example]:2222'' t blob
      \<and> host_key_fingerprint hex_engine pad_digest blob = fingerprint_text mac_fingerprint"
    unfolding g(3,4) by blast
  ultimately show ?thesis using mac_invocation_built by blast
qed

section \<open>Transport failures\<close>

definition MAX_SSH_REQUEST_BYTES :: nat where
  "MAX_SSH_REQUEST_BYTES = MAX_WORKER_STDIO_REQUEST_BYTES"

definition MAX_SSH_RESPONSE_BYTES :: nat where
  "MAX_SSH_RESPONSE_BYTES = MAX_WORKER_STDIO_RESPONSE_BYTES"

definition MAX_SSH_STDERR_BYTES :: nat where
  "MAX_SSH_STDERR_BYTES = 64 * 1024"

definition PROCESS_REAP_TIMEOUT :: nat where
  "PROCESS_REAP_TIMEOUT = 100"

datatype SshTransportError =
    TransportCancelled
  | TransportRequestTooLarge nat nat
  | SpawnFailed
  | IoFailed
  | TimedOut
  | ProcessFailed "int option"
  | IdentityFileChanged
  | TrustSnapshotChanged
  | TransportResponseTooLarge nat

section \<open>The pipes of the child\<close>

record BoundedRead =
  read_bytes :: bytes
  read_exceeded :: bool

fun reader_weight :: "reader \<Rightarrow> nat" where
  "reader_weight [] = 0"
| "reader_weight (ReadError # r) = Suc (reader_weight r)"
| "reader_weight (Chunk b # r) = Suc (length b + reader_weight r)"

lemma read_some_weight: "(Some b, r') = read_some n r \<Longrightarrow> b \<noteq> [] \<Longrightarrow> reader_weight r' < reader_weight r"
  by (induction n r rule: read_some.induct) (auto split: if_splits)

text \<open>The reading loop of \<open>read_bounded\<close>: it keeps one byte more than the maximum and reads on to the end.\<close>

function read_bounded_loop :: "nat \<Rightarrow> bytes \<Rightarrow> bool \<Rightarrow> reader \<Rightarrow> BoundedRead option" where
  "read_bounded_loop maximum bs over r =
     (case read_some (16 * 1024) r of
        (None, r') \<Rightarrow> None
      | (Some buffer, r') \<Rightarrow>
          if buffer = [] then Some \<lparr>read_bytes = bs, read_exceeded = over\<rparr>
          else
            let remaining = maximum + 1 - length bs;
                retained = min (length buffer) remaining;
                bs = bs @ take retained buffer
            in read_bounded_loop maximum bs (over \<or> length buffer > retained \<or> length bs > maximum) r')"
  by pat_completeness auto
termination
  by (relation "measure (\<lambda>(maximum, bs, over, r). reader_weight r)") (auto dest: read_some_weight)

declare read_bounded_loop.simps [simp del]

definition pipe_read_bounded :: "reader \<Rightarrow> nat \<Rightarrow> BoundedRead option" where
  "pipe_read_bounded r maximum = read_bounded_loop maximum [] False r"

text \<open>One event of each of the three tasks; a failed operation has no value.\<close>

datatype PipeEvent = PipeWrite "unit option" | PipeStdout "BoundedRead option" | PipeStderr "BoundedRead option"

text \<open>The three tasks, and what each of them sends when it ends.\<close>

datatype pipe_task = StdinTask | StdoutTask | StderrTask

record child_pipes =
  pipe_stdin :: writer
  pipe_flushes :: bool
  pipe_stdout :: reader
  pipe_stderr :: reader

definition spawn_pipe_tasks :: "child_pipes \<Rightarrow> bytes \<Rightarrow> pipe_task \<Rightarrow> PipeEvent" where
  "spawn_pipe_tasks pipes request task =
     (case task of
        StdinTask \<Rightarrow> PipeWrite (if fst (write_all request (pipe_stdin pipes)) \<and> pipe_flushes pipes then Some () else None)
      | StdoutTask \<Rightarrow> PipeStdout (pipe_read_bounded (pipe_stdout pipes) MAX_SSH_RESPONSE_BYTES)
      | StderrTask \<Rightarrow> PipeStderr (pipe_read_bounded (pipe_stderr pipes) MAX_SSH_STDERR_BYTES))"

record pipe_results =
  write_result :: "unit option option"
  stdout_result :: "BoundedRead option option"
  stderr_result :: "BoundedRead option option"

definition pipes_complete :: "pipe_results \<Rightarrow> bool" where
  "pipes_complete p \<longleftrightarrow> write_result p \<noteq> None \<and> stdout_result p \<noteq> None \<and> stderr_result p \<noteq> None"

text \<open>
  The events that are ready when the channel is drained, and whether the drain then finds it disconnected rather
  than empty.
\<close>

fun drain_pipe_events :: "PipeEvent list \<Rightarrow> bool \<Rightarrow> pipe_results \<Rightarrow> (unit + unit) \<times> pipe_results" where
  "drain_pipe_events [] disconnected p =
     (if disconnected \<and> \<not> pipes_complete p then (Err (), p) else (Ok (), p))"
| "drain_pipe_events (PipeWrite x # evs) disconnected p = drain_pipe_events evs disconnected (p\<lparr>write_result := Some x\<rparr>)"
| "drain_pipe_events (PipeStdout x # evs) disconnected p = drain_pipe_events evs disconnected (p\<lparr>stdout_result := Some x\<rparr>)"
| "drain_pipe_events (PipeStderr x # evs) disconnected p = drain_pipe_events evs disconnected (p\<lparr>stderr_result := Some x\<rparr>)"

section \<open>The child process\<close>

datatype wait_answer = StillRunning | Exited "int option" | WaitFailed

text \<open>
  How a child was left: never started, or with the answers of the \<open>kill\<close> calls made on its handle and what was last known
  of it. Its exit status was seen, the question for it failed, or the handle went to \<open>spawn_child_reaper\<close>, whose
  thread waits for it if it can be started.
\<close>

datatype child_watch = Reaped "int option" | WaitUnknown | LeftToReaper

datatype child_end = NotStarted | ChildLeft "bool list" child_watch

abbreviation ChildExited :: "int option \<Rightarrow> child_end" where
  "ChildExited code \<equiv> ChildLeft [] (Reaped code)"

text \<open>A call of \<open>kill\<close>. The sources go on whatever it answers.\<close>

definition child_kill :: "bool \<Rightarrow> bool list \<Rightarrow> bool list" where
  "child_kill answer kills = kills @ [answer]"

text \<open>
  The polls after \<open>kill\<close>: the answer of \<open>try_wait\<close> and the time after it. Without a further poll the loop has not
  ended.
\<close>

fun reap_loop :: "bool list \<Rightarrow> nat \<Rightarrow> (wait_answer \<times> nat) list \<Rightarrow> child_end option" where
  "reap_loop kills cleanup_deadline [] = None"
| "reap_loop kills cleanup_deadline ((answer, now) # polls) =
     (case answer of
        Exited code \<Rightarrow> Some (ChildLeft kills (Reaped code))
      | WaitFailed \<Rightarrow> Some (ChildLeft kills WaitUnknown)
      | StillRunning \<Rightarrow>
          if cleanup_deadline - now = 0 then Some (ChildLeft kills LeftToReaper)
          else reap_loop kills cleanup_deadline polls)"

definition terminate_child_bounded :: "bool \<Rightarrow> nat \<Rightarrow> nat \<Rightarrow> (wait_answer \<times> nat) list \<Rightarrow> child_end option" where
  "terminate_child_bounded kill_answer operation_deadline now polls =
     (let kills = child_kill kill_answer [] in
      reap_loop kills (min operation_deadline (now + PROCESS_REAP_TIMEOUT)) polls)"

text \<open>
  One turn of the exchange loop: whether the token is cancelled, the time, the answer of \<open>try_wait\<close>, the tasks whose
  events the channel delivers, and the time before a response is returned.
\<close>

record exchange_poll =
  poll_cancelled :: bool
  poll_now :: nat
  poll_wait :: wait_answer
  poll_events :: "pipe_task list"
  poll_disconnected :: bool
  poll_later :: nat

record exchange_answers =
  xa_cancelled :: bool
  xa_start :: nat
  xa_identity :: world
  xa_trust :: snapshot_check
  xa_spawn :: bool
  xa_pipes :: bool
  xa_tasks :: bool
  xa_child :: child_pipes
  xa_polls :: "exchange_poll list"
  xa_kill :: bool
  xa_reap_start :: nat
  xa_reap :: "(wait_answer \<times> nat) list"

text \<open>A finished exchange: its result and how the child was left. \<open>None\<close> is an exchange that is still running.\<close>

type_synonym exchange_end = "((SshTransportError + bytes) \<times> child_end) option"

definition kill_with :: "exchange_answers \<Rightarrow> nat \<Rightarrow> SshTransportError \<Rightarrow> exchange_end" where
  "kill_with a deadline err =
     map_option (\<lambda>child. (Err err, child)) (terminate_child_bounded (xa_kill a) deadline (xa_reap_start a) (xa_reap a))"

definition response_of :: "pipe_results \<Rightarrow> SshTransportError + bytes" where
  "response_of p =
     (case (write_result p, stdout_result p, stderr_result p) of
        (Some (Some _), Some (Some stdout), Some (Some _)) \<Rightarrow>
          if read_exceeded stdout then Err (TransportResponseTooLarge MAX_SSH_RESPONSE_BYTES)
          else Ok (read_bytes stdout)
      | _ \<Rightarrow> Err IoFailed)"

text \<open>Once an exit status was observed, the child is not asked again.\<close>

definition observed_status :: "int option option \<Rightarrow> wait_answer \<Rightarrow> int option option" where
  "observed_status status answer =
     (case status of Some code \<Rightarrow> Some code | None \<Rightarrow> (case answer of Exited code \<Rightarrow> Some code | _ \<Rightarrow> None))"

fun exchange_loop ::
    "exchange_answers \<Rightarrow> nat \<Rightarrow> bytes \<Rightarrow> int option option \<Rightarrow> pipe_results \<Rightarrow> exchange_poll list \<Rightarrow> exchange_end" where
  "exchange_loop a deadline request status p [] = None"
| "exchange_loop a deadline request status p (x # polls) =
     (if poll_cancelled x then kill_with a deadline TransportCancelled
      else if poll_now x \<ge> deadline then kill_with a deadline TimedOut
      else if status = None \<and> poll_wait x = WaitFailed then kill_with a deadline IoFailed
      else
        let status = observed_status status (poll_wait x) in
        case drain_pipe_events (map (spawn_pipe_tasks (xa_child a) request) (poll_events x)) (poll_disconnected x) p of
          (Inl _, p) \<Rightarrow> kill_with a deadline IoFailed
        | (Inr _, p) \<Rightarrow>
            (case status of
               None \<Rightarrow> exchange_loop a deadline request status p polls
             | Some code \<Rightarrow>
                 if code \<noteq> Some 0 then Some (Err (ProcessFailed code), ChildExited code)
                 else if pipes_complete p
                 then if poll_later x \<ge> deadline then Some (Err TimedOut, ChildExited code)
                      else Some (response_of p, ChildExited code)
                 else exchange_loop a deadline request status p polls))"

definition process_exchange :: "exchange_answers \<Rightarrow> SshInvocation \<Rightarrow> bytes \<Rightarrow> exchange_end" where
  "process_exchange a invocation request =
     (let deadline = xa_start a + invocation_timeout invocation in
      if xa_cancelled a then Some (Err TransportCancelled, NotStarted)
      else if length request > MAX_SSH_REQUEST_BYTES
      then Some (Err (TransportRequestTooLarge (length request) MAX_SSH_REQUEST_BYTES), NotStarted)
      else if \<not> is_ok (revalidate_identity_file (xa_identity a) invocation)
      then Some (Err IdentityFileChanged, NotStarted)
      else if \<not> is_ok (revalidate_trust_snapshot (xa_trust a) invocation)
      then Some (Err TrustSnapshotChanged, NotStarted)
      else if \<not> xa_spawn a then Some (Err SpawnFailed, NotStarted)
      else if \<not> xa_pipes a then kill_with a deadline IoFailed
      else if \<not> xa_tasks a then kill_with a deadline IoFailed
      else exchange_loop a deadline request None
        \<lparr>write_result = None, stdout_result = None, stderr_result = None\<rparr> (xa_polls a))"

section \<open>A response is complete\<close>

text \<open>The bounded reader against its specification: the first bytes of the input, and whether there are more.\<close>

lemma read_bounded_loop_data:
  "read_bounded_loop maximum (take (Suc maximum) seen) (maximum < length seen) r =
     (if reader_ends r
      then Some \<lparr>read_bytes = take (Suc maximum) (seen @ reader_data r),
                 read_exceeded = (maximum < length (seen @ reader_data r))\<rparr>
      else None)"
proof (induction "reader_weight r" arbitrary: r seen rule: less_induct)
  case less
  show ?case
  proof (cases "reader_data r = []")
    case True
    then show ?thesis
      using read_some_no_data [of r 16384] by (subst read_bounded_loop.simps) auto
  next
    case False
    then obtain b r' where b: "read_some 16384 r = (Some b, r')" "b \<noteq> []"
      "reader_data r = b @ reader_data r'" "reader_ends r' = reader_ends r"
      using read_some_data [of 16384 r] by auto
    have keep: "take (Suc maximum) seen @ take (min (length b) (Suc maximum - length (take (Suc maximum) seen))) b
        = take (Suc maximum) (seen @ b)"
      by (cases "length seen \<le> Suc maximum") (auto simp: min_def)
    have over: "(maximum < length seen \<or> min (length b) (Suc maximum - length (take (Suc maximum) seen)) < length b
        \<or> maximum < length (take (Suc maximum) (seen @ b))) \<longleftrightarrow> maximum < length (seen @ b)"
      by auto
    have step: "read_bounded_loop maximum bs ov r
        = read_bounded_loop maximum (bs @ take (min (length b) (Suc maximum - length bs)) b)
            (ov \<or> min (length b) (Suc maximum - length bs) < length b
              \<or> maximum < length (bs @ take (min (length b) (Suc maximum - length bs)) b)) r'" for bs ov
      using b(1,2) by (subst read_bounded_loop.simps) (simp add: Let_def)
    have "read_bounded_loop maximum (take (Suc maximum) seen) (maximum < length seen) r
        = read_bounded_loop maximum (take (Suc maximum) (seen @ b)) (maximum < length (seen @ b)) r'"
      by (simp only: step keep over)
    also have "\<dots> = (if reader_ends r'
      then Some \<lparr>read_bytes = take (Suc maximum) ((seen @ b) @ reader_data r'),
                 read_exceeded = (maximum < length ((seen @ b) @ reader_data r'))\<rparr> else None)"
      using read_some_weight [OF b(1) [symmetric] b(2)] by (rule less)
    finally show ?thesis using b by simp
  qed
qed

lemma pipe_read_bounded_data:
  "pipe_read_bounded r maximum =
     (if reader_ends r
      then Some \<lparr>read_bytes = take (Suc maximum) (reader_data r), read_exceeded = (maximum < length (reader_data r))\<rparr>
      else None)"
  using read_bounded_loop_data [of maximum "[]" r] by (simp add: pipe_read_bounded_def)

text \<open>Every result that has arrived is the one its task sent.\<close>

definition from_tasks :: "(pipe_task \<Rightarrow> PipeEvent) \<Rightarrow> pipe_results \<Rightarrow> bool" where
  "from_tasks event p \<longleftrightarrow>
     write_result p \<in> insert None (Some ` {x. PipeWrite x = event StdinTask})
     \<and> stdout_result p \<in> insert None (Some ` {x. PipeStdout x = event StdoutTask})
     \<and> stderr_result p \<in> insert None (Some ` {x. PipeStderr x = event StderrTask})"

lemma drain_keeps_tasks:
  assumes "from_tasks (spawn_pipe_tasks pipes request) p"
  shows "from_tasks (spawn_pipe_tasks pipes request)
    (snd (drain_pipe_events (map (spawn_pipe_tasks pipes request) ts) disconnected p))"
  using assms
proof (induction ts arbitrary: p)
  case (Cons t ts)
  show ?case
  proof (cases t)
    case StdinTask
    with Cons show ?thesis by (simp add: spawn_pipe_tasks_def from_tasks_def)
  next
    case StdoutTask
    with Cons show ?thesis by (simp add: spawn_pipe_tasks_def from_tasks_def)
  next
    case StderrTask
    with Cons show ?thesis by (simp add: spawn_pipe_tasks_def from_tasks_def)
  qed
qed simp

lemma kill_with_Err: "kill_with a deadline err = Some (r, child) \<Longrightarrow> r = Err err"
  by (auto simp: kill_with_def)

lemma response_from_tasks:
  assumes "from_tasks (spawn_pipe_tasks pipes request) p" "response_of p = Ok bs"
  shows "reader_ends (pipe_stdout pipes) \<and> reader_ends (pipe_stderr pipes) \<and> bs = reader_data (pipe_stdout pipes)
    \<and> length bs \<le> MAX_SSH_RESPONSE_BYTES \<and> fst (write_all request (pipe_stdin pipes)) \<and> pipe_flushes pipes"
  using assms
  by (auto simp: response_of_def from_tasks_def spawn_pipe_tasks_def pipe_read_bounded_data
      split: option.splits if_splits)

lemma exchange_loop_Ok:
  assumes "from_tasks (spawn_pipe_tasks (xa_child a) request) p"
    "exchange_loop a deadline request status p polls = Some (Ok bs, child)"
  shows "child = ChildExited (Some 0) \<and> (\<exists>p. from_tasks (spawn_pipe_tasks (xa_child a) request) p \<and> response_of p = Ok bs)
    \<and> (\<exists>x \<in> set polls. poll_later x < deadline)"
  using assms
proof (induction polls arbitrary: status p)
  case (Cons x polls)
  let ?st = "observed_status status (poll_wait x)"
  let ?d = "drain_pipe_events (map (spawn_pipe_tasks (xa_child a) request) (poll_events x)) (poll_disconnected x) p"
  obtain r q where d: "?d = (r, q)" by (cases ?d) auto
  have q: "from_tasks (spawn_pipe_tasks (xa_child a) request) q"
    using drain_keeps_tasks [OF Cons.prems(1), of "poll_events x" "poll_disconnected x"] d by simp
  have go: "\<not> poll_cancelled x" "\<not> poll_now x \<ge> deadline" "\<not> (status = None \<and> poll_wait x = WaitFailed)"
    using Cons.prems(2) by (auto dest: kill_with_Err split: if_splits)
  with Cons.prems(2) d obtain u where "r = Inr u"
    by (cases r) (auto dest: kill_with_Err simp: Let_def)
  with Cons.prems(2) go d have e: "(case ?st of
         None \<Rightarrow> exchange_loop a deadline request ?st q polls
       | Some code \<Rightarrow>
           if code \<noteq> Some 0 then Some (Err (ProcessFailed code), ChildExited code)
           else if pipes_complete q
           then if poll_later x \<ge> deadline then Some (Err TimedOut, ChildExited code)
                else Some (response_of q, ChildExited code)
           else exchange_loop a deadline request ?st q polls) = Some (Ok bs, child)"
    by (simp add: Let_def)
  show ?case
  proof (cases "\<exists>code. ?st = Some code \<and> (code \<noteq> Some 0 \<or> pipes_complete q)")
    case True
    then obtain code where c: "?st = Some code" "code \<noteq> Some 0 \<or> pipes_complete q" by blast
    from e [unfolded c(1)] c(2) have "code = Some 0" "poll_later x < deadline" "response_of q = Ok bs"
      "child = ChildExited code" by (auto split: if_splits)
    with q show ?thesis by auto
  next
    case False
    then have "exchange_loop a deadline request ?st q polls = Some (Ok bs, child)"
      using e by (cases ?st) auto
    from Cons.IH [OF q this] show ?thesis by auto
  qed
qed simp

definition no_results :: pipe_results where
  "no_results = \<lparr>write_result = None, stdout_result = None, stderr_result = None\<rparr>"

lemma no_results_from_tasks: "from_tasks event no_results"
  by (simp add: from_tasks_def no_results_def)

lemma process_exchange_response:
  assumes "process_exchange a invocation request = Some (Ok bs, child)"
  shows "\<not> xa_cancelled a" "length request \<le> MAX_SSH_REQUEST_BYTES"
    "is_ok (revalidate_identity_file (xa_identity a) invocation)"
    "is_ok (revalidate_trust_snapshot (xa_trust a) invocation)"
    "exchange_loop a (xa_start a + invocation_timeout invocation) request None no_results (xa_polls a)
      = Some (Ok bs, child)"
  using assms
  by (auto simp: process_exchange_def no_results_def Let_def not_less dest: kill_with_Err split: if_splits)

text \<open>
  C15 [exchange_complete]: an exchange that returns a response returns the whole of it. The process ran only after the
  identity file and the trust snapshot were checked again, it exited with status zero before the deadline, the
  request was within its limit and was written completely, both output pipes were read to their end, and the
  response is every byte of the worker's output, within its limit: an oversized or torn output is never a response.
\<close>

theorem exchange_returns_the_whole_response:
  assumes "process_exchange a invocation request = Some (Ok bs, child)"
  shows "child = ChildExited (Some 0) \<and> bs = reader_data (pipe_stdout (xa_child a))
    \<and> reader_ends (pipe_stdout (xa_child a)) \<and> reader_ends (pipe_stderr (xa_child a))
    \<and> length bs \<le> MAX_SSH_RESPONSE_BYTES \<and> length request \<le> MAX_SSH_REQUEST_BYTES
    \<and> fst (write_all request (pipe_stdin (xa_child a))) \<and> pipe_flushes (xa_child a)
    \<and> revalidate_identity_file (xa_identity a) invocation = Ok ()
    \<and> revalidate_trust_snapshot (xa_trust a) invocation = Ok ()
    \<and> \<not> xa_cancelled a
    \<and> (\<exists>x \<in> set (xa_polls a). poll_later x < xa_start a + invocation_timeout invocation)"
proof -
  note g = process_exchange_response [OF assms]
  from exchange_loop_Ok [OF no_results_from_tasks g(5)] obtain p where "child = ChildExited (Some 0)"
      "from_tasks (spawn_pipe_tasks (xa_child a) request) p" "response_of p = Ok bs"
      "\<exists>x \<in> set (xa_polls a). poll_later x < xa_start a + invocation_timeout invocation" by blast
  with response_from_tasks [of "xa_child a" request p bs] g(1-4) show ?thesis unfolding is_ok_unit by blast
qed

section \<open>An exchange ends\<close>

text \<open>What is known of a child after one \<open>kill\<close>, from the polls of the bounded cleanup.\<close>

definition killed_child :: "bool \<Rightarrow> nat \<Rightarrow> (wait_answer \<times> nat) list \<Rightarrow> child_end \<Rightarrow> bool" where
  "killed_child kill_answer cleanup_deadline polls child \<longleftrightarrow>
     (\<exists>code. child = ChildLeft [kill_answer] (Reaped code) \<and> Exited code \<in> fst ` set polls)
     \<or> (child = ChildLeft [kill_answer] WaitUnknown \<and> WaitFailed \<in> fst ` set polls)
     \<or> (child = ChildLeft [kill_answer] LeftToReaper \<and> (\<exists>t \<ge> cleanup_deadline. (StillRunning, t) \<in> set polls))"

lemma reap_loop_killed: "reap_loop [b] cleanup_deadline polls = Some child \<Longrightarrow> killed_child b cleanup_deadline polls child"
proof (induction polls)
  case (Cons p polls)
  have step: "killed_child b cleanup_deadline polls child \<Longrightarrow> killed_child b cleanup_deadline (p # polls) child"
    unfolding killed_child_def by auto
  obtain answer now where p: "p = (answer, now)" by (cases p)
  show ?case
  proof (cases answer)
    case StillRunning
    with Cons p step show ?thesis by (cases "cleanup_deadline \<le> now") (auto simp: killed_child_def)
  qed (use Cons p in \<open>auto simp: killed_child_def\<close>)
qed simp

lemma reap_loop_ends:
  "(answer, t) \<in> set polls \<Longrightarrow> answer \<noteq> StillRunning \<or> cleanup_deadline \<le> t \<Longrightarrow>
   \<exists>child. reap_loop kills cleanup_deadline polls = Some child"
proof (induction polls)
  case (Cons p polls)
  then show ?case by (cases p) (auto split: wait_answer.splits)
qed simp

text \<open>A child that was started was killed, or its exit was seen by a poll of the exchange without a kill.\<close>

definition child_settled :: "exchange_answers \<Rightarrow> nat \<Rightarrow> exchange_end \<Rightarrow> bool" where
  "child_settled a deadline end \<longleftrightarrow> (\<exists>r child. end = Some (r, child)
     \<and> ((\<exists>code. child = ChildLeft [] (Reaped code) \<and> Exited code \<in> poll_wait ` set (xa_polls a))
        \<or> killed_child (xa_kill a) (min deadline (xa_reap_start a + 100)) (xa_reap a) child))"

lemma kill_with_settled:
  assumes "(answer, t) \<in> set (xa_reap a)" "answer \<noteq> StillRunning \<or> xa_reap_start a + PROCESS_REAP_TIMEOUT \<le> t"
  shows "child_settled a deadline (kill_with a deadline err)"
proof -
  let ?until = "min deadline (xa_reap_start a + PROCESS_REAP_TIMEOUT)"
  have "answer \<noteq> StillRunning \<or> ?until \<le> t" using assms(2) by (auto simp: min_def)
  then obtain child where child: "reap_loop [xa_kill a] ?until (xa_reap a) = Some child"
    using reap_loop_ends [OF assms(1)] by blast
  with reap_loop_killed [OF child] show ?thesis
    by (simp add: kill_with_def terminate_child_bounded_def child_kill_def child_settled_def PROCESS_REAP_TIMEOUT_def)
qed

lemma exchange_loop_settled:
  assumes "(answer, t) \<in> set (xa_reap a)" "answer \<noteq> StillRunning \<or> xa_reap_start a + PROCESS_REAP_TIMEOUT \<le> t"
    and "x \<in> set polls" "poll_cancelled x \<or> deadline \<le> poll_now x" "set polls \<subseteq> set (xa_polls a)"
    and "\<forall>code. status = Some code \<longrightarrow> Exited code \<in> poll_wait ` set (xa_polls a)"
  shows "child_settled a deadline (exchange_loop a deadline request status p polls)"
  using assms(3,5,6)
proof (induction polls arbitrary: status p)
  case (Cons y polls)
  note kill = kill_with_settled [OF assms(1,2)]
  show ?case
  proof (cases "x = y")
    case True
    with assms(4) kill show ?thesis by auto
  next
    case False
    let ?st = "observed_status status (poll_wait y)"
    have seen: "Exited code \<in> poll_wait ` set (xa_polls a)" if "?st = Some code" for code
    proof (cases status)
      case None
      with that have "poll_wait y = Exited code" by (auto simp: observed_status_def split: wait_answer.splits)
      with Cons.prems(2) show ?thesis by (auto intro: image_eqI [of _ _ y])
    qed (use that Cons.prems(3) in \<open>auto simp: observed_status_def\<close>)
    have more_polls: "child_settled a deadline (exchange_loop a deadline request ?st q polls)" for q
      using Cons.IH [of ?st q] Cons.prems False seen by auto
    have answer: "child_settled a deadline (Some (r, ChildExited code))" if "?st = Some code" for r code
      using seen [OF that] by (simp add: child_settled_def)
    show ?thesis
    proof (cases ?st)
      case None
      with kill more_polls show ?thesis by (simp add: Let_def split: prod.split sum.split)
    next
      case (Some code)
      with kill more_polls answer [OF Some] show ?thesis
        by (cases "code = Some 0") (simp_all add: Let_def split: prod.split sum.split)
    qed
  qed
qed simp

text \<open>
  C24 [exchange_ends]: an exchange ends, and leaves no child behind that it neither saw exit nor tried to kill. As soon as
  one poll sees the cancellation or the deadline, and one poll of the bounded cleanup sees the child gone, fails, or finds
  the 100 milliseconds over, the exchange has returned. A child was started exactly when every check before the start
  passed and the start succeeded. Then either a poll saw its exit status, and nothing was done to it; or it was killed
  once, whatever \<open>kill\<close> answered, and afterwards its exit was seen, or the question for it failed and its state is
  unknown, or it was still running at the end of the cleanup and was left to the reaper thread.
\<close>

theorem exchange_ends_by_the_deadline:
  assumes "x \<in> set (xa_polls a)" "poll_cancelled x \<or> xa_start a + invocation_timeout invocation \<le> poll_now x"
    "(answer, t) \<in> set (xa_reap a)" "answer \<noteq> StillRunning \<or> xa_reap_start a + PROCESS_REAP_TIMEOUT \<le> t"
  shows "\<exists>r child. process_exchange a invocation request = Some (r, child)
    \<and> (if \<not> xa_cancelled a \<and> length request \<le> MAX_SSH_REQUEST_BYTES
          \<and> is_ok (revalidate_identity_file (xa_identity a) invocation)
          \<and> is_ok (revalidate_trust_snapshot (xa_trust a) invocation) \<and> xa_spawn a
       then (\<exists>code. child = ChildLeft [] (Reaped code) \<and> Exited code \<in> poll_wait ` set (xa_polls a))
         \<or> (\<exists>code. child = ChildLeft [xa_kill a] (Reaped code) \<and> Exited code \<in> fst ` set (xa_reap a))
         \<or> (child = ChildLeft [xa_kill a] WaitUnknown \<and> WaitFailed \<in> fst ` set (xa_reap a))
         \<or> (child = ChildLeft [xa_kill a] LeftToReaper
             \<and> (\<exists>t \<ge> min (xa_start a + invocation_timeout invocation) (xa_reap_start a + 100). (StillRunning, t) \<in> set (xa_reap a)))
       else child = NotStarted)"
proof -
  let ?started = "\<not> xa_cancelled a \<and> length request \<le> MAX_SSH_REQUEST_BYTES
    \<and> is_ok (revalidate_identity_file (xa_identity a) invocation)
    \<and> is_ok (revalidate_trust_snapshot (xa_trust a) invocation) \<and> xa_spawn a"
  let ?deadline = "xa_start a + invocation_timeout invocation"
  note kill = kill_with_settled [OF assms(3,4)]
  note loop = exchange_loop_settled [OF assms(3,4,1,2) subset_refl, of None]
  show ?thesis
  proof (cases ?started)
    case True
    then have "child_settled a ?deadline (process_exchange a invocation request)"
      using kill loop by (simp add: process_exchange_def Let_def)
    then obtain r child where "process_exchange a invocation request = Some (r, child)"
      "(\<exists>code. child = ChildLeft [] (Reaped code) \<and> Exited code \<in> poll_wait ` set (xa_polls a))
        \<or> killed_child (xa_kill a) (min ?deadline (xa_reap_start a + 100)) (xa_reap a) child"
      unfolding child_settled_def by blast
    with True show ?thesis
      unfolding killed_child_def by (intro exI [of _ r] exI [of _ child]) simp
  next
    case False
    then show ?thesis by (auto simp: process_exchange_def Let_def not_le)
  qed
qed

text \<open>The two theorems at an exchange with the example invocation, and at one that is cancelled.\<close>

definition mac_poll :: exchange_poll where
  "mac_poll = \<lparr>poll_cancelled = False, poll_now = 10, poll_wait = StillRunning, poll_events = [StdoutTask],
     poll_disconnected = False, poll_later = 10\<rparr>"

definition mac_exchange :: exchange_answers where
  "mac_exchange = \<lparr>xa_cancelled = False, xa_start = 0, xa_identity = (\<lambda>_. mac_fs), xa_trust = sw_check mac_snapshot_world,
     xa_spawn = True, xa_pipes = True, xa_tasks = True,
     xa_child = \<lparr>pipe_stdin = \<lparr>written = [], capacity = None\<rparr>, pipe_flushes = True,
       pipe_stdout = [Chunk ''{'', Chunk ''}''], pipe_stderr = []\<rparr>,
     xa_polls = [mac_poll, mac_poll\<lparr>poll_now := 20, poll_wait := Exited (Some 0),
       poll_events := [StderrTask, StdinTask], poll_disconnected := True, poll_later := 20\<rparr>],
     xa_kill = True, xa_reap_start = 0, xa_reap = []\<rparr>"

lemma mac_revalidates:
  "revalidate_identity_file (\<lambda>_. mac_fs) mac_invocation = Ok ()"
  "revalidate_trust_snapshot (sw_check mac_snapshot_world) mac_invocation = Ok ()"
  by (simp add: revalidate_identity_file_def mac_invocation_def mac_guard_revalidate)
    (simp add: revalidate_trust_snapshot_def mac_invocation_def mac_snapshot_world_def mac_fs_def mac_file_metadata_def
      Let_def)

lemma mac_exchange_ok:
  "length request \<le> 65536 \<Longrightarrow>
   process_exchange mac_exchange mac_invocation request = Some (Ok ''{}'', ChildExited (Some 0))"
  using mac_revalidates
  by (simp add: process_exchange_def mac_exchange_def mac_poll_def Let_def spawn_pipe_tasks_def pipe_read_bounded_data
      pipes_complete_def response_of_def observed_status_def MAX_SSH_REQUEST_BYTES_def MAX_WORKER_STDIO_REQUEST_BYTES_def
      MAX_SSH_RESPONSE_BYTES_def MAX_WORKER_STDIO_RESPONSE_BYTES_def MAX_SSH_STDERR_BYTES_def)
    (simp add: mac_invocation_def SSH_OPERATION_TIMEOUT_def)

theorem exchange_returns_the_whole_response_witness:
  "process_exchange mac_exchange mac_invocation ''?'' = Some (Ok ''{}'', ChildExited (Some 0))
   \<and> ''{}'' = reader_data (pipe_stdout (xa_child mac_exchange)) \<and> reader_ends (pipe_stderr (xa_child mac_exchange))"
  using mac_exchange_ok [of "''?''"] exchange_returns_the_whole_response [OF mac_exchange_ok [of "''?''"]] by simp

theorem exchange_ends_by_the_deadline_witness:
  "\<exists>r. process_exchange (mac_exchange\<lparr>xa_polls := [mac_poll, mac_poll\<lparr>poll_cancelled := True\<rparr>],
      xa_kill := False, xa_reap := [(StillRunning, 90), (StillRunning, 100)]\<rparr>) mac_invocation ''?''
    = Some (r, ChildLeft [False] LeftToReaper)"
proof -
  let ?a = "mac_exchange\<lparr>xa_polls := [mac_poll, mac_poll\<lparr>poll_cancelled := True\<rparr>],
      xa_kill := False, xa_reap := [(StillRunning, 90), (StillRunning, 100)]\<rparr>"
  have "\<not> xa_cancelled ?a" "xa_spawn ?a" "is_ok (revalidate_identity_file (xa_identity ?a) mac_invocation)"
    "is_ok (revalidate_trust_snapshot (xa_trust ?a) mac_invocation)" "xa_kill ?a = False"
    "Exited code \<notin> poll_wait ` set (xa_polls ?a)" "Exited code \<notin> fst ` set (xa_reap ?a)" "WaitFailed \<notin> fst ` set (xa_reap ?a)"
    for code
    using mac_revalidates by (simp_all add: mac_exchange_def mac_poll_def)
  moreover have "length ''?'' \<le> MAX_SSH_REQUEST_BYTES"
    by (simp add: MAX_SSH_REQUEST_BYTES_def MAX_WORKER_STDIO_REQUEST_BYTES_def)
  ultimately show ?thesis
    using exchange_ends_by_the_deadline [where a = ?a and x = "mac_poll\<lparr>poll_cancelled := True\<rparr>"
      and answer = StillRunning and t = 100 and invocation = mac_invocation and request = "''?''"]
    by (auto simp: PROCESS_REAP_TIMEOUT_def mac_exchange_def)
qed

end
