(* ===== verification/Ssh_Session.thy ===== *)
theory Ssh_Session
  imports Artifact_Spool
begin

text \<open>
  The client of one framed snapshot build (\<^verbatim>\<open>src/crates/rustferry-ssh/src/session.rs\<close>): it prepares and
  uploads the request, reads the worker's acknowledgement, events, artifact and completion, verifies the
  artifact and sends either a receipt or a cancellation as its fourth frame.

  The state of a session is everything the functions of the source mutate. JSON codecs, digests, the
  artifact verifier and the answers of the operating system are arguments.
\<close>

section \<open>Session state\<close>

definition SSH_PROVIDER_ID :: string where "SSH_PROVIDER_ID = ''ssh-macos''"

datatype ClientOutputState = Uploading | Cancelable | ReceiptStarted | ReceiptSent | CancelSent

definition can_send_cancel :: "ClientOutputState \<Rightarrow> bool" where
  "can_send_cancel p \<longleftrightarrow> p = Cancelable"

record client_session =
  cs_reader :: reader
  cs_sequence :: WorkerDataPlaneSequence
  cs_next_event :: u64
  cs_events :: "RemoteBuildEvent list"
  cs_spool_file :: writer
  cs_spool :: CreateOnlyArtifactSpool
  cs_writer :: writer
  cs_progress :: ClientOutputState
  cs_guard_armed :: bool

record session_env =
  ev_request :: request_env
  ev_event :: event_env
  ev_usize_max :: nat
  ev_descriptor :: descriptor_parser
  ev_start_json :: "SnapshotBuildStart \<Rightarrow> bytes option"
  ev_receipt_json :: "SnapshotArtifactReceipt \<Rightarrow> bytes option"
  ev_accepted :: "bytes \<Rightarrow> SnapshotJobAccepted option"
  ev_artifact :: "bytes \<Rightarrow> SnapshotArtifactDescriptor option"
  ev_complete :: "bytes \<Rightarrow> SnapshotBuildComplete option"
  ev_error :: "bytes \<Rightarrow> SnapshotSessionError option"
  ev_canonicalize :: "string \<Rightarrow> string option"
  ev_verify :: "string \<Rightarrow> SnapshotArtifactDescriptor \<Rightarrow> ProtocolPath option"

text \<open>The answers of the operating system, in the order the session asks for them.\<close>

record session_host =
  h_descriptor_check :: file_pass
  h_archive_check :: file_pass
  h_descriptor_parse :: file_pass
  h_descriptor_rewind :: bool
  h_archive_rewind :: bool
  h_new_link :: new_link
  h_descriptor_stream :: file_stream
  h_archive_stream :: file_stream
  h_request_flush :: bool
  h_payload_link :: new_link
  h_spool_seek :: bool
  h_spool_sync :: bool
  h_spool_metadata :: "file_metadata option"
  h_verify_seek :: bool
  h_verified_check :: file_pass
  h_publication_identity :: published_file
  h_publication_check :: published_file
  h_receipt_flush :: bool
  h_cancel_flush :: bool
  h_cleanup_published :: link_removal
  h_cleanup_staging :: link_removal

type_synonym 'a session_result = "(SnapshotSessionClientError + 'a) \<times> client_session"

section \<open>Preparing and uploading\<close>

record PreparedRequest =
  pr_start :: SnapshotBuildStart
  pr_operation_id :: string
  pr_protocol_version :: ProtocolVersion
  pr_request_sha256 :: string
  pr_source_sha256 :: string

definition prepare_request ::
    "session_env \<Rightarrow> session_host \<Rightarrow> SnapshotBuildStart \<Rightarrow> SourceArchiveLimits
     \<Rightarrow> SnapshotSessionClientError + PreparedRequest" where
  "prepare_request env h start limits =
     (let sha = env_sha256 (ev_request env); archive = start_source_archive start in
      and_then (map_err (\<lambda>_. InvalidBuildStart) (SnapshotBuildStart_validate start)) (\<lambda>_.
      and_then (validate_open_file_bytes sha (h_descriptor_check h) (start_source_descriptor_size start)
        (start_source_descriptor_sha256 start) SourceDescriptorMismatch) (\<lambda>_.
      and_then (validate_open_file_bytes sha (h_archive_check h) (archive_size archive) (archive_sha256 archive)
        SourceArchiveMismatch) (\<lambda>_.
      and_then (parse_validated_descriptor sha (ev_descriptor env) (h_descriptor_parse h)
        (start_source_descriptor_size start) (start_source_descriptor_sha256 start)) (\<lambda>descriptor.
      and_then (map_err (\<lambda>_. InvalidSourceDescriptor) (start_reconstruct_request (ev_request env) start descriptor limits))
        (\<lambda>reconstructed.
      and_then (map_err (\<lambda>_. InvalidBuildStart) (canonical_request_sha256 (ev_request env) reconstructed)) (\<lambda>request_digest.
      and_then (map_err (\<lambda>_. InvalidBuildStart) (negotiate CURRENT_PROTOCOL_VERSION (request_protocol_version reconstructed)))
        (\<lambda>version.
      if \<not> h_descriptor_rewind h \<or> \<not> h_archive_rewind h then Err LocalIo
      else Ok \<lparr>pr_start = start, pr_operation_id = request_operation_id reconstructed, pr_protocol_version = version,
        pr_request_sha256 = request_digest, pr_source_sha256 = manifest_sha256 (source reconstructed)\<rparr>))))))))"

definition write_json_frame ::
    "('a \<Rightarrow> bytes option) \<Rightarrow> WorkerDataPlaneFrameKind \<Rightarrow> u64 \<Rightarrow> 'a \<Rightarrow> client_session \<Rightarrow> unit session_result" where
  "write_json_frame to_vec k sq x st =
     (case to_vec x of
        None \<Rightarrow> (Err InvalidControlFrame, st)
      | Some payload \<Rightarrow>
          (case write_worker_data_plane_frame (cs_writer st) k sq payload of
             (Inl e, w) \<Rightarrow> (Err (DataPlane e), st\<lparr>cs_writer := w\<rparr>)
           | (Inr _, w) \<Rightarrow> (Ok (), st\<lparr>cs_writer := w\<rparr>)))"

definition stream_step ::
    "session_env \<Rightarrow> WorkerDataPlaneFrameKind \<Rightarrow> u64 \<Rightarrow> file_stream \<Rightarrow> u64 \<Rightarrow> string
     \<Rightarrow> SnapshotSessionClientError \<Rightarrow> client_session \<Rightarrow> unit session_result" where
  "stream_step env k sq f n d mismatch st =
     (case stream_validated_file (env_sha256 (ev_request env)) (cs_writer st) k sq f n d mismatch of
        (res, w) \<Rightarrow> (res, st\<lparr>cs_writer := w\<rparr>))"

definition write_request_frames ::
    "session_env \<Rightarrow> session_host \<Rightarrow> PreparedRequest \<Rightarrow> client_session \<Rightarrow> unit session_result" where
  "write_request_frames env h p st =
     and_next (write_json_frame (ev_start_json env) BuildRequest 0 (pr_start p) st) (\<lambda>_ st.
     and_next (stream_step env SourceDescriptor 1 (h_descriptor_stream h) (start_source_descriptor_size (pr_start p))
       (start_source_descriptor_sha256 (pr_start p)) SourceDescriptorMismatch st) (\<lambda>_ st.
     stream_step env SourceArchive 2 (h_archive_stream h) (archive_size (start_source_archive (pr_start p)))
       (archive_sha256 (start_source_archive (pr_start p))) SourceArchiveMismatch st))"

section \<open>Reading the worker\<close>

definition read_sequenced_header :: "client_session \<Rightarrow> WorkerDataPlaneFrameHeader session_result" where
  "read_sequenced_header st =
     (case read_worker_data_plane_header (cs_reader st) of
        (Inl e, r) \<Rightarrow> (Err (DataPlane e), st\<lparr>cs_reader := r\<rparr>)
      | (Inr h, r) \<Rightarrow>
          (case accept (cs_sequence st) h of
             Inl e \<Rightarrow> (Err (DataPlane e), st\<lparr>cs_reader := r\<rparr>)
           | Inr sq \<Rightarrow> (Ok h, st\<lparr>cs_reader := r, cs_sequence := sq\<rparr>)))"

definition read_payload :: "session_env \<Rightarrow> WorkerDataPlaneFrameHeader \<Rightarrow> client_session \<Rightarrow> bytes session_result" where
  "read_payload env h st =
     (case read_worker_data_plane_payload (ev_usize_max env) (cs_reader st) h of
        (Inl e, r) \<Rightarrow> (Err (DataPlane e), st\<lparr>cs_reader := r\<rparr>)
      | (Inr payload, r) \<Rightarrow> (Ok payload, st\<lparr>cs_reader := r\<rparr>))"

definition read_json_frame ::
    "session_env \<Rightarrow> (bytes \<Rightarrow> 'a option) \<Rightarrow> WorkerDataPlaneFrameHeader \<Rightarrow> client_session \<Rightarrow> 'a session_result" where
  "read_json_frame env from_slice h st =
     and_next (read_payload env h st) (\<lambda>payload st.
       case from_slice payload of None \<Rightarrow> (Err InvalidControlFrame, st) | Some x \<Rightarrow> (Ok x, st))"

definition read_server_error ::
    "session_env \<Rightarrow> WorkerDataPlaneFrameHeader \<Rightarrow> string \<Rightarrow> ProtocolVersion \<Rightarrow> SnapshotJobAccepted option
     \<Rightarrow> client_session \<Rightarrow> SnapshotSessionError session_result" where
  "read_server_error env h operation version accepted st =
     and_next (read_json_frame env (ev_error env) h st) (\<lambda>e st.
       if \<not> is_ok (SnapshotSessionError_validate e) then (Err InvalidControlFrame, st)
       else if se_protocol_version e \<noteq> version
         \<or> (case se_operation_id e of None \<Rightarrow> False | Some theirs \<Rightarrow> theirs \<noteq> operation)
       then (Err JobIdentityMismatch, st)
       else case accepted of
           Some a \<Rightarrow>
             if se_operation_id e \<noteq> Some operation \<or> se_job_id e \<noteq> Some (ja_job_id a)
             then (Err JobIdentityMismatch, st) else (Ok e, st)
         | None \<Rightarrow> if se_job_id e \<noteq> None then (Err JobIdentityMismatch, st) else (Ok e, st))"

definition fail_with_server_error ::
    "session_env \<Rightarrow> WorkerDataPlaneFrameHeader \<Rightarrow> PreparedRequest \<Rightarrow> SnapshotJobAccepted option
     \<Rightarrow> client_session \<Rightarrow> 'a session_result" where
  "fail_with_server_error env h p accepted st =
     and_next (read_server_error env h (pr_operation_id p) (pr_protocol_version p) accepted st) (\<lambda>e st. (Err (Server e), st))"

definition read_job_accepted ::
    "session_env \<Rightarrow> PreparedRequest \<Rightarrow> client_session \<Rightarrow> SnapshotJobAccepted session_result" where
  "read_job_accepted env p st =
     and_next (read_sequenced_header st) (\<lambda>h st.
       if kind h = JobAccepted then
         and_next (read_json_frame env (ev_accepted env) h st) (\<lambda>a st.
           if \<not> is_ok (SnapshotJobAccepted_validate a) then (Err InvalidControlFrame, st)
           else if ja_operation_id a \<noteq> pr_operation_id p \<or> ja_protocol_version a \<noteq> pr_protocol_version p
           then (Err JobIdentityMismatch, st)
           else (Ok a, st))
       else if kind h = FrameError then fail_with_server_error env h p None st
       else (Err (UnexpectedServerFrame ''job_accepted or error'' (kind h)), st))"

definition read_event ::
    "session_env \<Rightarrow> WorkerDataPlaneFrameHeader \<Rightarrow> PreparedRequest \<Rightarrow> SnapshotJobAccepted \<Rightarrow> client_session
     \<Rightarrow> RemoteBuildEvent session_result" where
  "read_event env h p a st =
     and_next (read_payload env h st) (\<lambda>payload st.
       case decode_line_bytes (ev_event env) payload of
         Inl _ \<Rightarrow> (Err InvalidControlFrame, st)
       | Inr event \<Rightarrow>
           if event_protocol_version event \<noteq> pr_protocol_version p \<or> event_operation_id event \<noteq> pr_operation_id p
             \<or> event_job_id event \<noteq> ja_job_id a \<or> event_provider event \<noteq> SSH_PROVIDER_ID
           then (Err EventIdentityMismatch, st)
           else if event_sequence event \<noteq> cs_next_event st then (Err EventSequenceMismatch, st)
           else (case checked_add (cs_next_event st) 1 of
               None \<Rightarrow> (Err EventSequenceMismatch, st)
             | Some n \<Rightarrow> (Ok event, st\<lparr>cs_next_event := n\<rparr>)))"

section \<open>Frames on the wire\<close>

lemma read_header_consumes:
  assumes "read_worker_data_plane_header r = (Ok h, r')"
  shows "reader_data r = encode_header h @ reader_data r' \<and> header_wf h"
proof -
  let ?eof = "\<lambda>offset. if offset = 0 then EmptyInput else TruncatedHeader"
  obtain s where s: "read_exact_loop ?eof 24 [] r = (Ok s, r')" "decode_header s = Ok h"
    using assms by (auto simp: read_worker_data_plane_header_def read_header_exact_def WORKER_DATA_PLANE_HEADER_BYTES_def
        split: prod.splits sum.splits)
  have enough: "24 \<le> length (reader_data r)"
    using read_exact_loop_short [of "[]" 24 r ?eof] s(1) by (cases "24 \<le> length (reader_data r)") auto
  then have "s = take 24 (reader_data r)" "reader_data r' = drop 24 (reader_data r)"
    using read_exact_loop_enough [of "[]" 24 r ?eof] s(1) by auto
  moreover from this(1) have "s = encode_header h \<and> header_wf h"
    using enough by (intro decode_header_Ok [OF _ s(2)]) simp
  ultimately show ?thesis by (metis append_take_drop_id)
qed

lemma read_payload_consumes:
  assumes "read_worker_data_plane_payload m r h = (Ok payload, r')"
  shows "reader_data r = payload @ reader_data r' \<and> length payload = unat (payload_bytes h)"
proof -
  let ?n = "unat (payload_bytes h)"
  have s: "read_exact_loop (\<lambda>_. TruncatedPayload) ?n [] r = (Ok payload, r')"
    using assms by (auto simp: read_worker_data_plane_payload_def read_payload_exact_def split: if_splits)
  have enough: "?n \<le> length (reader_data r)"
    using read_exact_loop_short [of "[]" ?n r "\<lambda>_. TruncatedPayload"] s by (cases "?n \<le> length (reader_data r)") auto
  then have "payload = take ?n (reader_data r)" "reader_data r' = drop ?n (reader_data r)"
    using read_exact_loop_enough [of "[]" ?n r "\<lambda>_. TruncatedPayload"] s by auto
  with enough show ?thesis by simp
qed

lemma read_sequenced_header_Ok:
  assumes "read_sequenced_header st = (Ok h, st')"
  obtains r sq where "st' = st\<lparr>cs_reader := r, cs_sequence := sq\<rparr>" "accept (cs_sequence st) h = Ok sq"
    "reader_data (cs_reader st) = encode_header h @ reader_data r" "header_wf h"
  using assms read_header_consumes
  by (auto simp: read_sequenced_header_def split: prod.splits sum.splits)

lemma read_payload_Ok:
  assumes "read_payload env h st = (Ok payload, st')"
  obtains r where "st' = st\<lparr>cs_reader := r\<rparr>" "reader_data (cs_reader st) = payload @ reader_data r"
    "length payload = unat (payload_bytes h)"
  using assms read_payload_consumes by (auto simp: read_payload_def split: prod.splits sum.splits)

lemma read_json_frame_Ok:
  assumes "read_json_frame env from_slice h st = (Ok x, st')"
  obtains r payload where "st' = st\<lparr>cs_reader := r\<rparr>" "reader_data (cs_reader st) = payload @ reader_data r"
    "from_slice payload = Some x"
proof -
  obtain payload where "read_payload env h st = (Ok payload, st')" "from_slice payload = Some x"
    using assms by (auto simp: read_json_frame_def and_next_Ok split: option.splits)
  then show thesis using that by (metis read_payload_Ok)
qed

lemma read_event_Ok:
  assumes "read_event env h p a st = (Ok event, st')"
  obtains r payload n where "st' = st\<lparr>cs_reader := r, cs_next_event := n\<rparr>"
    "reader_data (cs_reader st) = payload @ reader_data r" "decode_line_bytes (ev_event env) payload = Ok event"
    "event_sequence event = cs_next_event st" "checked_add (cs_next_event st) 1 = Some n"
    "event_protocol_version event = pr_protocol_version p" "event_operation_id event = pr_operation_id p"
    "event_job_id event = ja_job_id a" "event_provider event = SSH_PROVIDER_ID"
proof -
  obtain payload st1 where s: "read_payload env h st = (Ok payload, st1)" and
    body: "(case decode_line_bytes (ev_event env) payload of
         Inl _ \<Rightarrow> (Err InvalidControlFrame, st1)
       | Inr event \<Rightarrow>
           if event_protocol_version event \<noteq> pr_protocol_version p \<or> event_operation_id event \<noteq> pr_operation_id p
             \<or> event_job_id event \<noteq> ja_job_id a \<or> event_provider event \<noteq> SSH_PROVIDER_ID
           then (Err EventIdentityMismatch, st1)
           else if event_sequence event \<noteq> cs_next_event st1 then (Err EventSequenceMismatch, st1)
           else (case checked_add (cs_next_event st1) 1 of
               None \<Rightarrow> (Err EventSequenceMismatch, st1)
             | Some n \<Rightarrow> (Ok event, st1\<lparr>cs_next_event := n\<rparr>))) = (Ok event, st')"
    using assms unfolding read_event_def and_next_Ok by blast
  then obtain n where n: "checked_add (cs_next_event st1) 1 = Some n" "st' = st1\<lparr>cs_next_event := n\<rparr>"
    by (simp split: sum.splits if_splits option.splits)
  from body have d: "decode_line_bytes (ev_event env) payload = Ok event"
    "event_sequence event = cs_next_event st1"
    "event_protocol_version event = pr_protocol_version p" "event_operation_id event = pr_operation_id p"
    "event_job_id event = ja_job_id a" "event_provider event = SSH_PROVIDER_ID"
    by (simp_all split: sum.splits if_splits option.splits)
  obtain r where "st1 = st\<lparr>cs_reader := r\<rparr>" "reader_data (cs_reader st) = payload @ reader_data r"
    using s by (rule read_payload_Ok)
  with n d that show thesis by simp
qed

section \<open>The session\<close>

lemma read_until_decreases:
  assumes "(Inr h, st1) = read_sequenced_header st" "(Inr event, st2) = read_event env h p a st1"
  shows "length (reader_data (cs_reader st2)) < length (reader_data (cs_reader st))"
proof -
  obtain r sq where "st1 = st\<lparr>cs_reader := r, cs_sequence := sq\<rparr>" "reader_data (cs_reader st) = encode_header h @ reader_data r"
    using assms(1) [symmetric] by (rule read_sequenced_header_Ok)
  moreover obtain r' payload n where "st2 = st1\<lparr>cs_reader := r', cs_next_event := n\<rparr>"
    "reader_data (cs_reader st1) = payload @ reader_data r'"
    using assms(2) [symmetric] by (rule read_event_Ok)
  ultimately show ?thesis by simp
qed

text \<open>
  The loops of \<open>read_until_artifact_descriptor\<close> and \<open>read_until_complete\<close> differ in what they do with a
  frame that is not an event. Every iteration consumes a frame header, so the loop ends.
\<close>

function read_until ::
    "session_env \<Rightarrow> PreparedRequest \<Rightarrow> SnapshotJobAccepted
     \<Rightarrow> (WorkerDataPlaneFrameHeader \<Rightarrow> client_session \<Rightarrow> 'a session_result) \<Rightarrow> client_session \<Rightarrow> 'a session_result" where
  "read_until env p a finish st =
     (case read_sequenced_header st of
        (Inl e, st1) \<Rightarrow> (Err e, st1)
      | (Inr h, st1) \<Rightarrow>
          if kind h = Event then
            (case read_event env h p a st1 of
               (Inl e, st2) \<Rightarrow> (Err e, st2)
             | (Inr event, st2) \<Rightarrow> read_until env p a finish (st2\<lparr>cs_events := cs_events st2 @ [event]\<rparr>))
          else finish h st1)"
  by pat_completeness auto

termination
  by (relation "measure (\<lambda>(env, p, a, finish, st). length (reader_data (cs_reader st)))")
    (auto dest: read_until_decreases)

declare read_until.simps [simp del]

definition finish_artifact_descriptor ::
    "session_env \<Rightarrow> PreparedRequest \<Rightarrow> SnapshotJobAccepted \<Rightarrow> WorkerDataPlaneFrameHeader \<Rightarrow> client_session
     \<Rightarrow> SnapshotArtifactDescriptor session_result" where
  "finish_artifact_descriptor env p a h st =
     (if kind h = ArtifactDescriptor then
        and_next (read_json_frame env (ev_artifact env) h st) (\<lambda>d st.
          if \<not> is_ok (SnapshotArtifactDescriptor_validate (ev_request env) d) then (Err InvalidControlFrame, st)
          else if ad_operation_id d \<noteq> pr_operation_id p \<or> ad_job_id d \<noteq> ja_job_id a
            \<or> ad_protocol_version d \<noteq> pr_protocol_version p
          then (Err ArtifactIdentityMismatch, st)
          else if ce_request_sha256 (ad_compile d) \<noteq> pr_request_sha256 p
            \<or> ce_source_sha256 (ad_compile d) \<noteq> pr_source_sha256 p \<or> ce_provider (ad_compile d) \<noteq> SSH_PROVIDER_ID
          then (Err CompileEvidenceMismatch, st)
          else (Ok d, st))
      else if kind h = FrameError then fail_with_server_error env h p (Some a) st
      else (Err (UnexpectedServerFrame ''event, artifact_descriptor, or error'' (kind h)), st))"

definition read_until_artifact_descriptor ::
    "session_env \<Rightarrow> PreparedRequest \<Rightarrow> SnapshotJobAccepted \<Rightarrow> client_session
     \<Rightarrow> SnapshotArtifactDescriptor session_result" where
  "read_until_artifact_descriptor env p a st = read_until env p a (finish_artifact_descriptor env p a) st"

definition finish_complete ::
    "session_env \<Rightarrow> PreparedRequest \<Rightarrow> SnapshotJobAccepted \<Rightarrow> WorkerDataPlaneFrameHeader \<Rightarrow> client_session
     \<Rightarrow> SnapshotBuildComplete session_result" where
  "finish_complete env p a h st =
     (if kind h = Complete then
        and_next (read_json_frame env (ev_complete env) h st) (\<lambda>c st.
          if \<not> is_ok (SnapshotBuildComplete_validate c) then (Err InvalidControlFrame, st)
          else if bc_operation_id c \<noteq> pr_operation_id p \<or> bc_job_id c \<noteq> ja_job_id a
            \<or> bc_protocol_version c \<noteq> pr_protocol_version p
          then (Err CompletionIdentityMismatch, st)
          else (Ok c, st))
      else if kind h = FrameError then fail_with_server_error env h p (Some a) st
      else (Err (UnexpectedServerFrame ''event, complete, or error after artifact receipt'' (kind h)), st))"

definition read_until_complete ::
    "session_env \<Rightarrow> PreparedRequest \<Rightarrow> SnapshotJobAccepted \<Rightarrow> client_session \<Rightarrow> SnapshotBuildComplete session_result" where
  "read_until_complete env p a st = read_until env p a (finish_complete env p a) st"

definition read_artifact_payload ::
    "session_env \<Rightarrow> session_host \<Rightarrow> PreparedRequest \<Rightarrow> SnapshotJobAccepted \<Rightarrow> SnapshotArtifactDescriptor
     \<Rightarrow> client_session \<Rightarrow> unit session_result" where
  "read_artifact_payload env host p a d st =
     and_next (read_sequenced_header st) (\<lambda>h st.
       if kind h = FrameError then fail_with_server_error env h p (Some a) st
       else if kind h \<noteq> Artifact
       then (Err (UnexpectedServerFrame ''artifact immediately after artifact_descriptor'' (kind h)), st)
       else if payload_bytes h \<noteq> artifact_size (ad_artifact d) then (Err ArtifactPayloadMismatch, st)
       else and_next (pure_step (validate_new_link (h_payload_link host)) st) (\<lambda>_ st.
       if \<not> h_spool_seek host then (Err LocalIo, st)
       else (case copy_exact_hashed (env_sha256 (ev_request env)) (cs_reader st) (cs_spool_file st) (payload_bytes h) of
           (Inl e, r, w) \<Rightarrow> (Err e, st\<lparr>cs_reader := r, cs_spool_file := w\<rparr>)
         | (Inr digest, r, w) \<Rightarrow>
             let st = st\<lparr>cs_reader := r, cs_spool_file := w\<rparr> in
             if \<not> h_spool_sync host then (Err LocalIo, st)
             else if digest \<noteq> artifact_sha256 (ad_artifact d) then (Err ArtifactPayloadMismatch, st)
             else (case h_spool_metadata host of
                 None \<Rightarrow> (Err LocalIo, st)
               | Some m \<Rightarrow>
                   if md_len m \<noteq> artifact_size (ad_artifact d) then (Err ArtifactPayloadMismatch, st) else (Ok (), st)))))"

record SnapshotSessionOutcome =
  out_accepted :: SnapshotJobAccepted
  out_artifact :: SnapshotArtifactDescriptor
  out_receipt :: SnapshotArtifactReceipt
  out_complete :: SnapshotBuildComplete

definition begin_receipt :: "client_session \<Rightarrow> client_session" where
  "begin_receipt st = st\<lparr>cs_progress := ReceiptStarted, cs_guard_armed := False\<rparr>"

definition receipt_sent :: "client_session \<Rightarrow> client_session" where
  "receipt_sent st = st\<lparr>cs_progress := ReceiptSent\<rparr>"

definition drop_cancel_guard :: "session_host \<Rightarrow> client_session \<Rightarrow> client_session" where
  "drop_cancel_guard host st =
     (if cs_guard_armed st \<and> can_send_cancel (cs_progress st) then
        (case write_worker_data_plane_frame (cs_writer st) Cancel 3 [] of
           (Inl _, w) \<Rightarrow> st\<lparr>cs_writer := w\<rparr>
         | (Inr _, w) \<Rightarrow> if h_cancel_flush host then st\<lparr>cs_writer := w, cs_progress := CancelSent\<rparr> else st\<lparr>cs_writer := w\<rparr>)
      else st)"

definition register_step ::
    "session_env \<Rightarrow> session_host \<Rightarrow> SnapshotArtifactDescriptor \<Rightarrow> SnapshotArtifactReceipt \<Rightarrow> client_session
     \<Rightarrow> unit session_result" where
  "register_step env host d receipt st =
     (case register_publication (env_sha256 (ev_request env)) (ev_canonicalize env) (h_publication_identity host)
         (h_publication_check host) (rc_local_path receipt) (artifact_size (ad_artifact d)) (artifact_sha256 (ad_artifact d))
         (cs_spool st) of
        (res, sp) \<Rightarrow> (res, st\<lparr>cs_spool := sp\<rparr>))"

text \<open>From the verified payload to the receipt on the wire.\<close>

definition send_receipt ::
    "session_env \<Rightarrow> session_host \<Rightarrow> SnapshotArtifactDescriptor \<Rightarrow> client_session \<Rightarrow> SnapshotArtifactReceipt session_result" where
  "send_receipt env host d st =
     (if \<not> h_verify_seek host then (Err LocalIo, st)
      else case ev_verify env (spool_path (cs_spool st)) d of
          None \<Rightarrow> (Err ArtifactVerificationFailed, st)
        | Some path \<Rightarrow>
            and_next (pure_step (validate_open_file_bytes (env_sha256 (ev_request env)) (h_verified_check host)
              (artifact_size (ad_artifact d)) (artifact_sha256 (ad_artifact d)) ArtifactVerificationFailed) st) (\<lambda>_ st.
            and_next (pure_step (map_err (\<lambda>_. ArtifactVerificationFailed)
              (SnapshotArtifactReceipt_new (ev_request env) d path)) st) (\<lambda>receipt st.
            and_next (register_step env host d receipt st) (\<lambda>_ st.
            and_next (write_json_frame (ev_receipt_json env) ArtifactReceipt 3 receipt (begin_receipt st)) (\<lambda>_ st.
            if \<not> h_receipt_flush host then (Err (DataPlane Io), st) else (Ok receipt, receipt_sent st))))))"

text \<open>The part of the session that runs under the cancellation guard.\<close>

definition guarded_session ::
    "session_env \<Rightarrow> session_host \<Rightarrow> PreparedRequest \<Rightarrow> client_session \<Rightarrow> SnapshotSessionOutcome session_result" where
  "guarded_session env host p st =
     and_next (read_job_accepted env p st) (\<lambda>a st.
     and_next (read_until_artifact_descriptor env p a st) (\<lambda>d st.
     and_next (read_artifact_payload env host p a d st) (\<lambda>_ st.
     if cs_next_event st = 0 then (Err MissingProgressEvent, st)
     else and_next (send_receipt env host d st) (\<lambda>receipt st.
     and_next (read_until_complete env p a st) (\<lambda>c st.
       (Ok \<lparr>out_accepted = a, out_artifact = d, out_receipt = receipt, out_complete = c\<rparr>, st))))))"

definition run_snapshot_session_uncommitted ::
    "session_env \<Rightarrow> session_host \<Rightarrow> SnapshotBuildStart \<Rightarrow> SourceArchiveLimits \<Rightarrow> client_session
     \<Rightarrow> SnapshotSessionOutcome session_result" where
  "run_snapshot_session_uncommitted env host start limits st =
     and_next (pure_step (prepare_request env host start limits) st) (\<lambda>p st.
     and_next (pure_step (validate_new_link (h_new_link host)) st) (\<lambda>_ st.
     and_next (write_request_frames env host p st) (\<lambda>_ st.
     if \<not> h_request_flush host then (Err (DataPlane Io), st)
     else
       let (res, st') = guarded_session env host p (st\<lparr>cs_progress := Cancelable, cs_guard_armed := True\<rparr>) in
       (res, drop_cancel_guard host st'))))"

definition cleanup_session_error ::
    "session_host \<Rightarrow> SnapshotSessionClientError \<Rightarrow> client_session \<Rightarrow> 'a session_result" where
  "cleanup_session_error host e st =
     (case cleanup_failure (h_cleanup_published host) (h_cleanup_staging host) (cs_spool st) of
        (Inl e', sp) \<Rightarrow> (Err e', st\<lparr>cs_spool := sp\<rparr>)
      | (Inr _, sp) \<Rightarrow> (Err e, st\<lparr>cs_spool := sp\<rparr>))"

definition run_snapshot_session_deferred ::
    "session_env \<Rightarrow> session_host \<Rightarrow> SnapshotBuildStart \<Rightarrow> SourceArchiveLimits \<Rightarrow> client_session
     \<Rightarrow> SnapshotSessionOutcome session_result" where
  "run_snapshot_session_deferred env host start limits st =
     (case run_snapshot_session_uncommitted env host start limits st of
        (Inr out, st') \<Rightarrow> (Ok out, st')
      | (Inl e, st') \<Rightarrow> cleanup_session_error host e st')"

definition run_snapshot_session ::
    "session_env \<Rightarrow> session_host \<Rightarrow> SnapshotBuildStart \<Rightarrow> SourceArchiveLimits \<Rightarrow> client_session
     \<Rightarrow> SnapshotSessionOutcome session_result" where
  "run_snapshot_session env host start limits st =
     and_next (run_snapshot_session_deferred env host start limits st) (\<lambda>out st.
       case authorize_commit (cs_spool st) of
         (Inl e, sp) \<Rightarrow> cleanup_session_error host e (st\<lparr>cs_spool := sp\<rparr>)
       | (Inr _, sp) \<Rightarrow> (Ok out, st\<lparr>cs_spool := sp\<rparr>))"

section \<open>Where the session calls its caller\<close>

text \<open>
  The session calls code of its caller at two places: the event sink for every event it has read, and the verifier for
  the artifact it has received. These are the states of one session at those calls, in their order; a call that panics
  leaves the session in its state, with the cancellation guard dropped on the way out.
\<close>

function event_calls ::
    "session_env \<Rightarrow> PreparedRequest \<Rightarrow> SnapshotJobAccepted \<Rightarrow> client_session \<Rightarrow> client_session list" where
  "event_calls env p a st =
     (case read_sequenced_header st of
        (Inl e, st1) \<Rightarrow> []
      | (Inr h, st1) \<Rightarrow>
          if kind h = Event then
            (case read_event env h p a st1 of
               (Inl e, st2) \<Rightarrow> []
             | (Inr event, st2) \<Rightarrow>
                 st2\<lparr>cs_events := cs_events st2 @ [event]\<rparr> # event_calls env p a (st2\<lparr>cs_events := cs_events st2 @ [event]\<rparr>))
          else [])"
  by pat_completeness auto

termination
  by (relation "measure (\<lambda>(env, p, a, st). length (reader_data (cs_reader st)))")
    (auto dest: read_until_decreases)

declare event_calls.simps [simp del]

definition guarded_calls :: "session_env \<Rightarrow> session_host \<Rightarrow> PreparedRequest \<Rightarrow> client_session \<Rightarrow> client_session list" where
  "guarded_calls env host p st =
     (case read_job_accepted env p st of
        (Inl _, _) \<Rightarrow> []
      | (Inr a, st) \<Rightarrow>
          event_calls env p a st
          @ (case and_next (read_until_artifact_descriptor env p a st) (\<lambda>d st.
                and_next (read_artifact_payload env host p a d st) (\<lambda>_ st.
                if cs_next_event st = 0 then (Err MissingProgressEvent, st)
                else if \<not> h_verify_seek host then (Err LocalIo, st) else (Ok d, st))) of
               (Inl _, _) \<Rightarrow> []
             | (Inr d, st) \<Rightarrow>
                 st # (case send_receipt env host d st of
                         (Inl _, _) \<Rightarrow> [] | (Inr _, st) \<Rightarrow> event_calls env p a st)))"

definition callback_states ::
    "session_env \<Rightarrow> session_host \<Rightarrow> SnapshotBuildStart \<Rightarrow> SourceArchiveLimits \<Rightarrow> client_session \<Rightarrow> client_session list" where
  "callback_states env host start limits st =
     (case and_next (pure_step (prepare_request env host start limits) st) (\<lambda>p st.
         and_next (pure_step (validate_new_link (h_new_link host)) st) (\<lambda>_ st.
         and_next (write_request_frames env host p st) (\<lambda>_ st.
         if \<not> h_request_flush host then (Err (DataPlane Io), st) else (Ok p, st)))) of
        (Inl _, _) \<Rightarrow> []
      | (Inr p, st) \<Rightarrow> guarded_calls env host p (st\<lparr>cs_progress := Cancelable, cs_guard_armed := True\<rparr>))"

section \<open>Reading does not write\<close>

text \<open>The fields that reading from the worker leaves alone.\<close>

definition same_output :: "client_session \<Rightarrow> client_session \<Rightarrow> bool" where
  "same_output st st' \<longleftrightarrow> cs_writer st' = cs_writer st \<and> cs_progress st' = cs_progress st
     \<and> cs_guard_armed st' = cs_guard_armed st \<and> cs_spool st' = cs_spool st"

named_theorems reading \<open>steps of the session that only read\<close>

lemma same_output_refl [simp]: "same_output st st"
  by (simp add: same_output_def)

lemma same_output_updates [simp]:
  "same_output st (st'\<lparr>cs_reader := r\<rparr>) = same_output st st'"
  "same_output st (st'\<lparr>cs_sequence := sq\<rparr>) = same_output st st'"
  "same_output st (st'\<lparr>cs_next_event := n\<rparr>) = same_output st st'"
  "same_output st (st'\<lparr>cs_events := es\<rparr>) = same_output st st'"
  "same_output st (st'\<lparr>cs_spool_file := w\<rparr>) = same_output st st'"
  by (simp_all add: same_output_def)

lemma same_output_trans: "same_output a b \<Longrightarrow> same_output b c \<Longrightarrow> same_output a c"
  by (simp add: same_output_def)

lemma same_output_and_next:
  "same_output st (snd x) \<Longrightarrow> (\<And>a st'. same_output st' (snd (f a st'))) \<Longrightarrow> same_output st (snd (and_next x f))"
  by (cases x) (auto simp: and_next_def split: sum.split intro: same_output_trans)

lemma read_sequenced_header_same [reading]: "same_output st (snd (read_sequenced_header st))"
  by (simp add: read_sequenced_header_def split: prod.split sum.split)

lemma read_payload_same [reading]: "same_output st (snd (read_payload env h st))"
  by (simp add: read_payload_def split: prod.split sum.split)

lemma read_json_frame_same [reading]: "same_output st (snd (read_json_frame env from_slice h st))"
  unfolding read_json_frame_def by (rule same_output_and_next) (auto intro: reading split: option.split)

lemma fail_with_server_error_same [reading]: "same_output st (snd (fail_with_server_error env h p a st))"
  unfolding fail_with_server_error_def read_server_error_def
  by (intro same_output_and_next) (auto intro: reading split: option.split)

lemma read_job_accepted_same [reading]: "same_output st (snd (read_job_accepted env p st))"
  unfolding read_job_accepted_def
  by (rule same_output_and_next) (auto intro!: reading same_output_and_next)

lemma read_event_same [reading]: "same_output st (snd (read_event env h p a st))"
  unfolding read_event_def
  by (rule same_output_and_next) (auto intro: reading split: sum.split option.split)

lemma read_until_same:
  assumes "\<And>h st. same_output st (snd (finish h st))"
  shows "same_output st (snd (read_until env p a finish st))"
  using assms
proof (induction env p a finish st rule: read_until.induct)
  case (1 env p a finish st)
  show ?case
  proof (cases "read_sequenced_header st")
    case (Pair res st1)
    then have s1: "same_output st st1" using read_sequenced_header_same [of st] by simp
    show ?thesis
    proof (cases res)
      case (Inl e)
      with Pair s1 show ?thesis by (subst read_until.simps) simp
    next
      case (Inr h)
      show ?thesis
      proof (cases "kind h = Event")
        case False
        with Pair Inr s1 1(2) show ?thesis by (subst read_until.simps) (auto intro: same_output_trans)
      next
        case True
        obtain res2 st2 where e: "read_event env h p a st1 = (res2, st2)" by fastforce
        then have s2: "same_output st st2" using read_event_same [of st1 env h p a] s1 by (auto intro: same_output_trans)
        show ?thesis
        proof (cases res2)
          case (Inl x)
          with Pair Inr True e s2 show ?thesis by (subst read_until.simps) simp
        next
          case rec: (Inr event)
          then have "same_output (st2\<lparr>cs_events := cs_events st2 @ [event]\<rparr>)
              (snd (read_until env p a finish (st2\<lparr>cs_events := cs_events st2 @ [event]\<rparr>)))"
            using 1(1) [OF Pair [symmetric, unfolded Inr] refl True e [symmetric]] 1(2) by (simp add: Pair Inr e)
          then have "same_output st (snd (read_until env p a finish (st2\<lparr>cs_events := cs_events st2 @ [event]\<rparr>)))"
            using s2 by (auto intro: same_output_trans simp: same_output_def)
          with Pair Inr True e rec show ?thesis by (subst read_until.simps) simp
        qed
      qed
    qed
  qed
qed

lemma event_calls_same: "\<forall>s \<in> set (event_calls env p a st). same_output st s"
proof (induction env p a st rule: event_calls.induct)
  case (1 env p a st)
  show ?case
  proof (cases "read_sequenced_header st")
    case (Pair res st1)
    then have s1: "same_output st st1" using read_sequenced_header_same [of st] by simp
    show ?thesis
    proof (cases "\<exists>h event st2. res = Ok h \<and> kind h = Event \<and> read_event env h p a st1 = (Ok event, st2)")
      case True
      then obtain h event st2 where h: "res = Ok h" "kind h = Event" and e: "read_event env h p a st1 = (Ok event, st2)" by blast
      let ?st = "st2\<lparr>cs_events := cs_events st2 @ [event]\<rparr>"
      have same: "same_output st ?st"
        using read_event_same [of st1 env h p a] s1 e by (auto intro: same_output_trans)
      have rest: "\<forall>s \<in> set (event_calls env p a ?st). same_output ?st s"
        using 1 [OF Pair [symmetric, unfolded h] refl h(2) e [symmetric] refl] .
      have "set (event_calls env p a st) = insert ?st (set (event_calls env p a ?st))"
        using Pair h e by (subst event_calls.simps) simp
      with same rest show ?thesis unfolding same_output_def by simp
    next
      case False
      then have "event_calls env p a st = []"
        using Pair by (subst event_calls.simps) (auto split: sum.split prod.split)
      then show ?thesis by simp
    qed
  qed
qed

text \<open>The states at the calls of the event sink are states of the reading loop: from each of them it goes on as it does.\<close>

lemma event_calls_continue: "\<forall>s \<in> set (event_calls env p a st). read_until env p a finish st = read_until env p a finish s"
proof (induction env p a st rule: event_calls.induct)
  case (1 env p a st)
  show ?case
  proof (cases "read_sequenced_header st")
    case (Pair res st1)
    show ?thesis
    proof (cases "\<exists>h event st2. res = Ok h \<and> kind h = Event \<and> read_event env h p a st1 = (Ok event, st2)")
      case True
      then obtain h event st2 where h: "res = Ok h" "kind h = Event" and e: "read_event env h p a st1 = (Ok event, st2)" by blast
      let ?st = "st2\<lparr>cs_events := cs_events st2 @ [event]\<rparr>"
      have rest: "\<forall>s \<in> set (event_calls env p a ?st). read_until env p a finish ?st = read_until env p a finish s"
        using 1 [OF Pair [symmetric, unfolded h] refl h(2) e [symmetric] refl] .
      have step: "read_until env p a finish st = read_until env p a finish ?st"
        using Pair h e by (subst read_until.simps) simp
      have "set (event_calls env p a st) = insert ?st (set (event_calls env p a ?st))"
        using Pair h e by (subst event_calls.simps) simp
      with step rest show ?thesis by simp
    next
      case False
      then have "event_calls env p a st = []"
        using Pair by (subst event_calls.simps) (auto split: sum.split prod.split)
      then show ?thesis by simp
    qed
  qed
qed

lemma finish_artifact_descriptor_same [reading]: "same_output st (snd (finish_artifact_descriptor env p a h st))"
  unfolding finish_artifact_descriptor_def by (auto intro!: reading same_output_and_next)

lemma finish_complete_same [reading]: "same_output st (snd (finish_complete env p a h st))"
  unfolding finish_complete_def by (auto intro!: reading same_output_and_next)

lemma read_until_artifact_descriptor_same [reading]: "same_output st (snd (read_until_artifact_descriptor env p a st))"
  unfolding read_until_artifact_descriptor_def by (rule read_until_same) (rule reading)

lemma read_until_complete_same [reading]: "same_output st (snd (read_until_complete env p a st))"
  unfolding read_until_complete_def by (rule read_until_same) (rule reading)

lemma read_artifact_payload_same [reading]: "same_output st (snd (read_artifact_payload env host p a d st))"
  unfolding read_artifact_payload_def
  by (rule same_output_and_next)
    (auto intro!: reading same_output_and_next simp: pure_step_def Let_def split: prod.split sum.split option.split)

end
