(* ===== verification/Ssh_Provider.thy ===== *)
theory Ssh_Provider
  imports Ssh_Transport Ssh_Session
begin

text \<open>
  The SSH build provider (\<^verbatim>\<open>src/crates/rustferry-ssh/src/provider.rs\<close>): the control exchange through an OpenSSH runner,
  the handshake and the doctor with the capabilities cut down to the snapshot session, the operations it does not
  offer, and the mapping of the errors of the configuration, the transport and the codec.

  A runner is an argument, as it is a type parameter of the source; \<open>None\<close> is a runner that has not returned. The
  token is observed at each check, and the derived JSON serializers are arguments.
\<close>

section \<open>Capabilities of the snapshot session\<close>

definition snapshot_required_features :: "ProviderFeature list" where
  "snapshot_required_features =
     [SourceMode Snapshot, IosDeviceBuild, SigningMode UnsignedCompileOnly, LiveEvents, Cancellation,
      ArtifactType Xcarchive, ArtifactDownload, Cleanup]"

definition snapshot_session_capabilities :: ProviderCapabilities where
  "snapshot_session_capabilities = \<lparr>
     source_modes = {Snapshot}, ios_device_build = True, ios_simulator_build = False,
     signing_modes = {UnsignedCompileOnly}, personal_team = False, live_events = True, live_logs = False,
     cancellation = True, artifact_types = {Xcarchive}, cache = False,
     max_source_bytes = Some (640 * 1024 * 1024), retention_seconds = Some 0, artifact_listing = False,
     artifact_download = True, cleanup = True, physical_device_access = False\<rparr>"

definition intersect_snapshot_capabilities :: "ProviderCapabilities \<Rightarrow> ProviderCapabilities" where
  "intersect_snapshot_capabilities worker =
     (let local = snapshot_session_capabilities in \<lparr>
     source_modes = source_modes local \<inter> source_modes worker,
     ios_device_build = (ios_device_build local \<and> ios_device_build worker),
     ios_simulator_build = False,
     signing_modes = signing_modes local \<inter> signing_modes worker,
     personal_team = False,
     live_events = (live_events local \<and> live_events worker),
     live_logs = False,
     cancellation = (cancellation local \<and> cancellation worker),
     artifact_types = artifact_types local \<inter> artifact_types worker,
     cache = False,
     max_source_bytes = Some (min (case max_source_bytes worker of None \<Rightarrow> - 1 | Some n \<Rightarrow> n)
       (the (max_source_bytes local))),
     retention_seconds = (if retention_seconds worker = Some 0 then Some 0 else None),
     artifact_listing = False,
     artifact_download = (artifact_download local \<and> artifact_download worker),
     cleanup = (cleanup local \<and> cleanup worker),
     physical_device_access = False\<rparr>)"

section \<open>Errors\<close>

definition provider_failure :: "string \<Rightarrow> string \<Rightarrow> bool \<Rightarrow> RemoteBuildError" where
  "provider_failure code message retry = ProviderFailure SSH_PROVIDER_ID code message retry"

definition map_config_error :: "SshConfigError \<Rightarrow> RemoteBuildError" where
  "map_config_error _ = provider_failure ''ssh_configuration_invalid''
     ''SSH endpoint trust or identity configuration is no longer valid'' False"

definition map_transport_error :: "SshTransportError \<Rightarrow> RemoteBuildError" where
  "map_transport_error e =
     (case e of
        TransportCancelled \<Rightarrow> RequestCancelled
      | TransportResponseTooLarge maximum \<Rightarrow> EventTooLarge (maximum + 1) maximum
      | TransportRequestTooLarge _ _ \<Rightarrow> Serialization ''worker request exceeds the SSH transport limit''
      | SpawnFailed \<Rightarrow> provider_failure ''ssh_client_unavailable'' ''OpenSSH client could not be started'' False
      | IoFailed \<Rightarrow> provider_failure ''ssh_transport_io_failed'' ''OpenSSH protocol pipe failed'' True
      | TimedOut \<Rightarrow> provider_failure ''ssh_transport_timeout'' ''SSH worker operation timed out'' True
      | IdentityFileChanged \<Rightarrow> provider_failure ''ssh_configuration_invalid''
          ''SSH endpoint trust or identity configuration is no longer valid'' False
      | TrustSnapshotChanged \<Rightarrow> provider_failure ''ssh_configuration_invalid''
          ''SSH endpoint trust or identity configuration is no longer valid'' False
      | ProcessFailed _ \<Rightarrow> provider_failure ''ssh_process_failed'' ''OpenSSH client exited unsuccessfully'' True)"

definition map_request_codec_error :: "WorkerStdioCodecError \<Rightarrow> RemoteBuildError" where
  "map_request_codec_error e = Serialization (public_message e)"

definition map_response_codec_error :: "WorkerStdioCodecError \<Rightarrow> RemoteBuildError" where
  "map_response_codec_error e =
     (case e of
        StdioEmptyInput \<Rightarrow> TruncatedEvent
      | TruncatedJson \<Rightarrow> TruncatedEvent
      | ResponseTooLarge \<Rightarrow> EventTooLarge (MAX_SSH_RESPONSE_BYTES + 1) MAX_SSH_RESPONSE_BYTES
      | StdioIncompatibleProtocolVersion ours theirs \<Rightarrow> IncompatibleProtocolVersion ours theirs
      | StdioIo \<Rightarrow> MalformedEvent (public_message e)
      | MalformedJson \<Rightarrow> MalformedEvent (public_message e)
      | RequestTooLarge \<Rightarrow> MalformedEvent (public_message e)
      | StdioUnsupportedSchemaVersion _ _ \<Rightarrow> MalformedEvent (public_message e)
      | InvalidRequest \<Rightarrow> MalformedEvent (public_message e)
      | InvalidResponse \<Rightarrow> MalformedEvent (public_message e))"

section \<open>The control exchange\<close>

type_synonym ssh_runner = "SshInvocation \<Rightarrow> bytes \<Rightarrow> (SshTransportError + bytes) option"

text \<open>
  What one provider call finds: the token at its three checks, the file system, the JSON serializers, and the two
  engines and the digest of the configuration.
\<close>

record provider_world =
  pw_token_first :: CancellationToken
  pw_token_before :: CancellationToken
  pw_token_after :: CancellationToken
  pw_endpoint :: endpoint_world
  pw_snapshot :: snapshot_world
  pw_serialize :: "WorkerStdioRequestEnvelope \<Rightarrow> serialized"
  pw_parse :: "bytes \<Rightarrow> bool + StrictResponseEnvelope"
  pw_base64 :: base64
  pw_digest :: "bytes \<Rightarrow> bytes"

record SshBuildProvider =
  provider_config :: SshEndpointConfig
  provider_runner :: ssh_runner

text \<open>What is sent: the invocation and the encoded request, or the error that stops the exchange before the runner.\<close>

definition prepare_exchange ::
    "provider_world \<Rightarrow> SshEndpointConfig \<Rightarrow> WorkerStdioRequest \<Rightarrow> RemoteBuildError + SshInvocation \<times> bytes" where
  "prepare_exchange w c request =
     and_then (token_check (pw_token_before w)) (\<lambda>_.
     and_then (map_err map_config_error
       (build_ssh_invocation (pw_base64 w) (pw_digest w) (pw_endpoint w) (pw_snapshot w) c)) (\<lambda>invocation.
     case encode_worker_stdio_request (pw_serialize w) \<lparr>written = [], capacity = None\<rparr> (RequestEnvelope_new request) of
       (Inl e, _) \<Rightarrow> Err (map_request_codec_error e)
     | (Inr _, encoded) \<Rightarrow> Ok (invocation, written encoded)))"

definition finish_exchange ::
    "provider_world \<Rightarrow> SshTransportError + bytes \<Rightarrow> RemoteBuildError + WorkerStdioResponseEnvelope" where
  "finish_exchange w answer =
     and_then (map_err map_transport_error answer) (\<lambda>response.
     and_then (token_check (pw_token_after w)) (\<lambda>_.
       map_err map_response_codec_error (fst (decode_worker_stdio_response (pw_parse w) [Chunk response]))))"

definition provider_exchange ::
    "provider_world \<Rightarrow> SshBuildProvider \<Rightarrow> WorkerStdioRequest \<Rightarrow> (RemoteBuildError + WorkerStdioResponseEnvelope) option" where
  "provider_exchange w self request =
     (case prepare_exchange w (provider_config self) request of
        Inl e \<Rightarrow> Some (Err e)
      | Inr (invocation, encoded) \<Rightarrow> map_option (finish_exchange w) (provider_runner self invocation encoded))"

section \<open>Handshake and doctor\<close>

definition worker_failure :: "WorkerStdioErrorResponse \<Rightarrow> RemoteBuildError" where
  "worker_failure e =
     ProviderFailure SSH_PROVIDER_ID (stdio_error_code e) (stdio_error_message e) (stdio_error_retryable e)"

definition unexpected_response :: RemoteBuildError where
  "unexpected_response = provider_failure ''unexpected_worker_response''
     ''SSH worker returned a response for another operation'' False"

definition identity_mismatch :: RemoteBuildError where
  "identity_mismatch = provider_failure ''worker_identity_mismatch''
     ''SSH worker returned an unexpected provider identity'' False"

definition accept_handshake :: "HandshakeRequest \<Rightarrow> WorkerStdioResponse \<Rightarrow> RemoteBuildError + HandshakeResponse" where
  "accept_handshake request answer =
     (case answer of
        HandshakeAnswer response \<Rightarrow>
          if hr_provider response \<noteq> SSH_PROVIDER_ID then Err identity_mismatch
          else
            let response = response\<lparr>hr_capabilities := intersect_snapshot_capabilities (hr_capabilities response)\<rparr> in
            and_then (validate_for response request) (\<lambda>_. Ok response)
      | ErrorAnswer e \<Rightarrow> Err (worker_failure e)
      | ProviderDoctorAnswer _ \<Rightarrow> Err unexpected_response)"

definition provider_handshake ::
    "provider_world \<Rightarrow> SshBuildProvider \<Rightarrow> HandshakeRequest \<Rightarrow> (RemoteBuildError + HandshakeResponse) option" where
  "provider_handshake w self request =
     (case run_checks ([token_check (pw_token_first w), HandshakeRequest_validate request]
          @ map (require snapshot_session_capabilities SSH_PROVIDER_ID) (required_features request)) of
        Inl e \<Rightarrow> Some (Err e)
      | Inr _ \<Rightarrow>
          map_option (\<lambda>r. and_then r (\<lambda>envelope. accept_handshake request (envelope_response envelope)))
            (provider_exchange w self (HandshakeOp request)))"

definition unsupported_check :: ProviderCheck where
  "unsupported_check = \<lparr>check_code = ''ssh.snapshot.unsupported'', check_status = CheckError,
     check_message = ''SSH worker does not implement the complete unsigned snapshot session'',
     check_help = Some ''Upgrade cargo-ferry and ferry-worker-macos together, then rerun doctor''\<rparr>"

definition accept_doctor :: "WorkerStdioResponse \<Rightarrow> RemoteBuildError + ProviderDoctorReport" where
  "accept_doctor answer =
     (case answer of
        ProviderDoctorAnswer report \<Rightarrow>
          if report_provider report \<noteq> SSH_PROVIDER_ID then Err identity_mismatch
          else
            let report = report\<lparr>report_capabilities := intersect_snapshot_capabilities (report_capabilities report)\<rparr>;
                complete = (list_all (supports (report_capabilities report)) snapshot_required_features
                  \<and> retention_seconds (report_capabilities report) = Some 0);
                report = (if \<not> complete then report\<lparr>report_checks := report_checks report @ [unsupported_check]\<rparr>
                  else report)
            in Ok (report\<lparr>report_ready := (report_ready report \<and> complete
                 \<and> list_all (\<lambda>c. check_status c \<noteq> CheckError) (report_checks report))\<rparr>)
      | ErrorAnswer e \<Rightarrow> Err (worker_failure e)
      | HandshakeAnswer _ \<Rightarrow> Err unexpected_response)"

definition provider_doctor ::
    "provider_world \<Rightarrow> SshBuildProvider \<Rightarrow> ProviderDoctorRequest \<Rightarrow> (RemoteBuildError + ProviderDoctorReport) option" where
  "provider_doctor w self request =
     (case token_check (pw_token_first w) of
        Inl e \<Rightarrow> Some (Err e)
      | Inr _ \<Rightarrow>
          map_option (\<lambda>r. and_then r (\<lambda>envelope. accept_doctor (envelope_response envelope)))
            (provider_exchange w self (ProviderDoctorOp request)))"

section \<open>Operations the provider does not offer\<close>

definition unsupported_operation :: "CancellationToken \<Rightarrow> ProviderFeature \<Rightarrow> string \<Rightarrow> RemoteBuildError + 'a" where
  "unsupported_operation token feature provider =
     and_then (token_check token) (\<lambda>_. Err (UnsupportedCapability provider feature))"

definition provider_submit :: "IosDeviceBuildRequest \<Rightarrow> CancellationToken \<Rightarrow> RemoteBuildError + JobHandle" where
  "provider_submit request token = unsupported_operation token IosDeviceBuild SSH_PROVIDER_ID"

definition provider_events :: "EventRequest \<Rightarrow> CancellationToken \<Rightarrow> RemoteBuildError + EventPage" where
  "provider_events request token = unsupported_operation token LiveEvents SSH_PROVIDER_ID"

definition provider_list_artifacts ::
    "ArtifactListRequest \<Rightarrow> CancellationToken \<Rightarrow> RemoteBuildError + ArtifactManifest list" where
  "provider_list_artifacts request token = unsupported_operation token ArtifactListing SSH_PROVIDER_ID"

definition provider_download_artifact ::
    "ArtifactDownloadRequest \<Rightarrow> CancellationToken \<Rightarrow> RemoteBuildError + ArtifactDownloadResult" where
  "provider_download_artifact request token = unsupported_operation token ArtifactDownload SSH_PROVIDER_ID"

section \<open>A runner keeps the limits\<close>

lemma prepare_exchange_Ok:
  assumes "prepare_exchange w c request = Ok (invocation, encoded)"
  shows "\<not> is_cancelled (pw_token_before w)"
    "build_ssh_invocation (pw_base64 w) (pw_digest w) (pw_endpoint w) (pw_snapshot w) c = Ok invocation"
    "\<exists>out. encode_worker_stdio_request (pw_serialize w) \<lparr>written = [], capacity = None\<rparr> (RequestEnvelope_new request)
       = (Ok (), out) \<and> written out = encoded"
proof -
  obtain r out where e: "encode_worker_stdio_request (pw_serialize w) \<lparr>written = [], capacity = None\<rparr>
      (RequestEnvelope_new request) = (r, out)" by (rule prod.exhaust)
  from assms e show "\<not> is_cancelled (pw_token_before w)"
    "build_ssh_invocation (pw_base64 w) (pw_digest w) (pw_endpoint w) (pw_snapshot w) c = Ok invocation"
    "\<exists>out. encode_worker_stdio_request (pw_serialize w) \<lparr>written = [], capacity = None\<rparr> (RequestEnvelope_new request)
       = (Ok (), out) \<and> written out = encoded"
    by (cases r; auto simp: prepare_exchange_def and_then_Inr_iff token_check_def split: if_splits)+
qed

lemma response_validation_not_too_large: "ResponseEnvelope_validate e \<noteq> Err ResponseTooLarge"
proof -
  have "check_protocol v \<noteq> Err ResponseTooLarge" for v
    by (cases "negotiate CURRENT_PROTOCOL_VERSION v") (simp_all add: check_protocol_def)
  then show ?thesis
    by (auto simp: ResponseEnvelope_validate_def and_then_def validate_schema_version_def reject_if_def
        split: WorkerStdioResponse.splits sum.splits if_splits)
qed

text \<open>
  What the provider relies on in a runner: it refuses a request as too large only beyond the limit, and hands over a
  response only within it.
\<close>

locale bounded_runner =
  fixes run :: ssh_runner
  assumes refusal_law: "run invocation request = Some (Err (TransportRequestTooLarge n m)) \<Longrightarrow> length request > MAX_SSH_REQUEST_BYTES"
    and response_law: "run invocation request = Some (Ok bs) \<Longrightarrow> length bs \<le> MAX_SSH_RESPONSE_BYTES"
begin

lemma request_never_refused:
  assumes "prepare_exchange w c request = Ok (invocation, encoded)"
  shows "run invocation encoded \<noteq> Some (Err (TransportRequestTooLarge n m))"
proof
  assume "run invocation encoded = Some (Err (TransportRequestTooLarge n m))"
  then have large: "length encoded > MAX_WORKER_STDIO_REQUEST_BYTES"
    using refusal_law by (simp add: MAX_SSH_REQUEST_BYTES_def)
  from prepare_exchange_Ok(3) [OF assms] obtain out where out: "written out = encoded"
      "encode_worker_stdio_request (pw_serialize w) \<lparr>written = [], capacity = None\<rparr> (RequestEnvelope_new request)
        = (Ok (), out)" by blast
  from request_codec.encode_Ok [OF out(2)] out(1) large show False by simp
qed

lemma response_never_oversized:
  assumes "run invocation encoded = Some (Ok bs)"
  shows "fst (decode_worker_stdio_response parse [Chunk bs]) \<noteq> Err ResponseTooLarge"
  using response_law [OF assms] response_validation_not_too_large
  by (auto simp: response_codec.decode_data MAX_SSH_RESPONSE_BYTES_def Let_def split: sum.splits if_splits)

end

text \<open>The process runner, at the answers of one exchange.\<close>

definition process_runner :: "exchange_answers \<Rightarrow> ssh_runner" where
  "process_runner a invocation request = map_option fst (process_exchange a invocation request)"

lemma exchange_loop_not_refused:
  "exchange_loop a deadline request status p polls \<noteq> Some (Err (TransportRequestTooLarge n m), child)"
proof (induction polls arbitrary: status p)
  case (Cons x polls)
  have kill: "kill_with a deadline e = Some (Err (TransportRequestTooLarge n m), child) \<Longrightarrow>
      e = TransportRequestTooLarge n m" for e
    by (auto dest: kill_with_Err)
  have "response_of q \<noteq> Err (TransportRequestTooLarge n m)" for q
    by (auto simp: response_of_def split: option.splits)
  with Cons kill show ?case
    by (auto simp: Let_def split: prod.splits sum.splits option.splits if_splits)
qed simp

lemma exchange_response_bounded:
  assumes "process_exchange a invocation request = Some (Ok bs, child)"
  shows "length bs \<le> MAX_SSH_RESPONSE_BYTES \<and> bs = reader_data (pipe_stdout (xa_child a))
    \<and> reader_ends (pipe_stdout (xa_child a)) \<and> child = ChildExited (Some 0)"
  using exchange_loop_Ok [OF no_results_from_tasks process_exchange_response(5) [OF assms]] response_from_tasks by blast

interpretation process: bounded_runner "process_runner a" for a
proof unfold_locales
  fix invocation request n m
  assume "process_runner a invocation request = Some (Err (TransportRequestTooLarge n m))"
  then obtain child where "process_exchange a invocation request = Some (Err (TransportRequestTooLarge n m), child)"
    by (auto simp: process_runner_def)
  then show "length request > MAX_SSH_REQUEST_BYTES"
    by (auto simp: process_exchange_def Let_def exchange_loop_not_refused dest: kill_with_Err split: if_splits)
next
  fix invocation request bs
  assume "process_runner a invocation request = Some (Ok bs)"
  then show "length bs \<le> MAX_SSH_RESPONSE_BYTES"
    using exchange_response_bounded by (auto simp: process_runner_def)
qed

section \<open>What the provider promises\<close>

text \<open>The cut-down capabilities are the features both sides have.\<close>

lemma supports_intersection:
  "supports (intersect_snapshot_capabilities c) f \<longleftrightarrow> supports snapshot_session_capabilities f \<and> supports c f"
  by (cases f) (auto simp: intersect_snapshot_capabilities_def snapshot_session_capabilities_def supports_def Let_def)

lemma intersection_limits:
  "\<exists>n. max_source_bytes (intersect_snapshot_capabilities c) = Some n \<and> n \<le> 640 * 1024 * 1024
     \<and> (\<forall>m. max_source_bytes c = Some m \<longrightarrow> n \<le> m)"
  "retention_seconds (intersect_snapshot_capabilities c) \<in> {None, Some 0}"
  by (auto simp: intersect_snapshot_capabilities_def snapshot_session_capabilities_def Let_def)

lemma intersection_retention:
  "retention_seconds (intersect_snapshot_capabilities c) = Some 0 \<longleftrightarrow> retention_seconds c = Some 0"
  by (simp add: intersect_snapshot_capabilities_def Let_def)

lemma provider_exchange_Ok:
  assumes "provider_exchange w self request = Some (Ok envelope)"
  shows "\<exists>invocation encoded bs. prepare_exchange w (provider_config self) request = Ok (invocation, encoded)
    \<and> provider_runner self invocation encoded = Some (Ok bs) \<and> \<not> is_cancelled (pw_token_after w)
    \<and> fst (decode_worker_stdio_response (pw_parse w) [Chunk bs]) = Ok envelope"
proof -
  from assms obtain invocation encoded where p: "prepare_exchange w (provider_config self) request = Ok (invocation, encoded)"
    by (auto simp: provider_exchange_def split: sum.splits)
  with assms obtain answer where a: "provider_runner self invocation encoded = Some answer"
      "finish_exchange w answer = Ok envelope"
    by (auto simp: provider_exchange_def)
  from a(2) show ?thesis
    using p a(1) by (auto simp: finish_exchange_def and_then_Inr_iff token_check_def split: if_splits)
qed

lemma require_Ok: "require c p f = Ok () \<longleftrightarrow> supports c f"
  by (simp add: require_def)

lemma provider_handshake_Ok:
  assumes "provider_handshake w self request = Some (Ok response)"
  shows "list_all (supports snapshot_session_capabilities) (required_features request)"
    "\<exists>envelope. provider_exchange w self (HandshakeOp request) = Some (Ok envelope)
      \<and> accept_handshake request (envelope_response envelope) = Ok response"
proof -
  let ?checks = "[token_check (pw_token_first w), HandshakeRequest_validate request]
      @ map (require snapshot_session_capabilities SSH_PROVIDER_ID) (required_features request)"
  from assms have c: "run_checks ?checks = Ok ()"
    by (auto simp: provider_handshake_def split: sum.splits)
  then show "list_all (supports snapshot_session_capabilities) (required_features request)"
    unfolding run_checks_Inr_iff by (auto simp: list_all_iff is_ok_unit require_Ok)
  from assms c obtain r where r: "provider_exchange w self (HandshakeOp request) = Some r"
      "and_then r (\<lambda>envelope. accept_handshake request (envelope_response envelope)) = Ok response"
    unfolding provider_handshake_def by (auto split: sum.splits)
  then show "\<exists>envelope. provider_exchange w self (HandshakeOp request) = Some (Ok envelope)
      \<and> accept_handshake request (envelope_response envelope) = Ok response"
    by (auto simp: and_then_Inr_iff)
qed

lemma accept_handshake_Ok:
  assumes "accept_handshake request answer = Ok response"
  shows "\<exists>worker. answer = HandshakeAnswer worker \<and> hr_provider worker = SSH_PROVIDER_ID
    \<and> response = worker\<lparr>hr_capabilities := intersect_snapshot_capabilities (hr_capabilities worker)\<rparr>
    \<and> validate_for response request = Ok ()"
  using assms
  by (auto simp: accept_handshake_def Let_def and_then_Inr_iff split: WorkerStdioResponse.splits if_splits)

text \<open>
  C23 [ssh_handshake]: a successful handshake promises nothing the session cannot do. It is the answer of an ssh-macos
  worker to the request encoded within its limit, read from the complete standard output of an OpenSSH process that
  exited with status zero; its capabilities are exactly the features that both the worker reported and the snapshot
  session has; every feature the request needs is among them; sources are limited to 640 MiB and to the worker's own
  limit; and what is retained is nothing or unknown.
\<close>

theorem handshake_promises_only_shared_features:
  assumes "provider_runner self = process_runner a" "provider_handshake w self request = Some (Ok response)"
  shows "\<exists>invocation encoded envelope worker caps.
      build_ssh_invocation (pw_base64 w) (pw_digest w) (pw_endpoint w) (pw_snapshot w) (provider_config self) = Ok invocation
      \<and> process_exchange a invocation encoded
          = Some (Ok (reader_data (pipe_stdout (xa_child a))), ChildExited (Some 0))
      \<and> fst (decode_worker_stdio_response (pw_parse w) [Chunk (reader_data (pipe_stdout (xa_child a)))]) = Ok envelope
      \<and> envelope_response envelope = HandshakeAnswer worker \<and> hr_provider worker = SSH_PROVIDER_ID
      \<and> response = worker\<lparr>hr_capabilities := caps\<rparr> \<and> validate_for response request = Ok ()
      \<and> supports caps = (\<lambda>f. supports snapshot_session_capabilities f \<and> supports (hr_capabilities worker) f)
      \<and> list_all (supports caps) (required_features request)
      \<and> (\<exists>n. max_source_bytes caps = Some n \<and> n \<le> 640 * 1024 * 1024
          \<and> (\<forall>m. max_source_bytes (hr_capabilities worker) = Some m \<longrightarrow> n \<le> m))
      \<and> retention_seconds caps \<in> {None, Some 0}"
proof -
  note h = provider_handshake_Ok [OF assms(2)]
  from h(2) obtain envelope where e: "provider_exchange w self (HandshakeOp request) = Some (Ok envelope)"
      "accept_handshake request (envelope_response envelope) = Ok response" by blast
  from provider_exchange_Ok [OF e(1)] assms(1) obtain invocation encoded bs where x:
      "prepare_exchange w (provider_config self) (HandshakeOp request) = Ok (invocation, encoded)"
      "process_runner a invocation encoded = Some (Ok bs)"
      "fst (decode_worker_stdio_response (pw_parse w) [Chunk bs]) = Ok envelope" by auto
  from x(2) obtain child where run: "process_exchange a invocation encoded = Some (Ok bs, child)"
    by (auto simp: process_runner_def)
  note bs = exchange_response_bounded [OF run]
  from accept_handshake_Ok [OF e(2)] obtain worker where k: "envelope_response envelope = HandshakeAnswer worker"
      "hr_provider worker = SSH_PROVIDER_ID"
      "response = worker\<lparr>hr_capabilities := intersect_snapshot_capabilities (hr_capabilities worker)\<rparr>"
      "validate_for response request = Ok ()" by blast
  let ?caps = "intersect_snapshot_capabilities (hr_capabilities worker)"
  from k(4) have "list_all (supports ?caps) (required_features request)"
    unfolding validate_for_def run_checks_Inr_iff k(3) by (auto simp: list_all_iff is_ok_unit require_Ok)
  moreover have "supports ?caps = (\<lambda>f. supports snapshot_session_capabilities f \<and> supports (hr_capabilities worker) f)"
    by (rule ext) (rule supports_intersection)
  ultimately show ?thesis
    using prepare_exchange_Ok(2) [OF x(1)] run x(3) bs k intersection_limits [of "hr_capabilities worker"]
    by (intro exI [of _ invocation] exI [of _ encoded] exI [of _ envelope] exI [of _ worker] exI [of _ ?caps]) simp
qed

lemma session_complete_iff:
  "list_all (supports (intersect_snapshot_capabilities c)) snapshot_required_features
     \<and> retention_seconds (intersect_snapshot_capabilities c) = Some 0 \<longleftrightarrow>
   Snapshot \<in> source_modes c \<and> ios_device_build c \<and> UnsignedCompileOnly \<in> signing_modes c \<and> live_events c
     \<and> cancellation c \<and> Xcarchive \<in> artifact_types c \<and> artifact_download c \<and> cleanup c \<and> retention_seconds c = Some 0"
  by (auto simp: intersection_retention snapshot_required_features_def supports_def intersect_snapshot_capabilities_def
      snapshot_session_capabilities_def Let_def)

lemma intersection_fields:
  "intersect_snapshot_capabilities c = \<lparr>
     source_modes = {Snapshot} \<inter> source_modes c, ios_device_build = ios_device_build c, ios_simulator_build = False,
     signing_modes = {UnsignedCompileOnly} \<inter> signing_modes c, personal_team = False, live_events = live_events c,
     live_logs = False, cancellation = cancellation c, artifact_types = {Xcarchive} \<inter> artifact_types c, cache = False,
     max_source_bytes = Some (case max_source_bytes c of None \<Rightarrow> 640 * 1024 * 1024 | Some n \<Rightarrow> min n (640 * 1024 * 1024)),
     retention_seconds = (if retention_seconds c = Some 0 then Some 0 else None), artifact_listing = False,
     artifact_download = artifact_download c, cleanup = cleanup c, physical_device_access = False\<rparr>"
proof -
  have "\<not> (- 1 :: u64) \<le> 671088640" by code_simp
  then show ?thesis
    by (simp add: intersect_snapshot_capabilities_def snapshot_session_capabilities_def Let_def min_def split: option.split)
qed

text \<open>
  C36 [ssh_doctor]: a ready report means that a snapshot build can run. Whatever the worker answers, a report the doctor
  returns comes from an ssh-macos worker, and it says it is ready exactly when the worker itself reported ready, none of
  its checks failed, it takes snapshot sources, builds for iOS devices, compiles unsigned, sends live events, can be
  cancelled, offers the archive artifact and its download, cleans up, and retains nothing; an incomplete worker is told
  so by a failed check that is added to its own. The reported capabilities are the worker's, cut down to these, with
  sources of at most 640 MiB.
\<close>

theorem doctor_ready_means_complete:
  "accept_doctor answer = Ok report \<longleftrightarrow>
   (\<exists>worker caps complete. answer = ProviderDoctorAnswer worker \<and> report_provider worker = ''ssh-macos''
      \<and> caps = report_capabilities worker
      \<and> (complete \<longleftrightarrow> Snapshot \<in> source_modes caps \<and> ios_device_build caps \<and> UnsignedCompileOnly \<in> signing_modes caps
            \<and> live_events caps \<and> cancellation caps \<and> Xcarchive \<in> artifact_types caps \<and> artifact_download caps
            \<and> cleanup caps \<and> retention_seconds caps = Some 0)
      \<and> report_checks report = report_checks worker @ (if complete then [] else
          [\<lparr>check_code = ''ssh.snapshot.unsupported'', check_status = CheckError,
            check_message = ''SSH worker does not implement the complete unsigned snapshot session'',
            check_help = Some ''Upgrade cargo-ferry and ferry-worker-macos together, then rerun doctor''\<rparr>])
      \<and> (report_ready report \<longleftrightarrow> report_ready worker \<and> complete
            \<and> CheckError \<notin> check_status ` set (report_checks worker))
      \<and> report_capabilities report = \<lparr>
          source_modes = {Snapshot} \<inter> source_modes caps, ios_device_build = ios_device_build caps, ios_simulator_build = False,
          signing_modes = {UnsignedCompileOnly} \<inter> signing_modes caps, personal_team = False, live_events = live_events caps,
          live_logs = False, cancellation = cancellation caps, artifact_types = {Xcarchive} \<inter> artifact_types caps,
          cache = False, max_source_bytes =
            Some (case max_source_bytes caps of None \<Rightarrow> 640 * 1024 * 1024 | Some n \<Rightarrow> min n (640 * 1024 * 1024)),
          retention_seconds = (if retention_seconds caps = Some 0 then Some 0 else None), artifact_listing = False,
          artifact_download = artifact_download caps, cleanup = cleanup caps, physical_device_access = False\<rparr>
      \<and> report_provider report = ''ssh-macos''
      \<and> report_protocol_version report = report_protocol_version worker)"
proof (cases answer)
  case (ProviderDoctorAnswer worker)
  have s: "list_all (\<lambda>c. check_status c \<noteq> CheckError) xs \<longleftrightarrow> CheckError \<notin> check_status ` set xs" for xs
    by (force simp: list_all_iff)
  note complete = session_complete_iff [of "report_capabilities worker"]
  show ?thesis
    unfolding ProviderDoctorAnswer accept_doctor_def Let_def WorkerStdioResponse.case intersection_fields [symmetric]
    by (cases report; cases worker) (use complete s in \<open>auto simp: unsupported_check_def SSH_PROVIDER_ID_def\<close>)
qed (simp_all add: accept_doctor_def)

text \<open>The handshake with a worker that answers for the example endpoint.\<close>

definition mac_answer :: StrictResponseEnvelope where
  "mac_answer = \<lparr>sre_schema_version = 1, sre_response = StrictHandshakeAnswer
     \<lparr>shr_protocol_version = \<lparr>strict_major = 1, strict_minor = 0\<rparr>, shr_worker_version = ''1'', shr_provider = ''ssh-macos'',
      shr_worker_id = ''mac-1'', shr_capabilities =
        \<lparr>strict_source_modes = {Snapshot}, strict_ios_device_build = True, strict_ios_simulator_build = True,
         strict_signing_modes = {UnsignedCompileOnly}, strict_personal_team = False, strict_live_events = True,
         strict_live_logs = True, strict_cancellation = True, strict_artifact_types = {Xcarchive}, strict_cache = True,
         strict_max_source_bytes = None, strict_retention_seconds = Some 0, strict_artifact_listing = False,
         strict_artifact_download = True, strict_cleanup = True, strict_physical_device_access = False\<rparr>\<rparr>\<rparr>"

definition mac_handshake :: HandshakeRequest where
  "mac_handshake = \<lparr>hs_protocol_version = \<lparr>major = 1, minor = 0\<rparr>, client_version = ''1'',
     required_features = [IosDeviceBuild, LiveEvents]\<rparr>"

definition mac_provider :: SshBuildProvider where
  "mac_provider = \<lparr>provider_config = mac_endpoint, provider_runner = process_runner mac_exchange\<rparr>"

definition mac_provider_world :: provider_world where
  "mac_provider_world = \<lparr>pw_token_first = CancellationToken_new, pw_token_before = CancellationToken_new,
     pw_token_after = CancellationToken_new, pw_endpoint = mac_world, pw_snapshot = mac_snapshot_world,
     pw_serialize = (\<lambda>_. ([], True)), pw_parse = (\<lambda>_. Ok mac_answer), pw_base64 = hex_engine, pw_digest = pad_digest\<rparr>"

lemma mac_versions: "check_protocol \<lparr>major = 1, minor = 0\<rparr> = Ok ()"
  "HandshakeRequest_validate mac_handshake = Ok ()"
  "negotiate (hs_protocol_version mac_handshake) \<lparr>major = 1, minor = 0\<rparr> = Ok \<lparr>major = 1, minor = 0\<rparr>"
  by (simp_all add: check_protocol_def negotiate_def is_compatible_with_def CURRENT_PROTOCOL_VERSION_def
      ProtocolVersion_new_def HandshakeRequest_validate_def mac_handshake_def)

lemma mac_prepared:
  "prepare_exchange mac_provider_world mac_endpoint (HandshakeOp mac_handshake) = Ok (mac_invocation, [CHR 0x0A])"
proof -
  have "RequestEnvelope_validate (RequestEnvelope_new (HandshakeOp mac_handshake)) = Ok ()"
    using mac_versions
    by (simp add: RequestEnvelope_validate_def RequestEnvelope_new_def validate_schema_version_def mac_handshake_def
        reject_if_def MAX_REQUIRED_FEATURES_def MAX_VERSION_BYTES_def)
  then show ?thesis
    using mac_invocation_built
    by (simp add: prepare_exchange_def mac_provider_world_def token_check_def is_cancelled_def CancellationToken_new_def
        build_ssh_invocation_def encode_worker_stdio_request_def encode_bounded_spec document_def
        MAX_WORKER_STDIO_REQUEST_BYTES_def)
qed

lemma mac_exchanged:
  "provider_exchange mac_provider_world mac_provider (HandshakeOp mac_handshake)
     = Some (Ok (response_from_strict mac_answer))"
proof -
  have "valid_identifier ''ssh-macos''" "valid_identifier ''mac-1''" by code_simp+
  then have "ResponseEnvelope_validate (response_from_strict mac_answer) = Ok ()"
    using mac_versions
    by (simp add: ResponseEnvelope_validate_def mac_answer_def response_from_strict_def validate_schema_version_def
        WORKER_STDIO_SCHEMA_VERSION_def version_from_strict_def ProtocolVersion_new_def reject_if_def
        MAX_VERSION_BYTES_def)
  then have "fst (decode_worker_stdio_response (\<lambda>_. Ok mac_answer) [Chunk ''{}'']) = Ok (response_from_strict mac_answer)"
    unfolding response_codec.decode_data by (simp add: MAX_WORKER_STDIO_RESPONSE_BYTES_def is_ascii_whitespace_def)
  with mac_prepared show ?thesis
    by (simp add: provider_exchange_def mac_provider_def process_runner_def mac_exchange_ok finish_exchange_def)
      (simp add: mac_provider_world_def token_check_def is_cancelled_def CancellationToken_new_def)
qed

lemma mac_handshake_ok: "\<exists>response. provider_handshake mac_provider_world mac_provider mac_handshake = Some (Ok response)"
proof -
  have "validate_identifier f ''ssh-macos'' = Ok ()" "validate_identifier f ''mac-1'' = Ok ()" for f
    unfolding stdio_identifier_agrees [symmetric] by code_simp+
  then have "\<exists>response. accept_handshake mac_handshake (envelope_response (response_from_strict mac_answer)) = Ok response"
    using mac_versions
    by (simp add: accept_handshake_def mac_answer_def response_from_strict_def version_from_strict_def SSH_PROVIDER_ID_def
        ProtocolVersion_new_def validate_for_def require_def supports_intersection and_then_Inr_iff)
      (simp add: mac_handshake_def require_def supports_def snapshot_session_capabilities_def
        capabilities_from_strict_def intersect_snapshot_capabilities_def Let_def)
  moreover have "list_all (supports snapshot_session_capabilities) (required_features mac_handshake)"
    by (simp add: mac_handshake_def supports_def snapshot_session_capabilities_def)
  ultimately show ?thesis
    using mac_versions mac_exchanged
    by (simp add: provider_handshake_def mac_handshake_def require_def)
      (simp add: mac_provider_world_def token_check_def is_cancelled_def CancellationToken_new_def)
qed

theorem handshake_promises_only_shared_features_witness:
  "\<exists>response. provider_handshake mac_provider_world mac_provider mac_handshake = Some (Ok response)
     \<and> (\<exists>n. max_source_bytes (hr_capabilities response) = Some n \<and> n \<le> 640 * 1024 * 1024)
     \<and> retention_seconds (hr_capabilities response) \<in> {None, Some 0}"
proof -
  obtain response where r: "provider_handshake mac_provider_world mac_provider mac_handshake = Some (Ok response)"
    using mac_handshake_ok by blast
  have "provider_runner mac_provider = process_runner mac_exchange" by (simp add: mac_provider_def)
  from handshake_promises_only_shared_features [OF this r] r show ?thesis by auto
qed

end
