(* ===== verification/Git_Snapshot.thy ===== *)
theory Git_Snapshot
  imports Build_Request
begin

text \<open>
  Git snapshot descriptors (\<^verbatim>\<open>src/crates/rustferry-remote/src/source.rs\<close>, \<open>GitSnapshotDescriptor\<close>): the descriptor
  an orphan commit carries, its validation, its binding to the final request and its canonical bytes. The
  pretty JSON serializer is a parameter.
\<close>

definition MAX_GIT_SNAPSHOT_DESCRIPTOR_BYTES :: u64 where
  "MAX_GIT_SNAPSHOT_DESCRIPTOR_BYTES = 8 * 1024 * 1024"
definition GIT_SNAPSHOT_DESCRIPTOR_SCHEMA_VERSION :: u32 where
  "GIT_SNAPSHOT_DESCRIPTOR_SCHEMA_VERSION = 1"
definition GIT_SNAPSHOT_ARCHIVE_PATH :: string where
  "GIT_SNAPSHOT_ARCHIVE_PATH = ''.rustferry/goal3/source.zip''"
definition GIT_SNAPSHOT_DESCRIPTOR_PATH :: string where
  "GIT_SNAPSHOT_DESCRIPTOR_PATH = ''.rustferry/goal3/source.json''"

record GitSnapshotDescriptor =
  gs_schema_version :: u32
  gs_operation_id :: string
  gs_source_repository :: string
  gs_snapshot_ref :: string
  gs_request_template_sha256 :: string
  gs_bundle :: SourceBundleDescriptor

definition GitSnapshotDescriptor_validate ::
    "request_env \<Rightarrow> GitSnapshotDescriptor \<Rightarrow> SourceArchiveLimits \<Rightarrow> SourceError + unit" where
  "GitSnapshotDescriptor_validate env d limits =
     (if gs_schema_version d \<noteq> GIT_SNAPSHOT_DESCRIPTOR_SCHEMA_VERSION
      then Err (invalid_git_snapshot ''unsupported Git snapshot descriptor schema version'')
      else and_then (git_snapshot_ref (gs_operation_id d)) (\<lambda>expected_ref.
        if gs_snapshot_ref d \<noteq> expected_ref
        then Err (invalid_git_snapshot ''snapshot ref is not derived from the operation identifier'')
        else run_checks
          [map_err (\<lambda>_. invalid_git_snapshot ''source repository is not canonical'')
             (validate_github_repository (env_url_parse env) (gs_source_repository d)),
           map_err (\<lambda>_. invalid_git_snapshot ''request template SHA-256 is invalid'')
             (validate_sha256 (gs_request_template_sha256 d)),
           SourceBundleDescriptor_validate (env_unicode env) (env_sha256 env) (gs_bundle d) limits,
           reject_if (archive_size (bundle_archive (gs_bundle d)) > MAX_GIT_SNAPSHOT_BYTES
               \<or> manifest_total_size (bundle_manifest (gs_bundle d)) > MAX_GIT_SNAPSHOT_BYTES)
             (limit_error GitSnapshotSize None MAX_GIT_SNAPSHOT_BYTES
               (max (archive_size (bundle_archive (gs_bundle d))) (manifest_total_size (bundle_manifest (gs_bundle d)))))]))"

definition GitSnapshotDescriptor_from_request ::
    "request_env \<Rightarrow> IosDeviceBuildRequest \<Rightarrow> SourceBundleDescriptor \<Rightarrow> SourceError + GitSnapshotDescriptor" where
  "GitSnapshotDescriptor_from_request env r bundle =
     (if source_mode r \<noteq> GitSnapshot then Err (invalid_git_snapshot ''descriptor requires Git snapshot source mode'')
      else if bundle_manifest bundle \<noteq> source r
      then Err (invalid_git_snapshot ''descriptor manifest does not match request source'')
      else case source_repository r of
          None \<Rightarrow> Err (invalid_git_snapshot ''request has no source repository'')
        | Some repository \<Rightarrow>
            and_then (git_snapshot_ref (request_operation_id r)) (\<lambda>snapshot_ref.
            and_then (map_err (\<lambda>_. invalid_git_snapshot ''request template is invalid'')
                (canonical_git_snapshot_request_template_sha256 env r)) (\<lambda>template.
            let d = \<lparr>gs_schema_version = GIT_SNAPSHOT_DESCRIPTOR_SCHEMA_VERSION,
                  gs_operation_id = request_operation_id r, gs_source_repository = repository,
                  gs_snapshot_ref = snapshot_ref, gs_request_template_sha256 = template, gs_bundle = bundle\<rparr> in
            and_then (GitSnapshotDescriptor_validate env d git_snapshot_archive_limits) (\<lambda>_. Ok d))))"

definition GitSnapshotDescriptor_validate_for_request ::
    "request_env \<Rightarrow> GitSnapshotDescriptor \<Rightarrow> IosDeviceBuildRequest \<Rightarrow> SourceArchiveLimits \<Rightarrow> SourceError + unit" where
  "GitSnapshotDescriptor_validate_for_request env d r limits =
     and_then (map_err (\<lambda>_. invalid_git_snapshot ''final request is invalid'') (IosDeviceBuildRequest_validate env r)) (\<lambda>_.
     and_then (GitSnapshotDescriptor_validate env d limits) (\<lambda>_.
     if source_mode r \<noteq> GitSnapshot \<or> request_operation_id r \<noteq> gs_operation_id d
       \<or> source_repository r \<noteq> Some (gs_source_repository d) \<or> source r \<noteq> bundle_manifest (gs_bundle d)
     then Err (invalid_git_snapshot ''descriptor does not match the final request'')
     else and_then (map_err (\<lambda>_. invalid_git_snapshot ''final request template is invalid'')
         (canonical_git_snapshot_request_template_sha256 env r)) (\<lambda>template.
       reject_if (template \<noteq> gs_request_template_sha256 d)
         (invalid_git_snapshot ''request template SHA-256 does not match the descriptor''))))"

definition canonical_git_snapshot_descriptor_bytes ::
    "request_env \<Rightarrow> (GitSnapshotDescriptor \<Rightarrow> string + bytes) \<Rightarrow> GitSnapshotDescriptor \<Rightarrow> SourceError + bytes" where
  "canonical_git_snapshot_descriptor_bytes env to_vec_pretty d =
     and_then (GitSnapshotDescriptor_validate env d git_snapshot_archive_limits) (\<lambda>_.
     and_then (map_err (\<lambda>e. InvalidGitSnapshot (''descriptor JSON serialization failed: '' @ e)) (to_vec_pretty d)) (\<lambda>json.
     let bs = json @ [CHR 0x0A];
         size = (if length bs < 2 ^ 64 then of_nat (length bs) else - 1 :: u64) in
     if size > MAX_GIT_SNAPSHOT_DESCRIPTOR_BYTES
     then Err (limit_error DescriptorSize (Some GIT_SNAPSHOT_DESCRIPTOR_PATH) MAX_GIT_SNAPSHOT_DESCRIPTOR_BYTES size)
     else case checked_add (archive_size (bundle_archive (gs_bundle d))) size of
         None \<Rightarrow> Err (limit_error GitSnapshotSize None MAX_GIT_SNAPSHOT_BYTES (- 1))
       | Some combined \<Rightarrow>
           if combined > MAX_GIT_SNAPSHOT_BYTES
           then Err (limit_error GitSnapshotSize None MAX_GIT_SNAPSHOT_BYTES combined)
           else Ok bs))"

section \<open>A descriptor is determined by its request\<close>

lemma descriptor_from_request_Ok:
  "GitSnapshotDescriptor_from_request env r b = Ok d \<longleftrightarrow>
     source_mode r = GitSnapshot \<and> bundle_manifest b = source r
     \<and> source_repository r = Some (gs_source_repository d)
     \<and> git_snapshot_ref (request_operation_id r) = Ok (gs_snapshot_ref d)
     \<and> canonical_git_snapshot_request_template_sha256 env r = Ok (gs_request_template_sha256 d)
     \<and> gs_schema_version d = 1 \<and> gs_operation_id d = request_operation_id r \<and> gs_bundle d = b
     \<and> GitSnapshotDescriptor_validate env d git_snapshot_archive_limits = Ok ()"
  by (cases d) (auto simp: GitSnapshotDescriptor_from_request_def GIT_SNAPSHOT_DESCRIPTOR_SCHEMA_VERSION_def and_then_Inr_iff Let_def
      split: option.splits if_splits)

lemma descriptor_validate_ref:
  "GitSnapshotDescriptor_validate env d limits = Ok () \<Longrightarrow>
   gs_schema_version d = 1 \<and> git_snapshot_ref (gs_operation_id d) = Ok (gs_snapshot_ref d)"
  by (auto simp: GitSnapshotDescriptor_validate_def GIT_SNAPSHOT_DESCRIPTOR_SCHEMA_VERSION_def and_then_Inr_iff split: if_splits)

lemma validate_for_request_Ok:
  "GitSnapshotDescriptor_validate_for_request env d r limits = Ok () \<longleftrightarrow>
     IosDeviceBuildRequest_validate env r = Ok () \<and> GitSnapshotDescriptor_validate env d limits = Ok ()
     \<and> source_mode r = GitSnapshot \<and> request_operation_id r = gs_operation_id d
     \<and> source_repository r = Some (gs_source_repository d) \<and> source r = bundle_manifest (gs_bundle d)
     \<and> canonical_git_snapshot_request_template_sha256 env r = Ok (gs_request_template_sha256 d)"
  by (auto simp: GitSnapshotDescriptor_validate_for_request_def and_then_Inr_iff reject_if_Inr split: if_splits)

text \<open>
  C29 [snapshot_binding]: the verifier accepts a descriptor for a final request exactly when that request is
  acceptable and the descriptor is the very one the publisher computes from the request and the bundle, so
  that no field of it can drift.
\<close>

theorem snapshot_descriptor_is_determined:
  "GitSnapshotDescriptor_validate_for_request env d r git_snapshot_archive_limits = Ok () \<longleftrightarrow>
     IosDeviceBuildRequest_validate env r = Ok () \<and> GitSnapshotDescriptor_from_request env r (gs_bundle d) = Ok d"
  unfolding validate_for_request_Ok descriptor_from_request_Ok
  using descriptor_validate_ref [of env d git_snapshot_archive_limits] by metis

lemma template_exchange:
  assumes "source_mode r = GitSnapshot" "IosDeviceBuildRequest_validate env (r\<lparr>source_revision := Some v\<rparr>) = Ok ()"
  shows "canonical_git_snapshot_request_template_sha256 env (r\<lparr>source_revision := None\<rparr>)
    = canonical_git_snapshot_request_template_sha256 env (r\<lparr>source_revision := Some v\<rparr>)"
  using revision_exchange [OF assms(2) _ zero_revision_valid] assms
  by (simp add: canonical_git_snapshot_request_template_sha256_def)

text \<open>
  [snapshot_publish]: a descriptor computed before its commit exists is accepted for the final request: when
  the request without a revision yields a descriptor, and the published revision makes the request acceptable,
  then the verifier accepts the descriptor for it.
\<close>

theorem published_descriptor_is_accepted:
  assumes "GitSnapshotDescriptor_from_request env (r\<lparr>source_revision := None\<rparr>) b = Ok d"
    and "IosDeviceBuildRequest_validate env (r\<lparr>source_revision := Some v\<rparr>) = Ok ()"
  shows "GitSnapshotDescriptor_validate_for_request env d (r\<lparr>source_revision := Some v\<rparr>) git_snapshot_archive_limits = Ok ()"
proof -
  have "source_mode r = GitSnapshot" using assms(1) by (simp add: descriptor_from_request_Ok)
  from template_exchange [OF this assms(2)] assms show ?thesis
    by (auto simp: validate_for_request_Ok descriptor_from_request_Ok)
qed

text \<open>
  [snapshot_bounds]: the canonical descriptor is a line of at most 8 MiB, and together with the archive it
  announces it stays within the 90 MiB of an orphan commit, without wrap-around in the sum.
\<close>

theorem snapshot_payload_is_bounded:
  assumes "canonical_git_snapshot_descriptor_bytes env to_vec_pretty d = Ok bs"
  shows "length bs \<le> 8 * 1024 * 1024 \<and> last bs = CHR 0x0A
    \<and> unat (archive_size (bundle_archive (gs_bundle d))) + length bs \<le> 90 * 1024 * 1024"
proof -
  define size where "size = (if length bs < 2 ^ 64 then of_nat (length bs) else - 1 :: u64)"
  have b: "size \<le> MAX_GIT_SNAPSHOT_DESCRIPTOR_BYTES" "last bs = CHR 0x0A"
    "\<exists>c. checked_add (archive_size (bundle_archive (gs_bundle d))) size = Some c \<and> c \<le> MAX_GIT_SNAPSHOT_BYTES"
    using assms unfolding size_def
    by (auto simp: canonical_git_snapshot_descriptor_bytes_def and_then_Inr_iff Let_def split: if_splits option.splits)
  have "length bs < 2 ^ 64"
  proof (rule ccontr)
    assume "\<not> length bs < 2 ^ 64"
    with b(1) show False by (simp add: size_def MAX_GIT_SNAPSHOT_DESCRIPTOR_BYTES_def word_le_nat_alt unsigned_minus_1_eq_mask mask_eq_exp_minus_1)
  qed
  then have n: "unat size = length bs" by (simp add: size_def unat_of_nat)
  with b(1) have "length bs \<le> 8 * 1024 * 1024"
    by (simp add: word_le_nat_alt MAX_GIT_SNAPSHOT_DESCRIPTOR_BYTES_def)
  with b(2,3) n show ?thesis
    by (auto simp: word_le_nat_alt MAX_GIT_SNAPSHOT_BYTES_def dest!: checked_add_Some)
qed

section \<open>An accepted snapshot\<close>

definition example_bundle :: SourceBundleDescriptor where
  "example_bundle =
     SourceBundleDescriptor_new \<lparr>archive_size = 10, archive_sha256 = replicate 64 (CHR ''0'')\<rparr>
       (build_manifest zero_digest ''.'' example_entries)"

definition example_descriptor :: GitSnapshotDescriptor where
  "example_descriptor =
     \<lparr>gs_schema_version = 1, gs_operation_id = ''op-1'', gs_source_repository = ''https://github.com/ferry/app'',
      gs_snapshot_ref = ''refs/rustferry/goal3/snapshots/op-1'', gs_request_template_sha256 = replicate 64 (CHR ''0''),
      gs_bundle = example_bundle\<rparr>"

lemma zero_template: "hex_encode (zero_digest b) = replicate 64 (CHR ''0'')"
  unfolding zero_digest_def by code_simp

lemma zero_sha256_valid: "validate_sha256 (replicate 64 (CHR ''0'')) = Ok ()"
  by (simp add: validate_sha256_def list_all_iff is_lower_hex_def is_ascii_digit_def)

lemma example_bundle_valid:
  "SourceBundleDescriptor_validate ascii_unicode zero_digest example_bundle git_snapshot_archive_limits = Ok ()"
proof -
  have "validate_source_manifest ascii_unicode zero_digest (build_manifest zero_digest ''.'' example_entries)
      (limits_source git_snapshot_archive_limits) = Ok ()"
    by (rule example_manifest_within)
      (simp_all add: git_snapshot_archive_limits_def SourceLimits_default_def MAX_GIT_SNAPSHOT_BYTES_def)
  then show ?thesis
    unfolding SourceBundleDescriptor_validate_def run_checks_Inr_iff
    by (simp add: example_bundle_def SourceBundleDescriptor_new_def zero_sha256_valid validate_archive_limits_def
        check_supported_depth_def git_snapshot_archive_limits_def SourceArchiveLimits_default_def SourceLimits_default_def
        MAX_SUPPORTED_DEPTH_def MAX_GIT_SNAPSHOT_BYTES_def)
qed

lemma example_descriptor_valid:
  "GitSnapshotDescriptor_validate example_env example_descriptor git_snapshot_archive_limits = Ok ()"
proof -
  have "git_snapshot_ref ''op-1'' = Ok ''refs/rustferry/goal3/snapshots/op-1''" by code_simp
  moreover have "is_github_name ''ferry''" "is_github_name ''app''" by code_simp+
  then have "validate_github_repository (env_url_parse example_env) ''https://github.com/ferry/app'' = Ok ()"
    by (simp add: validate_github_repository_def validate_safe_text_def github_url_def example_safe_texts example_env_def)
  moreover have "env_unicode example_env = ascii_unicode" "env_sha256 example_env = zero_digest" by (simp_all add: example_env_def)
  moreover have "archive_size (bundle_archive example_bundle) = 10" "manifest_total_size (bundle_manifest example_bundle) = 3"
    by (simp_all add: example_bundle_def SourceBundleDescriptor_new_def build_manifest_def example_entries_def)
  ultimately show ?thesis
    using example_bundle_valid zero_sha256_valid
    by (simp add: GitSnapshotDescriptor_validate_def example_descriptor_def GIT_SNAPSHOT_DESCRIPTOR_SCHEMA_VERSION_def
        reject_if_def MAX_GIT_SNAPSHOT_BYTES_def)
qed

lemma example_revision: "(example_request ''op-1'')\<lparr>source_revision := Some (replicate 40 (CHR ''a''))\<rparr> = example_request ''op-1''"
  by (simp add: example_request_def)

lemma example_snapshot:
  "GitSnapshotDescriptor_from_request example_env ((example_request ''op-1'')\<lparr>source_revision := None\<rparr>) example_bundle
   = Ok example_descriptor"
proof -
  have "git_snapshot_ref ''op-1'' = Ok ''refs/rustferry/goal3/snapshots/op-1''" by code_simp
  moreover have "canonical_git_snapshot_request_template_sha256 example_env ((example_request ''op-1'')\<lparr>source_revision := None\<rparr>)
      = Ok (replicate 64 (CHR ''0''))"
  proof -
    have "IosDeviceBuildRequest_validate example_env
        ((example_request ''op-1'')\<lparr>source_revision := Some (replicate 40 (CHR ''0''))\<rparr>) = Ok ()"
      using revision_exchange [where env = example_env and r = "example_request ''op-1''" and v = "replicate 40 (CHR ''a'')",
          unfolded example_revision]
        example_request_valid [OF example_operations(1)] zero_revision_valid by (simp add: example_request_def)
    then show ?thesis
      by (simp add: canonical_git_snapshot_request_template_sha256_def example_request_def request_to_vec_def
          example_env_def zero_template)
  qed
  ultimately show ?thesis
    unfolding descriptor_from_request_Ok using example_descriptor_valid
    by (simp add: example_request_def example_descriptor_def example_bundle_def SourceBundleDescriptor_new_def)
qed

theorem published_descriptor_is_accepted_witness:
  "GitSnapshotDescriptor_validate_for_request example_env example_descriptor
     ((example_request ''op-1'')\<lparr>source_revision := Some (replicate 40 (CHR ''a''))\<rparr>) git_snapshot_archive_limits = Ok ()"
  by (rule published_descriptor_is_accepted [OF example_snapshot], unfold example_revision)
    (rule example_request_valid [OF example_operations(1)])

theorem snapshot_payload_is_bounded_witness:
  "unat (archive_size (bundle_archive (gs_bundle example_descriptor))) + length (''{}'' @ [CHR 0x0A]) \<le> 90 * 1024 * 1024"
proof -
  have "canonical_git_snapshot_descriptor_bytes example_env (\<lambda>_. Ok ''{}'') example_descriptor = Ok (''{}'' @ [CHR 0x0A])"
    using example_descriptor_valid
    by (simp add: canonical_git_snapshot_descriptor_bytes_def MAX_GIT_SNAPSHOT_DESCRIPTOR_BYTES_def checked_add_def
        example_descriptor_def example_bundle_def SourceBundleDescriptor_new_def MAX_GIT_SNAPSHOT_BYTES_def)
  from snapshot_payload_is_bounded [OF this] show ?thesis by blast
qed

end
