(* ===== verification/Ssh_Protocol.thy ===== *)
theory Ssh_Protocol
  imports Ssh_Session Git_Snapshot
begin

text \<open>
  What the SSH client of \<open>Ssh_Session\<close> guarantees: what it sends on every path, what a successful session
  establishes, and that a worker which follows the protocol is served; with one concrete session at the end.
\<close>

section \<open>What the client sends\<close>

definition frames :: "frame list \<Rightarrow> bytes" where
  "frames fs = concat (map frame_bytes fs)"

lemma write_frame_unlimited:
  assumes "capacity w = None"
  shows "write_worker_data_plane_frame w k sq payload = (res, w') \<Longrightarrow>
     if is_ok res then frame_wf (k, sq, payload) \<and> w' = w\<lparr>written := written w @ frame_bytes (k, sq, payload)\<rparr> else w' = w"
proof (cases "length payload \<le> unat (maximum_payload_bytes k)")
  case True
  moreover assume "write_worker_data_plane_frame w k sq payload = (res, w')"
  ultimately show ?thesis using write_frame_ok [OF assms True, of sq] by auto
next
  case False
  assume "write_worker_data_plane_frame w k sq payload = (res, w')"
  moreover have "(of_nat (length payload) :: u64) > maximum_payload_bytes k" if "length payload < 2 ^ 64"
    using False that by (simp add: word_less_nat_alt unat_of_nat)
  ultimately show ?thesis
    by (auto simp: write_worker_data_plane_frame_def WorkerDataPlaneFrameHeader_new_def split: if_splits)
qed

lemma stream_validated_file_Ok:
  assumes "stream_validated_file sha w k sq f n d mismatch = (Ok (), w')" "capacity w = None"
  obtains payload where "length payload = unat n" "hex_encode (sha payload) = d" "frame_wf (k, sq, payload)"
    "w' = w\<lparr>written := written w @ frame_bytes (k, sq, payload)\<rparr>"
proof -
  let ?h = "\<lparr>kind = k, sequence = sq, payload_bytes = n\<rparr>" and ?r = "pass_reader (stream_pass f)"
  let ?w = "w\<lparr>written := written w @ encode_header ?h\<rparr>"
  have header: "header_wf ?h" "write_worker_data_plane_header w ?h = (Ok (), ?w)"
    "\<exists>r'. copy_exact_hashed sha ?r ?w n = (Ok d, r', w')"
    using assms by (auto simp: stream_validated_file_def write_worker_data_plane_header_def header_new_ok
        split: sum.splits option.splits if_splits prod.splits)
  then obtain r' where copy: "copy_exact_hashed sha ?r ?w n = (Ok d, r', w')" by blast
  define payload where "payload = take (unat n) (reader_data ?r)"
  from copy_exact_hashed_Ok [OF copy] have enough: "unat n \<le> length (reader_data ?r)" and d: "d = hex_encode (sha payload)"
    by (simp_all add: payload_def)
  then have len: "length payload = unat n" by (simp add: payload_def)
  have "w' = ?w\<lparr>written := written ?w @ payload\<rparr>"
    using copy_exact_hashed_complete [OF enough, of ?w sha] copy assms(2) by (auto simp: payload_def)
  moreover have "frame_wf (k, sq, payload)" using header(1) len by (simp add: header_wf_def word_le_nat_alt)
  moreover have "of_nat (length payload) = n" using len by simp
  ultimately show thesis using that len d by simp
qed

text \<open>The upload: the build start as JSON, then exactly the declared descriptor and archive.\<close>

definition upload :: "session_env \<Rightarrow> SnapshotBuildStart \<Rightarrow> frame list \<Rightarrow> bool" where
  "upload env start fs \<longleftrightarrow> (\<exists>json descriptor archive.
     fs = [(BuildRequest, 0, json), (SourceDescriptor, 1, descriptor), (SourceArchive, 2, archive)]
     \<and> ev_start_json env start = Some json
     \<and> length descriptor = unat (start_source_descriptor_size start)
     \<and> hex_encode (env_sha256 (ev_request env) descriptor) = start_source_descriptor_sha256 start
     \<and> length archive = unat (archive_size (start_source_archive start))
     \<and> hex_encode (env_sha256 (ev_request env) archive) = archive_sha256 (start_source_archive start)
     \<and> list_all frame_wf fs)"

lemma write_json_frame_unlimited:
  assumes "capacity (cs_writer st) = None" "write_json_frame to_vec k sq x st = (res, st')"
  shows "(\<exists>payload. to_vec x = Some payload \<and> frame_wf (k, sq, payload)
        \<and> st' = st\<lparr>cs_writer := (cs_writer st)\<lparr>written := written (cs_writer st) @ frame_bytes (k, sq, payload)\<rparr>\<rparr> \<and> res = Ok ())
    \<or> (\<exists>e. res = Err e \<and> st' = st)"
proof (cases "to_vec x")
  case None
  with assms show ?thesis by (auto simp: write_json_frame_def)
next
  case (Some payload)
  obtain r w where w: "write_worker_data_plane_frame (cs_writer st) k sq payload = (r, w)" by fastforce
  from write_frame_unlimited [OF assms(1) w] show ?thesis
    using assms(2) Some w by (cases r) (auto simp: write_json_frame_def)
qed

lemma stream_step_Ok:
  assumes "stream_step env k sq f n d mismatch st = (Ok (), st')" "capacity (cs_writer st) = None"
  obtains payload where "length payload = unat n" "hex_encode (env_sha256 (ev_request env) payload) = d" "frame_wf (k, sq, payload)"
    "st' = st\<lparr>cs_writer := (cs_writer st)\<lparr>written := written (cs_writer st) @ frame_bytes (k, sq, payload)\<rparr>\<rparr>"
proof -
  obtain w where w: "stream_validated_file (env_sha256 (ev_request env)) (cs_writer st) k sq f n d mismatch = (Ok (), w)"
    "st' = st\<lparr>cs_writer := w\<rparr>"
    using assms(1) by (auto simp: stream_step_def split: prod.splits)
  with stream_validated_file_Ok [OF w(1) assms(2)] that show thesis by metis
qed

lemma write_request_frames_Ok:
  assumes "write_request_frames env host p st = (Ok (), st')" "capacity (cs_writer st) = None"
  obtains fs where "upload env (pr_start p) fs"
    "st' = st\<lparr>cs_writer := (cs_writer st)\<lparr>written := written (cs_writer st) @ frames fs\<rparr>\<rparr>"
proof -
  let ?w = "cs_writer st" and ?start = "pr_start p"
  obtain st1 st2 where s:
    "write_json_frame (ev_start_json env) BuildRequest 0 ?start st = (Ok (), st1)"
    "stream_step env SourceDescriptor 1 (h_descriptor_stream host) (start_source_descriptor_size ?start)
       (start_source_descriptor_sha256 ?start) SourceDescriptorMismatch st1 = (Ok (), st2)"
    "stream_step env SourceArchive 2 (h_archive_stream host) (archive_size (start_source_archive ?start))
       (archive_sha256 (start_source_archive ?start)) SourceArchiveMismatch st2 = (Ok (), st')"
    using assms(1) by (auto simp: write_request_frames_def and_next_Ok)
  obtain json where j: "ev_start_json env ?start = Some json" "frame_wf (BuildRequest, 0, json)"
    "st1 = st\<lparr>cs_writer := ?w\<lparr>written := written ?w @ frame_bytes (BuildRequest, 0, json)\<rparr>\<rparr>"
    using write_json_frame_unlimited [OF assms(2) s(1)] by auto
  then have "capacity (cs_writer st1) = None" using assms(2) by simp
  with s(2) obtain ds where ds: "length ds = unat (start_source_descriptor_size ?start)"
    "hex_encode (env_sha256 (ev_request env) ds) = start_source_descriptor_sha256 ?start" "frame_wf (SourceDescriptor, 1, ds)"
    "st2 = st1\<lparr>cs_writer := (cs_writer st1)\<lparr>written := written (cs_writer st1) @ frame_bytes (SourceDescriptor, 1, ds)\<rparr>\<rparr>"
    by (rule stream_step_Ok)
  then have "capacity (cs_writer st2) = None" using assms(2) j(3) by simp
  with s(3) obtain as where as: "length as = unat (archive_size (start_source_archive ?start))"
    "hex_encode (env_sha256 (ev_request env) as) = archive_sha256 (start_source_archive ?start)" "frame_wf (SourceArchive, 2, as)"
    "st' = st2\<lparr>cs_writer := (cs_writer st2)\<lparr>written := written (cs_writer st2) @ frame_bytes (SourceArchive, 2, as)\<rparr>\<rparr>"
    by (rule stream_step_Ok)
  have "upload env ?start [(BuildRequest, 0, json), (SourceDescriptor, 1, ds), (SourceArchive, 2, as)]"
    using j(1,2) ds(1-3) as(1-3) by (auto simp: upload_def simp del: frame_wf.simps)
  then show thesis
    by (rule that) (simp add: j(3) ds(4) as(4) frames_def del: frame_bytes.simps)
qed

text \<open>
  The beginning of an upload: whole frames in their order and, of the next one, nothing or its header with the first
  bytes of its file, at most as many as it declares.
\<close>

definition frame_begun :: "WorkerDataPlaneFrameKind \<Rightarrow> u64 \<Rightarrow> u64 \<Rightarrow> file_stream \<Rightarrow> bytes \<Rightarrow> bool" where
  "frame_begun k sq n f b \<longleftrightarrow>
     b = [] \<or> (\<exists>m \<le> unat n. b = encode_header \<lparr>kind = k, sequence = sq, payload_bytes = n\<rparr>
       @ take m (reader_data (pass_reader (stream_pass f))))"

definition upload_begun :: "session_env \<Rightarrow> session_host \<Rightarrow> SnapshotBuildStart \<Rightarrow> bytes \<Rightarrow> bool" where
  "upload_begun env host start b \<longleftrightarrow> b = []
     \<or> (\<exists>json t. ev_start_json env start = Some json \<and> frame_wf (BuildRequest, 0, json)
          \<and> b = frame_bytes (BuildRequest, 0, json) @ t
          \<and> (frame_begun SourceDescriptor 1 (start_source_descriptor_size start) (h_descriptor_stream host) t
             \<or> (\<exists>descriptor t'. length descriptor = unat (start_source_descriptor_size start)
                  \<and> hex_encode (env_sha256 (ev_request env) descriptor) = start_source_descriptor_sha256 start
                  \<and> t = frame_bytes (SourceDescriptor, 1, descriptor) @ t'
                  \<and> frame_begun SourceArchive 2 (archive_size (start_source_archive start)) (h_archive_stream host) t')))"

lemma stream_validated_file_begins:
  assumes "stream_validated_file sha w k sq f n d mismatch = (res, w')" "capacity w = None"
  shows "\<exists>t. frame_begun k sq n f t \<and> written w' = written w @ t"
proof -
  let ?h = "\<lparr>kind = k, sequence = sq, payload_bytes = n\<rparr>" and ?r = "pass_reader (stream_pass f)"
  let ?w = "w\<lparr>written := written w @ encode_header ?h\<rparr>"
  obtain rc rr wc where copy: "copy_exact_hashed sha ?r ?w n = (rc, rr, wc)" by (metis prod_cases3)
  obtain c where "copy_loop n 0 ?r ?w = (c, rr, wc)"
    using copy copy_hash_loop_is_copy [of sha n "[]" ?r ?w 0]
    by (auto simp: copy_exact_hashed_def split: prod.splits sum.splits)
  from copy_loop_safe [OF this] obtain m where m: "m \<le> unat n" "written wc = written ?w @ take m (reader_data ?r)" by blast
  then have begun: "frame_begun k sq n f (encode_header ?h @ take m (reader_data ?r))" by (auto simp: frame_begun_def)
  have "w' = w \<or> w' = wc"
  proof (cases "validate_open_file_bytes sha (stream_check f) n d mismatch")
    case (Inl e)
    with assms(1) show ?thesis by (simp add: stream_validated_file_def)
  next
    case (Inr u)
    have header: "write_worker_data_plane_header w ?h = (Ok (), ?w)"
      using assms(2) by (simp add: write_worker_data_plane_header_def)
    have "WorkerDataPlaneFrameHeader_new k sq n = Ok ?h \<or> (\<exists>e. WorkerDataPlaneFrameHeader_new k sq n = Err e)"
      by (simp add: WorkerDataPlaneFrameHeader_new_def Let_def)
    with assms(1) Inr header copy show ?thesis
      by (auto simp: stream_validated_file_def split: option.splits if_splits sum.splits)
  qed
  then show ?thesis
  proof
    assume "w' = w"
    then show ?thesis by (intro exI [of _ "[]"]) (simp add: frame_begun_def)
  qed (use begun m(2) in auto)
qed

lemma stream_step_begins:
  assumes "stream_step env k sq f n d mismatch st = (res, st')" "capacity (cs_writer st) = None"
  shows "\<exists>t. frame_begun k sq n f t \<and> written (cs_writer st') = written (cs_writer st) @ t"
  using assms stream_validated_file_begins by (fastforce simp: stream_step_def split: prod.splits)

lemma write_request_frames_begins:
  assumes "write_request_frames env host p st = (res, st')" "capacity (cs_writer st) = None"
  shows "\<exists>b. upload_begun env host (pr_start p) b \<and> written (cs_writer st') = written (cs_writer st) @ b"
proof -
  let ?w = "cs_writer st" and ?start = "pr_start p"
  obtain r1 st1 where s1: "write_json_frame (ev_start_json env) BuildRequest 0 ?start st = (r1, st1)" by fastforce
  obtain r2 st2 where s2: "stream_step env SourceDescriptor 1 (h_descriptor_stream host) (start_source_descriptor_size ?start)
      (start_source_descriptor_sha256 ?start) SourceDescriptorMismatch st1 = (r2, st2)" by fastforce
  obtain r3 st3 where s3: "stream_step env SourceArchive 2 (h_archive_stream host) (archive_size (start_source_archive ?start))
      (archive_sha256 (start_source_archive ?start)) SourceArchiveMismatch st2 = (r3, st3)" by fastforce
  from write_json_frame_unlimited [OF assms(2) s1] show ?thesis
  proof (elim disjE exE conjE)
    fix e assume "r1 = Err e" "st1 = st"
    with assms(1) s1 show ?thesis by (auto simp: write_request_frames_def upload_begun_def)
  next
    fix json assume j: "ev_start_json env ?start = Some json" "frame_wf (BuildRequest, 0, json)" "r1 = Ok ()"
      "st1 = st\<lparr>cs_writer := ?w\<lparr>written := written ?w @ frame_bytes (BuildRequest, 0, json)\<rparr>\<rparr>"
    then have c1: "capacity (cs_writer st1) = None" using assms(2) by simp
    show ?thesis
    proof (cases r2)
      case (Inl e)
      with assms(1) s1 s2 j(3) have "st' = st2" by (simp add: write_request_frames_def)
      with stream_step_begins [OF s2 c1] j show ?thesis by (auto simp: upload_begun_def simp del: frame_bytes.simps frame_wf.simps)
    next
      case (Inr u)
      with s2 c1 obtain ds where ds: "length ds = unat (start_source_descriptor_size ?start)"
        "hex_encode (env_sha256 (ev_request env) ds) = start_source_descriptor_sha256 ?start"
        "st2 = st1\<lparr>cs_writer := (cs_writer st1)\<lparr>written := written (cs_writer st1) @ frame_bytes (SourceDescriptor, 1, ds)\<rparr>\<rparr>"
        by (auto elim: stream_step_Ok)
      from assms(1) s1 s2 s3 j(3) Inr have "st' = st3" by (simp add: write_request_frames_def)
      with stream_step_begins [OF s3] ds c1 j show ?thesis
        by (auto simp: upload_begun_def simp del: frame_bytes.simps frame_wf.simps)
    qed
  qed
qed

text \<open>The client's fourth frame, seen from the writer as it was after the upload.\<close>

definition sent_nothing :: "writer \<Rightarrow> client_session \<Rightarrow> bool" where
  "sent_nothing w st \<longleftrightarrow> cs_progress st = Cancelable \<and> cs_guard_armed st \<and> cs_writer st = w"

definition receipt_failed :: "writer \<Rightarrow> client_session \<Rightarrow> bool" where
  "receipt_failed w st \<longleftrightarrow> cs_progress st = ReceiptStarted \<and> \<not> cs_guard_armed st
     \<and> (cs_writer st = w \<or> (\<exists>payload. frame_wf (ArtifactReceipt, 3, payload)
          \<and> cs_writer st = w\<lparr>written := written w @ frame_bytes (ArtifactReceipt, 3, payload)\<rparr>))"

definition sent_receipt :: "session_env \<Rightarrow> writer \<Rightarrow> SnapshotArtifactReceipt \<Rightarrow> client_session \<Rightarrow> bool" where
  "sent_receipt env w receipt st \<longleftrightarrow> cs_progress st = ReceiptSent \<and> \<not> cs_guard_armed st
     \<and> (\<exists>payload. ev_receipt_json env receipt = Some payload \<and> frame_wf (ArtifactReceipt, 3, payload)
          \<and> cs_writer st = w\<lparr>written := written w @ frame_bytes (ArtifactReceipt, 3, payload)\<rparr>)"

lemma sent_same_output:
  assumes "same_output st st'"
  shows "sent_nothing w st' = sent_nothing w st" "receipt_failed w st' = receipt_failed w st"
    "sent_receipt env w receipt st' = sent_receipt env w receipt st"
  using assms by (simp_all add: same_output_def sent_nothing_def receipt_failed_def sent_receipt_def)

lemma write_receipt_output:
  assumes "write_json_frame (ev_receipt_json env) ArtifactReceipt 3 receipt (begin_receipt st) = (res, st')"
    and "cs_writer st = w" "capacity w = None"
  shows "(\<exists>e. res = Err e \<and> receipt_failed w st') \<or> (res = Ok () \<and> receipt_failed w st' \<and> sent_receipt env w receipt (receipt_sent st'))"
proof -
  have "capacity (cs_writer (begin_receipt st)) = None" using assms(2,3) by (simp add: begin_receipt_def)
  from write_json_frame_unlimited [OF this assms(1)] show ?thesis
  proof (elim disjE exE conjE)
    fix payload
    assume p: "ev_receipt_json env receipt = Some payload" "frame_wf (ArtifactReceipt, 3, payload)" "res = Ok ()"
      and st': "st' = begin_receipt st\<lparr>cs_writer := (cs_writer (begin_receipt st))\<lparr>written := written (cs_writer (begin_receipt st))
        @ frame_bytes (ArtifactReceipt, 3, payload)\<rparr>\<rparr>"
    have "cs_writer st' = w\<lparr>written := written w @ frame_bytes (ArtifactReceipt, 3, payload)\<rparr>"
      "cs_progress st' = ReceiptStarted" "\<not> cs_guard_armed st'"
      using assms(2) by (simp_all add: st' begin_receipt_def)
    with p show ?thesis by (auto simp: receipt_failed_def sent_receipt_def receipt_sent_def)
  next
    fix e assume "res = Err e" "st' = begin_receipt st"
    then show ?thesis using assms(2) by (simp add: receipt_failed_def begin_receipt_def)
  qed
qed

lemma send_receipt_output:
  assumes "send_receipt env host d st = (res, st')" "sent_nothing w st" "capacity w = None"
  shows "(\<exists>e. res = Err e \<and> (sent_nothing w st' \<or> receipt_failed w st'))
    \<or> (\<exists>receipt. res = Ok receipt \<and> sent_receipt env w receipt st')"
proof -
  consider e where "res = Err e" "st' = st"
    | receipt where "and_next (register_step env host d receipt st) (\<lambda>_ st.
            and_next (write_json_frame (ev_receipt_json env) ArtifactReceipt 3 receipt (begin_receipt st)) (\<lambda>_ st.
            if \<not> h_receipt_flush host then (Err (DataPlane Io), st) else (Ok receipt, receipt_sent st))) = (res, st')"
    using assms(1) unfolding send_receipt_def pure_step_def
    by (cases "ev_verify env (spool_path (cs_spool st)) d";
        cases "validate_open_file_bytes (env_sha256 (ev_request env)) (h_verified_check host)
              (artifact_size (ad_artifact d)) (artifact_sha256 (ad_artifact d)) ArtifactVerificationFailed";
        cases "SnapshotArtifactReceipt_new (ev_request env) d (the (ev_verify env (spool_path (cs_spool st)) d))")
      (auto split: if_splits)
  then show ?thesis
  proof cases
    case 1
    with assms(2) show ?thesis by blast
  next
    case (2 receipt)
    obtain r1 st1 where s1: "register_step env host d receipt st = (r1, st1)" by fastforce
    then have same: "cs_progress st1 = cs_progress st" "cs_guard_armed st1 = cs_guard_armed st" "cs_writer st1 = cs_writer st"
      by (auto simp: register_step_def split: prod.splits)
    then have w: "cs_writer st1 = w" using assms(2) by (simp add: sent_nothing_def)
    obtain r2 st2 where s2: "write_json_frame (ev_receipt_json env) ArtifactReceipt 3 receipt (begin_receipt st1) = (r2, st2)"
      by fastforce
    show ?thesis
    proof (cases r1)
      case (Inl e)
      with 2 s1 same assms(2) show ?thesis by (auto simp: sent_nothing_def)
    next
      case (Inr u)
      with write_receipt_output [OF s2 w assms(3)] 2 s1 s2 show ?thesis by (auto split: if_splits)
    qed
  qed
qed

lemma guarded_session_output:
  assumes "guarded_session env host p st = (res, st')" "sent_nothing w st" "capacity w = None"
  shows "(\<exists>e. res = Err e \<and> (sent_nothing w st' \<or> receipt_failed w st'))
    \<or> (\<exists>receipt. sent_receipt env w receipt st' \<and> (case res of Inl _ \<Rightarrow> True | Inr out \<Rightarrow> out_receipt out = receipt))"
proof -
  have quiet: "sent_nothing w st2" if "same_output st1 st2" "sent_nothing w st1" for st1 st2
    using that by (simp add: sent_same_output)
  obtain ra s1 where a: "read_job_accepted env p st = (ra, s1)" by fastforce
  then have 1: "sent_nothing w s1" using quiet read_job_accepted_same [of st env p] assms(2) by simp
  show ?thesis
  proof (cases ra)
    case (Inl e)
    with a 1 assms(1) show ?thesis by (auto simp: guarded_session_def)
  next
    case ja: (Inr a')
    obtain rd s2 where d: "read_until_artifact_descriptor env p a' s1 = (rd, s2)" by fastforce
    then have 2: "sent_nothing w s2" using quiet read_until_artifact_descriptor_same [of s1 env p a'] 1 by simp
    show ?thesis
    proof (cases rd)
      case (Inl e)
      with a ja d 2 assms(1) show ?thesis by (auto simp: guarded_session_def)
    next
      case ad: (Inr d')
      obtain rp s3 where pl: "read_artifact_payload env host p a' d' s2 = (rp, s3)" by fastforce
      then have 3: "sent_nothing w s3" using quiet read_artifact_payload_same [of s2 env host p a' d'] 2 by simp
      show ?thesis
      proof (cases "is_ok rp \<and> cs_next_event s3 \<noteq> 0")
        case False
        with a ja d ad pl 3 assms(1) show ?thesis by (cases rp) (auto simp: guarded_session_def)
      next
        case True
        obtain rr s4 where r: "send_receipt env host d' s3 = (rr, s4)" by fastforce
        note receipt = send_receipt_output [OF r 3 assms(3)]
        have body: "and_next (rr, s4) (\<lambda>receipt st. and_next (read_until_complete env p a' st) (\<lambda>c st.
            (Ok \<lparr>out_accepted = a', out_artifact = d', out_receipt = receipt, out_complete = c\<rparr>, st))) = (res, st')"
          using a ja d ad pl True r assms(1) by (auto simp: guarded_session_def is_ok_conv)
        show ?thesis
        proof (cases rr)
          case (Inl e)
          with body receipt show ?thesis by auto
        next
          case (Inr rc)
          obtain rt s5 where c: "read_until_complete env p a' s4 = (rt, s5)" by fastforce
          have "sent_receipt env w rc s4" using receipt Inr by simp
          then have "sent_receipt env w rc s5"
            using read_until_complete_same [of s4 env p a'] c by (simp add: sent_same_output)
          moreover have "st' = s5" "case res of Inl _ \<Rightarrow> True | Inr out \<Rightarrow> out_receipt out = rc"
            using body Inr c by (cases rt; auto)+
          ultimately show ?thesis by blast
        qed
      qed
    qed
  qed
qed

text \<open>A session about to start, with nothing sent.\<close>

definition session_start :: "reader \<Rightarrow> CreateOnlyArtifactSpool \<Rightarrow> client_session" where
  "session_start r sp =
     \<lparr>cs_reader = r, cs_sequence = WorkerDataPlaneSequence_new, cs_next_event = 0, cs_events = [],
      cs_spool_file = \<lparr>written = [], capacity = None\<rparr>, cs_spool = sp,
      cs_writer = \<lparr>written = [], capacity = None\<rparr>, cs_progress = Uploading, cs_guard_armed = False\<rparr>"

lemma drop_cancel_guard_output:
  assumes "sent_nothing w st" "capacity w = None"
  shows "cs_progress (drop_cancel_guard host st) = (if h_cancel_flush host then CancelSent else Cancelable)
    \<and> cs_writer (drop_cancel_guard host st) = w\<lparr>written := written w @ frame_bytes (Cancel, 3, [])\<rparr>"
  using assms write_frame_ok [of w "[]" Cancel 3]
  by (simp add: drop_cancel_guard_def sent_nothing_def can_send_cancel_def)

lemma drop_cancel_guard_disarmed: "\<not> cs_guard_armed st \<Longrightarrow> drop_cancel_guard host st = st"
  by (simp add: drop_cancel_guard_def)

lemma run_uncommitted_cases:
  assumes "run_snapshot_session_uncommitted env host start limits (session_start r sp) = (res, st)"
  obtains e where "res = Err e" "cs_progress st = Uploading" "upload_begun env host start (written (cs_writer st))"
  | p fs w st1 where "prepare_request env host start limits = Ok p" "upload env start fs"
      "w = \<lparr>written = frames fs, capacity = None\<rparr>"
      "guarded_session env host p (session_start r sp\<lparr>cs_writer := w, cs_progress := Cancelable, cs_guard_armed := True\<rparr>) = (res, st1)"
      "st = drop_cancel_guard host st1"
proof -
  let ?st = "session_start r sp"
  have progress: "cs_progress (snd (write_request_frames env host p ?st)) = Uploading" for p
    by (auto simp: write_request_frames_def write_json_frame_def stream_step_def and_next_def session_start_def
        split: option.split prod.split sum.split)
  show thesis
  proof (cases "prepare_request env host start limits")
    case (Inl e)
    with assms have "res = Err e" "st = ?st" by (auto simp: run_snapshot_session_uncommitted_def pure_step_def)
    then show ?thesis using that(1) by (simp add: session_start_def upload_begun_def)
  next
    case p: (Inr p)
    have start: "pr_start p = start"
      using p by (auto simp: prepare_request_def Let_def and_then_Inr_iff split: if_splits)
    obtain rw st2 where w: "write_request_frames env host p ?st = (rw, st2)" by fastforce
    show ?thesis
    proof (cases "is_ok (validate_new_link (h_new_link host)) \<and> is_ok rw \<and> h_request_flush host")
      case False
      have "upload_begun env host start (written (cs_writer st2))"
        using write_request_frames_begins [OF w] start by (auto simp: session_start_def)
      moreover have "upload_begun env host start (written (cs_writer ?st))" by (simp add: session_start_def upload_begun_def)
      moreover have "st = ?st \<or> st = st2" "\<exists>e. res = Err e" "cs_progress ?st = Uploading"
        using False assms p w
        by (cases "validate_new_link (h_new_link host)"; cases rw;
            auto simp: run_snapshot_session_uncommitted_def pure_step_def session_start_def split: if_splits)+
      ultimately show ?thesis using that(1) progress [of p] w by auto
    next
      case True
      then have "rw = Ok ()" by (simp add: is_ok_unit)
      with w have "write_request_frames env host p ?st = (Ok (), st2)" "capacity (cs_writer ?st) = None"
        by (simp_all add: session_start_def)
      then obtain fs where fs: "upload env (pr_start p) fs"
        "st2 = ?st\<lparr>cs_writer := (cs_writer ?st)\<lparr>written := written (cs_writer ?st) @ frames fs\<rparr>\<rparr>"
        by (rule write_request_frames_Ok)
      obtain st1 where "guarded_session env host p (st2\<lparr>cs_progress := Cancelable, cs_guard_armed := True\<rparr>) = (res, st1)"
        "st = drop_cancel_guard host st1"
        using assms p w True \<open>rw = Ok ()\<close>
        by (auto simp: run_snapshot_session_uncommitted_def pure_step_def is_ok_conv split: prod.splits)
      then show ?thesis
        using that(2) [OF p _ refl] fs start by (simp add: session_start_def)
    qed
  qed
qed

text \<open>
  C10 [session_output]: whatever the worker sends and whatever else the operating system answers, the client's side of
  a connection that takes every byte written is a beginning of its upload, or its whole upload of exactly the declared
  bytes followed by at most one more frame: a receipt or a cancellation, never both. A session that fails while it
  uploads has sent whole frames of the upload in their order and, of the next one, nothing or its header with the first
  bytes of its file, at most the declared number, and nothing else; one that fails after the upload and before the receipt was begun cancels the job;
  one that fails later does not; a session that succeeds sent the receipt it returns.
\<close>

theorem client_sends_receipt_or_cancel:
  "case run_snapshot_session_uncommitted env host start limits (session_start r sp) of (res, st) \<Rightarrow>
     (case cs_progress st of
        Uploading \<Rightarrow> \<exists>e. res = Err e \<and> upload_begun env host start (written (cs_writer st))
      | Cancelable \<Rightarrow> \<exists>e fs. res = Err e \<and> upload env start fs \<and> h_cancel_flush host = False
          \<and> written (cs_writer st) = frames (fs @ [(Cancel, 3, [])])
      | CancelSent \<Rightarrow> \<exists>e fs. res = Err e \<and> upload env start fs
          \<and> written (cs_writer st) = frames (fs @ [(Cancel, 3, [])])
      | ReceiptStarted \<Rightarrow> \<exists>e fs last. res = Err e \<and> upload env start fs \<and> length last \<le> 1
          \<and> set (map fst last) \<subseteq> {ArtifactReceipt} \<and> written (cs_writer st) = frames (fs @ last)
      | ReceiptSent \<Rightarrow> \<exists>fs receipt payload. upload env start fs \<and> ev_receipt_json env receipt = Some payload
          \<and> written (cs_writer st) = frames (fs @ [(ArtifactReceipt, 3, payload)])
          \<and> (case res of Inl _ \<Rightarrow> True | Inr out \<Rightarrow> out_receipt out = receipt))"
proof -
  obtain res st where run: "run_snapshot_session_uncommitted env host start limits (session_start r sp) = (res, st)"
    by fastforce
  then show ?thesis
  proof (cases rule: run_uncommitted_cases)
    case (1 e)
    with run show ?thesis by simp
  next
    case (2 p fs w st1)
    have cap: "capacity w = None" by (simp add: 2(3))
    have "sent_nothing w (session_start r sp\<lparr>cs_writer := w, cs_progress := Cancelable, cs_guard_armed := True\<rparr>)"
      by (simp add: sent_nothing_def)
    from guarded_session_output [OF 2(4) this cap] show ?thesis
    proof (elim disjE exE conjE)
      fix e assume "res = Err e" "sent_nothing w st1"
      with drop_cancel_guard_output [OF this(2) cap, of host] 2 run show ?thesis
        by (auto simp: frames_def simp del: frame_bytes.simps split: if_splits)
    next
      fix e assume e: "res = Err e" and f: "receipt_failed w st1"
      then have st: "st = st1" using drop_cancel_guard_disarmed 2(5) by (simp add: receipt_failed_def)
      from f have "\<exists>last. length last \<le> 1 \<and> set (map fst last) \<subseteq> {ArtifactReceipt} \<and> written (cs_writer st1) = frames (fs @ last)"
        unfolding receipt_failed_def
      proof (elim conjE disjE exE)
        assume "cs_writer st1 = w"
        then show ?thesis by (intro exI [of _ "[]"]) (simp add: 2(3))
      next
        fix payload assume "cs_writer st1 = w\<lparr>written := written w @ frame_bytes (ArtifactReceipt, 3, payload)\<rparr>"
        then show ?thesis
          by (intro exI [of _ "[(ArtifactReceipt, 3, payload)]"]) (simp add: 2(3) frames_def del: frame_bytes.simps)
      qed
      with e f st run 2(2) show ?thesis by (auto simp: receipt_failed_def)
    next
      fix receipt assume s: "sent_receipt env w receipt st1" "case res of Inl _ \<Rightarrow> True | Inr out \<Rightarrow> out_receipt out = receipt"
      then have "st = st1" using drop_cancel_guard_disarmed 2(5) by (simp add: sent_receipt_def)
      moreover obtain payload where "cs_progress st1 = ReceiptSent" "ev_receipt_json env receipt = Some payload"
        "written (cs_writer st1) = frames (fs @ [(ArtifactReceipt, 3, payload)])"
        using s(1) 2(3) by (auto simp: sent_receipt_def frames_def simp del: frame_bytes.simps)
      ultimately show ?thesis using s(2) run 2(2) by auto
    qed
  qed
qed

section \<open>What a successful session establishes\<close>

definition own_event :: "session_env \<Rightarrow> PreparedRequest \<Rightarrow> SnapshotJobAccepted \<Rightarrow> RemoteBuildEvent \<Rightarrow> bool" where
  "own_event env p a e \<longleftrightarrow> RemoteBuildEvent_validate (ev_event env) e = Ok ()
     \<and> event_protocol_version e = pr_protocol_version p \<and> event_operation_id e = pr_operation_id p
     \<and> event_job_id e = ja_job_id a \<and> event_provider e = SSH_PROVIDER_ID"

text \<open>The events delivered so far are the job's own, numbered from zero, and the counter is their number.\<close>

definition session_events :: "session_env \<Rightarrow> PreparedRequest \<Rightarrow> SnapshotJobAccepted \<Rightarrow> client_session \<Rightarrow> bool" where
  "session_events env p a st \<longleftrightarrow> unat (cs_next_event st) = length (cs_events st)
     \<and> map (\<lambda>e. unat (event_sequence e)) (cs_events st) = [0 ..< length (cs_events st)]
     \<and> (\<forall>e \<in> set (cs_events st). own_event env p a e)"

lemma decode_line_bytes_valid: "decode_line_bytes env payload = Ok e \<Longrightarrow> RemoteBuildEvent_validate env e = Ok ()"
  by (auto simp: decode_line_bytes_def decode_line_def and_then_Inr_iff split: if_splits)

lemma read_event_events:
  assumes "read_event env h p a st = (Ok event, st')" "session_events env p a st"
  shows "session_events env p a (st'\<lparr>cs_events := cs_events st' @ [event]\<rparr>) \<and> cs_spool_file st' = cs_spool_file st"
proof -
  obtain r payload n where e: "st' = st\<lparr>cs_reader := r, cs_next_event := n\<rparr>" "decode_line_bytes (ev_event env) payload = Ok event"
    "event_sequence event = cs_next_event st" "checked_add (cs_next_event st) 1 = Some n"
    "event_protocol_version event = pr_protocol_version p" "event_operation_id event = pr_operation_id p"
    "event_job_id event = ja_job_id a" "event_provider event = SSH_PROVIDER_ID"
    using assms(1) by (rule read_event_Ok)
  have "unat n = Suc (unat (cs_next_event st))" using checked_add_Some [OF e(4)] by simp
  with assms(2) e decode_line_bytes_valid [OF e(2)] show ?thesis
    by (auto simp: session_events_def own_event_def)
qed

lemma read_until_Ok:
  assumes "read_until env p a finish st = (Ok x, st')" "session_events env p a st"
  shows "\<exists>h s. finish h s = (Ok x, st') \<and> session_events env p a s \<and> cs_spool_file s = cs_spool_file st
    \<and> same_output st s \<and> length (cs_events st) \<le> length (cs_events s)"
  using assms
proof (induction env p a finish st rule: read_until.induct)
  case (1 env p a finish st)
  obtain h st1 where h: "read_sequenced_header st = (Ok h, st1)"
    using 1(2) by (subst (asm) read_until.simps) (auto split: prod.splits sum.splits)
  obtain r sq where st1: "st1 = st\<lparr>cs_reader := r, cs_sequence := sq\<rparr>"
    using h by (rule read_sequenced_header_Ok)
  then have ev1: "session_events env p a st1" using 1(3) by (simp add: session_events_def)
  show ?case
  proof (cases "kind h = Event")
    case False
    with 1(2) h have "finish h st1 = (Ok x, st')" by (subst (asm) read_until.simps) simp
    with ev1 st1 show ?thesis by (intro exI [of _ h] exI [of _ st1]) simp
  next
    case True
    then obtain event st2 where e: "read_event env h p a st1 = (Ok event, st2)"
      using 1(2) h by (subst (asm) read_until.simps) (auto split: prod.splits sum.splits)
    let ?st = "st2\<lparr>cs_events := cs_events st2 @ [event]\<rparr>"
    have rec: "read_until env p a finish ?st = (Ok x, st')"
      using 1(2) h True e by (subst (asm) read_until.simps) simp
    note ev2 = read_event_events [OF e ev1]
    from e obtain n r' where st2: "st2 = st1\<lparr>cs_reader := r', cs_next_event := n\<rparr>" by (rule read_event_Ok)
    obtain h' s where "finish h' s = (Ok x, st')" "session_events env p a s" "cs_spool_file s = cs_spool_file ?st"
      "same_output ?st s" "length (cs_events ?st) \<le> length (cs_events s)"
      using 1(1) [OF h [symmetric] refl True e [symmetric] refl rec] ev2 by blast
    moreover have "same_output st ?st" by (simp add: st2 st1)
    ultimately show ?thesis using ev2 st1 st2 by (intro exI [of _ h'] exI [of _ s]) (auto simp: same_output_def)
  qed
qed

lemma finish_artifact_descriptor_Ok:
  assumes "finish_artifact_descriptor env p a h st = (Ok d, st')"
  shows "SnapshotArtifactDescriptor_validate (ev_request env) d = Ok ()
    \<and> ad_operation_id d = pr_operation_id p \<and> ad_job_id d = ja_job_id a \<and> ad_protocol_version d = pr_protocol_version p
    \<and> ce_request_sha256 (ad_compile d) = pr_request_sha256 p \<and> ce_source_sha256 (ad_compile d) = pr_source_sha256 p
    \<and> ce_provider (ad_compile d) = SSH_PROVIDER_ID \<and> (\<exists>r. st' = st\<lparr>cs_reader := r\<rparr>)"
proof -
  have k: "kind h = ArtifactDescriptor"
    using assms by (auto simp: finish_artifact_descriptor_def fail_with_server_error_def and_next_Ok split: if_splits)
  then obtain st1 where "read_json_frame env (ev_artifact env) h st = (Ok d, st1)" and rest: "st' = st1"
    "SnapshotArtifactDescriptor_validate (ev_request env) d = Ok ()"
    "ad_operation_id d = pr_operation_id p" "ad_job_id d = ja_job_id a" "ad_protocol_version d = pr_protocol_version p"
    "ce_request_sha256 (ad_compile d) = pr_request_sha256 p" "ce_source_sha256 (ad_compile d) = pr_source_sha256 p"
    "ce_provider (ad_compile d) = SSH_PROVIDER_ID"
    using assms by (auto simp: finish_artifact_descriptor_def and_next_Ok is_ok_unit split: if_splits)
  moreover from this(1) obtain r where "st1 = st\<lparr>cs_reader := r\<rparr>" by (rule read_json_frame_Ok)
  ultimately show ?thesis by blast
qed

lemma finish_complete_Ok:
  assumes "finish_complete env p a h st = (Ok c, st')"
  shows "SnapshotBuildComplete_validate c = Ok ()
    \<and> bc_operation_id c = pr_operation_id p \<and> bc_job_id c = ja_job_id a \<and> bc_protocol_version c = pr_protocol_version p
    \<and> (\<exists>r. st' = st\<lparr>cs_reader := r\<rparr>)"
proof -
  have k: "kind h = Complete"
    using assms by (auto simp: finish_complete_def fail_with_server_error_def and_next_Ok split: if_splits)
  then obtain st1 where "read_json_frame env (ev_complete env) h st = (Ok c, st1)" and rest: "st' = st1"
    "SnapshotBuildComplete_validate c = Ok ()"
    "bc_operation_id c = pr_operation_id p" "bc_job_id c = ja_job_id a" "bc_protocol_version c = pr_protocol_version p"
    using assms by (auto simp: finish_complete_def and_next_Ok is_ok_unit split: if_splits)
  moreover from this(1) obtain r where "st1 = st\<lparr>cs_reader := r\<rparr>" by (rule read_json_frame_Ok)
  ultimately show ?thesis by blast
qed

lemma read_job_accepted_Ok:
  assumes "read_job_accepted env p st = (Ok a, st')"
  shows "SnapshotJobAccepted_validate a = Ok () \<and> ja_operation_id a = pr_operation_id p
    \<and> ja_protocol_version a = pr_protocol_version p \<and> (\<exists>r sq. st' = st\<lparr>cs_sequence := sq, cs_reader := r\<rparr>)"
proof -
  obtain h st1 where h: "read_sequenced_header st = (Ok h, st1)"
    using assms by (auto simp: read_job_accepted_def and_next_Ok)
  with assms have k: "kind h = JobAccepted"
    by (auto simp: read_job_accepted_def fail_with_server_error_def and_next_Ok split: if_splits)
  with h assms obtain st2 where j: "read_json_frame env (ev_accepted env) h st1 = (Ok a, st2)" "st' = st2"
    "SnapshotJobAccepted_validate a = Ok ()" "ja_operation_id a = pr_operation_id p" "ja_protocol_version a = pr_protocol_version p"
    by (auto simp: read_job_accepted_def and_next_Ok is_ok_unit split: if_splits)
  from j(1) obtain r where "st2 = st1\<lparr>cs_reader := r\<rparr>" by (rule read_json_frame_Ok)
  moreover from h obtain r' sq where "st1 = st\<lparr>cs_reader := r', cs_sequence := sq\<rparr>" by (rule read_sequenced_header_Ok)
  ultimately show ?thesis using j by auto
qed

lemma read_artifact_payload_Ok:
  assumes "read_artifact_payload env host p a d st = (Ok (), st')"
  shows "\<exists>payload. written (cs_spool_file st') = written (cs_spool_file st) @ payload
    \<and> length payload = unat (artifact_size (ad_artifact d))
    \<and> hex_encode (env_sha256 (ev_request env) payload) = artifact_sha256 (ad_artifact d)
    \<and> cs_events st' = cs_events st \<and> cs_next_event st' = cs_next_event st"
proof -
  obtain h st1 where h: "read_sequenced_header st = (Ok h, st1)"
    using assms by (auto simp: read_artifact_payload_def and_next_Ok)
  then obtain r sq where st1: "st1 = st\<lparr>cs_reader := r, cs_sequence := sq\<rparr>" by (rule read_sequenced_header_Ok)
  have k: "kind h = Artifact" "payload_bytes h = artifact_size (ad_artifact d)"
    using assms h by (auto simp: read_artifact_payload_def fail_with_server_error_def and_next_Ok split: if_splits)
  then obtain r' w where c: "copy_exact_hashed (env_sha256 (ev_request env)) (cs_reader st1) (cs_spool_file st1) (payload_bytes h)
      = (Ok (artifact_sha256 (ad_artifact d)), r', w)" "st' = st1\<lparr>cs_reader := r', cs_spool_file := w\<rparr>"
    using assms h by (auto simp: read_artifact_payload_def and_next_Ok Let_def split: if_splits prod.splits sum.splits option.splits)
  with copy_exact_hashed_Ok [OF c(1)] k st1 show ?thesis by auto
qed

lemma send_receipt_Ok:
  assumes "send_receipt env host d st = (Ok receipt, st')"
  shows "receipt_validate_for (ev_request env) receipt d = Ok () \<and> cs_events st' = cs_events st
    \<and> cs_next_event st' = cs_next_event st \<and> cs_spool_file st' = cs_spool_file st"
  using assms
  by (auto simp: send_receipt_def and_next_Ok SnapshotArtifactReceipt_new_def and_then_Inr_iff Let_def register_step_def
      write_json_frame_def begin_receipt_def receipt_sent_def split: if_splits option.splits prod.splits sum.splits)

lemma prepare_request_Ok:
  assumes "prepare_request env host start limits = Ok p"
  obtains descriptor request where "start_reconstruct_request (ev_request env) start descriptor limits = Ok request"
    "canonical_request_sha256 (ev_request env) request = Ok (pr_request_sha256 p)"
    "pr_operation_id p = request_operation_id request" "pr_source_sha256 p = manifest_sha256 (source request)"
    "negotiate CURRENT_PROTOCOL_VERSION (request_protocol_version request) = Ok (pr_protocol_version p)"
  using assms by (auto simp: prepare_request_def Let_def and_then_Inr_iff split: if_splits)

text \<open>The messages of an outcome name one operation, one job and one protocol version.\<close>

definition one_identity :: "string \<Rightarrow> ProtocolVersion \<Rightarrow> SnapshotSessionOutcome \<Rightarrow> bool" where
  "one_identity operation version out \<longleftrightarrow>
     (\<exists>job. (ja_operation_id (out_accepted out), ja_job_id (out_accepted out), ja_protocol_version (out_accepted out)) = (operation, job, version)
       \<and> (ad_operation_id (out_artifact out), ad_job_id (out_artifact out), ad_protocol_version (out_artifact out)) = (operation, job, version)
       \<and> (rc_operation_id (out_receipt out), rc_job_id (out_receipt out), rc_protocol_version (out_receipt out)) = (operation, job, version)
       \<and> (bc_operation_id (out_complete out), bc_job_id (out_complete out), bc_protocol_version (out_complete out)) = (operation, job, version)
       \<and> ce_job_id (ad_compile (out_artifact out)) = job \<and> cleanup_job_id (bc_cleanup (out_complete out)) = job)"

lemma descriptor_evidence:
  assumes "SnapshotArtifactDescriptor_validate env d = Ok ()"
  shows "ce_job_id (ad_compile d) = ad_job_id d"
    "archive_size (sealed_transport (ce_sealed_archive (ad_compile d))) = artifact_size (ad_artifact d)"
    "archive_sha256 (sealed_transport (ce_sealed_archive (ad_compile d))) = artifact_sha256 (ad_artifact d)"
  using assms unfolding SnapshotArtifactDescriptor_validate_def run_checks_Inr_iff by simp_all

lemma receipt_identity:
  assumes "receipt_validate_for env r d = Ok ()"
  shows "rc_operation_id r = ad_operation_id d" "rc_job_id r = ad_job_id d" "rc_protocol_version r = ad_protocol_version d"
    "rc_sha256 r = artifact_sha256 (ad_artifact d)" "rc_size r = artifact_size (ad_artifact d)"
  using assms unfolding receipt_validate_for_def run_checks_Inr_iff by simp_all

lemma complete_cleanup:
  assumes "SnapshotBuildComplete_validate c = Ok ()"
  shows "cleanup_job_id (bc_cleanup c) = bc_job_id c" "workspace_removed (bc_cleanup c)"
    "signing_material_removed (bc_cleanup c)" "\<not> artifacts_retained (bc_cleanup c)"
  using assms unfolding SnapshotBuildComplete_validate_def run_checks_Inr_iff by simp_all

lemma guarded_session_Ok:
  assumes "guarded_session env host p st = (Ok out, st')" "session_events env p a0 st" "cs_events st = []"
  shows "one_identity (pr_operation_id p) (pr_protocol_version p) out
    \<and> ce_request_sha256 (ad_compile (out_artifact out)) = pr_request_sha256 p
    \<and> ce_source_sha256 (ad_compile (out_artifact out)) = pr_source_sha256 p
    \<and> SnapshotArtifactDescriptor_validate (ev_request env) (out_artifact out) = Ok ()
    \<and> session_events env p (out_accepted out) st' \<and> cs_events st' \<noteq> []
    \<and> (\<exists>payload. written (cs_spool_file st') = written (cs_spool_file st) @ payload
         \<and> length payload = unat (artifact_size (ad_artifact (out_artifact out)))
         \<and> hex_encode (env_sha256 (ev_request env) payload) = artifact_sha256 (ad_artifact (out_artifact out)))
    \<and> receipt_validate_for (ev_request env) (out_receipt out) (out_artifact out) = Ok ()
    \<and> SnapshotBuildComplete_validate (out_complete out) = Ok ()"
proof -
  obtain a s1 d s2 s3 rc s4 c where
    steps: "read_job_accepted env p st = (Ok a, s1)" "read_until_artifact_descriptor env p a s1 = (Ok d, s2)"
      "read_artifact_payload env host p a d s2 = (Ok (), s3)" "cs_next_event s3 \<noteq> 0"
      "send_receipt env host d s3 = (Ok rc, s4)" "read_until_complete env p a s4 = (Ok c, st')"
    and out: "out = \<lparr>out_accepted = a, out_artifact = d, out_receipt = rc, out_complete = c\<rparr>"
    using assms(1) by (auto simp: guarded_session_def and_next_Ok split: if_splits)
  have a: "SnapshotJobAccepted_validate a = Ok ()" "ja_operation_id a = pr_operation_id p"
    "ja_protocol_version a = pr_protocol_version p" "\<exists>r sq. s1 = st\<lparr>cs_sequence := sq, cs_reader := r\<rparr>"
    using read_job_accepted_Ok [OF steps(1)] by blast+
  then have ev1: "session_events env p a s1" "cs_spool_file s1 = cs_spool_file st"
    using assms(2,3) by (auto simp: session_events_def)
  obtain h2 t2 where t2: "finish_artifact_descriptor env p a h2 t2 = (Ok d, s2)" "session_events env p a t2"
    "cs_spool_file t2 = cs_spool_file s1"
    using read_until_Ok [OF steps(2) [unfolded read_until_artifact_descriptor_def] ev1(1)] by blast
  note d = finish_artifact_descriptor_Ok [OF t2(1)]
  then have ev2: "session_events env p a s2" "cs_spool_file s2 = cs_spool_file st"
    using t2 ev1 by (auto simp: session_events_def)
  obtain payload where pl: "written (cs_spool_file s3) = written (cs_spool_file st) @ payload"
    "length payload = unat (artifact_size (ad_artifact d))"
    "hex_encode (env_sha256 (ev_request env) payload) = artifact_sha256 (ad_artifact d)"
    "cs_events s3 = cs_events s2" "cs_next_event s3 = cs_next_event s2"
    using read_artifact_payload_Ok [OF steps(3)] ev2 by auto
  note rc = send_receipt_Ok [OF steps(5)]
  have ev4: "session_events env p a s4" using ev2 pl rc by (simp add: session_events_def)
  have "cs_events s4 \<noteq> []"
    using steps(4) ev4 rc by (auto simp: session_events_def unat_eq_0)
  moreover obtain h5 t5 where t5: "finish_complete env p a h5 t5 = (Ok c, st')" "session_events env p a t5"
    "cs_spool_file t5 = cs_spool_file s4" "length (cs_events s4) \<le> length (cs_events t5)"
    using read_until_Ok [OF steps(6) [unfolded read_until_complete_def] ev4] by blast
  moreover note c = finish_complete_Ok [OF t5(1)]
  ultimately have "session_events env p a st'" "cs_events st' \<noteq> []" "cs_spool_file st' = cs_spool_file s4"
    by (auto simp: session_events_def)
  moreover have "one_identity (pr_operation_id p) (pr_protocol_version p) out"
    using a d rc c descriptor_evidence(1) receipt_identity complete_cleanup(1) by (auto simp: one_identity_def out)
  ultimately show ?thesis using d pl rc c by (simp add: out)
qed

lemma drop_cancel_guard_reads [simp]:
  "cs_events (drop_cancel_guard host st) = cs_events st" "cs_next_event (drop_cancel_guard host st) = cs_next_event st"
  "cs_spool_file (drop_cancel_guard host st) = cs_spool_file st"
  by (simp_all add: drop_cancel_guard_def split: prod.split sum.split)

text \<open>
  C3 [session_outcome]: a session that succeeds is about one request. Its start and descriptor stand for a
  request; every message of the outcome names the operation of that request, one job and the negotiated
  version; the compile evidence carries the digest of exactly that request and of its source; the spooled
  bytes are the artifact's, by size and by digest, and the receipt acknowledges this artifact; at least one
  event was delivered, all of them valid events of this job numbered from zero; and the completion proves
  that the workspace and the signing material are gone and nothing was retained.
\<close>

theorem session_outcome_is_bound:
  assumes "run_snapshot_session_uncommitted env host start limits (session_start r sp) = (Ok out, st)"
  shows "\<exists>descriptor request version.
      start_reconstruct_request (ev_request env) start descriptor limits = Ok request
    \<and> negotiate CURRENT_PROTOCOL_VERSION (request_protocol_version request) = Ok version
    \<and> one_identity (request_operation_id request) version out
    \<and> canonical_request_sha256 (ev_request env) request = Ok (ce_request_sha256 (ad_compile (out_artifact out)))
    \<and> ce_source_sha256 (ad_compile (out_artifact out)) = manifest_sha256 (source request)
    \<and> length (written (cs_spool_file st)) = unat (artifact_size (ad_artifact (out_artifact out)))
    \<and> hex_encode (env_sha256 (ev_request env) (written (cs_spool_file st))) = artifact_sha256 (ad_artifact (out_artifact out))
    \<and> receipt_validate_for (ev_request env) (out_receipt out) (out_artifact out) = Ok ()
    \<and> map (\<lambda>e. unat (event_sequence e)) (cs_events st) = [0 ..< length (cs_events st)] \<and> cs_events st \<noteq> []
    \<and> list_all (\<lambda>e. RemoteBuildEvent_validate (ev_event env) e = Ok () \<and> event_provider e = SSH_PROVIDER_ID
        \<and> (event_operation_id e, event_job_id e, event_protocol_version e)
          = (request_operation_id request, ja_job_id (out_accepted out), version)) (cs_events st)
    \<and> workspace_removed (bc_cleanup (out_complete out)) \<and> signing_material_removed (bc_cleanup (out_complete out))
    \<and> \<not> artifacts_retained (bc_cleanup (out_complete out))"
  using assms
proof (cases rule: run_uncommitted_cases)
  case (1 e)
  then show ?thesis by simp
next
  case (2 p fs w st1)
  let ?st = "session_start r sp\<lparr>cs_writer := w, cs_progress := Cancelable, cs_guard_armed := True\<rparr>"
  obtain descriptor request where request: "start_reconstruct_request (ev_request env) start descriptor limits = Ok request"
    "canonical_request_sha256 (ev_request env) request = Ok (pr_request_sha256 p)"
    "pr_operation_id p = request_operation_id request" "pr_source_sha256 p = manifest_sha256 (source request)"
    "negotiate CURRENT_PROTOCOL_VERSION (request_protocol_version request) = Ok (pr_protocol_version p)"
    using 2(1) by (rule prepare_request_Ok)
  have "session_events env p a ?st" "cs_events ?st = []" for a
    by (simp_all add: session_events_def session_start_def)
  note g = guarded_session_Ok [OF 2(4) this]
  have spool: "written (cs_spool_file ?st) = []" by (simp add: session_start_def)
  from g have "list_all (\<lambda>e. RemoteBuildEvent_validate (ev_event env) e = Ok () \<and> event_provider e = SSH_PROVIDER_ID
        \<and> (event_operation_id e, event_job_id e, event_protocol_version e)
          = (request_operation_id request, ja_job_id (out_accepted out), pr_protocol_version p)) (cs_events st)"
    by (simp add: session_events_def own_event_def list_all_iff request(3) 2(5))
  moreover note complete_cleanup [of "out_complete out"]
  ultimately show ?thesis
    using g request spool
    by (intro exI [of _ descriptor] exI [of _ request] exI [of _ "pr_protocol_version p"])
      (auto simp: session_events_def 2(5))
qed

section \<open>A worker that follows the protocol is served\<close>

definition numbered :: "nat \<Rightarrow> (WorkerDataPlaneFrameKind \<times> bytes) list \<Rightarrow> frame list" where
  "numbered n fs = map (\<lambda>(i, k, payload). (k, of_nat i, payload)) (enumerate n fs)"

lemma numbered_simps [simp]:
  "numbered n [] = []" "numbered n ((k, payload) # fs) = (k, of_nat n, payload) # numbered (Suc n) fs"
  by (simp_all add: numbered_def)

lemma numbered_append: "numbered n (fs @ gs) = numbered n fs @ numbered (n + length fs) gs"
  by (simp add: numbered_def enumerate_append_eq)

lemma frames_Cons [simp]: "frames (f # fs) = frame_bytes f @ frames fs" "frames [] = []" "frames (fs @ gs) = frames fs @ frames gs"
  by (simp_all add: frames_def)

lemma checked_add_of_nat: "Suc n < 2 ^ 64 \<Longrightarrow> checked_add (of_nat n :: u64) 1 = Some (of_nat (Suc n))"
proof -
  assume less: "Suc n < 2 ^ 64"
  then have "unat (of_nat n :: u64) = n" by (simp add: unat_of_nat)
  with less show ?thesis by (simp add: checked_add_def)
qed

text \<open>A session whose reader, frame counter, event counter and delivered events have moved on.\<close>

definition progressed ::
    "client_session \<Rightarrow> reader \<Rightarrow> nat \<Rightarrow> nat \<Rightarrow> RemoteBuildEvent list \<Rightarrow> client_session" where
  "progressed st r s n es =
     st\<lparr>cs_reader := r, cs_sequence := \<lparr>next_sequence = Some (of_nat s)\<rparr>, cs_next_event := of_nat n, cs_events := es\<rparr>"

lemma progressed_simps [simp]:
  "cs_reader (progressed st r s n es) = r" "cs_sequence (progressed st r s n es) = \<lparr>next_sequence = Some (of_nat s)\<rparr>"
  "cs_next_event (progressed st r s n es) = of_nat n" "cs_events (progressed st r s n es) = es"
  "cs_writer (progressed st r s n es) = cs_writer st" "cs_spool (progressed st r s n es) = cs_spool st"
  "cs_spool_file (progressed st r s n es) = cs_spool_file st"
  "(progressed st r s n es)\<lparr>cs_reader := r'\<rparr> = progressed st r' s n es"
  "(progressed st r s n es)\<lparr>cs_sequence := \<lparr>next_sequence = Some (of_nat s')\<rparr>\<rparr> = progressed st r s' n es"
  "(progressed st r s n es)\<lparr>cs_next_event := of_nat n'\<rparr> = progressed st r s n' es"
  "(progressed st r s n es)\<lparr>cs_events := es'\<rparr> = progressed st r s n es'"
  "(progressed st r s n es)\<lparr>cs_spool_file := w\<rparr> = progressed (st\<lparr>cs_spool_file := w\<rparr>) r s n es"
  "(progressed st r s n es)\<lparr>cs_writer := w\<rparr> = progressed (st\<lparr>cs_writer := w\<rparr>) r s n es"
  "(progressed st r s n es)\<lparr>cs_spool := sp\<rparr> = progressed (st\<lparr>cs_spool := sp\<rparr>) r s n es"
  "(progressed st r s n es)\<lparr>cs_progress := x\<rparr> = progressed (st\<lparr>cs_progress := x\<rparr>) r s n es"
  "(progressed st r s n es)\<lparr>cs_guard_armed := b\<rparr> = progressed (st\<lparr>cs_guard_armed := b\<rparr>) r s n es"
  by (simp_all add: progressed_def)

lemma serve_header:
  assumes "reader_data r = frame_bytes (k, of_nat s, payload) @ rest" "frame_wf (k, of_nat s, payload)" "Suc s < 2 ^ 64"
  shows "\<exists>r'. read_sequenced_header (progressed st r s n es)
      = (Ok \<lparr>kind = k, sequence = of_nat s, payload_bytes = of_nat (length payload)\<rparr>, progressed st r' (Suc s) n es)
    \<and> reader_data r' = payload @ rest"
proof -
  let ?h = "\<lparr>kind = k, sequence = of_nat s, payload_bytes = of_nat (length payload)\<rparr>"
  obtain r' where r': "read_worker_data_plane_header r = (Ok ?h, r')" "reader_data r' = payload @ rest"
    using read_header_of_encoding [OF frame_header_wf [OF assms(2)], of r "payload @ rest"] assms(1) by auto
  have "accept \<lparr>next_sequence = Some (of_nat s)\<rparr> ?h = Ok \<lparr>next_sequence = Some (of_nat (Suc s))\<rparr>"
    using checked_add_of_nat [OF assms(3)] by (simp add: accept_def)
  with r' have "read_sequenced_header (progressed st r s n es) = (Ok ?h, progressed st r' (Suc s) n es)"
    by (simp add: read_sequenced_header_def del: of_nat_Suc)
  with r'(2) show ?thesis by blast
qed

lemma serve_payload:
  assumes "reader_data r = payload @ rest" "k \<notin> {SourceArchive, Artifact}" "frame_wf (k, sq, payload)"
    and "length payload \<le> ev_usize_max env"
  shows "\<exists>r'. read_payload env \<lparr>kind = k, sequence = sq, payload_bytes = of_nat (length payload)\<rparr> (progressed st r s n es)
      = (Ok payload, progressed st r' s n es) \<and> reader_data r' = rest"
proof -
  have "unat (of_nat (length payload) :: u64) = length payload"
    using assms(3) by (intro header_payload_length [of _ k]) simp
  then show ?thesis
    using read_payload_of_data [of "\<lparr>kind = k, sequence = sq, payload_bytes = of_nat (length payload)\<rparr>" "ev_usize_max env"
        r payload rest] assms
    by (auto simp: read_payload_def)
qed

text \<open>The event payloads a worker may send from a given event number on, and what they decode to.\<close>

definition event_payloads ::
    "session_env \<Rightarrow> PreparedRequest \<Rightarrow> SnapshotJobAccepted \<Rightarrow> nat \<Rightarrow> bytes list \<Rightarrow> RemoteBuildEvent list \<Rightarrow> bool" where
  "event_payloads env p a n payloads events \<longleftrightarrow> length payloads = length events
     \<and> (\<forall>i < length events. decode_line_bytes (ev_event env) (payloads ! i) = Ok (events ! i)
          \<and> own_event env p a (events ! i) \<and> event_sequence (events ! i) = of_nat (n + i)
          \<and> length (payloads ! i) \<le> min MAX_EVENT_LINE_BYTES (ev_usize_max env))"

lemma event_payloads_Cons:
  "event_payloads env p a n (x # xs) (e # es) \<longleftrightarrow>
     decode_line_bytes (ev_event env) x = Ok e \<and> own_event env p a e \<and> event_sequence e = of_nat n
     \<and> length x \<le> min MAX_EVENT_LINE_BYTES (ev_usize_max env) \<and> event_payloads env p a (Suc n) xs es"
  unfolding event_payloads_def by (simp add: All_less_Suc2 conj_ac del: of_nat_add)

lemma event_frame_wf: "length x \<le> MAX_EVENT_LINE_BYTES \<Longrightarrow> frame_wf (Event, sq, x)"
  by (simp add: maximum_payload_bytes_def MAX_EVENT_LINE_BYTES_def)

lemma serve_event:
  assumes "reader_data r = frame_bytes (Event, of_nat s, x) @ rest" "Suc s < 2 ^ 64" "Suc n < 2 ^ 64"
    and "decode_line_bytes (ev_event env) x = Ok e" "own_event env p a e" "event_sequence e = of_nat n"
    and "length x \<le> min MAX_EVENT_LINE_BYTES (ev_usize_max env)"
  shows "\<exists>r'. read_until env p a finish (progressed st r s n es)
      = read_until env p a finish (progressed st r' (Suc s) (Suc n) (es @ [e])) \<and> reader_data r' = rest"
proof -
  let ?h = "\<lparr>kind = Event, sequence = of_nat s, payload_bytes = of_nat (length x)\<rparr>"
  have wf: "frame_wf (Event, of_nat s, x)" using assms(7) by (intro event_frame_wf) simp
  obtain r1 where h: "read_sequenced_header (progressed st r s n es) = (Ok ?h, progressed st r1 (Suc s) n es)"
    "reader_data r1 = x @ rest"
    using serve_header [OF assms(1) wf assms(2)] by blast
  obtain r2 where pl: "read_payload env ?h (progressed st r1 (Suc s) n es) = (Ok x, progressed st r2 (Suc s) n es)"
    "reader_data r2 = rest"
    using serve_payload [OF h(2) _ wf] assms(7) by fastforce
  have "read_event env ?h p a (progressed st r1 (Suc s) n es) = (Ok e, progressed st r2 (Suc s) (Suc n) es)"
    using pl(1) assms(4-6) checked_add_of_nat [OF assms(3)] by (simp add: read_event_def own_event_def del: of_nat_Suc)
  with h pl(2) show ?thesis by (intro exI [of _ r2]) (subst read_until.simps, simp)
qed

lemma serve_events:
  "event_payloads env p a n xs es' \<Longrightarrow> reader_data r = frames (numbered s (map (Pair Event) xs)) @ rest \<Longrightarrow>
   s + length xs < 2 ^ 64 \<Longrightarrow> n + length xs < 2 ^ 64 \<Longrightarrow>
   \<exists>r'. read_until env p a finish (progressed st r s n es)
      = read_until env p a finish (progressed st r' (s + length xs) (n + length xs) (es @ es')) \<and> reader_data r' = rest"
proof (induction xs arbitrary: n s es es' r)
  case Nil
  then have "es' = []" by (simp add: event_payloads_def)
  with Nil(2) show ?case by (intro exI [of _ r]) simp
next
  case (Cons x xs)
  obtain e es2 where es': "es' = e # es2" using Cons.prems(1) by (cases es') (auto simp: event_payloads_def)
  then have e: "decode_line_bytes (ev_event env) x = Ok e" "own_event env p a e" "event_sequence e = of_nat n"
    "length x \<le> min MAX_EVENT_LINE_BYTES (ev_usize_max env)" "event_payloads env p a (Suc n) xs es2"
    using Cons.prems(1) by (simp_all add: event_payloads_Cons)
  have "reader_data r = frame_bytes (Event, of_nat s, x) @ frames (numbered (Suc s) (map (Pair Event) xs)) @ rest"
    using Cons.prems(2) by simp
  moreover have "Suc s < 2 ^ 64" "Suc n < 2 ^ 64" using Cons.prems(3,4) by simp_all
  ultimately obtain r1 where one: "read_until env p a finish (progressed st r s n es)
      = read_until env p a finish (progressed st r1 (Suc s) (Suc n) (es @ [e]))"
    "reader_data r1 = frames (numbered (Suc s) (map (Pair Event) xs)) @ rest"
    using serve_event [OF _ _ _ e(1-4)] by blast
  with Cons.IH [OF e(5) one(2), of "es @ [e]"] Cons.prems(3,4) show ?case by (simp add: es')
qed

text \<open>What a worker sends over a whole session, and what it means to follow the protocol.\<close>

record worker_transcript =
  t_accepted :: bytes
  t_events :: "bytes list"
  t_descriptor :: bytes
  t_artifact :: bytes
  t_late :: "bytes list"
  t_complete :: bytes

definition transcript_frames :: "worker_transcript \<Rightarrow> frame list" where
  "transcript_frames t = numbered 0
     ([(JobAccepted, t_accepted t)] @ map (Pair Event) (t_events t) @ [(ArtifactDescriptor, t_descriptor t)]
       @ [(Artifact, t_artifact t)] @ map (Pair Event) (t_late t) @ [(Complete, t_complete t)])"

definition control_payload :: "session_env \<Rightarrow> WorkerDataPlaneFrameKind \<Rightarrow> bytes \<Rightarrow> bool" where
  "control_payload env k payload \<longleftrightarrow>
     k \<notin> {SourceArchive, Artifact} \<and> length payload \<le> min (unat (maximum_payload_bytes k)) (ev_usize_max env)"

definition worker_follows ::
    "session_env \<Rightarrow> PreparedRequest \<Rightarrow> worker_transcript \<Rightarrow> SnapshotJobAccepted \<Rightarrow> SnapshotArtifactDescriptor
     \<Rightarrow> SnapshotBuildComplete \<Rightarrow> RemoteBuildEvent list \<Rightarrow> RemoteBuildEvent list \<Rightarrow> bool" where
  "worker_follows env p t a d c events late \<longleftrightarrow>
     ev_accepted env (t_accepted t) = Some a \<and> control_payload env JobAccepted (t_accepted t)
     \<and> SnapshotJobAccepted_validate a = Ok () \<and> ja_operation_id a = pr_operation_id p
     \<and> ja_protocol_version a = pr_protocol_version p
     \<and> event_payloads env p a 0 (t_events t) events \<and> events \<noteq> []
     \<and> ev_artifact env (t_descriptor t) = Some d \<and> control_payload env ArtifactDescriptor (t_descriptor t)
     \<and> SnapshotArtifactDescriptor_validate (ev_request env) d = Ok ()
     \<and> ad_operation_id d = pr_operation_id p \<and> ad_job_id d = ja_job_id a \<and> ad_protocol_version d = pr_protocol_version p
     \<and> ce_request_sha256 (ad_compile d) = pr_request_sha256 p \<and> ce_source_sha256 (ad_compile d) = pr_source_sha256 p
     \<and> ce_provider (ad_compile d) = SSH_PROVIDER_ID
     \<and> length (t_artifact t) = unat (artifact_size (ad_artifact d))
     \<and> hex_encode (env_sha256 (ev_request env) (t_artifact t)) = artifact_sha256 (ad_artifact d)
     \<and> event_payloads env p a (length events) (t_late t) late
     \<and> ev_complete env (t_complete t) = Some c \<and> control_payload env Complete (t_complete t)
     \<and> SnapshotBuildComplete_validate c = Ok ()
     \<and> bc_operation_id c = pr_operation_id p \<and> bc_job_id c = ja_job_id a \<and> bc_protocol_version c = pr_protocol_version p
     \<and> length (t_events t) + length (t_late t) + 5 < 2 ^ 64"

text \<open>The answers of a host that serves the session and a verifier that accepts the artifact.\<close>

definition host_serves ::
    "session_env \<Rightarrow> session_host \<Rightarrow> SnapshotArtifactDescriptor \<Rightarrow> SnapshotArtifactReceipt \<Rightarrow> CreateOnlyArtifactSpool \<Rightarrow> bool" where
  "host_serves env host d receipt sp \<longleftrightarrow>
     validate_new_link (h_payload_link host) = Ok () \<and> h_spool_seek host \<and> h_spool_sync host
     \<and> map_option md_len (h_spool_metadata host) = Some (artifact_size (ad_artifact d)) \<and> h_verify_seek host
     \<and> ev_verify env (spool_path sp) d = Some (rc_local_path receipt)
     \<and> validate_open_file_bytes (env_sha256 (ev_request env)) (h_verified_check host) (artifact_size (ad_artifact d))
         (artifact_sha256 (ad_artifact d)) ArtifactVerificationFailed = Ok ()
     \<and> SnapshotArtifactReceipt_new (ev_request env) d (rc_local_path receipt) = Ok receipt
     \<and> fst (register_publication (env_sha256 (ev_request env)) (ev_canonicalize env) (h_publication_identity host)
         (h_publication_check host) (rc_local_path receipt) (artifact_size (ad_artifact d)) (artifact_sha256 (ad_artifact d)) sp) = Ok ()
     \<and> (case ev_receipt_json env receipt of None \<Rightarrow> False | Some json \<Rightarrow> frame_wf (ArtifactReceipt, 3, json))
     \<and> h_receipt_flush host"

lemma control_payload_frame: "control_payload env k payload \<Longrightarrow> frame_wf (k, sq, payload)"
  by (simp add: control_payload_def)

lemma serve_json_frame:
  assumes "reader_data r = payload @ rest" "control_payload env k payload" "from_slice payload = Some x"
  shows "\<exists>r'. read_json_frame env from_slice \<lparr>kind = k, sequence = sq, payload_bytes = of_nat (length payload)\<rparr>
      (progressed st r s n es) = (Ok x, progressed st r' s n es) \<and> reader_data r' = rest"
proof -
  obtain r' where "read_payload env \<lparr>kind = k, sequence = sq, payload_bytes = of_nat (length payload)\<rparr> (progressed st r s n es)
      = (Ok payload, progressed st r' s n es)" "reader_data r' = rest"
    using serve_payload [OF assms(1) _ control_payload_frame [OF assms(2)], of env] assms(2)
    by (fastforce simp: control_payload_def)
  with assms(3) show ?thesis by (intro exI [of _ r']) (simp add: read_json_frame_def)
qed

lemma serve_message:
  assumes "reader_data r = frame_bytes (k, of_nat s, payload) @ rest" "control_payload env k payload"
    and "from_slice payload = Some x" "Suc s < 2 ^ 64"
  obtains h r1 r2 where "read_sequenced_header (progressed st r s n es) = (Ok h, progressed st r1 (Suc s) n es)" "kind h = k"
    "read_json_frame env from_slice h (progressed st r1 (Suc s) n es) = (Ok x, progressed st r2 (Suc s) n es)"
    "reader_data r2 = rest"
proof -
  let ?h = "\<lparr>kind = k, sequence = of_nat s, payload_bytes = of_nat (length payload)\<rparr>"
  obtain r1 where h: "read_sequenced_header (progressed st r s n es) = (Ok ?h, progressed st r1 (Suc s) n es)"
    "reader_data r1 = payload @ rest"
    using serve_header [OF assms(1) control_payload_frame [OF assms(2)] assms(4)] by blast
  from serve_json_frame [where from_slice = from_slice and sq = "of_nat s" and st = st and s = "Suc s" and n = n and es = es,
      OF h(2) assms(2,3)] obtain r2 where
    "read_json_frame env from_slice ?h (progressed st r1 (Suc s) n es) = (Ok x, progressed st r2 (Suc s) n es)"
    "reader_data r2 = rest" by blast
  with h(1) show thesis by (intro that [of ?h r1 r2]) simp_all
qed

lemma serve_accepted:
  assumes "reader_data r = frame_bytes (JobAccepted, of_nat 0, payload) @ rest"
    and "ev_accepted env payload = Some a" "control_payload env JobAccepted payload" "SnapshotJobAccepted_validate a = Ok ()"
    and "ja_operation_id a = pr_operation_id p" "ja_protocol_version a = pr_protocol_version p"
  obtains r' where "read_job_accepted env p (progressed st r 0 n es) = (Ok a, progressed st r' 1 n es)" "reader_data r' = rest"
proof -
  obtain h r1 r2 where h: "read_sequenced_header (progressed st r 0 n es) = (Ok h, progressed st r1 (Suc 0) n es)"
    "kind h = JobAccepted" "read_json_frame env (ev_accepted env) h (progressed st r1 (Suc 0) n es) = (Ok a, progressed st r2 (Suc 0) n es)"
    "reader_data r2 = rest"
    using assms(1,3,2) by (rule serve_message [where from_slice = "ev_accepted env" and s = 0]) simp_all
  with assms(4-6) have "read_job_accepted env p (progressed st r 0 n es) = (Ok a, progressed st r2 1 n es)"
    by (simp add: read_job_accepted_def)
  with h(4) show thesis by (intro that)
qed

text \<open>Events and then one message that is not an event.\<close>

lemma serve_until:
  assumes "event_payloads env p a n xs events" "s + length xs + 1 < 2 ^ 64" "n + length xs < 2 ^ 64"
    and "reader_data r = frames (numbered s (map (Pair Event) xs)) @ frame_bytes (k, of_nat (s + length xs), payload) @ rest"
    and "k \<noteq> Event" "control_payload env k payload" "from_slice payload = Some x"
    and "\<And>h r1 r2. kind h = k \<Longrightarrow>
      read_json_frame env from_slice h (progressed st r1 (s + length xs + 1) (n + length xs) (es @ events))
        = (Ok x, progressed st r2 (s + length xs + 1) (n + length xs) (es @ events)) \<Longrightarrow>
      finish h (progressed st r1 (s + length xs + 1) (n + length xs) (es @ events))
        = (Ok y, progressed st r2 (s + length xs + 1) (n + length xs) (es @ events))"
  obtains r' where "read_until env p a finish (progressed st r s n es)
      = (Ok y, progressed st r' (s + length xs + 1) (n + length xs) (es @ events))" "reader_data r' = rest"
proof -
  let ?k = "s + length xs" and ?m = "n + length xs"
  have "s + length xs < 2 ^ 64" using assms(2) by simp
  from serve_events [OF assms(1,4) this assms(3)] obtain r1 where r1:
    "read_until env p a finish (progressed st r s n es) = read_until env p a finish (progressed st r1 ?k ?m (es @ events))"
    "reader_data r1 = frame_bytes (k, of_nat ?k, payload) @ rest"
    by blast
  have less: "Suc ?k < 2 ^ 64" using assms(2) by simp
  obtain h r2 r3 where h: "read_sequenced_header (progressed st r1 ?k ?m (es @ events)) = (Ok h, progressed st r2 (Suc ?k) ?m (es @ events))"
    "kind h = k" "read_json_frame env from_slice h (progressed st r2 (Suc ?k) ?m (es @ events)) = (Ok x, progressed st r3 (Suc ?k) ?m (es @ events))"
    "reader_data r3 = rest"
    using r1(2) assms(6,7) less by (rule serve_message [where from_slice = from_slice])
  have "finish h (progressed st r2 (Suc ?k) ?m (es @ events)) = (Ok y, progressed st r3 (Suc ?k) ?m (es @ events))"
    using assms(8) [OF h(2), of r2 r3] h(3) by simp
  with h(1,2) assms(5) have "read_until env p a finish (progressed st r1 ?k ?m (es @ events)) = (Ok y, progressed st r3 (Suc ?k) ?m (es @ events))"
    by (subst read_until.simps) simp
  with r1(1) h(4) show thesis by (intro that) simp_all
qed

lemma serve_artifact:
  assumes "reader_data r = frame_bytes (Artifact, of_nat s, payload) @ rest" "Suc s < 2 ^ 64"
    and "length payload = unat (artifact_size (ad_artifact d))" "artifact_size (ad_artifact d) \<le> MAX_WORKER_DATA_PLANE_ARTIFACT_BYTES"
    and "hex_encode (env_sha256 (ev_request env) payload) = artifact_sha256 (ad_artifact d)"
    and "host_serves env host d receipt sp" "cs_spool_file st = \<lparr>written = [], capacity = None\<rparr>"
  obtains r' where "read_artifact_payload env host p a d (progressed st r s n es)
      = (Ok (), progressed (st\<lparr>cs_spool_file := \<lparr>written = payload, capacity = None\<rparr>\<rparr>) r' (Suc s) n es)" "reader_data r' = rest"
proof -
  let ?n = "artifact_size (ad_artifact d)" and ?sha = "env_sha256 (ev_request env)"
  let ?h = "\<lparr>kind = Artifact, sequence = of_nat s, payload_bytes = of_nat (length payload)\<rparr>"
  have host: "validate_new_link (h_payload_link host) = Ok ()" "h_spool_seek host" "h_spool_sync host"
    "map_option md_len (h_spool_metadata host) = Some ?n"
    using assms(6) by (simp_all add: host_serves_def)
  have len: "of_nat (length payload) = ?n" using assms(3) by simp
  have "frame_wf (Artifact, of_nat s, payload)"
    using assms(3,4) by (simp add: maximum_payload_bytes_def word_le_nat_alt)
  from serve_header [OF assms(1) this assms(2)] obtain r1 where h:
    "read_sequenced_header (progressed st r s n es) = (Ok ?h, progressed st r1 (Suc s) n es)" "reader_data r1 = payload @ rest"
    by blast
  have "unat ?n \<le> length (reader_data r1)" "take (unat ?n) (reader_data r1) = payload" "drop (unat ?n) (reader_data r1) = rest"
    using h(2) assms(3) by simp_all
  with copy_exact_hashed_complete [of ?n r1 "\<lparr>written = [], capacity = None\<rparr>" ?sha] obtain r2 where c:
    "copy_exact_hashed ?sha r1 \<lparr>written = [], capacity = None\<rparr> ?n
      = (Ok (hex_encode (?sha payload)), r2, \<lparr>written = payload, capacity = None\<rparr>)" "reader_data r2 = rest"
    by auto
  have "read_artifact_payload env host p a d (progressed st r s n es)
      = (Ok (), progressed (st\<lparr>cs_spool_file := \<lparr>written = payload, capacity = None\<rparr>\<rparr>) r2 (Suc s) n es)"
    using h(1) host c(1) assms(5,7) by (auto simp: read_artifact_payload_def pure_step_def len Let_def)
  with c(2) show thesis by (intro that)
qed

lemma serve_receipt:
  assumes "host_serves env host d receipt (cs_spool st)" "capacity (cs_writer st) = None"
  obtains st' where "send_receipt env host d (progressed st r s n es) = (Ok receipt, progressed st' r s n es)"
    "cs_spool_file st' = cs_spool_file st" "publication (cs_spool st') \<noteq> None" "armed (cs_spool st') = armed (cs_spool st)"
    "cs_guard_armed st' = False"
proof -
  let ?sha = "env_sha256 (ev_request env)" and ?n = "artifact_size (ad_artifact d)" and ?d = "artifact_sha256 (ad_artifact d)"
  let ?reg = "register_publication ?sha (ev_canonicalize env) (h_publication_identity host) (h_publication_check host)
    (rc_local_path receipt) ?n ?d (cs_spool st)"
  note h = assms(1) [unfolded host_serves_def]
  obtain sp where reg: "?reg = (Ok (), sp)" using h by (cases ?reg) auto
  have sp: "publication sp \<noteq> None" "armed sp = armed (cs_spool st)"
    using reg by (auto simp: register_publication_def Let_def split: if_splits sum.splits)
  obtain json where json: "ev_receipt_json env receipt = Some json" "length json \<le> unat (maximum_payload_bytes ArtifactReceipt)"
    using h by (cases "ev_receipt_json env receipt") auto
  note wr = write_frame_ok [OF assms(2) json(2), of 3]
  define st' where "st' = st\<lparr>cs_spool := sp, cs_guard_armed := False,
    cs_writer := (cs_writer st)\<lparr>written := written (cs_writer st) @ frame_bytes (ArtifactReceipt, 3, json)\<rparr>, cs_progress := ReceiptSent\<rparr>"
  have "send_receipt env host d (progressed st r s n es) = (Ok receipt, progressed st' r s n es)"
    using h reg json(1) wr
    by (simp add: send_receipt_def pure_step_def register_step_def begin_receipt_def receipt_sent_def write_json_frame_def st'_def)
  with sp show thesis by (intro that [of st']) (simp_all add: st'_def)
qed

lemma descriptor_size_bound:
  assumes "SnapshotArtifactDescriptor_validate env d = Ok ()"
  shows "artifact_size (ad_artifact d) \<le> MAX_WORKER_DATA_PLANE_ARTIFACT_BYTES"
proof -
  have "validate_artifact_record (ad_artifact d) = Ok ()"
    using assms unfolding SnapshotArtifactDescriptor_validate_def run_checks_Inr_iff by (simp add: is_ok_unit)
  then show ?thesis unfolding validate_artifact_record_def run_checks_Inr_iff by (simp add: not_less)
qed

lemma transcript_data:
  "frames (transcript_frames t) = frame_bytes (JobAccepted, of_nat 0, t_accepted t)
     @ frames (numbered 1 (map (Pair Event) (t_events t)))
     @ frame_bytes (ArtifactDescriptor, of_nat (1 + length (t_events t)), t_descriptor t)
     @ frame_bytes (Artifact, of_nat (length (t_events t) + 2), t_artifact t)
     @ frames (numbered (length (t_events t) + 3) (map (Pair Event) (t_late t)))
     @ frame_bytes (Complete, of_nat (length (t_events t) + 3 + length (t_late t)), t_complete t)"
  by (simp add: transcript_frames_def numbered_append eval_nat_numeral del: frame_bytes.simps)

lemma guarded_session_served:
  assumes worker: "worker_follows env p t a d c events late" and host: "host_serves env host d receipt (cs_spool st)"
    and data: "reader_data r = frames (transcript_frames t) @ rest"
    and st: "capacity (cs_writer st) = None" "cs_spool_file st = \<lparr>written = [], capacity = None\<rparr>"
  shows "\<exists>st'. guarded_session env host p (progressed st r 0 0 [])
      = (Ok \<lparr>out_accepted = a, out_artifact = d, out_receipt = receipt, out_complete = c\<rparr>, st')
    \<and> cs_events st' = events @ late \<and> cs_spool_file st' = \<lparr>written = t_artifact t, capacity = None\<rparr>
    \<and> publication (cs_spool st') \<noteq> None \<and> armed (cs_spool st') = armed (cs_spool st) \<and> cs_guard_armed st' = False"
proof -
  let ?n = "length (t_events t)" and ?m = "length (t_late t)"
  have bound: "?n + ?m + 5 < 2 ^ 64" and ev: "event_payloads env p a 0 (t_events t) events" "events \<noteq> []"
    and late: "event_payloads env p a ?n (t_late t) late"
    using worker by (simp_all add: worker_follows_def event_payloads_def)
  have a: "ev_accepted env (t_accepted t) = Some a" "control_payload env JobAccepted (t_accepted t)"
    "SnapshotJobAccepted_validate a = Ok ()" "ja_operation_id a = pr_operation_id p" "ja_protocol_version a = pr_protocol_version p"
    using worker by (simp_all add: worker_follows_def)
  have d: "ev_artifact env (t_descriptor t) = Some d" "control_payload env ArtifactDescriptor (t_descriptor t)"
    "SnapshotArtifactDescriptor_validate (ev_request env) d = Ok ()" "ad_operation_id d = pr_operation_id p"
    "ad_job_id d = ja_job_id a" "ad_protocol_version d = pr_protocol_version p"
    "ce_request_sha256 (ad_compile d) = pr_request_sha256 p" "ce_source_sha256 (ad_compile d) = pr_source_sha256 p"
    "ce_provider (ad_compile d) = SSH_PROVIDER_ID" "length (t_artifact t) = unat (artifact_size (ad_artifact d))"
    "hex_encode (env_sha256 (ev_request env) (t_artifact t)) = artifact_sha256 (ad_artifact d)"
    using worker by (simp_all add: worker_follows_def)
  have c: "ev_complete env (t_complete t) = Some c" "control_payload env Complete (t_complete t)"
    "SnapshotBuildComplete_validate c = Ok ()" "bc_operation_id c = pr_operation_id p" "bc_job_id c = ja_job_id a"
    "bc_protocol_version c = pr_protocol_version p"
    using worker by (simp_all add: worker_follows_def)
  obtain r1 where 1: "read_job_accepted env p (progressed st r 0 0 []) = (Ok a, progressed st r1 1 0 [])"
    "reader_data r1 = frames (numbered 1 (map (Pair Event) (t_events t)))
       @ frame_bytes (ArtifactDescriptor, of_nat (1 + ?n), t_descriptor t)
       @ frame_bytes (Artifact, of_nat (?n + 2), t_artifact t) @ frames (numbered (?n + 3) (map (Pair Event) (t_late t)))
       @ frame_bytes (Complete, of_nat (?n + 3 + ?m), t_complete t) @ rest"
    using data [unfolded transcript_data append_assoc] a by (rule serve_accepted)
  obtain r2 where 2: "read_until_artifact_descriptor env p a (progressed st r1 1 0 []) = (Ok d, progressed st r2 (?n + 2) ?n events)"
    "reader_data r2 = frame_bytes (Artifact, of_nat (?n + 2), t_artifact t) @ frames (numbered (?n + 3) (map (Pair Event) (t_late t)))
       @ frame_bytes (Complete, of_nat (?n + 3 + ?m), t_complete t) @ rest"
    by (rule serve_until [where finish = "finish_artifact_descriptor env p a" and y = d and st = st and es = "[]"
          and from_slice = "ev_artifact env" and x = d and k = ArtifactDescriptor and env = env and p = p and a = a
          and s = 1 and n = 0 and r = r1, OF ev(1) _ _ 1(2) _ d(2,1)])
      (use bound d in \<open>simp_all add: read_until_artifact_descriptor_def finish_artifact_descriptor_def\<close>)
  obtain r3 where 3: "read_artifact_payload env host p a d (progressed st r2 (?n + 2) ?n events)
      = (Ok (), progressed (st\<lparr>cs_spool_file := \<lparr>written = t_artifact t, capacity = None\<rparr>\<rparr>) r3 (Suc (?n + 2)) ?n events)"
    "reader_data r3 = frames (numbered (?n + 3) (map (Pair Event) (t_late t)))
       @ frame_bytes (Complete, of_nat (?n + 3 + ?m), t_complete t) @ rest"
    using 2(2) _ d(10) descriptor_size_bound [OF d(3)] d(11) host st(2) by (rule serve_artifact) (use bound in simp)
  let ?st3 = "st\<lparr>cs_spool_file := \<lparr>written = t_artifact t, capacity = None\<rparr>\<rparr>"
  obtain st4 where 4: "send_receipt env host d (progressed ?st3 r3 (Suc (?n + 2)) ?n events)
      = (Ok receipt, progressed st4 r3 (Suc (?n + 2)) ?n events)"
    "cs_spool_file st4 = cs_spool_file ?st3" "publication (cs_spool st4) \<noteq> None" "armed (cs_spool st4) = armed (cs_spool ?st3)"
    "cs_guard_armed st4 = False"
    by (rule serve_receipt [of env host d receipt ?st3]) (use host st in simp_all)
  obtain r5 where 5: "read_until_complete env p a (progressed st4 r3 (?n + 3) ?n events)
      = (Ok c, progressed st4 r5 (?n + 3 + ?m + 1) (?n + ?m) (events @ late))"
    by (rule serve_until [where finish = "finish_complete env p a" and y = c and st = st4 and es = events
          and from_slice = "ev_complete env" and x = c and k = Complete and env = env and p = p and a = a
          and s = "?n + 3" and n = ?n and r = r3, OF late _ _ 3(2) _ c(2,1)])
      (use bound c in \<open>simp_all add: read_until_complete_def finish_complete_def\<close>)
  have "(of_nat ?n :: u64) \<noteq> 0"
  proof -
    have "?n = length events" using ev(1) by (simp add: event_payloads_def)
    with ev(2) bound have "0 < ?n" "?n < 2 ^ 64" by (simp_all)
    then have "unat (of_nat ?n :: u64) = ?n" by (simp add: unat_of_nat)
    with \<open>0 < ?n\<close> show ?thesis by (metis less_irrefl unat_0)
  qed
  then have "guarded_session env host p (progressed st r 0 0 [])
      = (Ok \<lparr>out_accepted = a, out_artifact = d, out_receipt = receipt, out_complete = c\<rparr>,
         progressed st4 r5 (?n + 3 + ?m + 1) (?n + ?m) (events @ late))"
    using 1(1) 2(1) 3(1) 4(1) 5 by (simp add: guarded_session_def eval_nat_numeral)
  with 4 show ?thesis by (auto simp: progressed_def)
qed

lemma run_uncommitted_served:
  assumes "prepare_request env host start limits = Ok p" "validate_new_link (h_new_link host) = Ok ()"
    and "fst (write_request_frames env host p (session_start r sp)) = Ok ()" "h_request_flush host"
    and "worker_follows env p t a d c events late" "host_serves env host d receipt sp"
    and "reader_data r = frames (transcript_frames t) @ rest"
  obtains st where "run_snapshot_session_uncommitted env host start limits (session_start r sp)
      = (Ok \<lparr>out_accepted = a, out_artifact = d, out_receipt = receipt, out_complete = c\<rparr>, st)"
    "cs_events st = events @ late" "cs_spool_file st = \<lparr>written = t_artifact t, capacity = None\<rparr>"
    "publication (cs_spool st) \<noteq> None" "armed (cs_spool st) = armed sp"
proof -
  obtain st0 where up: "write_request_frames env host p (session_start r sp) = (Ok (), st0)"
    using assms(3) by (cases "write_request_frames env host p (session_start r sp)") auto
  have "capacity (cs_writer (session_start r sp)) = None" by (simp add: session_start_def)
  with up obtain fs where st0: "st0 = session_start r sp\<lparr>cs_writer := (cs_writer (session_start r sp))\<lparr>written :=
      written (cs_writer (session_start r sp)) @ frames fs\<rparr>\<rparr>"
    by (rule write_request_frames_Ok)
  let ?st = "st0\<lparr>cs_progress := Cancelable, cs_guard_armed := True\<rparr>"
  have start: "progressed ?st r 0 0 [] = ?st"
    by (simp add: progressed_def st0 session_start_def WorkerDataPlaneSequence_new_def)
  have "cs_spool ?st = sp" "capacity (cs_writer ?st) = None" "cs_spool_file ?st = \<lparr>written = [], capacity = None\<rparr>"
    by (simp_all add: st0 session_start_def)
  with guarded_session_served [OF assms(5) _ assms(7), of host receipt ?st] assms(6) start obtain st' where g:
    "guarded_session env host p ?st = (Ok \<lparr>out_accepted = a, out_artifact = d, out_receipt = receipt, out_complete = c\<rparr>, st')"
    "cs_events st' = events @ late" "cs_spool_file st' = \<lparr>written = t_artifact t, capacity = None\<rparr>"
    "publication (cs_spool st') \<noteq> None" "armed (cs_spool st') = armed sp" "cs_guard_armed st' = False"
    by auto
  have "run_snapshot_session_uncommitted env host start limits (session_start r sp)
      = (Ok \<lparr>out_accepted = a, out_artifact = d, out_receipt = receipt, out_complete = c\<rparr>, st')"
    using assms(1,2,4) up g(1,6)
    by (simp add: run_snapshot_session_uncommitted_def pure_step_def drop_cancel_guard_disarmed)
  then show thesis using g by (intro that)
qed

text \<open>
  C20 [session_served]: a worker that follows the protocol is served. When the upload went through, the local
  files answer as they should and the verifier accepts, the frames of a well-behaved worker, delivered in
  whatever pieces and followed by anything, end the session with success: its outcome is made of the messages
  the worker sent, every event was handed on in order, the spool holds the artifact's bytes, and the artifact
  may be committed.
\<close>

theorem protocol_session_succeeds:
  assumes "prepare_request env host start limits = Ok p" "validate_new_link (h_new_link host) = Ok ()"
    and "fst (write_request_frames env host p (session_start r sp)) = Ok ()" "h_request_flush host"
    and "worker_follows env p t a d c events late" "host_serves env host d receipt sp" "armed sp"
    and "reader_data r = frames (transcript_frames t) @ rest"
  shows "\<exists>st. run_snapshot_session env host start limits (session_start r sp)
      = (Ok \<lparr>out_accepted = a, out_artifact = d, out_receipt = receipt, out_complete = c\<rparr>, st)
    \<and> cs_events st = events @ late \<and> written (cs_spool_file st) = t_artifact t \<and> commit_authorized (cs_spool st)"
proof -
  obtain st where st: "run_snapshot_session_uncommitted env host start limits (session_start r sp)
      = (Ok \<lparr>out_accepted = a, out_artifact = d, out_receipt = receipt, out_complete = c\<rparr>, st)"
    "cs_events st = events @ late" "cs_spool_file st = \<lparr>written = t_artifact t, capacity = None\<rparr>"
    "publication (cs_spool st) \<noteq> None" "armed (cs_spool st) = armed sp"
    using assms(1-6,8) by (rule run_uncommitted_served)
  then have "authorize_commit (cs_spool st) = (Ok (), (cs_spool st)\<lparr>commit_authorized := True\<rparr>)"
    using assms(7) by (auto simp: authorize_commit_def)
  with st show ?thesis by (simp add: run_snapshot_session_def run_snapshot_session_deferred_def)
qed

section \<open>A session\<close>

abbreviation zero_hex :: string where "zero_hex \<equiv> replicate 64 (CHR ''0'')"

lemma zero_hex_valid: "session_validate_sha256 zero_hex event = Ok ()"
  by (simp add: session_validate_sha256_def list_all_iff is_lower_hex_def is_ascii_digit_def)

definition snapshot_request :: IosDeviceBuildRequest where
  "snapshot_request = (example_request ''op-1'')\<lparr>source_mode := Snapshot, source_repository := None, source_revision := None,
     requested_artifacts := {Xcarchive}\<rparr>"

lemma snapshot_request_valid: "IosDeviceBuildRequest_validate example_env snapshot_request = Ok ()"
proof -
  have "validate_requested_artifact_selection UnsignedCompileOnly {Xcarchive} = Ok ()"
    by (simp add: validate_requested_artifact_selection_def is_signed_def)
  moreover have "validate_source_fields url snapshot_request = Ok ()" for url
    by (simp add: validate_source_fields_def snapshot_request_def)
  moreover have "plan_mode (signing (example_request ''op-1'')) = UnsignedCompileOnly"
    by (simp add: example_request_def example_unsigned_plan_def)
  ultimately show ?thesis
    using example_request_valid [OF example_operations(1)]
    unfolding IosDeviceBuildRequest_validate_def run_checks_Inr_iff
    by (simp add: snapshot_request_def)
qed

definition snapshot_start :: SnapshotBuildStart where
  "snapshot_start =
     \<lparr>start_schema_version = 1, start_parameters = compact snapshot_request, start_source_descriptor_size = 2,
      start_source_descriptor_sha256 = zero_hex,
      start_source_archive = \<lparr>archive_size = 10, archive_sha256 = zero_hex\<rparr>\<rparr>"

lemma snapshot_unsigned: "require_unsigned_xcarchive (signing snapshot_request) (requested_artifacts snapshot_request) = Ok ()"
  by (simp add: require_unsigned_xcarchive_def snapshot_request_def example_request_def example_unsigned_plan_def)

lemma snapshot_start_valid: "SnapshotBuildStart_validate snapshot_start = Ok ()"
  using compact_shape [OF snapshot_request_valid snapshot_unsigned]
  by (simp add: SnapshotBuildStart_validate_def snapshot_start_def require_schema_def SNAPSHOT_SESSION_SCHEMA_VERSION_def
      zero_hex_valid validate_transfer_archive_def reject_if_def MAX_SNAPSHOT_SESSION_DESCRIPTOR_BYTES_def
      MAX_WORKER_DATA_PLANE_SOURCE_BYTES_def)

lemma snapshot_reconstructed:
  "start_reconstruct_request example_env snapshot_start example_bundle git_snapshot_archive_limits = Ok snapshot_request"
proof -
  have "SnapshotBuildParameters_from_request example_env snapshot_request = Ok (compact snapshot_request)"
    using snapshot_request_valid snapshot_unsigned by (simp add: from_request_Ok) (simp add: snapshot_request_def)
  moreover have "source snapshot_request = bundle_manifest example_bundle"
    by (simp add: snapshot_request_def example_request_def example_bundle_def SourceBundleDescriptor_new_def)
  moreover have "env_unicode example_env = ascii_unicode" "env_sha256 example_env = zero_digest" by (simp_all add: example_env_def)
  ultimately have "reconstruct_request example_env (compact snapshot_request) example_bundle git_snapshot_archive_limits = Ok snapshot_request"
    using example_bundle_valid by (simp add: reconstruct_request_Ok)
  moreover have "bundle_archive example_bundle = start_source_archive snapshot_start"
    by (simp add: example_bundle_def SourceBundleDescriptor_new_def snapshot_start_def)
  ultimately show ?thesis
    using snapshot_start_valid example_bundle_valid
    by (simp add: start_reconstruct_request_def snapshot_start_def example_env_def)
qed

definition ssh_event :: RemoteBuildEvent where
  "ssh_event = example_event\<lparr>event_provider := SSH_PROVIDER_ID\<rparr>"

definition ssh_event_env :: event_env where
  "ssh_event_env = example_event_env\<lparr>from_text := (\<lambda>_. Ok ssh_event)\<rparr>"

lemma session_identifiers:
  "validate_identifier f ''op-1'' = Ok ()" "validate_identifier f ''job-1'' = Ok ()" "validate_identifier f ''build'' = Ok ()"
  "validate_identifier f ''ssh-macos'' = Ok ()" "validate_identifier f ''archive'' = Ok ()"
  unfolding validate_identifier_Ok by code_simp+

lemma current_negotiated: "negotiate CURRENT_PROTOCOL_VERSION CURRENT_PROTOCOL_VERSION = Ok CURRENT_PROTOCOL_VERSION"
  by (simp add: negotiate_Ok is_compatible_with_def)

lemma ssh_event_valid: "RemoteBuildEvent_validate ssh_event_env ssh_event = Ok ()"
  using session_identifiers current_negotiated
  by (simp add: RemoteBuildEvent_validate_def ssh_event_def ssh_event_env_def example_event_def example_event_env_def
      SSH_PROVIDER_ID_def validate_event_payload_def reject_if_def event_texts_def kind_texts_def)

definition example_evidence :: CompilePhaseEvidence where
  "example_evidence =
     \<lparr>ce_schema_version = 1, ce_job_id = ''job-1'', ce_provider = SSH_PROVIDER_ID, ce_request_sha256 = zero_hex,
      ce_source_sha256 = zero_hex, ce_cargo_lock_sha256 = zero_hex, ce_config_sha256 = zero_hex,
      ce_rustferry_version = ''1.2'', ce_worker_version = ''1.2'',
      ce_toolchain = \<lparr>ct_worker_os = ''ferry'', ct_worker_architecture = ''ferry'', ct_xcode_version = ''16.0'',
        ct_iphoneos_sdk_version = ''16.0'', ct_iphoneos_sdk_build_version = ''7'', ct_developer_directory_sha256 = zero_hex,
        ct_rust_version = ''1.2'', ct_rust_target = ''aarch64-apple-ios''\<rparr>,
      ce_sealed_archive = \<lparr>sealed_schema_version = 1, sealed_transport = \<lparr>archive_size = 3, archive_sha256 = zero_hex\<rparr>,
        sealed_contents = build_manifest zero_digest ''.'' example_entries,
        sealed_expectation = \<lparr>xe_app_directory_name = ''Ferry.app'', xe_bundle_identifier = ''com.example.app'',
          xe_executable = ''ferry'', xe_app_version = ''1.2'', xe_build_number = ''7'', xe_minimum_os = ''16.0'',
          xe_sdk_version = ''16.0'', xe_sdk_build_version = ''7'', xe_nested_bundles = [], xe_required_resources = []\<rparr>\<rparr>,
      ce_archive_inspection = \<lparr>xi_application_path = ''Applications/Ferry.app'', xi_architectures = [''arm64''],
        xi_app = \<lparr>ai_app_directory_name = ''Ferry.app'', ai_bundle_identifier = ''com.example.app'', ai_executable = ''ferry'',
          ai_main_executable = [\<lparr>slice_architecture = ''arm64'', slice_platform = PlatformIos, slice_minimum_os = Some ''16.0'',
            slice_sdk = Some ''16.0''\<rparr>], ai_nested_executables = [], ai_extensions = [], ai_resources = [], ai_entries = []\<rparr>,
        xi_entries = []\<rparr>,
      ce_started_at_unix_seconds = 1, ce_finished_at_unix_seconds = 2\<rparr>"

definition example_artifact :: SnapshotArtifactDescriptor where
  "example_artifact =
     \<lparr>ad_schema_version = 1, ad_protocol_version = CURRENT_PROTOCOL_VERSION, ad_operation_id = ''op-1'', ad_job_id = ''job-1'',
      ad_artifact = \<lparr>artifact_id = ''archive'', artifact_kind_of = KindXcarchive, artifact_file_name = ''Ferry.zip'',
        artifact_size = 3, artifact_sha256 = zero_hex, artifact_media_type = None\<rparr>,
      ad_compile = example_evidence\<rparr>"

lemma example_evidence_valid: "validate_compile_evidence example_env example_evidence = Ok ()"
proof -
  have texts: "validate_public_text v n event = Ok ()"
    if "v \<in> {''1.2'', ''7'', ''16.0'', ''ferry''}" "5 \<le> n" for v n event
    using that example_safe_texts by (auto simp: validate_public_text_def)
  have "validate_source_manifest ascii_unicode zero_digest (build_manifest zero_digest ''.'' example_entries)
      sealed_archive_source_limits = Ok ()"
    by (rule example_manifest_within)
      (simp_all add: sealed_archive_source_limits_def MAX_WORKER_DATA_PLANE_ARTIFACT_BYTES_def)
  moreover have "project_path (build_manifest zero_digest ''.'' example_entries) = ''.''" by (simp add: build_manifest_def Let_def)
  ultimately show ?thesis
    using texts session_identifiers zero_hex_valid
    unfolding validate_compile_evidence_def run_checks_Inr_iff Let_def
    by (simp add: example_evidence_def SSH_PROVIDER_ID_def example_env_def COMPILE_PHASE_EVIDENCE_SCHEMA_VERSION_def
        SEALED_UNSIGNED_ARCHIVE_SCHEMA_VERSION_def IOS_DEVICE_RUST_TARGET_def validate_transfer_archive_def
        MAX_WORKER_DATA_PLANE_ARTIFACT_BYTES_def MAX_PUBLIC_VERSION_BYTES_def MAX_PUBLIC_TOOLCHAIN_TEXT_BYTES_def)
qed

lemma example_artifact_valid: "SnapshotArtifactDescriptor_validate example_env example_artifact = Ok ()"
proof -
  have "\<not> has_control ''Ferry.zip''" by (rule no_control_ascii) simp
  moreover have "suffix ''.zip'' (to_ascii_lowercase ''Ferry.zip'')" by code_simp
  ultimately have "validate_artifact_record (ad_artifact example_artifact) = Ok ()"
    using session_identifiers zero_hex_valid
    unfolding validate_artifact_record_def run_checks_Inr_iff
    by (simp add: example_artifact_def validate_portable_component_with_limit_def MAX_ARTIFACT_FILE_NAME_BYTES_def
        MAX_WORKER_DATA_PLANE_ARTIFACT_BYTES_def)
  then show ?thesis
    using session_identifiers current_negotiated example_evidence_valid
    unfolding SnapshotArtifactDescriptor_validate_def run_checks_Inr_iff
    by (simp add: example_artifact_def require_schema_def SNAPSHOT_SESSION_SCHEMA_VERSION_def)
      (simp add: example_evidence_def)
qed

definition example_accepted :: SnapshotJobAccepted where
  "example_accepted =
     \<lparr>ja_schema_version = 1, ja_protocol_version = CURRENT_PROTOCOL_VERSION, ja_operation_id = ''op-1'', ja_job_id = ''job-1'',
      ja_state = Created, ja_created_at_ms = 7\<rparr>"

definition example_complete :: SnapshotBuildComplete where
  "example_complete =
     \<lparr>bc_schema_version = 1, bc_protocol_version = CURRENT_PROTOCOL_VERSION, bc_operation_id = ''op-1'', bc_job_id = ''job-1'',
      bc_cleanup = \<lparr>cleanup_job_id = ''job-1'', completed_at_ms = 9, workspace_removed = True, signing_material_removed = True,
        artifacts_retained = False\<rparr>\<rparr>"

definition example_path :: ProtocolPath where
  "example_path = \<lparr>path_semantics = ClientAbsolute, path_value = ''/tmp/out.zip''\<rparr>"

definition example_receipt :: SnapshotArtifactReceipt where
  "example_receipt =
     \<lparr>rc_schema_version = 1, rc_protocol_version = CURRENT_PROTOCOL_VERSION, rc_operation_id = ''op-1'', rc_job_id = ''job-1'',
      rc_artifact_id = ''archive'', rc_size = 3, rc_sha256 = zero_hex, rc_local_path = example_path\<rparr>"

definition example_session_env :: session_env where
  "example_session_env =
     \<lparr>ev_request = example_env, ev_event = ssh_event_env, ev_usize_max = 65535,
      ev_descriptor = (\<lambda>r. (Some example_bundle, reader_data r)),
      ev_start_json = (\<lambda>_. Some ''{}''), ev_receipt_json = (\<lambda>_. Some ''{}''),
      ev_accepted = (\<lambda>_. Some example_accepted), ev_artifact = (\<lambda>_. Some example_artifact),
      ev_complete = (\<lambda>_. Some example_complete), ev_error = (\<lambda>_. None), ev_canonicalize = (\<lambda>_. None),
      ev_verify = (\<lambda>_ _. Some example_path)\<rparr>"

definition example_pass :: "bytes \<Rightarrow> file_pass" where
  "example_pass bs =
     \<lparr>pass_before = Some (example_metadata (length bs)), pass_seek = True, pass_reader = [Chunk bs],
      pass_after = Some (example_metadata (length bs)), pass_rewind = True\<rparr>"

definition example_stream :: "bytes \<Rightarrow> file_stream" where
  "example_stream bs = \<lparr>stream_check = example_pass bs, stream_pass = example_pass bs\<rparr>"

definition example_host :: session_host where
  "example_host =
     \<lparr>h_descriptor_check = example_pass ''{}'', h_archive_check = example_pass ''0123456789'',
      h_descriptor_parse = example_pass ''{}'', h_descriptor_rewind = True, h_archive_rewind = True, h_new_link = example_link,
      h_descriptor_stream = example_stream ''{}'', h_archive_stream = example_stream ''0123456789'', h_request_flush = True,
      h_payload_link = example_link, h_spool_seek = True, h_spool_sync = True, h_spool_metadata = Some (example_metadata 3),
      h_verify_seek = True, h_verified_check = example_pass ''abc'', h_publication_identity = example_published ''abc'',
      h_publication_check = example_published ''abc'', h_receipt_flush = True, h_cancel_flush = True,
      h_cleanup_published = example_removal, h_cleanup_staging = example_removal\<rparr>"

definition example_prepared :: PreparedRequest where
  "example_prepared =
     \<lparr>pr_start = snapshot_start, pr_operation_id = ''op-1'', pr_protocol_version = CURRENT_PROTOCOL_VERSION,
      pr_request_sha256 = zero_hex, pr_source_sha256 = zero_hex\<rparr>"

lemma example_pass_valid:
  assumes "bs \<noteq> []" "length bs < 2 ^ 64"
  shows "validate_open_file_bytes zero_digest (example_pass bs) (of_nat (length bs)) zero_hex mismatch = Ok ()"
  using validate_open_file_bytes_accepts [of "example_pass bs" "example_metadata (length bs)" "of_nat (length bs)" zero_digest mismatch]
    assms by (simp add: example_pass_def example_metadata_def unat_of_nat zero_template)

lemma example_prepared_ok:
  "prepare_request example_session_env example_host snapshot_start git_snapshot_archive_limits = Ok example_prepared"
proof -
  have digest: "canonical_request_sha256 example_env snapshot_request = Ok zero_hex"
    using snapshot_request_valid
    by (simp add: canonical_request_sha256_def canonical_request_bytes_def request_to_vec_def zero_template)
      (simp add: example_env_def zero_template)
  have "parse_validated_descriptor zero_digest (\<lambda>r. (Some example_bundle, reader_data r)) (example_pass ''{}'') 2 zero_hex = Ok example_bundle"
    by (simp add: parse_validated_descriptor_def example_pass_def HashingReader_finish_def lowercase_hex_is_hex_encode zero_template)
  moreover have "manifest_sha256 (source snapshot_request) = zero_hex"
    by (simp add: snapshot_request_def example_request_def build_manifest_def Let_def manifest_digest_def hex_digest_def
        lowercase_hex_def [symmetric] lowercase_hex_is_hex_encode zero_template)
  moreover have "request_operation_id snapshot_request = ''op-1''" "request_protocol_version snapshot_request = CURRENT_PROTOCOL_VERSION"
    by (simp_all add: snapshot_request_def example_request_def)
  moreover have "env_sha256 example_env = zero_digest" by (simp add: example_env_def)
  ultimately show ?thesis
    using snapshot_start_valid snapshot_reconstructed digest current_negotiated example_pass_valid [of "''{}''"]
      example_pass_valid [of "''0123456789''"]
    by (simp add: prepare_request_def example_session_env_def example_host_def example_prepared_def) (simp add: snapshot_start_def)
qed

lemma example_copy:
  "copy_exact_hashed zero_digest [Chunk ''{}''] w 2 = (Ok zero_hex, [], w\<lparr>written := written w @ ''{}''\<rparr>)"
  "copy_exact_hashed zero_digest [Chunk ''0123456789''] w 10 = (Ok zero_hex, [], w\<lparr>written := written w @ ''0123456789''\<rparr>)"
  if "capacity w = None"
  using that by (simp_all add: copy_exact_hashed_def copy_hash_loop.simps lowercase_hex_is_hex_encode zero_template Let_def)

lemma example_stream_fields:
  "stream_check (example_stream bs) = example_pass bs" "stream_pass (example_stream bs) = example_pass bs"
  "pass_before (example_pass bs) = Some (example_metadata (length bs))" "pass_seek (example_pass bs)"
  "pass_reader (example_pass bs) = [Chunk bs]" "pass_after (example_pass bs) = Some (example_metadata (length bs))"
  "pass_rewind (example_pass bs)"
  by (simp_all add: example_stream_def example_pass_def)

lemma example_stream_ok:
  assumes "validate_open_file_bytes zero_digest (example_pass bs) n zero_hex e = Ok ()" "n \<le> maximum_payload_bytes k"
    and "\<And>w. capacity w = None \<Longrightarrow>
      copy_exact_hashed zero_digest [Chunk bs] w n = (Ok zero_hex, [], w\<lparr>written := written w @ bs\<rparr>)"
    and "capacity w = None" "n = of_nat (length bs)"
  shows "stream_validated_file zero_digest w k sq (example_stream bs) n zero_hex e
    = (Ok (), w\<lparr>written := written w @ frame_bytes (k, sq, bs)\<rparr>)"
proof -
  let ?h = "\<lparr>kind = k, sequence = sq, payload_bytes = n\<rparr>"
  have "WorkerDataPlaneFrameHeader_new k sq n = Ok ?h"
    using assms(2) by (simp add: header_new_ok header_wf_def)
  then show ?thesis
    using assms(1,4,5) assms(3) [of "w\<lparr>written := written w @ encode_header ?h\<rparr>"]
    by (simp add: stream_validated_file_def example_stream_fields write_worker_data_plane_header_def)
qed

abbreviation example_upload :: "frame list" where
  "example_upload \<equiv> [(BuildRequest, 0, ''{}''), (SourceDescriptor, 1, ''{}''), (SourceArchive, 2, ''0123456789'')]"

lemma example_upload_frames:
  "write_request_frames example_session_env example_host example_prepared (session_start r sp)
   = (Ok (), (session_start r sp)\<lparr>cs_writer := \<lparr>written = frames example_upload, capacity = None\<rparr>\<rparr>)"
proof -
  let ?w0 = "\<lparr>written = [], capacity = None\<rparr>"
  let ?w1 = "\<lparr>written = frame_bytes (BuildRequest, 0, ''{}''), capacity = None\<rparr>"
  let ?w2 = "?w1\<lparr>written := written ?w1 @ frame_bytes (SourceDescriptor, 1, ''{}'')\<rparr>"
  have w1: "write_worker_data_plane_frame ?w0 BuildRequest 0 ''{}'' = (Ok (), ?w1)"
    using write_frame_ok [of ?w0 "''{}''" BuildRequest 0]
    by (simp add: maximum_payload_bytes_def MAX_WORKER_DATA_PLANE_REQUEST_BYTES_def)
  have "(2 :: u64) \<le> maximum_payload_bytes SourceDescriptor" "(10 :: u64) \<le> maximum_payload_bytes SourceArchive"
    by (simp_all add: maximum_payload_bytes_def MAX_SOURCE_BUNDLE_DESCRIPTOR_BYTES_def MAX_WORKER_DATA_PLANE_SOURCE_BYTES_def)
  note bounds = this
  have w2: "stream_validated_file zero_digest ?w1 SourceDescriptor 1 (example_stream ''{}'') 2 zero_hex SourceDescriptorMismatch = (Ok (), ?w2)"
    using example_pass_valid [of "''{}''"] by (intro example_stream_ok [OF _ bounds(1) example_copy(1)]) simp_all
  have w3: "stream_validated_file zero_digest ?w2 SourceArchive 2 (example_stream ''0123456789'') 10 zero_hex SourceArchiveMismatch
      = (Ok (), ?w2\<lparr>written := written ?w2 @ frame_bytes (SourceArchive, 2, ''0123456789'')\<rparr>)"
    using example_pass_valid [of "''0123456789''"] by (intro example_stream_ok [OF _ bounds(2) example_copy(2)]) simp_all
  have "env_sha256 example_env = zero_digest" by (simp add: example_env_def)
  with w1 w2 w3 show ?thesis
    by (simp add: write_request_frames_def write_json_frame_def stream_step_def example_session_env_def example_host_def
        example_prepared_def session_start_def snapshot_start_def del: frame_bytes.simps)
qed

lemma example_upload_ok:
  "fst (write_request_frames example_session_env example_host example_prepared (session_start r sp)) = Ok ()"
  by (simp add: example_upload_frames)

definition example_transcript :: worker_transcript where
  "example_transcript =
     \<lparr>t_accepted = ''{}'', t_events = [''{}''], t_descriptor = ''{}'', t_artifact = ''abc'', t_late = [], t_complete = ''{}''\<rparr>"

lemma example_worker_follows:
  "worker_follows example_session_env example_prepared example_transcript example_accepted example_artifact example_complete [ssh_event] []"
proof -
  have "utf8_valid ''{}''" by (rule utf8_valid_ascii) (simp add: is_ascii_def)
  then have "decode_line_bytes ssh_event_env ''{}'' = Ok ssh_event"
    using ssh_event_valid by (simp add: decode_line_bytes_def decode_line_def ssh_event_env_def MAX_EVENT_LINE_BYTES_def)
  then have "event_payloads example_session_env example_prepared example_accepted 0 [''{}''] [ssh_event]"
    using ssh_event_valid
    by (simp add: event_payloads_def own_event_def example_session_env_def MAX_EVENT_LINE_BYTES_def)
      (simp add: ssh_event_def example_event_def example_prepared_def example_accepted_def)
  moreover have "SnapshotJobAccepted_validate example_accepted = Ok ()" "SnapshotBuildComplete_validate example_complete = Ok ()"
    using session_identifiers current_negotiated
    by (simp_all add: SnapshotJobAccepted_validate_def SnapshotBuildComplete_validate_def example_accepted_def example_complete_def
        require_schema_def SNAPSHOT_SESSION_SCHEMA_VERSION_def reject_if_def)
  moreover have "control_payload example_session_env k ''{}''" if "k \<in> {JobAccepted, ArtifactDescriptor, Complete}" for k
    using that by (auto simp: control_payload_def example_session_env_def maximum_payload_bytes_def
        MAX_WORKER_DATA_PLANE_CONTROL_BYTES_def MAX_WORKER_DATA_PLANE_RESULT_BYTES_def MAX_SOURCE_BUNDLE_DESCRIPTOR_BYTES_def)
  moreover have "event_payloads example_session_env example_prepared example_accepted (Suc 0) [] []" by (simp add: event_payloads_def)
  moreover have "hex_encode (env_sha256 example_env ''abc'') = zero_hex" by (simp add: example_env_def zero_template)
  ultimately show ?thesis
    using example_artifact_valid
    by (simp add: worker_follows_def example_transcript_def)
      (simp add: example_session_env_def example_accepted_def example_prepared_def example_artifact_def example_complete_def
        example_evidence_def)
qed

lemma example_receipt_new: "SnapshotArtifactReceipt_new example_env example_artifact example_path = Ok example_receipt"
proof -
  have "\<not> has_control ''/tmp/out.zip''" by (rule no_control_ascii) simp
  moreover have "is_absolute_path_text ''/tmp/out.zip''" by code_simp
  ultimately have "ProtocolPath_validate url example_path = Ok ()" for url
    by (simp add: ProtocolPath_validate_def validate_safe_text_def example_path_def reject_if_def)
  then have "receipt_validate_for example_env example_receipt example_artifact = Ok ()"
    using session_identifiers current_negotiated example_artifact_valid zero_hex_valid
    unfolding receipt_validate_for_def run_checks_Inr_iff
    by (simp add: example_receipt_def require_schema_def SNAPSHOT_SESSION_SCHEMA_VERSION_def)
      (simp add: example_artifact_def example_path_def)
  then show ?thesis
    using example_artifact_valid
    by (simp add: SnapshotArtifactReceipt_new_def example_receipt_def SNAPSHOT_SESSION_SCHEMA_VERSION_def Let_def example_artifact_def)
qed

lemma example_host_serves: "host_serves example_session_env example_host example_artifact example_receipt example_spool"
proof -
  have "frame_wf (ArtifactReceipt, 3, ''{}'')"
    by (simp add: maximum_payload_bytes_def MAX_WORKER_DATA_PLANE_CONTROL_BYTES_def)
  moreover have "fst (register_publication zero_digest (\<lambda>_. None) (example_published ''abc'') (example_published ''abc'')
      example_path 3 zero_hex example_spool) = Ok ()"
    using example_register [of zero_digest] by (simp add: example_path_def zero_template)
  moreover have "rc_local_path example_receipt = example_path" "artifact_size (ad_artifact example_artifact) = 3"
    "artifact_sha256 (ad_artifact example_artifact) = zero_hex" "md_len (example_metadata 3) = 3" "env_sha256 example_env = zero_digest"
    by (simp_all add: example_receipt_def example_artifact_def example_metadata_def example_env_def)
  ultimately show ?thesis
    using example_receipt_new example_link_valid example_pass_valid [of "''abc''"]
    by (simp add: host_serves_def example_session_env_def example_host_def)
qed

definition example_outcome :: SnapshotSessionOutcome where
  "example_outcome =
     \<lparr>out_accepted = example_accepted, out_artifact = example_artifact, out_receipt = example_receipt, out_complete = example_complete\<rparr>"

abbreviation example_connection :: reader where
  "example_connection \<equiv> [Chunk (frames (transcript_frames example_transcript))]"

lemma example_connection_data: "reader_data example_connection = frames (transcript_frames example_transcript) @ []"
  by simp

lemma example_host_links: "validate_new_link (h_new_link example_host) = Ok ()" "h_request_flush example_host" "armed example_spool"
  using example_link_valid by (simp_all add: example_host_def example_spool_def)

theorem protocol_session_succeeds_witness:
  "\<exists>st. run_snapshot_session example_session_env example_host snapshot_start git_snapshot_archive_limits
      (session_start example_connection example_spool) = (Ok example_outcome, st)
    \<and> cs_events st = [ssh_event] \<and> written (cs_spool_file st) = ''abc'' \<and> commit_authorized (cs_spool st)"
  using protocol_session_succeeds [OF example_prepared_ok example_host_links(1) example_upload_ok example_host_links(2)
      example_worker_follows example_host_serves example_host_links(3) example_connection_data]
  by (simp add: example_outcome_def) (simp add: example_transcript_def)

theorem session_outcome_is_bound_witness:
  "\<exists>st. run_snapshot_session_uncommitted example_session_env example_host snapshot_start git_snapshot_archive_limits
      (session_start example_connection example_spool) = (Ok example_outcome, st)
    \<and> hex_encode (zero_digest (written (cs_spool_file st))) = artifact_sha256 (ad_artifact example_artifact) \<and> cs_events st \<noteq> []"
proof -
  obtain st where run: "run_snapshot_session_uncommitted example_session_env example_host snapshot_start git_snapshot_archive_limits
      (session_start example_connection example_spool) = (Ok example_outcome, st)"
    using run_uncommitted_served [OF example_prepared_ok example_host_links(1) example_upload_ok example_host_links(2)
      example_worker_follows example_host_serves example_connection_data]
    unfolding example_outcome_def by blast
  have "env_sha256 (ev_request example_session_env) = zero_digest" "out_artifact example_outcome = example_artifact"
    by (simp_all add: example_session_env_def example_env_def example_outcome_def)
  with session_outcome_is_bound [OF run] run show ?thesis by auto
qed

section \<open>Failing sessions\<close>

text \<open>Before a commit or a cleanup nothing disarms the spool, and no step of the session authorizes a commit.\<close>

definition keeps_armed :: "client_session \<Rightarrow> client_session \<Rightarrow> bool" where
  "keeps_armed st st' \<longleftrightarrow> armed (cs_spool st') = armed (cs_spool st)
     \<and> commit_authorized (cs_spool st') = commit_authorized (cs_spool st)"

lemma keeps_armed_and_next:
  "keeps_armed st (snd x) \<Longrightarrow> (\<And>a st'. keeps_armed st' (snd (f a st'))) \<Longrightarrow> keeps_armed st (snd (and_next x f))"
  by (cases x) (auto simp: and_next_def keeps_armed_def split: sum.split)

lemma reading_keeps_armed: "same_output st st' \<Longrightarrow> keeps_armed st st'"
  by (simp add: same_output_def keeps_armed_def)

lemma write_json_frame_keeps_armed: "keeps_armed st (snd (write_json_frame to_vec k sq x st))"
  by (simp add: keeps_armed_def write_json_frame_def split: option.split prod.split sum.split)

lemma stream_step_keeps_armed: "keeps_armed st (snd (stream_step env k sq f n d e st))"
  by (simp add: keeps_armed_def stream_step_def split: prod.split)

lemma register_step_keeps_armed: "keeps_armed st (snd (register_step env host d receipt st))"
  by (auto simp: keeps_armed_def register_step_def register_publication_def Let_def split: prod.splits sum.splits if_splits)

lemma write_receipt_keeps_armed:
  "keeps_armed st (snd (and_next (write_json_frame to_vec k sq x (begin_receipt st)) (\<lambda>_ st.
     if b then (Err e, st) else (Ok y, receipt_sent st))))"
proof -
  have "keeps_armed (begin_receipt st) (snd (and_next (write_json_frame to_vec k sq x (begin_receipt st)) (\<lambda>_ st.
     if b then (Err e, st) else (Ok y, receipt_sent st))))"
    by (rule keeps_armed_and_next [OF write_json_frame_keeps_armed]) (simp add: keeps_armed_def receipt_sent_def)
  then show ?thesis by (simp add: keeps_armed_def begin_receipt_def)
qed

lemma send_receipt_keeps_armed: "keeps_armed st (snd (send_receipt env host d st))"
  unfolding send_receipt_def
  by (auto simp: pure_step_def keeps_armed_def split: option.split
      intro!: keeps_armed_and_next [unfolded keeps_armed_def] register_step_keeps_armed [unfolded keeps_armed_def]
        write_receipt_keeps_armed [unfolded keeps_armed_def])

lemma guarded_session_keeps_armed: "keeps_armed st (snd (guarded_session env host p st))"
proof -
  have receipt: "keeps_armed s (snd (and_next (send_receipt env host d s) (\<lambda>receipt st.
      and_next (read_until_complete env p a st) (\<lambda>c st.
        (Ok \<lparr>out_accepted = a, out_artifact = d, out_receipt = receipt, out_complete = c\<rparr>, st)))))" for a d s
    by (intro keeps_armed_and_next send_receipt_keeps_armed reading_keeps_armed reading) (simp add: keeps_armed_def)
  have tail: "keeps_armed s (snd (if cs_next_event s = 0 then (Err MissingProgressEvent, s)
      else and_next (send_receipt env host d s) (\<lambda>receipt st.
      and_next (read_until_complete env p a st) (\<lambda>c st.
        (Ok \<lparr>out_accepted = a, out_artifact = d, out_receipt = receipt, out_complete = c\<rparr>, st)))))" for a d s
    using receipt [of s d a] by (simp add: keeps_armed_def)
  show ?thesis
    unfolding guarded_session_def
    by (intro keeps_armed_and_next reading_keeps_armed [OF read_job_accepted_same] tail
        reading_keeps_armed [OF read_until_artifact_descriptor_same] reading_keeps_armed [OF read_artifact_payload_same])
qed

lemma drop_guard_spool: "cs_spool (drop_cancel_guard host st) = cs_spool st"
  by (simp add: drop_cancel_guard_def split: prod.split sum.split)

lemma upload_keeps_armed: "keeps_armed s (snd (write_request_frames env host p s))"
  unfolding write_request_frames_def
  by (intro keeps_armed_and_next write_json_frame_keeps_armed stream_step_keeps_armed)

lemma run_uncommitted_keeps_armed:
  assumes "run_snapshot_session_uncommitted env host start limits st = (res, st')"
  shows "keeps_armed st st'"
proof -
  have guard: "keeps_armed s (snd (let (res, st') = guarded_session env host p (s\<lparr>cs_progress := Cancelable, cs_guard_armed := True\<rparr>)
      in (res, drop_cancel_guard host st')))" for p s
    using guarded_session_keeps_armed [of "s\<lparr>cs_progress := Cancelable, cs_guard_armed := True\<rparr>" env host p]
    by (cases "guarded_session env host p (s\<lparr>cs_progress := Cancelable, cs_guard_armed := True\<rparr>)")
      (simp add: keeps_armed_def drop_guard_spool)
  have "keeps_armed st (snd (run_snapshot_session_uncommitted env host start limits st))"
    unfolding run_snapshot_session_uncommitted_def
    by (intro keeps_armed_and_next upload_keeps_armed) (use guard in \<open>simp_all add: pure_step_def keeps_armed_def\<close>)
  with assms show ?thesis by simp
qed

lemma run_uncommitted_armed:
  assumes "run_snapshot_session_uncommitted env host start limits st = (res, st')"
  shows "armed (cs_spool st') = armed (cs_spool st)" "commit_authorized (cs_spool st') = commit_authorized (cs_spool st)"
  using run_uncommitted_keeps_armed [OF assms] by (simp_all add: keeps_armed_def)

text \<open>The states in which the session calls the event sink or the verifier are no exception.\<close>

lemma keeps_armed_trans: "keeps_armed a b \<Longrightarrow> keeps_armed b c \<Longrightarrow> keeps_armed a c"
  by (simp add: keeps_armed_def)

lemma event_calls_keep_armed: "s \<in> set (event_calls env p a st) \<Longrightarrow> keeps_armed st s"
  using event_calls_same reading_keeps_armed by blast

lemma guarded_calls_keep_armed:
  assumes "s \<in> set (guarded_calls env host p st)"
  shows "keeps_armed st s"
proof -
  obtain a st1 where a: "read_job_accepted env p st = (Ok a, st1)"
    using assms by (cases "read_job_accepted env p st"; cases "fst (read_job_accepted env p st)") (auto simp: guarded_calls_def)
  have k1: "keeps_armed st st1" using reading_keeps_armed [OF read_job_accepted_same [of st env p]] a by simp
  let ?verify = "and_next (read_until_artifact_descriptor env p a st1) (\<lambda>d st.
      and_next (read_artifact_payload env host p a d st) (\<lambda>_ st.
      if cs_next_event st = 0 then (Err MissingProgressEvent, st)
      else if \<not> h_verify_seek host then (Err LocalIo, st) else (Ok d, st)))"
  have k2: "keeps_armed st1 (snd ?verify)"
    by (intro keeps_armed_and_next reading_keeps_armed [OF read_until_artifact_descriptor_same]
        reading_keeps_armed [OF read_artifact_payload_same]) (simp add: keeps_armed_def)
  obtain rv st2 where v: "?verify = (rv, st2)" by fastforce
  show ?thesis
  proof (cases "s \<in> set (event_calls env p a st1)")
    case True
    with k1 event_calls_keep_armed show ?thesis by (blast intro: keeps_armed_trans)
  next
    case False
    with assms a v obtain d where d: "rv = Ok d" by (cases rv) (auto simp: guarded_calls_def)
    obtain rr st3 where r: "send_receipt env host d st2 = (rr, st3)" by fastforce
    have k3: "keeps_armed st2 st3" using send_receipt_keeps_armed [of st2 env host d] r by simp
    have "s = st2 \<or> s \<in> set (event_calls env p a st3)"
      using assms a v d r False by (cases rr) (auto simp: guarded_calls_def)
    then have "keeps_armed st2 s" using k3 event_calls_keep_armed keeps_armed_trans by (auto simp: keeps_armed_def)
    moreover have "keeps_armed st st2" using k1 k2 v by (auto intro: keeps_armed_trans)
    ultimately show ?thesis by (blast intro: keeps_armed_trans)
  qed
qed

lemma callback_states_keep_armed:
  assumes "s \<in> set (callback_states env host start limits st)"
  shows "keeps_armed st s"
proof -
  let ?upload = "and_next (pure_step (prepare_request env host start limits) st) (\<lambda>p st.
      and_next (pure_step (validate_new_link (h_new_link host)) st) (\<lambda>_ st.
      and_next (write_request_frames env host p st) (\<lambda>_ st.
      if \<not> h_request_flush host then (Err (DataPlane Io), st) else (Ok p, st))))"
  have "keeps_armed st (snd ?upload)"
    by (intro keeps_armed_and_next upload_keeps_armed) (simp_all add: pure_step_def keeps_armed_def)
  moreover obtain p st1 where p: "?upload = (Ok p, st1)"
      "s \<in> set (guarded_calls env host p (st1\<lparr>cs_progress := Cancelable, cs_guard_armed := True\<rparr>))"
    using assms by (cases ?upload; cases "fst ?upload") (auto simp: callback_states_def)
  ultimately show ?thesis
    using guarded_calls_keep_armed [OF p(2)] by (simp add: keeps_armed_def)
qed

text \<open>
  C30 [session_failure]: a session ends in one of three ways. It succeeds with a registered publication that may now be
  committed; or it fails and gives the artifact up: the spool is disarmed, with no publication left; or the failure
  reported is that the links of the session could not be proven removed, and the spool stays armed, so that its links
  remain its own to remove. No failed session, that one included, leaves a commit authorized.
\<close>

theorem session_authorizes_or_gives_up:
  "case run_snapshot_session env host start limits (session_start r \<lparr>spool_path = path, publication = None,
       commit_authorized = False, armed = True\<rparr>) of
     (Inr out, st) \<Rightarrow> commit_authorized (cs_spool st) \<and> armed (cs_spool st) \<and> publication (cs_spool st) \<noteq> None
   | (Inl e, st) \<Rightarrow> \<not> commit_authorized (cs_spool st)
       \<and> (if armed (cs_spool st) then e = ArtifactCleanupFailed else publication (cs_spool st) = None)"
proof -
  let ?sp = "\<lparr>spool_path = path, publication = None, commit_authorized = False, armed = True\<rparr>"
  obtain res st where run: "run_snapshot_session_uncommitted env host start limits (session_start r ?sp) = (res, st)" by fastforce
  have armed: "armed (cs_spool st)" "\<not> commit_authorized (cs_spool st)"
    using run_uncommitted_armed [OF run] by (simp_all add: session_start_def)
  have gives_up: "case cleanup_session_error host e st of (Inr (out :: SnapshotSessionOutcome), st'') \<Rightarrow> False
      | (Inl e', st'') \<Rightarrow> \<not> commit_authorized (cs_spool st'')
          \<and> (if armed (cs_spool st'') then e' = ArtifactCleanupFailed else publication (cs_spool st'') = None)" for e
    using armed by (auto simp: cleanup_session_error_def cleanup_failure_def Let_def)
  show ?thesis
  proof (cases res)
    case (Inl e)
    with run gives_up [of e] show ?thesis
      by (auto simp: run_snapshot_session_def run_snapshot_session_deferred_def and_next_def split: prod.splits sum.splits)
  next
    case (Inr out)
    show ?thesis
    proof (cases "publication (cs_spool st) = None")
      case True
      then have "authorize_commit (cs_spool st) = (Err ArtifactCommitNotAuthorized, cs_spool st)" by (simp add: authorize_commit_def)
      with run Inr gives_up [of ArtifactCommitNotAuthorized] show ?thesis
        by (auto simp: run_snapshot_session_def run_snapshot_session_deferred_def split: prod.splits sum.splits)
    next
      case False
      with armed have "authorize_commit (cs_spool st) = (Ok (), (cs_spool st)\<lparr>commit_authorized := True\<rparr>)"
        by (simp add: authorize_commit_def)
      with run Inr armed False show ?thesis
        by (simp add: run_snapshot_session_def run_snapshot_session_deferred_def)
    qed
  qed
qed

end
