(* ===== verification/Ssh_Process.thy ===== *)
theory Ssh_Process
  imports Ssh_Transport Ssh_Protocol
begin

text \<open>
  The snapshot session over one OpenSSH process (\<^verbatim>\<open>src/crates/rustferry-ssh/src/process_session.rs\<close>): the abort
  controller, the reader and the writer that give up at a cancellation or at the deadline, the observation of the
  exit status, and the run that authorizes the artifact only after a zero exit.

  A loop takes the list of what its turns observe; \<open>None\<close> is a loop that is still running. The session itself is
  \<open>run_snapshot_session_deferred\<close>, over the bytes that the reader delivers.
\<close>

section \<open>The abort controller\<close>

datatype AbortReason = AbortActive | AbortCancelled | AbortTimedOut | AbortIoFailed

record AbortController =
  abort_reason :: AbortReason
  abort_deadline :: nat

text \<open>An observation is whether the token is cancelled, and the time.\<close>

type_synonym observation = "bool \<times> nat"

definition AbortController_new :: "nat \<Rightarrow> AbortController" where
  "AbortController_new deadline = \<lparr>abort_reason = AbortActive, abort_deadline = deadline\<rparr>"

text \<open>\<open>compare_exchange\<close> from the active state: the first reason stays.\<close>

definition abort_mark :: "AbortReason \<Rightarrow> AbortController \<Rightarrow> AbortController" where
  "abort_mark reason a = (if abort_reason a = AbortActive then a\<lparr>abort_reason := reason\<rparr> else a)"

definition abort_observe :: "observation \<Rightarrow> AbortController \<Rightarrow> AbortController" where
  "abort_observe o1 a =
     (if fst o1 then abort_mark AbortCancelled a
      else if snd o1 \<ge> abort_deadline a then abort_mark AbortTimedOut a
      else a)"

definition checkpoint :: "observation \<Rightarrow> AbortController \<Rightarrow> bool \<times> AbortController" where
  "checkpoint o1 a = (let a = abort_observe o1 a in (abort_reason a = AbortActive, a))"

definition classify_cancel_or_timeout :: "observation \<Rightarrow> AbortController \<Rightarrow> SshTransportError option \<times> AbortController" where
  "classify_cancel_or_timeout o1 a =
     (let a = abort_observe o1 a in
      (case abort_reason a of
         AbortCancelled \<Rightarrow> Some TransportCancelled
       | AbortTimedOut \<Rightarrow> Some TimedOut
       | AbortActive \<Rightarrow> None
       | AbortIoFailed \<Rightarrow> None, a))"

definition classify_abort :: "observation \<Rightarrow> AbortController \<Rightarrow> SshTransportError option \<times> AbortController" where
  "classify_abort o1 a =
     (let a = abort_observe o1 a in
      (case abort_reason a of
         AbortActive \<Rightarrow> None
       | AbortCancelled \<Rightarrow> Some TransportCancelled
       | AbortTimedOut \<Rightarrow> Some TimedOut
       | AbortIoFailed \<Rightarrow> Some IoFailed, a))"

section \<open>Reading from the process\<close>

datatype StdoutEvent = StdoutBytes bytes | StdoutEof | StdoutFailed

datatype received = Received StdoutEvent | ReceiveTimeout | ReceiveDisconnected

type_synonym turn = "observation \<times> received"

record InterruptibleReader =
  ir_pending :: bytes
  ir_eof :: bool
  ir_abort :: AbortController

definition InterruptibleReader_new :: "AbortController \<Rightarrow> InterruptibleReader" where
  "InterruptibleReader_new a = \<lparr>ir_pending = [], ir_eof = False, ir_abort = a\<rparr>"

text \<open>One \<open>read\<close> into a buffer of \<open>n\<close> bytes: the bytes, or nothing for an error, and the turns that are left.\<close>

fun interruptible_read ::
    "nat \<Rightarrow> InterruptibleReader \<Rightarrow> turn list \<Rightarrow> (bytes option \<times> InterruptibleReader \<times> turn list) option" where
  "interruptible_read n r [] =
     (if n = 0 then Some (Some [], r, [])
      else if ir_pending r \<noteq> [] then Some (Some (take n (ir_pending r)), r\<lparr>ir_pending := drop n (ir_pending r)\<rparr>, [])
      else if ir_eof r then Some (Some [], r, [])
      else None)"
| "interruptible_read n r (t # ts) =
     (if n = 0 then Some (Some [], r, t # ts)
      else if ir_pending r \<noteq> []
      then Some (Some (take n (ir_pending r)), r\<lparr>ir_pending := drop n (ir_pending r)\<rparr>, t # ts)
      else if ir_eof r then Some (Some [], r, t # ts)
      else
        case checkpoint (fst t) (ir_abort r) of
          (False, a) \<Rightarrow> Some (None, r\<lparr>ir_abort := a\<rparr>, ts)
        | (True, a) \<Rightarrow>
            (let r = r\<lparr>ir_abort := a\<rparr> in
             case snd t of
               Received (StdoutBytes bs) \<Rightarrow> interruptible_read n (r\<lparr>ir_pending := bs\<rparr>) ts
             | Received StdoutEof \<Rightarrow> interruptible_read n (r\<lparr>ir_eof := True\<rparr>) ts
             | Received StdoutFailed \<Rightarrow> Some (None, r\<lparr>ir_abort := abort_mark AbortIoFailed a\<rparr>, ts)
             | ReceiveDisconnected \<Rightarrow> Some (None, r\<lparr>ir_abort := abort_mark AbortIoFailed a\<rparr>, ts)
             | ReceiveTimeout \<Rightarrow> interruptible_read n r ts))"

section \<open>Writing to the process\<close>

datatype send_answer = Sent | SendFull | SendDisconnected

datatype result_answer = ResultOk | ResultErr | ResultDisconnected | ResultTimeout

fun send_command :: "AbortController \<Rightarrow> (observation \<times> send_answer) list \<Rightarrow> (bool \<times> AbortController) option" where
  "send_command a [] = None"
| "send_command a ((o1, answer) # ts) =
     (case checkpoint o1 a of
        (False, a) \<Rightarrow> Some (False, a)
      | (True, a) \<Rightarrow>
          (case answer of
             Sent \<Rightarrow> Some (True, a)
           | SendDisconnected \<Rightarrow> Some (checkpoint o1 (abort_mark AbortIoFailed a))
           | SendFull \<Rightarrow> send_command a ts))"

fun wait_result :: "AbortController \<Rightarrow> (observation \<times> result_answer) list \<Rightarrow> (bool \<times> AbortController) option" where
  "wait_result a [] = None"
| "wait_result a ((o1, answer) # ts) =
     (case checkpoint o1 a of
        (False, a) \<Rightarrow> Some (False, a)
      | (True, a) \<Rightarrow>
          (case answer of
             ResultOk \<Rightarrow> Some (True, a)
           | ResultErr \<Rightarrow> Some (checkpoint o1 (abort_mark AbortIoFailed a))
           | ResultDisconnected \<Rightarrow> Some (checkpoint o1 (abort_mark AbortIoFailed a))
           | ResultTimeout \<Rightarrow> wait_result a ts))"

record command_turns =
  ct_send :: "(observation \<times> send_answer) list"
  ct_result :: "(observation \<times> result_answer) list"

text \<open>Sending one command and waiting for its result: both \<open>close\<close> and, after a checkpoint, \<open>request\<close>.\<close>

definition run_command :: "command_turns \<Rightarrow> AbortController \<Rightarrow> (bool \<times> AbortController) option" where
  "run_command c a =
     (case send_command a (ct_send c) of
        None \<Rightarrow> None
      | Some (False, a) \<Rightarrow> Some (False, a)
      | Some (True, a) \<Rightarrow> wait_result a (ct_result c))"

definition writer_request :: "observation \<Rightarrow> command_turns \<Rightarrow> AbortController \<Rightarrow> (bool \<times> AbortController) option" where
  "writer_request o1 c a =
     (case checkpoint o1 a of (False, a) \<Rightarrow> Some (False, a) | (True, a) \<Rightarrow> run_command c a)"

definition writer_close :: "command_turns \<Rightarrow> AbortController \<Rightarrow> (bool \<times> AbortController) option" where
  "writer_close c a = run_command c a"

text \<open>The last cancellation frame does not ask the controller; it has 100 milliseconds of its own.\<close>

definition SESSION_CANCEL_WRITE_TIMEOUT :: nat where
  "SESSION_CANCEL_WRITE_TIMEOUT = 100"

fun cancel_send :: "nat \<Rightarrow> (send_answer \<times> nat) list \<Rightarrow> bool option" where
  "cancel_send deadline [] = None"
| "cancel_send deadline ((answer, now) # ts) =
     (case answer of
        Sent \<Rightarrow> Some True
      | SendDisconnected \<Rightarrow> Some False
      | SendFull \<Rightarrow> if deadline - now = 0 then Some False else cancel_send deadline ts)"

fun cancel_result :: "nat \<Rightarrow> (nat \<times> result_answer) list \<Rightarrow> bool option" where
  "cancel_result deadline [] = None"
| "cancel_result deadline ((now, answer) # ts) =
     (if deadline - now = 0 then Some False
      else case answer of
        ResultOk \<Rightarrow> Some True
      | ResultErr \<Rightarrow> Some False
      | ResultDisconnected \<Rightarrow> Some False
      | ResultTimeout \<Rightarrow> cancel_result deadline ts)"

record cancel_turns =
  cn_start :: nat
  cn_send :: "(send_answer \<times> nat) list"
  cn_result :: "(nat \<times> result_answer) list"

definition best_effort_cancel :: "cancel_turns \<Rightarrow> bool option" where
  "best_effort_cancel c =
     (if \<not> is_ok (fst (write_worker_data_plane_frame \<lparr>written = [], capacity = None\<rparr> Cancel 3 [])) then Some False
      else
        let deadline = cn_start c + SESSION_CANCEL_WRITE_TIMEOUT in
        case cancel_send deadline (cn_send c) of
          None \<Rightarrow> None
        | Some False \<Rightarrow> Some False
        | Some True \<Rightarrow> cancel_result deadline (cn_result c))"

section \<open>The exit of the process\<close>

datatype SshSnapshotSessionError = SessionFailed SnapshotSessionClientError | TransportFailed SshTransportError

definition SESSION_EXIT_OBSERVATION_TIMEOUT :: nat where
  "SESSION_EXIT_OBSERVATION_TIMEOUT = 100"

definition is_data_plane :: "SnapshotSessionClientError \<Rightarrow> bool" where
  "is_data_plane e \<longleftrightarrow> (case e of DataPlane _ \<Rightarrow> True | _ \<Rightarrow> False)"

text \<open>The exit status that is observed in time, if any, inside the answer of a loop that has ended.\<close>

fun observe_loop :: "nat \<Rightarrow> (wait_answer \<times> nat) list \<Rightarrow> int option option option" where
  "observe_loop observe_until [] = None"
| "observe_loop observe_until ((answer, now) # ts) =
     (case answer of
        Exited code \<Rightarrow> Some (Some code)
      | WaitFailed \<Rightarrow> Some None
      | StillRunning \<Rightarrow> if observe_until - now = 0 then Some None else observe_loop observe_until ts)"

definition observe_exit_status ::
    "nat \<Rightarrow> nat \<Rightarrow> SnapshotSessionClientError \<Rightarrow> (wait_answer \<times> nat) list \<Rightarrow> int option option option" where
  "observe_exit_status deadline now e ts =
     observe_loop (if is_data_plane e then min deadline (now + SESSION_EXIT_OBSERVATION_TIMEOUT) else now) ts"

text \<open>
  What the run asks around the session: which of the caller's callbacks panics, counted from zero, if one does; the
  observations when its failure is classified and when the writer could not be closed, the turns of the loops, the
  answer of \<open>kill\<close>, and the polls of the cleanup.
\<close>

record exit_turn =
  et_observation :: observation
  et_wait :: wait_answer
  et_now :: nat

record process_answers =
  pa_cancelled :: bool
  pa_start :: nat
  pa_identity :: world
  pa_trust :: snapshot_check
  pa_spawn :: bool
  pa_stdin :: bool
  pa_stdout :: bool
  pa_stderr :: bool
  pa_drain :: bool
  pa_stdout_reader :: bool
  pa_writer :: bool
  pa_panic :: "nat option"
  pa_abort :: AbortReason
  pa_cancel :: cancel_turns
  pa_close :: command_turns
  pa_close_seen :: observation
  pa_exit :: "exit_turn list"
  pa_failure_seen :: observation
  pa_observe_start :: nat
  pa_observe :: "(wait_answer \<times> nat) list"
  pa_failure_again :: observation
  pa_kill :: bool
  pa_reap_start :: nat
  pa_reap :: "(wait_answer \<times> nat) list"

definition process_kill :: "process_answers \<Rightarrow> nat \<Rightarrow> child_end option" where
  "process_kill p deadline = terminate_child_bounded (pa_kill p) deadline (pa_reap_start p) (pa_reap p)"

fun wait_for_successful_exit ::
    "process_answers \<Rightarrow> nat \<Rightarrow> AbortController \<Rightarrow> exit_turn list \<Rightarrow> ((SshTransportError + unit) \<times> child_end) option" where
  "wait_for_successful_exit p deadline a [] = None"
| "wait_for_successful_exit p deadline a (t # ts) =
     (case classify_abort (et_observation t) a of
        (Some e, a) \<Rightarrow> map_option (\<lambda>child. (Err e, child)) (process_kill p deadline)
      | (None, a) \<Rightarrow>
          (case et_wait t of
             Exited code \<Rightarrow>
               if code = Some 0 then Some (Ok (), ChildExited code)
               else Some (Err (ProcessFailed code), ChildExited code)
           | WaitFailed \<Rightarrow> map_option (\<lambda>child. (Err IoFailed, child)) (process_kill p deadline)
           | StillRunning \<Rightarrow>
               if deadline - et_now t = 0 then map_option (\<lambda>child. (Err TimedOut, child)) (process_kill p deadline)
               else wait_for_successful_exit p deadline a ts))"

definition finish_failed_session ::
    "process_answers \<Rightarrow> nat \<Rightarrow> AbortController \<Rightarrow> SnapshotSessionClientError \<Rightarrow> (SshSnapshotSessionError \<times> child_end) option" where
  "finish_failed_session p deadline a e =
     (if \<not> is_data_plane e then map_option (\<lambda>child. (SessionFailed e, child)) (process_kill p deadline)
      else
        case classify_cancel_or_timeout (pa_failure_seen p) a of
          (Some err, a) \<Rightarrow> map_option (\<lambda>child. (TransportFailed err, child)) (process_kill p deadline)
        | (None, a) \<Rightarrow>
            (case observe_exit_status deadline (pa_observe_start p) e (pa_observe p) of
               None \<Rightarrow> None
             | Some (Some code) \<Rightarrow>
                 Some (if code = Some 0 then SessionFailed e else TransportFailed (ProcessFailed code), ChildExited code)
             | Some None \<Rightarrow>
                 map_option (\<lambda>child. (case fst (classify_abort (pa_failure_again p) a) of
                     Some err \<Rightarrow> TransportFailed err | None \<Rightarrow> SessionFailed e, child)) (process_kill p deadline)))"

section \<open>The run\<close>

datatype process_end = Returned "SshSnapshotSessionError + SnapshotSessionOutcome" | Unwound

type_synonym process_result = "(process_end \<times> client_session \<times> child_end) option"

definition give_up ::
    "session_host \<Rightarrow> SshSnapshotSessionError \<Rightarrow> client_session \<Rightarrow> child_end option \<Rightarrow> process_result" where
  "give_up host e st child =
     map_option (\<lambda>c. case cleanup_failure (h_cleanup_published host) (h_cleanup_staging host) (cs_spool st) of
         (Inl e', sp) \<Rightarrow> (Returned (Err (SessionFailed e')), st\<lparr>cs_spool := sp\<rparr>, c)
       | (Inr _, sp) \<Rightarrow> (Returned (Err e), st\<lparr>cs_spool := sp\<rparr>, c)) child"

definition session_error ::
    "session_host \<Rightarrow> SnapshotSessionClientError \<Rightarrow> client_session \<Rightarrow> child_end option \<Rightarrow> process_result" where
  "session_error host e st child = give_up host (SessionFailed e) st child"

definition transport_error ::
    "session_host \<Rightarrow> SshTransportError \<Rightarrow> client_session \<Rightarrow> child_end option \<Rightarrow> process_result" where
  "transport_error host e st child = give_up host (TransportFailed e) st child"

text \<open>A last cancellation frame is sent only where the session could still be cancelled.\<close>

definition cancel_if_possible :: "cancel_turns \<Rightarrow> client_session \<Rightarrow> client_session option" where
  "cancel_if_possible c st =
     (if \<not> can_send_cancel (cs_progress st) then Some st
      else
        map_option (\<lambda>sent.
          if sent then st\<lparr>cs_progress := CancelSent,
            cs_writer := snd (write_worker_data_plane_frame (cs_writer st) Cancel 3 [])\<rparr>
          else st) (best_effort_cancel c))"

text \<open>After a successful session: the writer is closed, the process has to exit well, and the commit is authorized.\<close>

definition finish_successful_session ::
    "process_answers \<Rightarrow> nat \<Rightarrow> AbortController \<Rightarrow> session_host \<Rightarrow> SnapshotSessionOutcome \<Rightarrow> client_session \<Rightarrow> process_result" where
  "finish_successful_session p deadline abort host out st =
     (case writer_close (pa_close p) abort of
        None \<Rightarrow> None
      | Some (False, abort) \<Rightarrow>
          transport_error host (case fst (classify_abort (pa_close_seen p) abort) of None \<Rightarrow> IoFailed | Some e \<Rightarrow> e) st
            (process_kill p deadline)
      | Some (True, abort) \<Rightarrow>
      case wait_for_successful_exit p deadline abort (pa_exit p) of
        None \<Rightarrow> None
      | Some (Inl e, child) \<Rightarrow> transport_error host e st (Some child)
      | Some (Inr _, child) \<Rightarrow>
      case authorize_commit (cs_spool st) of
        (Inl e, sp) \<Rightarrow> session_error host e (st\<lparr>cs_spool := sp\<rparr>) (Some child)
      | (Inr _, sp) \<Rightarrow> Some (Returned (Ok out), st\<lparr>cs_spool := sp\<rparr>, child))"

text \<open>
  The session that a panicking callback leaves: the state at that call, with the cancellation guard dropped while
  unwinding. A callback the session does not reach cannot panic.
\<close>

definition panicked_session ::
    "process_answers \<Rightarrow> session_env \<Rightarrow> session_host \<Rightarrow> SnapshotBuildStart \<Rightarrow> SourceArchiveLimits
     \<Rightarrow> client_session \<Rightarrow> client_session option" where
  "panicked_session p env host start limits st =
     (case pa_panic p of
        None \<Rightarrow> None
      | Some n \<Rightarrow>
          let calls = callback_states env host start limits st in
          if n < length calls then Some (drop_cancel_guard host (calls ! n)) else None)"

definition process_run_snapshot_session ::
    "process_answers \<Rightarrow> SshInvocation \<Rightarrow> session_env \<Rightarrow> session_host \<Rightarrow> SnapshotBuildStart \<Rightarrow> SourceArchiveLimits
     \<Rightarrow> client_session \<Rightarrow> process_result" where
  "process_run_snapshot_session p invocation env host start limits st =
     (let deadline = pa_start p + invocation_timeout invocation;
          abort = (AbortController_new deadline)\<lparr>abort_reason := pa_abort p\<rparr> in
      if pa_cancelled p then transport_error host TransportCancelled st (Some NotStarted)
      else if \<not> is_ok (revalidate_identity_file (pa_identity p) invocation)
      then transport_error host IdentityFileChanged st (Some NotStarted)
      else if \<not> is_ok (revalidate_trust_snapshot (pa_trust p) invocation)
      then transport_error host TrustSnapshotChanged st (Some NotStarted)
      else if \<not> pa_spawn p then transport_error host SpawnFailed st (Some NotStarted)
      else if \<not> pa_stdin p \<or> \<not> pa_stdout p \<or> \<not> pa_stderr p \<or> \<not> pa_drain p \<or> \<not> pa_stdout_reader p \<or> \<not> pa_writer p
      then transport_error host IoFailed st (process_kill p deadline)
      else case panicked_session p env host start limits st of
        Some st \<Rightarrow>
          Option.bind (cancel_if_possible (pa_cancel p) st) (\<lambda>st.
            map_option (\<lambda>child. (Unwound,
              st\<lparr>cs_spool := snd (cleanup_failure (h_cleanup_published host) (h_cleanup_staging host) (cs_spool st))\<rparr>,
              child)) (process_kill p deadline))
      | None \<Rightarrow>
      case run_snapshot_session_deferred env host start limits st of
        (Inl e, st) \<Rightarrow>
          Option.bind (cancel_if_possible (pa_cancel p) st) (\<lambda>st.
            map_option (\<lambda>(err, child). (Returned (Err err), st, child)) (finish_failed_session p deadline abort e))
      | (Inr out, st) \<Rightarrow>
      finish_successful_session p deadline abort host out st)"

section \<open>Reading loses nothing\<close>

text \<open>
  The input that the turns of a reader deliver: the bytes as they arrive, up to the end, a failure of the pipe or the
  first turn at which the controller gives up.
\<close>

fun delivered :: "AbortController \<Rightarrow> turn list \<Rightarrow> reader" where
  "delivered a [] = []"
| "delivered a (t # ts) =
     (case checkpoint (fst t) a of
        (False, a) \<Rightarrow> [ReadError]
      | (True, a) \<Rightarrow>
          (case snd t of
             Received (StdoutBytes bs) \<Rightarrow> (if bs = [] then delivered a ts else Chunk bs # delivered a ts)
           | Received StdoutEof \<Rightarrow> []
           | Received StdoutFailed \<Rightarrow> [ReadError]
           | ReceiveDisconnected \<Rightarrow> [ReadError]
           | ReceiveTimeout \<Rightarrow> delivered a ts))"

definition reader_of :: "InterruptibleReader \<Rightarrow> turn list \<Rightarrow> reader" where
  "reader_of r ts =
     (if ir_pending r = [] then [] else [Chunk (ir_pending r)]) @ (if ir_eof r then [] else delivered (ir_abort r) ts)"

lemma read_pending:
  assumes "ir_pending r \<noteq> []"
  shows "read_some n (reader_of r ts)
    = (Some (take n (ir_pending r)), reader_of (r\<lparr>ir_pending := drop n (ir_pending r)\<rparr>) ts)"
  using assms by (simp add: reader_of_def)

lemma checkpoint_True:
  "checkpoint o1 a = (True, a') \<longleftrightarrow> a' = a \<and> abort_reason a = AbortActive \<and> \<not> fst o1 \<and> snd o1 < abort_deadline a"
  by (auto simp: checkpoint_def abort_observe_def abort_mark_def Let_def)

lemma checkpoint_False: "checkpoint o1 a = (False, a') \<Longrightarrow> abort_reason a' \<noteq> AbortActive"
  by (auto simp: checkpoint_def Let_def)

definition exact_read :: "nat \<Rightarrow> InterruptibleReader \<Rightarrow> turn list \<Rightarrow> (bytes option \<times> InterruptibleReader \<times> turn list) option \<Rightarrow> bool" where
  "exact_read n r ts res =
     (case res of
        None \<Rightarrow> list_all (\<lambda>t. \<not> fst (fst t) \<and> snd (fst t) < abort_deadline (ir_abort r)) ts
      | Some (Some b, r', ts') \<Rightarrow> read_some n (reader_of r ts) = (Some b, reader_of r' ts')
      | Some (None, r', ts') \<Rightarrow> abort_reason (ir_abort r') \<noteq> AbortActive \<and> fst (read_some n (reader_of r ts)) = None)"

lemma exact_read_step:
  assumes "exact_read n r1 ts res" "reader_of r (t # ts) = reader_of r1 ts" "ir_abort r1 = ir_abort r"
    "checkpoint (fst t) (ir_abort r) = (True, a)"
  shows "exact_read n r (t # ts) res"
  using assms by (auto simp: exact_read_def checkpoint_True split: option.splits prod.splits)

lemma interruptible_read_exact: "0 < n \<Longrightarrow> exact_read n r ts (interruptible_read n r ts)"
proof (induction ts arbitrary: r)
  case Nil
  show ?case
  proof (cases "ir_pending r = []")
    case True
    with Nil show ?thesis by (auto simp: exact_read_def reader_of_def)
  qed (use Nil in \<open>simp add: exact_read_def read_pending\<close>)
next
  case (Cons t ts)
  show ?case
  proof (cases "ir_pending r = [] \<and> \<not> ir_eof r")
    case False
    then show ?thesis
      using Cons.prems by (cases "ir_pending r = []") (auto simp: exact_read_def read_pending, simp_all add: reader_of_def)
  next
    case idle: True
    obtain ok a where k: "checkpoint (fst t) (ir_abort r) = (ok, a)" by (rule prod.exhaust)
    show ?thesis
    proof (cases ok)
      case False
      with idle k Cons.prems checkpoint_False show ?thesis by (auto simp: exact_read_def reader_of_def)
    next
      case True
      with k have a: "a = ir_abort r" "abort_reason a = AbortActive" by (simp_all add: checkpoint_True)
      have k1: "checkpoint (fst t) (ir_abort r) = (True, ir_abort r)" using k True a by simp
      note go = exact_read_step [OF Cons.IH [OF Cons.prems] _ _ k1]
      show ?thesis
      proof (cases "snd t")
        case (Received e)
        show ?thesis
        proof (cases e)
          case (StdoutBytes bs)
          with idle Received k1 Cons.prems go [of "r\<lparr>ir_pending := bs\<rparr>"] show ?thesis
            by (simp add: reader_of_def Let_def)
        next
          case StdoutEof
          with idle Received k1 Cons.prems go [of "r\<lparr>ir_eof := True\<rparr>"] show ?thesis
            by (simp add: reader_of_def Let_def)
        next
          case StdoutFailed
          with idle Received k1 a Cons.prems show ?thesis
            by (simp add: exact_read_def reader_of_def abort_mark_def Let_def)
        qed
      next
        case ReceiveTimeout
        with idle k1 Cons.prems go [of r] show ?thesis by (simp add: reader_of_def Let_def)
      next
        case ReceiveDisconnected
        with idle k1 a Cons.prems show ?thesis
          by (simp add: exact_read_def reader_of_def abort_mark_def Let_def)
      qed
    qed
  qed
qed

text \<open>
  [process_reader]: reading through the channel is reading the output of the process. Every successful \<open>read\<close> returns
  what a read of the undivided output returns and leaves what that leaves, however the output was cut into events and
  however often the wait timed out in between; a read fails only where the output does or the controller gave up, and
  it has returned once a turn sees the cancellation or the deadline.
\<close>

theorem interruptible_reads_are_exact:
  assumes "0 < n"
  shows "case interruptible_read n r ts of
      None \<Rightarrow> list_all (\<lambda>t. \<not> fst (fst t) \<and> snd (fst t) < abort_deadline (ir_abort r)) ts
    | Some (Some b, r', ts') \<Rightarrow> read_some n (reader_of r ts) = (Some b, reader_of r' ts')
    | Some (None, r', ts') \<Rightarrow> abort_reason (ir_abort r') \<noteq> AbortActive \<and> fst (read_some n (reader_of r ts)) = None"
  using interruptible_read_exact [OF assms, of r ts] unfolding exact_read_def .

section \<open>Authorized after a clean exit, or given up\<close>

definition given_up :: "CreateOnlyArtifactSpool \<Rightarrow> bool" where
  "given_up sp \<longleftrightarrow> \<not> armed sp \<and> publication sp = None \<and> \<not> commit_authorized sp"

text \<open>
  A failed run leaves no authorization. It gave the artifact up, or it reports that it could not, and the spool is still
  armed.
\<close>

definition failed_end :: "SshSnapshotSessionError \<Rightarrow> CreateOnlyArtifactSpool \<Rightarrow> bool" where
  "failed_end err sp \<longleftrightarrow> given_up sp
     \<or> (err = SessionFailed ArtifactCleanupFailed \<and> armed sp \<and> \<not> commit_authorized sp)"

text \<open>A spool that the session still holds: armed, and not authorized by any step of it.\<close>

definition held :: "client_session \<Rightarrow> bool" where
  "held st \<longleftrightarrow> armed (cs_spool st) \<and> \<not> commit_authorized (cs_spool st)"

lemma give_up_gives_up:
  assumes "held st" "give_up host e st c = Some (r, st', child)"
  shows "\<exists>err. r = Returned (Err err) \<and> failed_end err (cs_spool st')"
  using assms by (auto simp: give_up_def cleanup_failure_def given_up_def failed_end_def held_def Let_def split: if_splits)

lemma uncommitted_held:
  assumes "run_snapshot_session_uncommitted env host start limits st = (res, st')" "held st"
  shows "held st'"
  using run_uncommitted_armed [OF assms(1)] assms(2) by (simp add: held_def)

lemma deferred_held:
  assumes "run_snapshot_session_deferred env host start limits st = (Ok out, st')" "held st"
  shows "held st'"
  using assms uncommitted_held
  by (fastforce simp: run_snapshot_session_deferred_def cleanup_session_error_def split: prod.splits sum.splits)

lemma deferred_gives_up:
  assumes "run_snapshot_session_deferred env host start limits st = (Err e, st')" "held st"
  shows "failed_end (SessionFailed e) (cs_spool st')"
proof -
  obtain res s where run: "run_snapshot_session_uncommitted env host start limits st = (res, s)" by fastforce
  have "held s" using uncommitted_held [OF run assms(2)] .
  with assms(1) run show ?thesis
    by (auto simp: run_snapshot_session_deferred_def cleanup_session_error_def cleanup_failure_def given_up_def failed_end_def
        held_def Let_def split: sum.splits if_splits)
qed

lemma wait_for_successful_exit_Ok:
  "wait_for_successful_exit p deadline a ts = Some (Ok u, child) \<Longrightarrow> child = ChildExited (Some 0)"
  by (induction ts arbitrary: a)
    (auto split: prod.splits option.splits wait_answer.splits if_splits)

lemma finish_failed_session_keeps_error:
  assumes "finish_failed_session p deadline a e = Some (err, child)" "\<not> is_data_plane e"
  shows "err = SessionFailed e"
  using assms by (auto simp: finish_failed_session_def)

lemma cancel_if_possible_spool: "cancel_if_possible c st = Some st' \<Longrightarrow> cs_spool st' = cs_spool st"
  by (auto simp: cancel_if_possible_def split: if_splits)

lemma failed_session_gives_up:
  assumes "run_snapshot_session_deferred env host start limits st = (Err e, st')" "held st"
    "cancel_if_possible c st' = Some s" "finish_failed_session p deadline a e = Some (err, child)"
  shows "failed_end err (cs_spool s)"
proof (cases "e = ArtifactCleanupFailed")
  case True
  then have "err = SessionFailed e" using finish_failed_session_keeps_error [OF assms(4)] by (simp add: is_data_plane_def)
  with deferred_gives_up [OF assms(1,2)] cancel_if_possible_spool [OF assms(3)] show ?thesis by simp
next
  case False
  with deferred_gives_up [OF assms(1,2)] cancel_if_possible_spool [OF assms(3)] show ?thesis by (simp add: failed_end_def)
qed

text \<open>
  What the ends of a run leave behind. A run that unwinds tried to remove the links of the spool that the panicking
  callback left, and gave it up where that succeeded.
\<close>

definition run_end_ok :: "session_env \<Rightarrow> session_host \<Rightarrow> SnapshotBuildStart \<Rightarrow> SourceArchiveLimits \<Rightarrow> client_session
    \<Rightarrow> process_end \<Rightarrow> client_session \<Rightarrow> child_end \<Rightarrow> bool" where
  "run_end_ok env host start limits st e st' child =
     (case e of
        Returned (Inr out) \<Rightarrow> child = ChildExited (Some 0)
          \<and> (\<exists>s. run_snapshot_session_deferred env host start limits st = (Ok out, s)
               \<and> cs_spool st' = (cs_spool s)\<lparr>commit_authorized := True\<rparr>)
          \<and> armed (cs_spool st') \<and> publication (cs_spool st') \<noteq> None
      | Returned (Inl err) \<Rightarrow> failed_end err (cs_spool st')
      | Unwound \<Rightarrow> \<not> commit_authorized (cs_spool st')
          \<and> (\<exists>s \<in> set (callback_states env host start limits st).
               case cleanup_failure (h_cleanup_published host) (h_cleanup_staging host) (cs_spool s) of
                 (Inl _, _) \<Rightarrow> cs_spool st' = cs_spool s
               | (Inr _, _) \<Rightarrow> given_up (cs_spool st')))"

lemma give_up_end:
  assumes "held s" "give_up host e s c = Some (r, st', child)"
  shows "run_end_ok env host start limits st r st' child"
  using give_up_gives_up [OF assms] by (auto simp: run_end_ok_def)

lemma succeeded_session_end:
  assumes "run_snapshot_session_deferred env host start limits st = (Ok out, s)" "held s"
    "finish_successful_session p deadline abort host out s = Some (r, st', c)"
  shows "run_end_ok env host start limits st r st' c"
proof -
  have fail: "give_up host err s c' = Some (r, st', c) \<Longrightarrow> ?thesis" for err c'
    by (rule give_up_end [OF assms(2)])
  obtain ok a where close: "writer_close (pa_close p) abort = Some (ok, a)"
    using assms(3) by (auto simp: finish_successful_session_def split: option.splits)
  show ?thesis
  proof (cases ok)
    case False
    with assms(3) close fail show ?thesis by (auto simp: finish_successful_session_def transport_error_def)
  next
    case True
    with assms(3) close obtain w child where w: "wait_for_successful_exit p deadline a (pa_exit p) = Some (w, child)"
      by (auto simp: finish_successful_session_def split: option.splits)
    show ?thesis
    proof (cases "is_ok w \<and> publication (cs_spool s) \<noteq> None")
      case True
      then have "w = Ok ()" by (simp add: is_ok_unit)
      with assms \<open>ok\<close> close w True wait_for_successful_exit_Ok [of p deadline a "pa_exit p"] show ?thesis
        by (auto simp: finish_successful_session_def authorize_commit_def run_end_ok_def held_def)
    next
      case False
      with assms \<open>ok\<close> close w fail show ?thesis
        by (cases w)
          (auto simp: finish_successful_session_def transport_error_def session_error_def authorize_commit_def held_def)
    qed
  qed
qed

lemma panicked_session_end:
  assumes "panicked_session p env host start limits st = Some s" "held st" "cancel_if_possible c s = Some s'"
    "cs_spool st' = snd (cleanup_failure (h_cleanup_published host) (h_cleanup_staging host) (cs_spool s'))"
  shows "run_end_ok env host start limits st Unwound st' child"
proof -
  obtain q where q: "q \<in> set (callback_states env host start limits st)" "s = drop_cancel_guard host q"
    using assms(1) nth_mem by (fastforce simp: panicked_session_def Let_def split: option.splits if_splits)
  let ?clean = "cleanup_failure (h_cleanup_published host) (h_cleanup_staging host) (cs_spool q)"
  have "held q" using callback_states_keep_armed [OF q(1)] assms(2) by (simp add: keeps_armed_def held_def)
  then have clean: "?clean = (Err ArtifactCleanupFailed, cs_spool q) \<or> (\<exists>u. fst ?clean = Ok u \<and> given_up (snd ?clean))"
    "\<not> commit_authorized (snd ?clean)"
    by (auto simp: cleanup_failure_def given_up_def held_def Let_def)
  have st': "cs_spool st' = snd ?clean"
    using assms(4) cancel_if_possible_spool [OF assms(3)] q(2) by (simp add: drop_guard_spool)
  then have "case ?clean of (Inl _, _) \<Rightarrow> cs_spool st' = cs_spool q | (Inr _, _) \<Rightarrow> given_up (cs_spool st')"
    using clean(1) by (cases ?clean) auto
  then show ?thesis
    unfolding run_end_ok_def process_end.case st' using clean(2) q(1) by (intro conjI bexI [of _ q]) simp_all
qed

text \<open>
  C6 [process_session]: the artifact of a session over OpenSSH may be committed only after the process ended well. A run
  returns an outcome only when the session succeeded and the process then exited with status zero, without being killed,
  and only then the spool is authorized, with its publication registered. A run that returns an error leaves no
  authorization, whether it failed before the start, at the pipes, in the session, at the close or at the exit: it gave
  the artifact up, the spool being disarmed with no publication, or it reports that the links of the session could not be
  proven removed, and the spool stays armed. When a callback of the caller panics, at any event or in the verifier, the
  spool it left is not authorized either, and its links were removed as far as that cleanup succeeded.
\<close>

theorem process_session_authorizes_only_after_a_clean_exit:
  assumes "process_run_snapshot_session p invocation env host start limits
      (session_start r \<lparr>spool_path = path, publication = None, commit_authorized = False, armed = True\<rparr>)
      = Some (e, st, child)"
  shows "run_end_ok env host start limits
      (session_start r \<lparr>spool_path = path, publication = None, commit_authorized = False, armed = True\<rparr>) e st child"
proof -
  let ?st = "session_start r \<lparr>spool_path = path, publication = None, commit_authorized = False, armed = True\<rparr>"
  have held: "held ?st" by (simp add: session_start_def held_def)
  note run = assms [unfolded process_run_snapshot_session_def Let_def transport_error_def]
  obtain res s where session: "run_snapshot_session_deferred env host start limits ?st = (res, s)" by fastforce
  show ?thesis
  proof (cases "panicked_session p env host start limits ?st")
    case (Some q)
    with run show ?thesis
      using give_up_end [OF held] panicked_session_end [OF Some held]
      by (auto simp: bind_eq_Some_conv split: if_splits)
  next
    case None
    show ?thesis
    proof (cases res)
      case (Inl err)
      with run None session show ?thesis
        using give_up_end [OF held] failed_session_gives_up [OF session [unfolded Inl] held]
        by (auto simp: bind_eq_Some_conv run_end_ok_def split: if_splits)
    next
      case (Inr out)
      have "held s" using deferred_held [OF session [unfolded Inr] held] .
      with run None session Inr show ?thesis
        using give_up_end [OF held] succeeded_session_end [OF session [unfolded Inr]]
        by (auto split: if_splits)
    qed
  qed
qed

text \<open>The example session over the example invocation.\<close>

definition mac_process :: process_answers where
  "mac_process = \<lparr>pa_cancelled = False, pa_start = 0, pa_identity = (\<lambda>_. mac_fs), pa_trust = sw_check mac_snapshot_world,
     pa_spawn = True, pa_stdin = True, pa_stdout = True, pa_stderr = True, pa_drain = True, pa_stdout_reader = True,
     pa_writer = True, pa_panic = None, pa_abort = AbortActive,
     pa_cancel = \<lparr>cn_start = 0, cn_send = [], cn_result = []\<rparr>,
     pa_close = \<lparr>ct_send = [((False, 10), SendFull), ((False, 20), Sent)], ct_result = [((False, 30), ResultOk)]\<rparr>,
     pa_close_seen = (False, 0),
     pa_exit = [\<lparr>et_observation = (False, 40), et_wait = StillRunning, et_now = 40\<rparr>,
       \<lparr>et_observation = (False, 50), et_wait = Exited (Some 0), et_now = 50\<rparr>],
     pa_failure_seen = (False, 0), pa_observe_start = 0, pa_observe = [], pa_failure_again = (False, 0),
     pa_kill = True, pa_reap_start = 0, pa_reap = []\<rparr>"

lemma mac_close:
  "writer_close (pa_close mac_process) (AbortController_new SSH_OPERATION_TIMEOUT)
     = Some (True, AbortController_new SSH_OPERATION_TIMEOUT)"
  by (simp add: writer_close_def run_command_def mac_process_def checkpoint_def abort_observe_def abort_mark_def
      AbortController_new_def SSH_OPERATION_TIMEOUT_def Let_def)

lemma mac_exit:
  "wait_for_successful_exit mac_process SSH_OPERATION_TIMEOUT (AbortController_new SSH_OPERATION_TIMEOUT)
     (pa_exit mac_process) = Some (Ok (), ChildExited (Some 0))"
  by (simp add: mac_process_def classify_abort_def abort_observe_def abort_mark_def AbortController_new_def
      SSH_OPERATION_TIMEOUT_def Let_def)

lemma mac_process_returns:
  "\<exists>st. process_run_snapshot_session mac_process mac_invocation example_session_env example_host snapshot_start
      git_snapshot_archive_limits (session_start example_connection example_spool)
    = Some (Returned (Ok example_outcome), st, ChildExited (Some 0))"
proof -
  obtain st where run: "run_snapshot_session_uncommitted example_session_env example_host snapshot_start
      git_snapshot_archive_limits (session_start example_connection example_spool) = (Ok example_outcome, st)"
      "publication (cs_spool st) \<noteq> None"
    using run_uncommitted_served [OF example_prepared_ok example_host_links(1) example_upload_ok example_host_links(2)
      example_worker_follows example_host_serves example_connection_data]
    unfolding example_outcome_def by blast
  have "armed (cs_spool st)"
    using run_uncommitted_armed(1) [OF run(1)] example_host_links(3) by (simp add: session_start_def)
  then have "authorize_commit (cs_spool st) = (Ok (), (cs_spool st)\<lparr>commit_authorized := True\<rparr>)"
    using run(2) by (simp add: authorize_commit_def)
  moreover have "pa_start mac_process + invocation_timeout mac_invocation = SSH_OPERATION_TIMEOUT"
      "(AbortController_new SSH_OPERATION_TIMEOUT)\<lparr>abort_reason := pa_abort mac_process\<rparr>
        = AbortController_new SSH_OPERATION_TIMEOUT" "pa_panic mac_process = None"
      "revalidate_identity_file (pa_identity mac_process) mac_invocation = Ok ()"
      "revalidate_trust_snapshot (pa_trust mac_process) mac_invocation = Ok ()"
      "\<not> pa_cancelled mac_process" "pa_spawn mac_process" "pa_stdin mac_process" "pa_stdout mac_process"
      "pa_stderr mac_process" "pa_drain mac_process" "pa_stdout_reader mac_process" "pa_writer mac_process"
    using mac_revalidates by (simp_all add: mac_process_def mac_invocation_def AbortController_new_def)
  ultimately show ?thesis
    using run(1) mac_close mac_exit
    by (simp add: process_run_snapshot_session_def panicked_session_def Let_def run_snapshot_session_deferred_def
        finish_successful_session_def)
qed

theorem process_session_authorizes_only_after_a_clean_exit_witness:
  "\<exists>st. process_run_snapshot_session mac_process mac_invocation example_session_env example_host snapshot_start
      git_snapshot_archive_limits (session_start example_connection example_spool)
      = Some (Returned (Ok example_outcome), st, ChildExited (Some 0))
    \<and> commit_authorized (cs_spool st) \<and> armed (cs_spool st) \<and> publication (cs_spool st) \<noteq> None"
proof -
  obtain st where run: "process_run_snapshot_session mac_process mac_invocation example_session_env example_host
      snapshot_start git_snapshot_archive_limits (session_start example_connection example_spool)
      = Some (Returned (Ok example_outcome), st, ChildExited (Some 0))"
    using mac_process_returns by blast
  with process_session_authorizes_only_after_a_clean_exit [OF run [unfolded example_spool_def]] show ?thesis
    by (auto simp: run_end_ok_def)
qed

theorem interruptible_reads_are_exact_witness:
  "read_some 2 (reader_of (InterruptibleReader_new (AbortController_new 100))
      [((False, 0), ReceiveTimeout), ((False, 10), Received (StdoutBytes ''abc''))])
    = (Some ''ab'', reader_of ((InterruptibleReader_new (AbortController_new 100))\<lparr>ir_pending := ''c''\<rparr>) [])"
  using interruptible_reads_are_exact [where n = 2 and r = "InterruptibleReader_new (AbortController_new 100)"
      and ts = "[((False, 0), ReceiveTimeout), ((False, 10), Received (StdoutBytes ''abc''))]"]
  by (simp add: InterruptibleReader_new_def AbortController_new_def checkpoint_def abort_observe_def Let_def)

end
