(* ===== verification/Worker_Root.thy ===== *)
theory Worker_Root
  imports Artifact_Spool
begin

text \<open>
  The private directory of one worker job (\<^verbatim>\<open>src/crates/rustferry-worker-macos/src/snapshot_session.rs\<close>,
  \<open>JobRootGuard\<close>): its creation below the worker root, the identity checks before every use, and its removal,
  which is confirmed only when the retained handle shows that the directory is gone. Also the session's failures
  and its small file helpers.

  File identities are those of the \<open>same_file\<close> crate; every answer of the operating system is an argument. The Unix
  build is modelled.
\<close>

section \<open>Failures\<close>

record SessionFailure =
  failure_code :: string
  failure_message :: string
  failure_retryable :: bool

definition failure_invalid :: "string \<Rightarrow> SessionFailure" where
  "failure_invalid code =
     \<lparr>failure_code = code, failure_message = ''snapshot session input was rejected'', failure_retryable = False\<rparr>"

definition failure_internal :: "string \<Rightarrow> SessionFailure" where
  "failure_internal code =
     \<lparr>failure_code = code, failure_message = ''snapshot worker could not complete the build'', failure_retryable = False\<rparr>"

definition failure_output :: "string \<Rightarrow> SessionFailure" where
  "failure_output code =
     \<lparr>failure_code = code, failure_message = ''snapshot worker transport could not complete'', failure_retryable = True\<rparr>"

definition failure_cleanup :: "string \<Rightarrow> SessionFailure" where
  "failure_cleanup code =
     \<lparr>failure_code = code, failure_message = ''snapshot worker cleanup could not be confirmed'', failure_retryable = False\<rparr>"

definition failure_cancelled :: SessionFailure where
  "failure_cancelled =
     \<lparr>failure_code = ''snapshot_build_cancelled'', failure_message = ''snapshot build was cancelled'',
      failure_retryable = True\<rparr>"

definition failure_frame :: "WorkerDataPlaneFrameError \<Rightarrow> SessionFailure" where
  "failure_frame e =
     (if e = Io then failure_output ''session_io_failed''
      else if e \<in> {EmptyInput, TruncatedHeader, TruncatedPayload} then failure_output ''session_input_truncated''
      else failure_invalid ''session_frame_invalid'')"

section \<open>The worker root and the job root\<close>

type_synonym handle = "u64 \<times> u64"

record JobRootGuard =
  root_worker_root :: string
  root_worker_root_identity :: handle
  root_name :: string
  root_path :: string
  root_directory :: bool
  root_identity :: "handle option"
  root_owned :: bool

record directory_entry =
  entry_is_dir :: bool
  entry_is_symlink :: bool

text \<open>\<open>Utf8Path::join\<close> with a relative name, on a path that does not end in a separator.\<close>

definition path_join :: "string \<Rightarrow> string \<Rightarrow> string" where
  "path_join p n = p @ ''/'' @ n"

text \<open>The mask of the permission check is octal 022, that is 18.\<close>

record worker_root_answers =
  wr_canonical :: "string option"
  wr_metadata :: "directory_entry option"
  wr_mode :: u32

definition validate_worker_root :: "worker_root_answers \<Rightarrow> string \<Rightarrow> SessionFailure + unit" where
  "validate_worker_root a path =
     (if \<not> is_absolute path \<or> path_components path = [] then Err (failure_internal ''worker_root_invalid'')
      else case wr_canonical a of
          None \<Rightarrow> Err (failure_internal ''worker_root_invalid'')
        | Some canonical \<Rightarrow>
      if path_components canonical \<noteq> path_components path then Err (failure_internal ''worker_root_invalid'')
      else case wr_metadata a of
          None \<Rightarrow> Err (failure_internal ''worker_root_invalid'')
        | Some m \<Rightarrow>
      if entry_is_symlink m \<or> \<not> entry_is_dir m then Err (failure_internal ''worker_root_invalid'')
      else if and (wr_mode a) 18 \<noteq> 0 then Err (failure_internal ''worker_root_permissions_invalid'')
      else Ok ())"

text \<open>The answers of one removal: the identity of the open handle, the removal, the link count, the sync.\<close>

datatype removal_answer = TreeRemoved | TreeNotFound | TreeNotRemoved

record root_removal =
  rr_open_identity :: "handle option"
  rr_remove :: removal_answer
  rr_unlinked :: "bool option"
  rr_sync :: bool

definition cleanup_with_boundary :: "root_removal \<Rightarrow> JobRootGuard \<Rightarrow> (SessionFailure + unit) \<times> JobRootGuard" where
  "cleanup_with_boundary a g =
     (if \<not> root_owned g then (Err (failure_cleanup ''job_root_changed''), g)
      else case root_identity g of
          None \<Rightarrow> (Err (failure_cleanup ''job_root_changed''), g)
        | Some identity \<Rightarrow>
      if \<not> root_directory g then (Err (failure_cleanup ''job_root_changed''), g)
      else if rr_open_identity a \<noteq> Some identity then (Err (failure_cleanup ''job_root_changed''), g)
      else
        let g = g\<lparr>root_directory := False, root_identity := None\<rparr> in
        if rr_remove a = TreeNotRemoved then (Err (failure_cleanup ''worker_cleanup_failed''), g)
        else if rr_unlinked a \<noteq> Some True then (Err (failure_cleanup ''worker_cleanup_failed''), g)
        else
          let g = g\<lparr>root_owned := False\<rparr> in
          if \<not> rr_sync a then (Err (failure_cleanup ''worker_cleanup_failed''), g) else (Ok (), g))"

definition root_cleanup :: "root_removal \<Rightarrow> JobRootGuard \<Rightarrow> (SessionFailure + unit) \<times> JobRootGuard" where
  "root_cleanup a g = cleanup_with_boundary a g"

text \<open>\<open>Drop\<close>: an owned root is cleaned up once more and the result ignored.\<close>

definition root_drop :: "root_removal \<Rightarrow> JobRootGuard \<Rightarrow> JobRootGuard" where
  "root_drop a g = (if root_owned g then snd (root_cleanup a g) else g)"

record root_probe =
  rp_open_worker_root :: "handle option"
  rp_named_worker_root :: "handle option"
  rp_open_job_root :: "handle option"
  rp_named_job_root :: "handle option"
  rp_path_job_root :: "handle option"

definition root_verify :: "root_probe \<Rightarrow> JobRootGuard \<Rightarrow> SessionFailure + unit" where
  "root_verify a g =
     (if \<not> root_directory g then Err (failure_cleanup ''job_root_changed'')
      else case root_identity g of
          None \<Rightarrow> Err (failure_cleanup ''job_root_changed'')
        | Some identity \<Rightarrow>
      if \<not> root_owned g \<or> rp_open_worker_root a \<noteq> Some (root_worker_root_identity g)
        \<or> rp_named_worker_root a \<noteq> Some (root_worker_root_identity g)
        \<or> rp_open_job_root a \<noteq> Some identity \<or> rp_named_job_root a \<noteq> Some identity \<or> rp_path_job_root a \<noteq> Some identity
      then Err (failure_cleanup ''job_root_changed'')
      else Ok ())"

definition clone_directory_handle :: "root_probe \<Rightarrow> bool \<Rightarrow> JobRootGuard \<Rightarrow> SessionFailure + unit" where
  "clone_directory_handle a cloned g =
     and_then (root_verify a g) (\<lambda>_.
       if \<not> root_directory g \<or> \<not> cloned then Err (failure_cleanup ''job_root_changed'') else Ok ())"

section \<open>Files\<close>

definition create_private_file :: "bool \<Rightarrow> SessionFailure + unit" where
  "create_private_file opened = (if opened then Ok () else Err (failure_internal ''worker_file_create_failed''))"

definition create_private_directory :: "bool \<Rightarrow> SessionFailure + unit" where
  "create_private_directory created =
     (if created then Ok () else Err (failure_internal ''worker_directory_create_failed''))"

definition sync_directory :: "bool \<Rightarrow> SessionFailure + unit" where
  "sync_directory synced = (if synced then Ok () else Err (failure_internal ''worker_directory_sync_failed''))"

definition remove_exact_file :: "file_metadata option \<Rightarrow> bool \<Rightarrow> SessionFailure + unit" where
  "remove_exact_file metadata removed =
     (case metadata of
        None \<Rightarrow> Err (failure_internal ''source_archive_cleanup_failed'')
      | Some m \<Rightarrow>
          if md_is_symlink m \<or> \<not> md_is_file m then Err (failure_internal ''source_archive_cleanup_failed'')
          else if removed then Ok () else Err (failure_internal ''source_archive_cleanup_failed''))"

section \<open>Creating the job root\<close>

record root_creation =
  jc_root :: worker_root_answers
  jc_open_root :: bool
  jc_root_identity :: "handle option"
  jc_root_path_identity :: "handle option"
  jc_created :: bool
  jc_identity :: "handle option"
  jc_named :: "directory_entry option"
  jc_opened :: "directory_entry option"
  jc_path_identity :: "handle option"
  jc_marker_json :: bool
  jc_marker_created :: bool
  jc_marker_written :: bool
  jc_directory_synced :: bool

definition plain_directory :: "directory_entry option \<Rightarrow> bool" where
  "plain_directory d \<longleftrightarrow> (case d of None \<Rightarrow> False | Some m \<Rightarrow> entry_is_dir m \<and> \<not> entry_is_symlink m)"

text \<open>
  The directory is created, opened and compared with its name before the guard owns it; once it does, a failure
  to write the marker cleans it up, and the result of that cleanup is ignored.
\<close>

definition JobRootGuard_create :: "root_creation \<Rightarrow> string \<Rightarrow> string \<Rightarrow> SessionFailure + JobRootGuard" where
  "JobRootGuard_create a worker_root job_id =
     and_then (validate_worker_root (jc_root a) worker_root) (\<lambda>_.
     if \<not> jc_open_root a then Err (failure_internal ''worker_root_invalid'')
     else case jc_root_identity a of
         None \<Rightarrow> Err (failure_internal ''worker_root_invalid'')
       | Some root_id \<Rightarrow>
     if jc_root_path_identity a \<noteq> Some root_id then Err (failure_internal ''worker_root_invalid'')
     else
       let name = ''rustferry-compile-'' @ job_id; path = path_join worker_root name in
       if \<not> jc_created a then Err (failure_internal ''job_root_create_failed'')
       else case jc_identity a of
           None \<Rightarrow> Err (failure_internal ''job_root_create_failed'')
         | Some identity \<Rightarrow>
       if \<not> plain_directory (jc_named a) \<or> \<not> plain_directory (jc_opened a) \<or> jc_path_identity a \<noteq> Some identity
       then Err (failure_internal ''job_root_create_failed'')
       else
         let guard = \<lparr>root_worker_root = worker_root, root_worker_root_identity = root_id, root_name = name,
           root_path = path, root_directory = True, root_identity = Some identity, root_owned = True\<rparr> in
         if \<not> jc_marker_json a then Err (failure_internal ''job_marker_failed'')
         else and_then (create_private_file (jc_marker_created a)) (\<lambda>_.
           if \<not> jc_marker_written a then Err (failure_internal ''job_marker_failed'')
           else and_then (sync_directory (jc_directory_synced a)) (\<lambda>_. Ok guard)))"

section \<open>What the guard confirms\<close>

text \<open>
  A removal is confirmed only when the handle opened at creation still named the directory, its tree was removed
  or already gone, and its link count showed that it is unlinked; afterwards the guard owns nothing, so that no later
  cleanup or drop touches the path again.
\<close>

lemma root_cleanup_Ok:
  assumes "root_cleanup a g = (Ok (), g')"
  shows "root_owned g" "root_identity g \<noteq> None" "rr_open_identity a = root_identity g" "rr_remove a \<noteq> TreeNotRemoved"
    "rr_unlinked a = Some True" "rr_sync a" "\<not> root_owned g'"
    "g' = g\<lparr>root_directory := False, root_identity := None, root_owned := False\<rparr>"
  using assms by (auto simp: root_cleanup_def cleanup_with_boundary_def Let_def split: if_splits option.splits)

lemma root_cleanup_once: "\<not> root_owned g \<Longrightarrow> root_cleanup a g = (Err (failure_cleanup ''job_root_changed''), g)"
  by (simp add: root_cleanup_def cleanup_with_boundary_def)

text \<open>After a removal that was not confirmed, a second one has no handle left to act on.\<close>

lemma root_cleanup_failed:
  assumes "root_cleanup a g = (Err e, g')"
  shows "root_owned g' \<longrightarrow> root_owned g"
    "g' = g \<or> \<not> root_directory g' \<and> root_identity g' = None"
    "g' \<noteq> g \<Longrightarrow> is_ok (fst (root_cleanup b g')) = False"
  using assms by (auto simp: root_cleanup_def cleanup_with_boundary_def Let_def split: if_splits option.splits)

lemma root_verify_owned:
  assumes "root_verify a g = Ok ()"
  obtains identity where "root_owned g" "root_directory g" "root_identity g = Some identity"
    "rp_open_job_root a = Some identity" "rp_named_job_root a = Some identity" "rp_path_job_root a = Some identity"
  using assms by (auto simp: root_verify_def split: if_splits option.splits)

lemma JobRootGuard_create_Ok:
  assumes "JobRootGuard_create a worker_root job_id = Ok g"
  shows "root_owned g" "root_directory g" "root_identity g \<noteq> None" "root_identity g = jc_path_identity a"
    "root_path g = path_join worker_root (''rustferry-compile-'' @ job_id)" "and (wr_mode (jc_root a)) 18 = 0"
  using assms by (auto simp: JobRootGuard_create_def validate_worker_root_def and_then_Inr_iff Let_def create_private_file_def
      sync_directory_def split: if_splits option.splits)

end
