(* ===== verification/Worker_Session.thy ===== *)
theory Worker_Session
  imports Worker_Root
begin

text \<open>
  One worker session (\<^verbatim>\<open>src/crates/rustferry-worker-macos/src/snapshot_session.rs\<close>): it reads the build request, the
  source descriptor and the archive, compiles, streams the artifact, waits for the client's receipt, removes the job
  directory and completes; every failure is answered by one error frame after the directory was removed.

  The state of a session is everything the functions of the source mutate. The JSON codecs, SHA-256, the extraction of
  the source bundle, the compiler, the clock and the answers of the operating system are arguments. The input is the
  \<open>reader\<close> that the two threads of the source read in turn.
\<close>

definition SSH_STDIO_PROVIDER_ID :: string where "SSH_STDIO_PROVIDER_ID = ''ssh-macos''"
definition SSH_STDIO_WORKER_ID :: string where "SSH_STDIO_WORKER_ID = ''macos-stdio''"
definition ARTIFACTS_DIRECTORY_NAME :: string where "ARTIFACTS_DIRECTORY_NAME = ''artifacts''"
definition UNSIGNED_ARCHIVE_NAME :: string where "UNSIGNED_ARCHIVE_NAME = ''unsigned-archive.zip''"
definition UNSIGNED_ARTIFACT_ID :: string where "UNSIGNED_ARTIFACT_ID = ''unsigned-xcarchive''"

section \<open>The inactivity reader\<close>

text \<open>
  The reader thread hands over chunks through a channel; a read waits for the next chunk until the total or the
  inactivity deadline. Whether a deadline has passed and what the channel delivers are the answers of one read.
\<close>

datatype InputChunk = InputBytes bytes | InputEnd | InputError

datatype recv_answer = Received InputChunk | RecvTimeout | RecvDisconnected

record read_answers =
  ra_deadline_passed :: bool
  ra_no_time_left :: bool
  ra_recv :: recv_answer

record InactivityReader =
  ir_buffered :: bytes
  ir_offset :: nat
  ir_total_deadline :: bool
  ir_timed_out :: bool

definition disable_deadlines :: "InactivityReader \<Rightarrow> InactivityReader" where
  "disable_deadlines ir = ir\<lparr>ir_total_deadline := False\<rparr>"

definition ir_receive :: "read_answers \<Rightarrow> InactivityReader \<Rightarrow> InputChunk option \<times> InactivityReader" where
  "ir_receive a ir =
     (if ir_total_deadline ir \<and> ra_no_time_left a then (None, ir\<lparr>ir_timed_out := True\<rparr>)
      else case ra_recv a of
          Received c \<Rightarrow> (Some c, ir)
        | RecvTimeout \<Rightarrow> (None, if ir_total_deadline ir then ir\<lparr>ir_timed_out := True\<rparr> else ir)
        | RecvDisconnected \<Rightarrow> (None, ir))"

definition take_buffered :: "nat \<Rightarrow> InactivityReader \<Rightarrow> bytes option \<times> InactivityReader" where
  "take_buffered n ir =
     (let available = drop (ir_offset ir) (ir_buffered ir); count = min (length available) n in
      (Some (take count available), ir\<lparr>ir_offset := ir_offset ir + count\<rparr>))"

definition ir_read :: "read_answers \<Rightarrow> nat \<Rightarrow> InactivityReader \<Rightarrow> bytes option \<times> InactivityReader" where
  "ir_read a n ir =
     (if n = 0 then (Some [], ir)
      else if ir_total_deadline ir \<and> ra_deadline_passed a then (None, ir\<lparr>ir_timed_out := True\<rparr>)
      else if ir_offset ir = length (ir_buffered ir) then
        (case ir_receive a ir of
           (None, ir') \<Rightarrow> (None, ir')
         | (Some (InputBytes b), ir') \<Rightarrow> take_buffered n (ir'\<lparr>ir_buffered := b, ir_offset := 0\<rparr>)
         | (Some InputEnd, ir') \<Rightarrow> (Some [], ir')
         | (Some InputError, ir') \<Rightarrow> (None, ir'))
      else take_buffered n ir)"

text \<open>
  What a reader over the chunks still in the channel would deliver: the rest of the buffer, then the chunks, up to the
  end or the error with which the reading thread stops.
\<close>

fun chunk_events :: "InputChunk list \<Rightarrow> reader" where
  "chunk_events [] = []"
| "chunk_events (InputBytes b # cs) = Chunk b # chunk_events cs"
| "chunk_events (InputEnd # cs) = []"
| "chunk_events (InputError # cs) = [ReadError]"

definition input_events :: "InactivityReader \<Rightarrow> InputChunk list \<Rightarrow> reader" where
  "input_events ir cs =
     (if ir_offset ir = length (ir_buffered ir) then chunk_events cs
      else Chunk (drop (ir_offset ir) (ir_buffered ir)) # chunk_events cs)"

text \<open>
  C33 [input_lossless]: handing the input over through a channel loses, repeats and reorders nothing. While no deadline
  passes, a read from the inactivity reader with the chunk \<open>c\<close> at the head of the channel returns what the same read of
  the undivided input returns, leaves what that read leaves, takes the chunk only when the buffer was empty, and never
  reports a timeout; a read of no bytes changes nothing.
\<close>

theorem inactivity_reader_is_lossless:
  assumes "ir_offset ir \<le> length (ir_buffered ir)" "\<not> ra_deadline_passed a" "\<not> ra_no_time_left a" "ra_recv a = Received c"
    and "c \<noteq> InputBytes []" "c = InputError \<longrightarrow> cs = []"
  shows "(case ir_read a n ir of (res, ir') \<Rightarrow>
      if n = 0 then res = Some [] \<and> ir' = ir
      else
        let taken = ir_offset ir = length (ir_buffered ir) in
        res = fst (read_some n (input_events ir (c # cs)))
        \<and> (c = InputEnd \<and> taken \<or> input_events ir' (if taken then cs else c # cs) = snd (read_some n (input_events ir (c # cs))))
        \<and> ir_offset ir' \<le> length (ir_buffered ir') \<and> ir_timed_out ir' = ir_timed_out ir)"
proof (cases "ir_offset ir = length (ir_buffered ir)")
  case True
  then show ?thesis
    using assms by (cases c) (auto simp: ir_read_def ir_receive_def take_buffered_def input_events_def Let_def min_def)
next
  case False
  then have "drop (ir_offset ir) (ir_buffered ir) \<noteq> []" using assms(1) by simp
  with False show ?thesis
    using assms by (auto simp: ir_read_def take_buffered_def input_events_def Let_def min_def add.commute)
qed

theorem inactivity_reader_is_lossless_witness:
  "fst (ir_read \<lparr>ra_deadline_passed = False, ra_no_time_left = False, ra_recv = Received (InputBytes ''abc'')\<rparr> 2
     \<lparr>ir_buffered = [], ir_offset = 0, ir_total_deadline = True, ir_timed_out = False\<rparr>) = Some ''ab''"
  using inactivity_reader_is_lossless [of "\<lparr>ir_buffered = [], ir_offset = 0, ir_total_deadline = True, ir_timed_out = False\<rparr>"
      "\<lparr>ra_deadline_passed = False, ra_no_time_left = False, ra_recv = Received (InputBytes ''abc'')\<rparr>" "InputBytes ''abc''" "[]" 2]
  by (simp add: input_events_def split: prod.splits)

section \<open>Session state and environment\<close>

record worker_session =
  wk_reader :: reader
  wk_input_sequence :: WorkerDataPlaneSequence
  wk_writer :: writer
  wk_output_sequence :: u64
  wk_event_sequence :: u64
  wk_operation_id :: "string option"
  wk_job_id :: "string option"
  wk_root :: "JobRootGuard option"
  wk_archive_file :: writer

definition Session_new :: "reader \<Rightarrow> writer \<Rightarrow> worker_session" where
  "Session_new r w =
     \<lparr>wk_reader = r, wk_input_sequence = WorkerDataPlaneSequence_new, wk_writer = w, wk_output_sequence = 0,
      wk_event_sequence = 0, wk_operation_id = None, wk_job_id = None, wk_root = None,
      wk_archive_file = \<lparr>written = [], capacity = None\<rparr>\<rparr>"

record SnapshotCompileOutput =
  out_handoff :: CompileHandoff
  out_artifact_path :: string

record SnapshotCompileFailure =
  compile_code :: string
  compile_message :: string
  compile_retryable :: bool

record worker_env =
  we_request :: request_env
  we_event :: event_env
  we_usize_max :: nat
  we_worker_root :: string
  we_start :: "bytes \<Rightarrow> SnapshotBuildStart option"
  we_descriptor :: "bytes \<Rightarrow> SourceBundleDescriptor option"
  we_receipt :: "bytes \<Rightarrow> SnapshotArtifactReceipt option"
  we_accepted_json :: "SnapshotJobAccepted \<Rightarrow> bytes option"
  we_event_json :: "RemoteBuildEvent \<Rightarrow> bytes option"
  we_artifact_json :: "SnapshotArtifactDescriptor \<Rightarrow> bytes option"
  we_complete_json :: "SnapshotBuildComplete \<Rightarrow> bytes option"
  we_error_json :: "SnapshotSessionError \<Rightarrow> bytes option"
  we_extract :: "SourceBundleDescriptor \<Rightarrow> bytes \<Rightarrow> bool"
  we_compile :: "IosDeviceBuildRequest \<Rightarrow> string \<Rightarrow> string \<Rightarrow> SnapshotCompileFailure + SnapshotCompileOutput"

text \<open>
  When the control thread handles the client's fourth frame: while the compiler runs, so that a cancellation is seen
  before its result is used; later but before the artifact was sent; after the artifact was sent; not before the
  receipt deadline; or never, because the thread stopped without a message.
\<close>

datatype control_arrival = DuringCompile | BeforeArtifactSent | AfterArtifactSent | AfterDeadline | ControlStopped

record artifact_file =
  af_metadata :: "file_metadata option"
  af_opened :: bool
  af_identity :: "handle option"
  af_path_identity :: "handle option"
  af_reader :: reader
  af_path_identity_after :: "handle option"

record worker_host =
  wh_reader_spawned :: bool
  wh_timed_out :: bool
  wh_uuid :: string
  wh_creation :: root_creation
  wh_probe_archive :: root_probe
  wh_archive_created :: bool
  wh_archive_capacity :: "nat option"
  wh_archive_synced :: bool
  wh_probe_extract :: root_probe
  wh_probe_clone :: root_probe
  wh_cloned :: bool
  wh_archive_metadata :: "file_metadata option"
  wh_archive_removed :: bool
  wh_probe_removed :: root_probe
  wh_output_created :: bool
  wh_control_spawned :: bool
  wh_accepted_at :: u64
  wh_event_at :: "u64 \<Rightarrow> u64"
  wh_build_flush :: bool
  wh_control_arrival :: control_arrival
  wh_artifact :: artifact_file
  wh_artifact_flush :: bool
  wh_removal :: root_removal
  wh_cleanup_at :: u64
  wh_final_flush :: bool
  wh_failure_removal :: root_removal
  wh_failure_cleanup_at :: u64
  wh_failure_flush :: bool

type_synonym 'a worker_result = "(SessionFailure + 'a) \<times> worker_session"

section \<open>Writing\<close>

definition write_json :: "('a \<Rightarrow> bytes option) \<Rightarrow> WorkerDataPlaneFrameKind \<Rightarrow> 'a \<Rightarrow> worker_session \<Rightarrow> unit worker_result" where
  "write_json to_vec k x st =
     (case to_vec x of
        None \<Rightarrow> (Err (failure_internal ''response_encoding_failed''), st)
      | Some payload \<Rightarrow>
          (case write_worker_data_plane_frame (wk_writer st) k (wk_output_sequence st) payload of
             (Inl e, w) \<Rightarrow> (Err (failure_frame e), st\<lparr>wk_writer := w\<rparr>)
           | (Inr _, w) \<Rightarrow>
               (case checked_add (wk_output_sequence st) 1 of
                  None \<Rightarrow> (Err (failure_internal ''output_sequence_exhausted''), st\<lparr>wk_writer := w\<rparr>)
                | Some n \<Rightarrow> (Ok (), st\<lparr>wk_writer := w, wk_output_sequence := n\<rparr>))))"

definition emit_event ::
    "worker_env \<Rightarrow> worker_host \<Rightarrow> IosDeviceBuildRequest \<Rightarrow> string \<Rightarrow> RemoteBuildEventKind \<Rightarrow> worker_session
     \<Rightarrow> unit worker_result" where
  "emit_event env host req phase k st =
     (case wk_job_id st of
        None \<Rightarrow> (Err (failure_internal ''job_id_missing''), st)
      | Some job_id \<Rightarrow>
          (case RemoteBuildEvent_new (we_event env) (request_operation_id req) job_id (wh_event_at host (wk_event_sequence st))
              SSH_STDIO_PROVIDER_ID phase (wk_event_sequence st) k of
             Inl _ \<Rightarrow> (Err (failure_internal ''event_invalid''), st)
           | Inr event \<Rightarrow>
               (case checked_add (wk_event_sequence st) 1 of
                  None \<Rightarrow> (Err (failure_internal ''event_sequence_exhausted''), st)
                | Some n \<Rightarrow> write_json (we_event_json env) Event event (st\<lparr>wk_event_sequence := n\<rparr>))))"

fun emit_events ::
    "worker_env \<Rightarrow> worker_host \<Rightarrow> IosDeviceBuildRequest \<Rightarrow> (string \<times> RemoteBuildEventKind) list \<Rightarrow> worker_session
     \<Rightarrow> unit worker_result" where
  "emit_events env host req [] st = (Ok (), st)"
| "emit_events env host req ((phase, k) # ks) st =
     and_next (emit_event env host req phase k st) (\<lambda>_. emit_events env host req ks)"

definition flush_step :: "bool \<Rightarrow> worker_session \<Rightarrow> unit worker_result" where
  "flush_step flushed st = (if flushed then Ok () else Err (failure_output ''output_flush_failed''), st)"

text \<open>The bytes a hashing reader has seen when its inner reader went from one state to another.\<close>

definition drawn :: "reader \<Rightarrow> reader \<Rightarrow> bytes" where
  "drawn r r' = take (length (reader_data r) - length (reader_data r')) (reader_data r)"

definition stream_artifact ::
    "worker_env \<Rightarrow> artifact_file \<Rightarrow> SnapshotArtifactDescriptor \<Rightarrow> worker_session \<Rightarrow> unit worker_result" where
  "stream_artifact env f d st =
     (case af_metadata f of
        None \<Rightarrow> (Err (failure_internal ''artifact_open_failed''), st)
      | Some m \<Rightarrow>
     if md_is_symlink m \<or> \<not> md_is_file m then (Err (failure_internal ''artifact_not_regular''), st)
     else if \<not> af_opened f then (Err (failure_internal ''artifact_open_failed''), st)
     else (case af_identity f of
        None \<Rightarrow> (Err (failure_internal ''artifact_open_failed''), st)
      | Some identity \<Rightarrow>
     if md_len m \<noteq> artifact_size (ad_artifact d) \<or> af_path_identity f \<noteq> Some identity
     then (Err (failure_internal ''artifact_identity_mismatch''), st)
     else (case write_worker_data_plane_stream (wk_writer st) Artifact (wk_output_sequence st) (af_reader f)
         (artifact_size (ad_artifact d)) of
        (Inl e, r, w) \<Rightarrow> (Err (failure_frame e), st\<lparr>wk_writer := w\<rparr>)
      | (Inr _, r, w) \<Rightarrow>
     (case checked_add (wk_output_sequence st) 1 of
        None \<Rightarrow> (Err (failure_internal ''output_sequence_exhausted''), st\<lparr>wk_writer := w\<rparr>)
      | Some n \<Rightarrow>
          let st = st\<lparr>wk_writer := w, wk_output_sequence := n\<rparr> in
          if HashingReader_finish (env_sha256 (we_request env)) (drawn (af_reader f) r)
              \<noteq> (artifact_size (ad_artifact d), artifact_sha256 (ad_artifact d))
            \<or> af_path_identity_after f \<noteq> Some identity
          then (Err (failure_internal ''artifact_changed_during_stream''), st)
          else (Ok (), st)))))"

definition cleanup_root :: "root_removal \<Rightarrow> u64 \<Rightarrow> worker_session \<Rightarrow> CleanupConfirmation worker_result" where
  "cleanup_root a at st =
     (case wk_job_id st of
        None \<Rightarrow> (Err (failure_internal ''job_id_missing''), st)
      | Some job_id \<Rightarrow>
          (case wk_root st of
             None \<Rightarrow> (Err (failure_internal ''job_root_missing''), st)
           | Some root \<Rightarrow>
               (case root_cleanup a root of
                  (Inl e, root') \<Rightarrow> (Err e, st\<lparr>wk_root := Some root'\<rparr>)
                | (Inr _, root') \<Rightarrow>
                    (Ok \<lparr>cleanup_job_id = job_id, completed_at_ms = at, workspace_removed = True,
                        signing_material_removed = True, artifacts_retained = False\<rparr>, st\<lparr>wk_root := None\<rparr>))))"

section \<open>Reading\<close>

definition frame_failure :: "worker_host \<Rightarrow> WorkerDataPlaneFrameError \<Rightarrow> SessionFailure" where
  "frame_failure host e =
     (if wh_timed_out host then failure_output ''session_input_timed_out'' else failure_frame e)"

definition read_expected_header ::
    "worker_host \<Rightarrow> WorkerDataPlaneFrameKind \<Rightarrow> worker_session \<Rightarrow> WorkerDataPlaneFrameHeader worker_result" where
  "read_expected_header host wanted st =
     (case read_worker_data_plane_header (wk_reader st) of
        (Inl e, r) \<Rightarrow> (Err (frame_failure host e), st\<lparr>wk_reader := r\<rparr>)
      | (Inr h, r) \<Rightarrow>
          (case accept (wk_input_sequence st) h of
             Inl e \<Rightarrow> (Err (failure_frame e), st\<lparr>wk_reader := r\<rparr>)
           | Inr sq \<Rightarrow>
               let st = st\<lparr>wk_reader := r, wk_input_sequence := sq\<rparr> in
               if kind h \<noteq> wanted then (Err (failure_invalid ''unexpected_frame_kind''), st) else (Ok h, st)))"

definition read_worker_payload ::
    "worker_env \<Rightarrow> worker_host \<Rightarrow> WorkerDataPlaneFrameHeader \<Rightarrow> worker_session \<Rightarrow> bytes worker_result" where
  "read_worker_payload env host h st =
     (case read_worker_data_plane_payload (we_usize_max env) (wk_reader st) h of
        (Inl e, r) \<Rightarrow> (Err (frame_failure host e), st\<lparr>wk_reader := r\<rparr>)
      | (Inr payload, r) \<Rightarrow> (Ok payload, st\<lparr>wk_reader := r\<rparr>))"

definition decode_session_json_payload ::
    "worker_env \<Rightarrow> worker_host \<Rightarrow> (bytes \<Rightarrow> 'a option) \<Rightarrow> WorkerDataPlaneFrameHeader \<Rightarrow> worker_session \<Rightarrow> 'a worker_result" where
  "decode_session_json_payload env host from_slice h st =
     and_next (read_worker_payload env host h st) (\<lambda>payload st.
       case from_slice payload of None \<Rightarrow> (Err (failure_invalid ''control_json_invalid''), st) | Some x \<Rightarrow> (Ok x, st))"

definition sha256_bytes :: "worker_env \<Rightarrow> bytes \<Rightarrow> string" where
  "sha256_bytes env b = hex_encode (env_sha256 (we_request env) b)"

text \<open>\<open>HashingWriter\<close>: what went into the file, and its digest.\<close>

definition HashingWriter_finish :: "(bytes \<Rightarrow> bytes) \<Rightarrow> bytes \<Rightarrow> u64 \<times> string" where
  "HashingWriter_finish sha seen =
     (if length seen < 2 ^ 64 then of_nat (length seen) else - 1, hex_encode (sha seen))"

definition receive_source_archive ::
    "worker_env \<Rightarrow> worker_host \<Rightarrow> WorkerDataPlaneFrameHeader \<Rightarrow> SourceBundleDescriptor \<Rightarrow> worker_session \<Rightarrow> unit worker_result" where
  "receive_source_archive env host h d st =
     and_next (pure_step (create_private_file (wh_archive_created host)) st) (\<lambda>_ st.
     (case copy_worker_data_plane_payload (wk_reader st) \<lparr>written = [], capacity = wh_archive_capacity host\<rparr> h of
        (Inl e, r, w) \<Rightarrow> (Err (frame_failure host e), st\<lparr>wk_reader := r, wk_archive_file := w\<rparr>)
      | (Inr copied, r, w) \<Rightarrow>
          let st = st\<lparr>wk_reader := r, wk_archive_file := w\<rparr>; a = bundle_archive d in
          if \<not> wh_archive_synced host then (Err (failure_internal ''source_archive_write_failed''), st)
          else if copied \<noteq> archive_size a
            \<or> HashingWriter_finish (env_sha256 (we_request env)) (written w) \<noteq> (archive_size a, archive_sha256 a)
          then (Err (failure_invalid ''source_archive_digest_mismatch''), st)
          else (Ok (), st)))"

section \<open>The client's control frame\<close>

datatype ClientControl = Receipt bytes | Cancelled | Disconnected | ControlFailure SessionFailure

definition monitor_client_control ::
    "worker_env \<Rightarrow> worker_host \<Rightarrow> bool \<Rightarrow> reader \<Rightarrow> WorkerDataPlaneSequence \<Rightarrow> ClientControl" where
  "monitor_client_control env host receipt_allowed r sq =
     (case read_worker_data_plane_header r of
        (Inr h, r') \<Rightarrow>
          (case accept sq h of
             Inl e \<Rightarrow> ControlFailure (failure_frame e)
           | Inr _ \<Rightarrow>
               if kind h = Cancel then
                 (case fst (read_worker_data_plane_payload (we_usize_max env) r' h) of
                    Inr payload \<Rightarrow>
                      if payload = [] then Cancelled else ControlFailure (failure_invalid ''cancellation_payload_invalid'')
                  | Inl e \<Rightarrow> ControlFailure (failure_frame e))
               else if kind h = ArtifactReceipt then
                 (if receipt_allowed then
                    (case fst (read_worker_data_plane_payload (we_usize_max env) r' h) of
                       Inr payload \<Rightarrow> Receipt payload
                     | Inl e \<Rightarrow> ControlFailure (frame_failure host e))
                  else ControlFailure (failure_invalid ''artifact_receipt_too_early''))
               else ControlFailure (failure_invalid ''unexpected_client_control''))
      | (Inl e, _) \<Rightarrow> if e = EmptyInput then Disconnected else ControlFailure (frame_failure host e))"

definition control_message :: "worker_env \<Rightarrow> worker_host \<Rightarrow> worker_session \<Rightarrow> ClientControl" where
  "control_message env host st =
     monitor_client_control env host (wh_control_arrival host = AfterArtifactSent) (wk_reader st) (wk_input_sequence st)"

text \<open>The message is sent before the token is cancelled, so a cancelled session finds it in the channel.\<close>

definition cancellation_failure :: "ClientControl \<Rightarrow> SessionFailure" where
  "cancellation_failure m = (case m of ControlFailure e \<Rightarrow> e | _ \<Rightarrow> failure_cancelled)"

definition compile_cancelled :: "worker_env \<Rightarrow> worker_host \<Rightarrow> worker_session \<Rightarrow> bool" where
  "compile_cancelled env host st \<longleftrightarrow> wh_control_arrival host = DuringCompile
     \<and> \<not> (case control_message env host st of Receipt _ \<Rightarrow> True | _ \<Rightarrow> False)"

definition wait_for_receipt :: "worker_env \<Rightarrow> worker_host \<Rightarrow> worker_session \<Rightarrow> SessionFailure + bytes" where
  "wait_for_receipt env host st =
     (if wh_control_arrival host = AfterDeadline then Err (failure_output ''artifact_receipt_timed_out'')
      else if wh_control_arrival host = ControlStopped then Err (failure_internal ''control_reader_stopped'')
      else case control_message env host st of
          Receipt payload \<Rightarrow> Ok payload
        | Cancelled \<Rightarrow> Err failure_cancelled
        | Disconnected \<Rightarrow> Err failure_cancelled
        | ControlFailure e \<Rightarrow> Err e)"

section \<open>The session\<close>

definition validate_compile_output ::
    "worker_env \<Rightarrow> IosDeviceBuildRequest \<Rightarrow> string \<Rightarrow> string \<Rightarrow> SnapshotCompileOutput \<Rightarrow> SessionFailure + unit" where
  "validate_compile_output env req job_id output_directory out =
     (let c = handoff_compile (out_handoff out) in
      if path_components (out_artifact_path out) \<noteq> path_components (path_join output_directory UNSIGNED_ARCHIVE_NAME)
        \<or> handoff_schema_version (out_handoff out) \<noteq> COMPILE_HANDOFF_SCHEMA_VERSION
        \<or> handoff_request (out_handoff out) \<noteq> req \<or> ce_job_id c \<noteq> job_id \<or> ce_provider c \<noteq> SSH_STDIO_PROVIDER_ID
        \<or> ce_source_sha256 c \<noteq> manifest_sha256 (source req)
      then Err (failure_internal ''compile_evidence_mismatch'')
      else case canonical_request_sha256 (we_request env) req of
          Inl _ \<Rightarrow> Err (failure_internal ''request_digest_failed'')
        | Inr d \<Rightarrow> if ce_request_sha256 c \<noteq> d then Err (failure_internal ''compile_evidence_mismatch'') else Ok ())"

text \<open>The build start: its frame, its size limit, its validation.\<close>

definition receive_start :: "worker_env \<Rightarrow> worker_host \<Rightarrow> worker_session \<Rightarrow> SnapshotBuildStart worker_result" where
  "receive_start env host st =
     and_next (read_expected_header host BuildRequest st) (\<lambda>h st.
     and_next (decode_session_json_payload env host (we_start env) h st) (\<lambda>start st.
     if start_source_descriptor_size start > MAX_SNAPSHOT_SESSION_DESCRIPTOR_BYTES
     then (Err (failure_invalid ''source_descriptor_too_large''), st)
     else if \<not> is_ok (SnapshotBuildStart_validate start) then (Err (failure_invalid ''snapshot_start_invalid''), st)
     else (Ok start, st\<lparr>wk_operation_id := Some (sp_operation_id (start_parameters start))\<rparr>)))"

text \<open>The descriptor: declared size, declared digest, and the request it stands for together with the start.\<close>

definition receive_descriptor ::
    "worker_env \<Rightarrow> worker_host \<Rightarrow> SnapshotBuildStart \<Rightarrow> worker_session
     \<Rightarrow> (SourceBundleDescriptor \<times> IosDeviceBuildRequest) worker_result" where
  "receive_descriptor env host start st =
     and_next (read_expected_header host SourceDescriptor st) (\<lambda>h st.
     if payload_bytes h \<noteq> start_source_descriptor_size start
     then (Err (failure_invalid ''source_descriptor_size_mismatch''), st)
     else if payload_bytes h > MAX_SNAPSHOT_SESSION_DESCRIPTOR_BYTES
     then (Err (failure_invalid ''source_descriptor_too_large''), st)
     else and_next (read_worker_payload env host h st) (\<lambda>b st.
       if sha256_bytes env b \<noteq> start_source_descriptor_sha256 start
       then (Err (failure_invalid ''source_descriptor_digest_mismatch''), st)
       else case we_descriptor env b of
           None \<Rightarrow> (Err (failure_invalid ''source_descriptor_invalid''), st)
         | Some d \<Rightarrow>
             (case start_reconstruct_request (we_request env) start d SourceArchiveLimits_default of
                Inl _ \<Rightarrow> (Err (failure_invalid ''snapshot_request_invalid''), st)
              | Inr req \<Rightarrow> (Ok (d, req), st))))"

definition create_root :: "worker_env \<Rightarrow> worker_host \<Rightarrow> worker_session \<Rightarrow> string worker_result" where
  "create_root env host st =
     (let job_id = ''ssh-'' @ wh_uuid host in
      case JobRootGuard_create (wh_creation host) (we_worker_root env) job_id of
        Inl e \<Rightarrow> (Err e, st)
      | Inr root \<Rightarrow> (Ok job_id, st\<lparr>wk_job_id := Some job_id, wk_root := Some root\<rparr>))"

text \<open>\<open>self.root.as_ref()\<close> with a check of the root.\<close>

definition with_root :: "(JobRootGuard \<Rightarrow> SessionFailure + 'a) \<Rightarrow> worker_session \<Rightarrow> 'a worker_result" where
  "with_root f st =
     (case wk_root st of None \<Rightarrow> (Err (failure_internal ''job_root_missing''), st) | Some root \<Rightarrow> (f root, st))"

definition receive_archive :: "worker_env \<Rightarrow> worker_host \<Rightarrow> SourceBundleDescriptor \<Rightarrow> worker_session \<Rightarrow> unit worker_result" where
  "receive_archive env host d st =
     and_next (read_expected_header host SourceArchive st) (\<lambda>h st.
     if payload_bytes h \<noteq> archive_size (bundle_archive d) then (Err (failure_invalid ''source_archive_size_mismatch''), st)
     else and_next (with_root (root_verify (wh_probe_archive host)) st) (\<lambda>_ st.
       receive_source_archive env host h d st))"

text \<open>The source tree, the removal of the archive, the artifact directory and the control thread.\<close>

definition prepare_build :: "worker_env \<Rightarrow> worker_host \<Rightarrow> SourceBundleDescriptor \<Rightarrow> worker_session \<Rightarrow> string worker_result" where
  "prepare_build env host d st =
     and_next (with_root (root_verify (wh_probe_extract host)) st) (\<lambda>_ st.
     and_next (with_root (clone_directory_handle (wh_probe_clone host) (wh_cloned host)) st) (\<lambda>_ st.
     if \<not> we_extract env d (written (wk_archive_file st)) then (Err (failure_invalid ''source_archive_invalid''), st)
     else and_next (pure_step (remove_exact_file (wh_archive_metadata host) (wh_archive_removed host)) st) (\<lambda>_ st.
     and_next (with_root (root_verify (wh_probe_removed host)) st) (\<lambda>_ st.
     and_next (pure_step (create_private_directory (wh_output_created host)) st) (\<lambda>_ st.
     if \<not> wh_control_spawned host then (Err (failure_internal ''control_reader_failed''), st)
     else with_root (\<lambda>root. Ok (path_join (root_path root) ARTIFACTS_DIRECTORY_NAME)) st)))))"

definition announcements :: "SourceBundleDescriptor \<Rightarrow> IosDeviceBuildRequest \<Rightarrow> (string \<times> RemoteBuildEventKind) list" where
  "announcements d req =
     (let n = archive_size (bundle_archive d) in
      [(''operation'', OperationStarted ''worker.ssh_snapshot_build''),
       (''accepted'', JobCreated Created),
       (''accepted'', WorkerAssigned SSH_STDIO_WORKER_ID),
       (''source'', SourcePrepared (of_nat (length (manifest_entries (source req)))) (manifest_total_size (source req))),
       (''source'', SourceUploadStarted n),
       (''source'', SourceUploadProgress n n),
       (''source'', SourceVerified (manifest_sha256 (source req))),
       (''build'', PhaseStarted (Some ''Compiling unsigned physical-iPhone archive''))])"

definition announce ::
    "worker_env \<Rightarrow> worker_host \<Rightarrow> SourceBundleDescriptor \<Rightarrow> IosDeviceBuildRequest \<Rightarrow> string \<Rightarrow> worker_session
     \<Rightarrow> unit worker_result" where
  "announce env host d req job_id st =
     (case SnapshotJobAccepted_new (request_operation_id req) job_id (wh_accepted_at host) of
        Inl _ \<Rightarrow> (Err (failure_internal ''job_acceptance_invalid''), st)
      | Inr accepted \<Rightarrow>
          and_next (write_json (we_accepted_json env) JobAccepted accepted st) (\<lambda>_ st.
          and_next (emit_events env host req (announcements d req) st) (\<lambda>_ st.
          flush_step (wh_build_flush host) st)))"

definition compile_build ::
    "worker_env \<Rightarrow> worker_host \<Rightarrow> IosDeviceBuildRequest \<Rightarrow> string \<Rightarrow> string \<Rightarrow> worker_session
     \<Rightarrow> SnapshotArtifactDescriptor worker_result" where
  "compile_build env host req job_id output_directory st =
     (if compile_cancelled env host st then (Err (cancellation_failure (control_message env host st)), st)
      else case we_compile env req job_id output_directory of
          Inl f \<Rightarrow>
            (Err \<lparr>failure_code = compile_code f, failure_message = compile_message f, failure_retryable = compile_retryable f\<rparr>, st)
        | Inr out \<Rightarrow>
            and_next (pure_step (validate_compile_output env req job_id output_directory out) st) (\<lambda>_ st.
              let transport = sealed_transport (ce_sealed_archive (handoff_compile (out_handoff out)));
                record = \<lparr>artifact_id = UNSIGNED_ARTIFACT_ID, artifact_kind_of = KindXcarchive,
                  artifact_file_name = UNSIGNED_ARCHIVE_NAME, artifact_size = archive_size transport,
                  artifact_sha256 = archive_sha256 transport, artifact_media_type = Some ''application/zip''\<rparr> in
              case SnapshotArtifactDescriptor_new (we_request env) (request_operation_id req) record (handoff_compile (out_handoff out)) of
                Inl _ \<Rightarrow> (Err (failure_internal ''artifact_descriptor_invalid''), st)
              | Inr d \<Rightarrow> (Ok d, st)))"

definition send_artifact ::
    "worker_env \<Rightarrow> worker_host \<Rightarrow> IosDeviceBuildRequest \<Rightarrow> SnapshotArtifactDescriptor \<Rightarrow> worker_session \<Rightarrow> unit worker_result" where
  "send_artifact env host req d st =
     and_next (emit_events env host req
       [(''artifact'', ArtifactCreated (artifact_id (ad_artifact d)) Xcarchive),
        (''artifact'', ArtifactUploadStarted (artifact_id (ad_artifact d)) (artifact_size (ad_artifact d)))] st) (\<lambda>_ st.
     and_next (write_json (we_artifact_json env) ArtifactDescriptor d st) (\<lambda>_ st.
     and_next (stream_artifact env (wh_artifact host) d st) (\<lambda>_ st.
     flush_step (wh_artifact_flush host) st)))"

definition await_receipt ::
    "worker_env \<Rightarrow> worker_host \<Rightarrow> SnapshotArtifactDescriptor \<Rightarrow> worker_session \<Rightarrow> SnapshotArtifactReceipt worker_result" where
  "await_receipt env host d st =
     and_next (pure_step (wait_for_receipt env host st) st) (\<lambda>payload st.
     case we_receipt env payload of
       None \<Rightarrow> (Err (failure_invalid ''artifact_receipt_invalid''), st)
     | Some receipt \<Rightarrow>
         if \<not> is_ok (receipt_validate_for (we_request env) receipt d)
         then (Err (failure_invalid ''artifact_receipt_mismatch''), st)
         else (Ok receipt, st))"

definition finish_build :: "worker_env \<Rightarrow> worker_host \<Rightarrow> IosDeviceBuildRequest \<Rightarrow> worker_session \<Rightarrow> unit worker_result" where
  "finish_build env host req st =
     and_next (emit_event env host req ''cleanup'' CleanupStarted st) (\<lambda>_ st.
     and_next (cleanup_root (wh_removal host) (wh_cleanup_at host) st) (\<lambda>cleanup st.
     and_next (emit_event env host req ''cleanup'' (CleanupFinished cleanup) st) (\<lambda>_ st.
     case SnapshotBuildComplete_new (request_operation_id req) cleanup of
       Inl _ \<Rightarrow> (Err (failure_internal ''completion_invalid''), st)
     | Inr complete \<Rightarrow>
         and_next (write_json (we_complete_json env) Complete complete st) (\<lambda>_ st.
         flush_step (wh_final_flush host) st))))"

definition run_session :: "worker_env \<Rightarrow> worker_host \<Rightarrow> worker_session \<Rightarrow> unit worker_result" where
  "run_session env host st =
     (if \<not> wh_reader_spawned host then (Err (failure_internal ''input_reader_failed''), st)
      else
        and_next (receive_start env host st) (\<lambda>start st.
        and_next (receive_descriptor env host start st) (\<lambda>(d, req) st.
        and_next (create_root env host st) (\<lambda>job_id st.
        and_next (receive_archive env host d st) (\<lambda>_ st.
        and_next (prepare_build env host d st) (\<lambda>output_directory st.
        and_next (announce env host d req job_id st) (\<lambda>_ st.
        and_next (compile_build env host req job_id output_directory st) (\<lambda>artifact st.
        and_next (send_artifact env host req artifact st) (\<lambda>_ st.
        and_next (await_receipt env host artifact st) (\<lambda>_ st.
        finish_build env host req st))))))))))"

datatype SnapshotSessionServeError = Output

definition finish_failure ::
    "worker_env \<Rightarrow> worker_host \<Rightarrow> SessionFailure \<Rightarrow> worker_session \<Rightarrow> (SnapshotSessionServeError + unit) \<times> worker_session" where
  "finish_failure env host failure st =
     (let (failure, cleanup, st) =
        (if (case wk_root st of None \<Rightarrow> False | Some root \<Rightarrow> root_owned root) then
           (case cleanup_root (wh_failure_removal host) (wh_failure_cleanup_at host) st of
              (Inr cl, st') \<Rightarrow> (failure, Some cl, st')
            | (Inl _, st') \<Rightarrow> (failure_cleanup ''worker_cleanup_failed'', None, st'))
         else (failure, None, st))
      in case SnapshotSessionError_new (wk_operation_id st) (wk_job_id st) (failure_code failure) (failure_message failure)
           (failure_retryable failure) cleanup of
          Inl _ \<Rightarrow> (Err Output, st)
        | Inr e \<Rightarrow>
            (case write_json (we_error_json env) FrameError e st of
               (Inl _, st') \<Rightarrow> (Err Output, st')
             | (Inr _, st') \<Rightarrow> if wh_failure_flush host then (Ok (), st') else (Err Output, st')))"

definition serve_snapshot_session ::
    "worker_env \<Rightarrow> worker_host \<Rightarrow> reader \<Rightarrow> writer \<Rightarrow> (SnapshotSessionServeError + unit) \<times> worker_session" where
  "serve_snapshot_session env host r w =
     (case run_session env host (Session_new r w) of
        (Inr _, st) \<Rightarrow> (Ok (), st)
      | (Inl failure, st) \<Rightarrow> finish_failure env host failure st)"

end
