(* ===== verification/Worker_Protocol.thy ===== *)
theory Worker_Protocol
  imports Ssh_Protocol Worker_Session
begin

text \<open>
  What the worker of \<open>Worker_Session\<close> guarantees: what it has read and sent when a session succeeds, that its last
  frame claims a removed workspace only after a confirmed removal, and that client and worker complete together.
\<close>

section \<open>What the worker sends\<close>

text \<open>A session whose output, frame counter and event counter have moved on.\<close>

definition advanced :: "worker_session \<Rightarrow> nat \<Rightarrow> nat \<Rightarrow> bytes \<Rightarrow> worker_session" where
  "advanced st n m b =
     st\<lparr>wk_writer := \<lparr>written = b, capacity = None\<rparr>, wk_output_sequence := of_nat n, wk_event_sequence := of_nat m\<rparr>"

lemma advanced_simps [simp]:
  "wk_writer (advanced st n m b) = \<lparr>written = b, capacity = None\<rparr>" "wk_output_sequence (advanced st n m b) = of_nat n"
  "wk_event_sequence (advanced st n m b) = of_nat m" "wk_job_id (advanced st n m b) = wk_job_id st"
  "wk_root (advanced st n m b) = wk_root st" "wk_reader (advanced st n m b) = wk_reader st"
  "wk_input_sequence (advanced st n m b) = wk_input_sequence st" "wk_operation_id (advanced st n m b) = wk_operation_id st"
  "wk_archive_file (advanced st n m b) = wk_archive_file st"
  "(advanced st n m b)\<lparr>wk_root := x\<rparr> = advanced (st\<lparr>wk_root := x\<rparr>) n m b"
  "(advanced st n m b)\<lparr>wk_event_sequence := of_nat m'\<rparr> = advanced st n m' b"
  by (simp_all add: advanced_def)

lemma write_json_Ok:
  assumes "write_json to_vec k x (advanced st n m b) = (Ok (), st')" "Suc n < 2 ^ 64"
  obtains payload where "to_vec x = Some payload" "frame_wf (k, of_nat n, payload)"
    "st' = advanced st (Suc n) m (b @ frame_bytes (k, of_nat n, payload))"
proof -
  let ?w = "\<lparr>written = b, capacity = None\<rparr>"
  obtain payload w where p: "to_vec x = Some payload" "write_worker_data_plane_frame ?w k (of_nat n) payload = (Ok (), w)"
    "st' = (advanced st n m b)\<lparr>wk_writer := w, wk_output_sequence := of_nat (Suc n)\<rparr>"
    using assms(1) checked_add_of_nat [OF assms(2)]
    by (auto simp: write_json_def split: option.splits prod.splits sum.splits)
  from write_frame_unlimited [OF _ p(2)] have "frame_wf (k, of_nat n, payload)"
    "w = \<lparr>written = b @ frame_bytes (k, of_nat n, payload), capacity = None\<rparr>" by simp_all
  with p that show thesis by (simp add: advanced_def)
qed

text \<open>The events of a list of kinds, numbered from a given event number on, and their frames.\<close>

fun worker_events ::
    "worker_env \<Rightarrow> worker_host \<Rightarrow> IosDeviceBuildRequest \<Rightarrow> string \<Rightarrow> nat \<Rightarrow> (string \<times> RemoteBuildEventKind) list
     \<Rightarrow> RemoteBuildEvent list \<Rightarrow> bytes list \<Rightarrow> bool" where
  "worker_events env host req job m [] es xs \<longleftrightarrow> es = [] \<and> xs = []"
| "worker_events env host req job m ((phase, k) # ks) es xs \<longleftrightarrow>
     (\<exists>e es' x xs'. es = e # es' \<and> xs = x # xs'
        \<and> RemoteBuildEvent_new (we_event env) (request_operation_id req) job (wh_event_at host (of_nat m))
            SSH_STDIO_PROVIDER_ID phase (of_nat m) k = Ok e
        \<and> we_event_json env e = Some x \<and> frame_wf (Event, 0, x) \<and> worker_events env host req job (Suc m) ks es' xs')"

lemma emit_event_Ok:
  assumes "emit_event env host req phase k (advanced st n m b) = (Ok (), st')" "Suc n < 2 ^ 64" "Suc m < 2 ^ 64"
    and "wk_job_id st = Some job"
  obtains e x where
    "RemoteBuildEvent_new (we_event env) (request_operation_id req) job (wh_event_at host (of_nat m))
       SSH_STDIO_PROVIDER_ID phase (of_nat m) k = Ok e"
    "we_event_json env e = Some x" "frame_wf (Event, 0, x)" "st' = advanced st (Suc n) (Suc m) (b @ frame_bytes (Event, of_nat n, x))"
proof -
  obtain e where e: "RemoteBuildEvent_new (we_event env) (request_operation_id req) job (wh_event_at host (of_nat m))
       SSH_STDIO_PROVIDER_ID phase (of_nat m) k = Ok e"
    "write_json (we_event_json env) Event e (advanced st n (Suc m) b) = (Ok (), st')"
    using assms(1,4) checked_add_of_nat [OF assms(3)]
    by (auto simp: emit_event_def simp del: of_nat_Suc split: sum.splits)
  from e(2) assms(2) show thesis by (rule write_json_Ok) (use e(1) that in simp)
qed

lemma emit_events_Ok:
  assumes "emit_events env host req ks (advanced st n m b) = (Ok (), st')" "n + length ks < 2 ^ 64" "m + length ks < 2 ^ 64"
    and "wk_job_id st = Some job"
  shows "\<exists>es xs. worker_events env host req job m ks es xs
    \<and> st' = advanced st (n + length ks) (m + length ks) (b @ frames (numbered n (map (Pair Event) xs)))"
  using assms
proof (induction ks arbitrary: n m b)
  case Nil
  then show ?case by simp
next
  case (Cons pk ks)
  obtain phase k where pk: "pk = (phase, k)" by (cases pk)
  obtain st1 where st1: "emit_event env host req phase k (advanced st n m b) = (Ok (), st1)"
    "emit_events env host req ks st1 = (Ok (), st')"
    using Cons.prems(1) by (auto simp: pk and_next_Ok)
  obtain e x where e: "RemoteBuildEvent_new (we_event env) (request_operation_id req) job (wh_event_at host (of_nat m))
       SSH_STDIO_PROVIDER_ID phase (of_nat m) k = Ok e"
    "we_event_json env e = Some x" "frame_wf (Event, 0, x)" "st1 = advanced st (Suc n) (Suc m) (b @ frame_bytes (Event, of_nat n, x))"
    using st1(1) _ _ Cons.prems(4) by (rule emit_event_Ok) (use Cons.prems(2,3) in auto)
  from Cons.IH [of "Suc n" "Suc m" "b @ frame_bytes (Event, of_nat n, x)"] st1(2) e(4) Cons.prems(2-4)
  obtain es xs where "worker_events env host req job (Suc m) ks es xs"
    "st' = advanced st (n + length (pk # ks)) (m + length (pk # ks))
       (b @ frames (numbered n (map (Pair Event) (x # xs))))"
    by auto
  with e pk show ?case
    by (intro exI [of _ "e # es"] exI [of _ "x # xs"]) simp
qed

section \<open>Streams and files\<close>

lemma copy_loop_rest:
  "copy_loop remaining copied r w = (Ok c, r', w') \<Longrightarrow> reader_data r' = drop (unat remaining) (reader_data r)"
proof (induction remaining copied r w rule: copy_loop.induct)
  case (1 remaining copied r w)
  let ?n = "unat (min remaining (16 * 1024))"
  show ?case
  proof (cases "remaining = 0 \<or> reader_data r = []")
    case True
    then show ?thesis
      using 1(2) read_some_no_data [of r ?n] by (subst (asm) copy_loop.simps) (auto simp: Let_def split: if_splits)
  next
    case False
    then have pos: "0 < ?n" by (simp add: min_def unat_gt_0)
    obtain b r1 where b: "read_some ?n r = (Some b, r1)" "b \<noteq> []" "reader_data r = b @ reader_data r1"
      using read_some_data [OF pos] False by blast
    have le: "length b \<le> unat remaining" using chunk_bound b(1) by blast
    obtain w1 where w1: "write_all b w = (True, w1)"
      "copy_loop (remaining - of_nat (length b)) (copied + of_nat (length b)) r1 w1 = (Ok c, r', w')"
      using 1(2) False b(1,2) by (subst (asm) copy_loop.simps) (auto simp: Let_def split: prod.splits bool.splits)
    have "reader_data r' = drop (unat (remaining - of_nat (length b))) (reader_data r1)"
      using False b w1 by (intro 1(1)) auto
    moreover have "unat (remaining - of_nat (length b) :: u64) = unat remaining - length b"
      using unat_sub_count [OF le] by simp
    ultimately show ?thesis using b(3) le by simp
  qed
qed

lemma copy_loop_Ok:
  assumes "copy_loop n 0 r w = (Ok c, r', w')"
  obtains payload where "length payload = unat n" "reader_data r = payload @ reader_data r'"
    "written w' = written w @ payload" "c = n"
proof -
  have "unat n \<le> length (reader_data r)" "written w' = written w @ take (unat n) (reader_data r)" "c = n"
    using copy_loop_safe [OF assms] by auto
  with copy_loop_rest [OF assms] that [of "take (unat n) (reader_data r)"] show thesis by simp
qed

lemma stream_artifact_Ok:
  assumes "stream_artifact env f d (advanced st n m b) = (Ok (), st')" "Suc n < 2 ^ 64"
  obtains payload where "length payload = unat (artifact_size (ad_artifact d))"
    "hex_encode (env_sha256 (we_request env) payload) = artifact_sha256 (ad_artifact d)"
    "frame_wf (Artifact, of_nat n, payload)" "st' = advanced st (Suc n) m (b @ frame_bytes (Artifact, of_nat n, payload))"
proof -
  let ?n = "artifact_size (ad_artifact d)" and ?w = "\<lparr>written = b, capacity = None\<rparr>"
  obtain c r w where s: "write_worker_data_plane_stream ?w Artifact (of_nat n) (af_reader f) ?n = (Ok c, r, w)"
    "HashingReader_finish (env_sha256 (we_request env)) (drawn (af_reader f) r) = (?n, artifact_sha256 (ad_artifact d))"
    "st' = (advanced st n m b)\<lparr>wk_writer := w, wk_output_sequence := of_nat (Suc n)\<rparr>"
    using assms(1) checked_add_of_nat [OF assms(2)]
    by (auto simp: stream_artifact_def Let_def simp del: of_nat_Suc split: option.splits if_splits prod.splits sum.splits)
  let ?h = "\<lparr>kind = Artifact, sequence = of_nat n, payload_bytes = ?n\<rparr>"
  have copy: "header_wf ?h" "copy_loop ?n 0 (af_reader f) (?w\<lparr>written := b @ encode_header ?h\<rparr>) = (Ok c, r, w)"
    using s(1) by (auto simp: write_worker_data_plane_stream_def write_worker_data_plane_header_def header_new_ok
        copy_worker_data_plane_payload_def split: sum.splits prod.splits)
  obtain payload where p: "length payload = unat ?n" "reader_data (af_reader f) = payload @ reader_data r"
    "written w = (b @ encode_header ?h) @ payload"
    using copy(2) by (rule copy_loop_Ok) simp
  have cap: "capacity w = None"
    using copy_loop_complete [of ?n "af_reader f" "?w\<lparr>written := b @ encode_header ?h\<rparr>" 0] copy(2) p(1,2) by auto
  have "drawn (af_reader f) r = payload" using p(2) by (simp add: drawn_def)
  with s(2) have "hex_encode (env_sha256 (we_request env) payload) = artifact_sha256 (ad_artifact d)"
    by (simp add: HashingReader_finish_def lowercase_hex_is_hex_encode)
  moreover have "frame_wf (Artifact, of_nat n, payload)" using copy(1) p(1) by (simp add: header_wf_def word_le_nat_alt)
  moreover have "st' = advanced st (Suc n) m (b @ frame_bytes (Artifact, of_nat n, payload))"
  proof -
    have "(of_nat (length payload) :: u64) = ?n" using p(1) by simp
    moreover have "w = \<lparr>written = written w, capacity = None\<rparr>" using cap by (cases w) simp
    ultimately show ?thesis using s(3) p(3) by (simp add: advanced_def)
  qed
  ultimately show thesis using that p(1) by blast
qed

section \<open>What the worker reads\<close>

lemma read_expected_header_Ok:
  assumes "read_expected_header host k st = (Ok h, st')" "wk_input_sequence st = \<lparr>next_sequence = Some (of_nat i)\<rparr>" "Suc i < 2 ^ 64"
  obtains r where "st' = st\<lparr>wk_reader := r, wk_input_sequence := \<lparr>next_sequence = Some (of_nat (Suc i))\<rparr>\<rparr>"
    "kind h = k" "sequence h = of_nat i" "reader_data (wk_reader st) = encode_header h @ reader_data r" "header_wf h"
proof -
  obtain r sq where s: "read_worker_data_plane_header (wk_reader st) = (Ok h, r)" "accept (wk_input_sequence st) h = Ok sq"
    "st' = st\<lparr>wk_reader := r, wk_input_sequence := sq\<rparr>" "kind h = k"
    using assms(1) by (auto simp: read_expected_header_def Let_def split: prod.splits sum.splits if_splits)
  then have "sequence h = of_nat i" "sq = \<lparr>next_sequence = Some (of_nat (Suc i))\<rparr>"
    using assms(2) checked_add_of_nat [OF assms(3)] by (auto simp: accept_def split: if_splits)
  with s read_header_consumes [OF s(1)] that show thesis by simp
qed

lemma read_worker_payload_Ok:
  assumes "read_worker_payload env host h st = (Ok payload, st')"
  obtains r where "st' = st\<lparr>wk_reader := r\<rparr>" "reader_data (wk_reader st) = payload @ reader_data r"
    "length payload = unat (payload_bytes h)"
  using assms read_payload_consumes by (auto simp: read_worker_payload_def split: prod.splits sum.splits)

text \<open>A header and the payload it announces are a frame.\<close>

lemma header_payload_frame:
  assumes "kind h = k" "sequence h = sq" "header_wf h" "length payload = unat (payload_bytes h)"
  shows "encode_header h @ payload @ rest = frame_bytes (k, sq, payload) @ rest \<and> frame_wf (k, sq, payload)"
proof -
  have "of_nat (length payload) = payload_bytes h" using assms(4) by simp
  with assms(1,2) have "encode_header h @ payload @ rest = frame_bytes (k, sq, payload) @ rest" by (cases h) auto
  moreover have "frame_wf (k, sq, payload)" using assms(1,3,4) by (auto simp: header_wf_def word_le_nat_alt)
  ultimately show ?thesis by simp
qed

lemma receive_start_Ok:
  assumes "receive_start env host st = (Ok start, st')" "wk_input_sequence st = \<lparr>next_sequence = Some 0\<rparr>"
  obtains json r where "we_start env json = Some start" "SnapshotBuildStart_validate start = Ok ()"
    "frame_wf (BuildRequest, 0, json)" "reader_data (wk_reader st) = frame_bytes (BuildRequest, 0, json) @ reader_data r"
    "st' = st\<lparr>wk_reader := r, wk_input_sequence := \<lparr>next_sequence = Some 1\<rparr>,
       wk_operation_id := Some (sp_operation_id (start_parameters start))\<rparr>"
proof -
  obtain h st1 json st2 where s: "read_expected_header host BuildRequest st = (Ok h, st1)"
    "read_worker_payload env host h st1 = (Ok json, st2)" "we_start env json = Some start"
    "SnapshotBuildStart_validate start = Ok ()"
    "st' = st2\<lparr>wk_operation_id := Some (sp_operation_id (start_parameters start))\<rparr>"
    using assms(1)
    by (auto simp: receive_start_def decode_session_json_payload_def and_next_Ok is_ok_unit split: if_splits option.splits)
  obtain r1 where h: "st1 = st\<lparr>wk_reader := r1, wk_input_sequence := \<lparr>next_sequence = Some 1\<rparr>\<rparr>"
    "kind h = BuildRequest" "sequence h = 0" "reader_data (wk_reader st) = encode_header h @ reader_data r1" "header_wf h"
    using read_expected_header_Ok [OF s(1), of 0] assms(2) by auto
  obtain r2 where p: "st2 = st1\<lparr>wk_reader := r2\<rparr>" "reader_data (wk_reader st1) = json @ reader_data r2"
    "length json = unat (payload_bytes h)"
    using s(2) by (rule read_worker_payload_Ok)
  have wf: "frame_wf (BuildRequest, 0, json)" and data: "reader_data (wk_reader st) = frame_bytes (BuildRequest, 0, json) @ reader_data r2"
    using header_payload_frame [where rest = "reader_data r2", OF h(2,3,5) p(3)] h(1,4) p(2) by simp_all
  show thesis
    by (rule that [OF s(3,4) wf data]) (simp add: s(5) p(1) h(1))
qed

lemma receive_descriptor_Ok:
  assumes "receive_descriptor env host start st = (Ok (d, req), st')" "wk_input_sequence st = \<lparr>next_sequence = Some 1\<rparr>"
  obtains b r where "we_descriptor env b = Some d" "length b = unat (start_source_descriptor_size start)"
    "hex_encode (env_sha256 (we_request env) b) = start_source_descriptor_sha256 start"
    "start_reconstruct_request (we_request env) start d SourceArchiveLimits_default = Ok req"
    "frame_wf (SourceDescriptor, 1, b)" "reader_data (wk_reader st) = frame_bytes (SourceDescriptor, 1, b) @ reader_data r"
    "st' = st\<lparr>wk_reader := r, wk_input_sequence := \<lparr>next_sequence = Some 2\<rparr>\<rparr>"
proof -
  obtain h st1 b where s: "read_expected_header host SourceDescriptor st = (Ok h, st1)"
    "payload_bytes h = start_source_descriptor_size start"
    "read_worker_payload env host h st1 = (Ok b, st')" "sha256_bytes env b = start_source_descriptor_sha256 start"
    "we_descriptor env b = Some d" "start_reconstruct_request (we_request env) start d SourceArchiveLimits_default = Ok req"
    using assms(1) by (auto simp: receive_descriptor_def and_next_Ok split: if_splits option.splits sum.splits)
  obtain r1 where h: "st1 = st\<lparr>wk_reader := r1, wk_input_sequence := \<lparr>next_sequence = Some 2\<rparr>\<rparr>"
    "kind h = SourceDescriptor" "sequence h = 1" "reader_data (wk_reader st) = encode_header h @ reader_data r1" "header_wf h"
    using read_expected_header_Ok [OF s(1), of 1] assms(2) by auto
  obtain r2 where p: "st' = st1\<lparr>wk_reader := r2\<rparr>" "reader_data (wk_reader st1) = b @ reader_data r2"
    "length b = unat (payload_bytes h)"
    using s(3) by (rule read_worker_payload_Ok)
  have wf: "frame_wf (SourceDescriptor, 1, b)" and data: "reader_data (wk_reader st) = frame_bytes (SourceDescriptor, 1, b) @ reader_data r2"
    using header_payload_frame [where rest = "reader_data r2", OF h(2,3,5) p(3)] h(1,4) p(2) by simp_all
  show thesis
    by (rule that [OF s(5) _ _ s(6) wf data]) (use s(2,4) p(1,3) h(1) in \<open>simp_all add: sha256_bytes_def\<close>)
qed

lemma receive_archive_Ok:
  assumes "receive_archive env host d st = (Ok (), st')" "wk_input_sequence st = \<lparr>next_sequence = Some 2\<rparr>"
  obtains b r w where "length b = unat (archive_size (bundle_archive d))"
    "hex_encode (env_sha256 (we_request env) b) = archive_sha256 (bundle_archive d)" "written w = b"
    "frame_wf (SourceArchive, 2, b)" "reader_data (wk_reader st) = frame_bytes (SourceArchive, 2, b) @ reader_data r"
    "st' = st\<lparr>wk_reader := r, wk_input_sequence := \<lparr>next_sequence = Some 3\<rparr>, wk_archive_file := w\<rparr>"
proof -
  obtain h st1 c r w where s: "read_expected_header host SourceArchive st = (Ok h, st1)"
    "payload_bytes h = archive_size (bundle_archive d)"
    "copy_loop (payload_bytes h) 0 (wk_reader st1) \<lparr>written = [], capacity = wh_archive_capacity host\<rparr> = (Ok c, r, w)"
    "HashingWriter_finish (env_sha256 (we_request env)) (written w) = (archive_size (bundle_archive d), archive_sha256 (bundle_archive d))"
    "st' = st1\<lparr>wk_reader := r, wk_archive_file := w\<rparr>"
    using assms(1)
    by (auto simp: receive_archive_def with_root_def receive_source_archive_def copy_worker_data_plane_payload_def and_next_Ok Let_def
        split: if_splits option.splits prod.splits sum.splits)
  obtain r1 where h: "st1 = st\<lparr>wk_reader := r1, wk_input_sequence := \<lparr>next_sequence = Some 3\<rparr>\<rparr>"
    "kind h = SourceArchive" "sequence h = 2" "reader_data (wk_reader st) = encode_header h @ reader_data r1" "header_wf h"
    using read_expected_header_Ok [OF s(1), of 2] assms(2) by auto
  obtain b where b: "length b = unat (payload_bytes h)" "reader_data (wk_reader st1) = b @ reader_data r" "written w = b"
    using s(3) by (rule copy_loop_Ok) simp
  have wf: "frame_wf (SourceArchive, 2, b)" and data: "reader_data (wk_reader st) = frame_bytes (SourceArchive, 2, b) @ reader_data r"
    using header_payload_frame [where rest = "reader_data r", OF h(2,3,5) b(1)] h(1,4) b(2) by simp_all
  show thesis
    by (rule that [OF _ _ b(3) wf data]) (use s(2,4,5) b(1,3) h(1) in \<open>simp_all add: HashingWriter_finish_def\<close>)
qed

lemma await_receipt_Ok:
  assumes "await_receipt env host d st = (Ok receipt, st')" "wk_input_sequence st = \<lparr>next_sequence = Some 3\<rparr>"
  obtains json rest where "we_receipt env json = Some receipt" "receipt_validate_for (we_request env) receipt d = Ok ()"
    "frame_wf (ArtifactReceipt, 3, json)" "reader_data (wk_reader st) = frame_bytes (ArtifactReceipt, 3, json) @ rest"
    "wh_control_arrival host = AfterArtifactSent" "st' = st"
proof -
  obtain h r json where s: "read_worker_data_plane_header (wk_reader st) = (Ok h, r)" "is_ok (accept (wk_input_sequence st) h)"
    "kind h = ArtifactReceipt" "fst (read_worker_data_plane_payload (we_usize_max env) r h) = Ok json"
    "wh_control_arrival host = AfterArtifactSent" "we_receipt env json = Some receipt"
    "receipt_validate_for (we_request env) receipt d = Ok ()" "st' = st"
    using assms(1)
    by (auto simp: await_receipt_def and_next_Ok wait_for_receipt_def control_message_def monitor_client_control_def is_ok_unit is_ok_conv
        split: if_splits option.splits prod.splits sum.splits ClientControl.splits)
  from s(2) assms(2) have sq: "sequence h = 3" by (auto simp: accept_def split: if_splits)
  obtain r' where p: "read_worker_data_plane_payload (we_usize_max env) r h = (Ok json, r')"
    using s(4) by (cases "read_worker_data_plane_payload (we_usize_max env) r h") auto
  note h = read_header_consumes [OF s(1)] and payload = read_payload_consumes [OF p]
  from header_payload_frame [where rest = "reader_data r'", OF s(3) sq conjunct2 [OF h] conjunct2 [OF payload]] h payload s that
  show thesis by auto
qed

section \<open>A session that succeeds\<close>

lemma worker_events_append:
  "worker_events env host req job m ks es xs \<Longrightarrow> worker_events env host req job (m + length ks) ks' es' xs'
    \<Longrightarrow> worker_events env host req job m (ks @ ks') (es @ es') (xs @ xs')"
  by (induction env host req job m ks es xs rule: worker_events.induct) auto

lemma worker_events_length:
  "worker_events env host req job m ks es xs \<Longrightarrow> length es = length ks \<and> length xs = length ks"
  by (induction env host req job m ks es xs rule: worker_events.induct) auto

lemma flush_step_Ok [simp]: "flush_step flushed st = (Ok (), st') \<longleftrightarrow> flushed \<and> st' = st"
  by (auto simp: flush_step_def)

lemma announce_Ok:
  assumes "announce env host d req job (advanced st n m b) = (Ok (), st')" "wk_job_id st = Some job" "n < 2 ^ 32" "m < 2 ^ 32"
  obtains a x es xs where "SnapshotJobAccepted_new (request_operation_id req) job (wh_accepted_at host) = Ok a"
    "we_accepted_json env a = Some x" "frame_wf (JobAccepted, of_nat n, x)"
    "worker_events env host req job m (announcements d req) es xs"
    "st' = advanced st (n + 9) (m + 8) (b @ frame_bytes (JobAccepted, of_nat n, x) @ frames (numbered (Suc n) (map (Pair Event) xs)))"
proof -
  obtain a st1 where s: "SnapshotJobAccepted_new (request_operation_id req) job (wh_accepted_at host) = Ok a"
    "write_json (we_accepted_json env) JobAccepted a (advanced st n m b) = (Ok (), st1)"
    "emit_events env host req (announcements d req) st1 = (Ok (), st')"
    using assms(1) by (auto simp: announce_def and_next_Ok split: sum.splits)
  obtain x where x: "we_accepted_json env a = Some x" "frame_wf (JobAccepted, of_nat n, x)"
    "st1 = advanced st (Suc n) m (b @ frame_bytes (JobAccepted, of_nat n, x))"
    using s(2) by (rule write_json_Ok) (use assms(3) in simp)
  have len: "length (announcements d req) = 8" by (simp add: announcements_def Let_def)
  from emit_events_Ok [OF s(3) [unfolded x(3)] _ _ assms(2)] obtain es xs where
    "worker_events env host req job m (announcements d req) es xs"
    "st' = advanced st (n + 9) (m + 8) (b @ frame_bytes (JobAccepted, of_nat n, x) @ frames (numbered (Suc n) (map (Pair Event) xs)))"
    using assms(3,4) by (auto simp: len)
  with s(1) x that show thesis by blast
qed

abbreviation artifact_events :: "SnapshotArtifactDescriptor \<Rightarrow> (string \<times> RemoteBuildEventKind) list" where
  "artifact_events d \<equiv>
     [(''artifact'', ArtifactCreated (artifact_id (ad_artifact d)) Xcarchive),
      (''artifact'', ArtifactUploadStarted (artifact_id (ad_artifact d)) (artifact_size (ad_artifact d)))]"

lemma send_artifact_Ok:
  assumes "send_artifact env host req d (advanced st n m b) = (Ok (), st')" "wk_job_id st = Some job" "n < 2 ^ 32" "m < 2 ^ 32"
  obtains es xs x payload where "worker_events env host req job m (artifact_events d) es xs"
    "we_artifact_json env d = Some x" "frame_wf (ArtifactDescriptor, of_nat (n + 2), x)"
    "length payload = unat (artifact_size (ad_artifact d))"
    "hex_encode (env_sha256 (we_request env) payload) = artifact_sha256 (ad_artifact d)"
    "st' = advanced st (n + 4) (m + 2) (b @ frames (numbered n (map (Pair Event) xs))
       @ frame_bytes (ArtifactDescriptor, of_nat (n + 2), x) @ frame_bytes (Artifact, of_nat (n + 3), payload))"
proof -
  obtain st1 st2 where s: "emit_events env host req (artifact_events d) (advanced st n m b) = (Ok (), st1)"
    "write_json (we_artifact_json env) ArtifactDescriptor d st1 = (Ok (), st2)"
    "stream_artifact env (wh_artifact host) d st2 = (Ok (), st')"
    using assms(1) by (auto simp: send_artifact_def and_next_Ok simp del: emit_events.simps)
  from emit_events_Ok [OF s(1) _ _ assms(2)] obtain es xs where e: "worker_events env host req job m (artifact_events d) es xs"
    "st1 = advanced st (n + 2) (m + 2) (b @ frames (numbered n (map (Pair Event) xs)))"
    using assms(3,4) by (auto simp del: worker_events.simps)
  obtain x where x: "we_artifact_json env d = Some x" "frame_wf (ArtifactDescriptor, of_nat (n + 2), x)"
    "st2 = advanced st (Suc (n + 2)) (m + 2)
       ((b @ frames (numbered n (map (Pair Event) xs))) @ frame_bytes (ArtifactDescriptor, of_nat (n + 2), x))"
    using s(2) [unfolded e(2)] by (rule write_json_Ok) (use assms(3) in simp)
  obtain payload where p: "length payload = unat (artifact_size (ad_artifact d))"
    "hex_encode (env_sha256 (we_request env) payload) = artifact_sha256 (ad_artifact d)"
    "st' = advanced st (Suc (Suc (n + 2))) (m + 2)
      (((b @ frames (numbered n (map (Pair Event) xs))) @ frame_bytes (ArtifactDescriptor, of_nat (n + 2), x))
        @ frame_bytes (Artifact, of_nat (Suc (n + 2)), payload))"
    using s(3) [unfolded x(3)] by (rule stream_artifact_Ok) (use assms(3) in simp_all)
  show thesis
    by (rule that [OF e(1) x(1,2) p(1,2)]) (simp add: p(3) eval_nat_numeral del: frame_bytes.simps of_nat_Suc of_nat_add)
qed

text \<open>A removal that is confirmed: through the handle opened at creation, unlinked, and synchronised.\<close>

definition removal_confirmed :: "root_removal \<Rightarrow> JobRootGuard \<Rightarrow> bool" where
  "removal_confirmed a g \<longleftrightarrow> root_owned g \<and> root_directory g \<and> root_identity g \<noteq> None \<and> rr_open_identity a = root_identity g
     \<and> rr_remove a \<noteq> TreeNotRemoved \<and> rr_unlinked a = Some True \<and> rr_sync a"

lemma root_cleanup_confirmed: "(\<exists>g'. root_cleanup a g = (Ok (), g')) \<longleftrightarrow> removal_confirmed a g"
  by (auto simp: root_cleanup_def cleanup_with_boundary_def removal_confirmed_def Let_def split: if_splits option.splits)

abbreviation removal_proof :: "string \<Rightarrow> u64 \<Rightarrow> CleanupConfirmation" where
  "removal_proof job at \<equiv>
     \<lparr>cleanup_job_id = job, completed_at_ms = at, workspace_removed = True, signing_material_removed = True,
      artifacts_retained = False\<rparr>"

lemma cleanup_root_Ok:
  assumes "cleanup_root a at st = (Ok cl, st')"
  obtains job root where "wk_job_id st = Some job" "wk_root st = Some root" "removal_confirmed a root" "cl = removal_proof job at"
    "st' = st\<lparr>wk_root := None\<rparr>"
  using assms root_cleanup_confirmed [of a] by (fastforce simp: cleanup_root_def split: option.splits prod.splits sum.splits)

lemma case_sum_Ok: "(case x of Inl e \<Rightarrow> (Err (f e), st) | Inr y \<Rightarrow> g y) = (Ok v, st') \<longleftrightarrow> (\<exists>y. x = Inr y \<and> g y = (Ok v, st'))"
  by (cases x) auto

lemma finish_build_Ok:
  assumes "finish_build env host req (advanced st n m b) = (Ok (), st')" "wk_job_id st = Some job" "n < 2 ^ 32" "m < 2 ^ 32"
  obtains root es xs c x where "wk_root st = Some root" "removal_confirmed (wh_removal host) root"
    "worker_events env host req job m
       [(''cleanup'', CleanupStarted), (''cleanup'', CleanupFinished (removal_proof job (wh_cleanup_at host)))] es xs"
    "SnapshotBuildComplete_new (request_operation_id req) (removal_proof job (wh_cleanup_at host)) = Ok c"
    "we_complete_json env c = Some x" "frame_wf (Complete, of_nat (n + 2), x)"
    "st' = advanced (st\<lparr>wk_root := None\<rparr>) (n + 3) (m + 2)
       (b @ frames (numbered n (map (Pair Event) xs)) @ frame_bytes (Complete, of_nat (n + 2), x))"
proof -
  obtain st1 cl st2 st3 c where s: "emit_event env host req ''cleanup'' CleanupStarted (advanced st n m b) = (Ok (), st1)"
    "cleanup_root (wh_removal host) (wh_cleanup_at host) st1 = (Ok cl, st2)"
    "emit_event env host req ''cleanup'' (CleanupFinished cl) st2 = (Ok (), st3)"
    "SnapshotBuildComplete_new (request_operation_id req) cl = Ok c" "write_json (we_complete_json env) Complete c st3 = (Ok (), st')"
    using assms(1) by (auto simp: finish_build_def and_next_Ok case_sum_Ok)
  obtain e1 x1 where e1: "RemoteBuildEvent_new (we_event env) (request_operation_id req) job (wh_event_at host (of_nat m))
      SSH_STDIO_PROVIDER_ID ''cleanup'' (of_nat m) CleanupStarted = Ok e1"
    "we_event_json env e1 = Some x1" "frame_wf (Event, 0, x1)"
    "st1 = advanced st (Suc n) (Suc m) (b @ frame_bytes (Event, of_nat n, x1))"
    using s(1) _ _ assms(2) by (rule emit_event_Ok) (use assms(3,4) in simp_all)
  obtain root where root: "wk_root st = Some root" "removal_confirmed (wh_removal host) root"
    "cl = removal_proof job (wh_cleanup_at host)"
    "st2 = advanced (st\<lparr>wk_root := None\<rparr>) (Suc n) (Suc m) (b @ frame_bytes (Event, of_nat n, x1))"
    using s(2) by (rule cleanup_root_Ok) (use e1(4) assms(2) in auto)
  obtain e2 x2 where e2: "RemoteBuildEvent_new (we_event env) (request_operation_id req) job (wh_event_at host (of_nat (Suc m)))
      SSH_STDIO_PROVIDER_ID ''cleanup'' (of_nat (Suc m)) (CleanupFinished cl) = Ok e2"
    "we_event_json env e2 = Some x2" "frame_wf (Event, 0, x2)"
    "st3 = advanced (st\<lparr>wk_root := None\<rparr>) (Suc (Suc n)) (Suc (Suc m))
      ((b @ frame_bytes (Event, of_nat n, x1)) @ frame_bytes (Event, of_nat (Suc n), x2))"
    using s(3) [unfolded root(4)] by (rule emit_event_Ok [where job = job]) (use assms in simp_all)
  obtain x where x: "we_complete_json env c = Some x" "frame_wf (Complete, of_nat (Suc (Suc n)), x)"
    "st' = advanced (st\<lparr>wk_root := None\<rparr>) (Suc (Suc (Suc n))) (Suc (Suc m))
      (((b @ frame_bytes (Event, of_nat n, x1)) @ frame_bytes (Event, of_nat (Suc n), x2))
        @ frame_bytes (Complete, of_nat (Suc (Suc n)), x))"
    using s(5) [unfolded e2(4)] by (rule write_json_Ok) (use assms(3) in simp)
  have events: "worker_events env host req job m
      [(''cleanup'', CleanupStarted), (''cleanup'', CleanupFinished (removal_proof job (wh_cleanup_at host)))] [e1, e2] [x1, x2]"
    using e1(1-3) e2(1-3) root(3) by simp
  have eq: "Suc (Suc n) = n + 2" "Suc (Suc (Suc n)) = n + 3" "Suc (Suc m) = m + 2" by simp_all
  show thesis
    by (rule that [OF root(1,2) events s(4) [unfolded root(3)] x(1) x(2) [unfolded eq]])
      (simp add: x(3) eval_nat_numeral del: frame_bytes.simps of_nat_Suc)
qed

lemma compile_build_Ok:
  assumes "compile_build env host req job out_dir st = (Ok d, st')"
  obtains a c where "SnapshotArtifactDescriptor_new (we_request env) (request_operation_id req) a c = Ok d" "ce_job_id c = job"
    "ce_provider c = SSH_STDIO_PROVIDER_ID" "ce_source_sha256 c = manifest_sha256 (source req)"
    "canonical_request_sha256 (we_request env) req = Ok (ce_request_sha256 c)" "st' = st"
  using assms by (fastforce simp: compile_build_def validate_compile_output_def and_next_Ok pure_step_def Let_def
      split: if_splits sum.splits)

lemma prepare_build_Ok:
  "prepare_build env host d st = (Ok out_dir, st') \<Longrightarrow> st' = st \<and> we_extract env d (written (wk_archive_file st))"
  by (auto simp: prepare_build_def and_next_Ok with_root_def pure_step_def split: if_splits option.splits)

lemma create_root_Ok:
  assumes "create_root env host st = (Ok job, st')"
  obtains root where "job = ''ssh-'' @ wh_uuid host"
    "JobRootGuard_create (wh_creation host) (we_worker_root env) job = Ok root" "st' = st\<lparr>wk_job_id := Some job, wk_root := Some root\<rparr>"
  using assms by (auto simp: create_root_def Let_def split: sum.splits)

text \<open>
  A successful run, from the client's four frames to the frames of a transcript: what was received and checked, what
  the compile step delivered, and the messages the transcript holds.
\<close>

record worker_run =
  run_start :: SnapshotBuildStart
  run_start_json :: bytes
  run_descriptor_json :: bytes
  run_archive :: bytes
  run_receipt_json :: bytes
  run_descriptor :: SourceBundleDescriptor
  run_request :: IosDeviceBuildRequest
  run_job_id :: string
  run_accepted :: SnapshotJobAccepted
  run_artifact :: SnapshotArtifactDescriptor
  run_record :: ArtifactRecord
  run_receipt :: SnapshotArtifactReceipt
  run_complete :: SnapshotBuildComplete
  run_events :: "RemoteBuildEvent list"
  run_late :: "RemoteBuildEvent list"
  run_root :: JobRootGuard

definition run_received :: "worker_env \<Rightarrow> worker_run \<Rightarrow> bytes \<Rightarrow> bytes \<Rightarrow> bool" where
  "run_received env w input rest \<longleftrightarrow>
     input = frames [(BuildRequest, 0, run_start_json w), (SourceDescriptor, 1, run_descriptor_json w),
       (SourceArchive, 2, run_archive w), (ArtifactReceipt, 3, run_receipt_json w)] @ rest
     \<and> list_all frame_wf [(BuildRequest, 0, run_start_json w), (SourceDescriptor, 1, run_descriptor_json w),
       (SourceArchive, 2, run_archive w), (ArtifactReceipt, 3, run_receipt_json w)]
     \<and> we_start env (run_start_json w) = Some (run_start w)
     \<and> hex_encode (env_sha256 (we_request env) (run_descriptor_json w)) = start_source_descriptor_sha256 (run_start w)
     \<and> we_descriptor env (run_descriptor_json w) = Some (run_descriptor w)
     \<and> start_reconstruct_request (we_request env) (run_start w) (run_descriptor w) SourceArchiveLimits_default = Ok (run_request w)
     \<and> hex_encode (env_sha256 (we_request env) (run_archive w)) = archive_sha256 (bundle_archive (run_descriptor w))
     \<and> we_extract env (run_descriptor w) (run_archive w)
     \<and> we_receipt env (run_receipt_json w) = Some (run_receipt w)
     \<and> receipt_validate_for (we_request env) (run_receipt w) (run_artifact w) = Ok ()"

definition run_built :: "worker_env \<Rightarrow> worker_host \<Rightarrow> worker_run \<Rightarrow> bool" where
  "run_built env host w \<longleftrightarrow>
     SnapshotJobAccepted_new (request_operation_id (run_request w)) (run_job_id w) (wh_accepted_at host) = Ok (run_accepted w)
     \<and> SnapshotArtifactDescriptor_new (we_request env) (request_operation_id (run_request w)) (run_record w)
         (ad_compile (run_artifact w)) = Ok (run_artifact w)
     \<and> ce_job_id (ad_compile (run_artifact w)) = run_job_id w
     \<and> ce_provider (ad_compile (run_artifact w)) = SSH_STDIO_PROVIDER_ID
     \<and> ce_source_sha256 (ad_compile (run_artifact w)) = manifest_sha256 (source (run_request w))
     \<and> canonical_request_sha256 (we_request env) (run_request w) = Ok (ce_request_sha256 (ad_compile (run_artifact w)))
     \<and> JobRootGuard_create (wh_creation host) (we_worker_root env) (run_job_id w) = Ok (run_root w)
     \<and> removal_confirmed (wh_removal host) (run_root w)
     \<and> SnapshotBuildComplete_new (request_operation_id (run_request w)) (removal_proof (run_job_id w) (wh_cleanup_at host))
         = Ok (run_complete w)"

definition run_sent :: "worker_env \<Rightarrow> worker_host \<Rightarrow> worker_run \<Rightarrow> worker_transcript \<Rightarrow> bool" where
  "run_sent env host w t \<longleftrightarrow>
     we_accepted_json env (run_accepted w) = Some (t_accepted t) \<and> frame_wf (JobAccepted, 0, t_accepted t)
     \<and> worker_events env host (run_request w) (run_job_id w) 0
         (announcements (run_descriptor w) (run_request w) @ artifact_events (run_artifact w)) (run_events w) (t_events t)
     \<and> we_artifact_json env (run_artifact w) = Some (t_descriptor t) \<and> frame_wf (ArtifactDescriptor, 0, t_descriptor t)
     \<and> length (t_artifact t) = unat (artifact_size (ad_artifact (run_artifact w)))
     \<and> hex_encode (env_sha256 (we_request env) (t_artifact t)) = artifact_sha256 (ad_artifact (run_artifact w))
     \<and> worker_events env host (run_request w) (run_job_id w) 10
         [(''cleanup'', CleanupStarted), (''cleanup'', CleanupFinished (removal_proof (run_job_id w) (wh_cleanup_at host)))]
         (run_late w) (t_late t)
     \<and> we_complete_json env (run_complete w) = Some (t_complete t) \<and> frame_wf (Complete, 0, t_complete t)"

lemma Session_new_advanced: "Session_new r \<lparr>written = [], capacity = None\<rparr> = advanced (Session_new r \<lparr>written = [], capacity = None\<rparr>) 0 0 []"
  by (simp add: Session_new_def advanced_def)

text \<open>First half: everything up to the control thread; nothing has been written.\<close>

lemma session_prepared:
  assumes "receive_start env host (Session_new r w) = (Ok start, st1)" "receive_descriptor env host start st1 = (Ok (d, req), st2)"
    and "create_root env host st2 = (Ok job, st3)" "receive_archive env host d st3 = (Ok (), st4)"
    and "prepare_build env host d st4 = (Ok out_dir, st5)"
  obtains json b archive root r' f where
    "reader_data r = frames [(BuildRequest, 0, json), (SourceDescriptor, 1, b), (SourceArchive, 2, archive)] @ reader_data r'"
    "list_all frame_wf [(BuildRequest, 0, json), (SourceDescriptor, 1, b), (SourceArchive, 2, archive)]"
    "we_start env json = Some start" "we_descriptor env b = Some d"
    "hex_encode (env_sha256 (we_request env) b) = start_source_descriptor_sha256 start"
    "start_reconstruct_request (we_request env) start d SourceArchiveLimits_default = Ok req"
    "hex_encode (env_sha256 (we_request env) archive) = archive_sha256 (bundle_archive d)" "we_extract env d archive"
    "JobRootGuard_create (wh_creation host) (we_worker_root env) job = Ok root"
    "st5 = (Session_new r w)\<lparr>wk_reader := r', wk_input_sequence := \<lparr>next_sequence = Some 3\<rparr>,
       wk_operation_id := Some (sp_operation_id (start_parameters start)), wk_job_id := Some job, wk_root := Some root,
       wk_archive_file := f\<rparr>"
proof -
  have "wk_input_sequence (Session_new r w) = \<lparr>next_sequence = Some 0\<rparr>"
    by (simp add: Session_new_def WorkerDataPlaneSequence_new_def)
  with assms(1) obtain json r1 where start: "we_start env json = Some start" "frame_wf (BuildRequest, 0, json)"
    "reader_data r = frame_bytes (BuildRequest, 0, json) @ reader_data r1"
    "st1 = (Session_new r w)\<lparr>wk_reader := r1, wk_input_sequence := \<lparr>next_sequence = Some 1\<rparr>,
       wk_operation_id := Some (sp_operation_id (start_parameters start))\<rparr>"
    by (rule receive_start_Ok) (simp_all add: Session_new_def)
  obtain b r2 where desc: "we_descriptor env b = Some d"
    "hex_encode (env_sha256 (we_request env) b) = start_source_descriptor_sha256 start"
    "start_reconstruct_request (we_request env) start d SourceArchiveLimits_default = Ok req"
    "frame_wf (SourceDescriptor, 1, b)" "reader_data r1 = frame_bytes (SourceDescriptor, 1, b) @ reader_data r2"
    "st2 = st1\<lparr>wk_reader := r2, wk_input_sequence := \<lparr>next_sequence = Some 2\<rparr>\<rparr>"
    using assms(2) by (rule receive_descriptor_Ok) (simp_all add: start(4))
  obtain root where root: "JobRootGuard_create (wh_creation host) (we_worker_root env) job = Ok root"
    "st3 = st2\<lparr>wk_job_id := Some job, wk_root := Some root\<rparr>"
    using assms(3) by (rule create_root_Ok)
  obtain archive r3 f where arch: "hex_encode (env_sha256 (we_request env) archive) = archive_sha256 (bundle_archive d)"
    "written f = archive" "frame_wf (SourceArchive, 2, archive)"
    "reader_data r2 = frame_bytes (SourceArchive, 2, archive) @ reader_data r3"
    "st4 = st3\<lparr>wk_reader := r3, wk_input_sequence := \<lparr>next_sequence = Some 3\<rparr>, wk_archive_file := f\<rparr>"
    using assms(4) by (rule receive_archive_Ok) (simp_all add: root(2) desc(6))
  have st5: "st5 = st4" "we_extract env d archive" using prepare_build_Ok [OF assms(5)] arch(2,5) by simp_all
  show thesis
    by (rule that [OF _ _ start(1) desc(1,2,3) arch(1) st5(2) root(1), of r3 f])
      (use start(2-4) desc(4-6) root(2) arch(3-5) st5(1) in \<open>simp_all del: frame_bytes.simps frame_wf.simps\<close>)
qed

lemma frame_wf_number: "frame_wf (k, sq, payload) \<longleftrightarrow> frame_wf (k, 0, payload)"
  by simp

text \<open>Second half: from an idle writer to the frames of a transcript.\<close>

lemma session_built:
  assumes "announce env host d req job (advanced st 0 0 []) = (Ok (), st1)" "compile_build env host req job out_dir st1 = (Ok art, st2)"
    and "send_artifact env host req art st2 = (Ok (), st3)" "await_receipt env host art st3 = (Ok receipt, st4)"
    and "finish_build env host req st4 = (Ok (), st')"
    and "wk_job_id st = Some job" "wk_input_sequence st = \<lparr>next_sequence = Some 3\<rparr>"
  obtains w t rest where "run_start w = start" "run_start_json w = json" "run_descriptor_json w = b" "run_archive w = archive"
    "run_request w = req" "run_job_id w = job" "run_artifact w = art" "run_receipt w = receipt" "run_descriptor w = d"
    "wk_root st = Some (run_root w)" "removal_confirmed (wh_removal host) (run_root w)"
    "JobRootGuard_create (wh_creation host) (we_worker_root env) job = Ok (run_root w) \<Longrightarrow> run_built env host w"
    "run_sent env host w t" "we_receipt env (run_receipt_json w) = Some receipt"
    "receipt_validate_for (we_request env) receipt art = Ok ()" "frame_wf (ArtifactReceipt, 3, run_receipt_json w)"
    "reader_data (wk_reader st) = frame_bytes (ArtifactReceipt, 3, run_receipt_json w) @ rest"
    "wk_writer st' = \<lparr>written = frames (transcript_frames t), capacity = None\<rparr>" "wk_root st' = None"
proof -
  obtain a xa es xs where announced: "SnapshotJobAccepted_new (request_operation_id req) job (wh_accepted_at host) = Ok a"
    "we_accepted_json env a = Some xa" "frame_wf (JobAccepted, of_nat 0, xa)"
    "worker_events env host req job 0 (announcements d req) es xs"
    "st1 = advanced st (0 + 9) (0 + 8) ([] @ frame_bytes (JobAccepted, of_nat 0, xa) @ frames (numbered (Suc 0) (map (Pair Event) xs)))"
    using assms(1,6) by (rule announce_Ok) simp_all
  obtain ar c where compiled: "SnapshotArtifactDescriptor_new (we_request env) (request_operation_id req) ar c = Ok art"
    "ce_job_id c = job" "ce_provider c = SSH_STDIO_PROVIDER_ID" "ce_source_sha256 c = manifest_sha256 (source req)"
    "canonical_request_sha256 (we_request env) req = Ok (ce_request_sha256 c)" "st2 = st1"
    using assms(2) by (rule compile_build_Ok)
  have c: "c = ad_compile art" using compiled(1) by (auto simp: SnapshotArtifactDescriptor_new_def Let_def and_then_Inr_iff)
  obtain es2 xs2 xd payload where sent: "worker_events env host req job (0 + 8) (artifact_events art) es2 xs2"
    "we_artifact_json env art = Some xd" "frame_wf (ArtifactDescriptor, of_nat (0 + 9 + 2), xd)"
    "length payload = unat (artifact_size (ad_artifact art))"
    "hex_encode (env_sha256 (we_request env) payload) = artifact_sha256 (ad_artifact art)"
    "st3 = advanced st (0 + 9 + 4) (0 + 8 + 2) (([] @ frame_bytes (JobAccepted, of_nat 0, xa) @ frames (numbered (Suc 0) (map (Pair Event) xs)))
       @ frames (numbered (0 + 9) (map (Pair Event) xs2))
       @ frame_bytes (ArtifactDescriptor, of_nat (0 + 9 + 2), xd) @ frame_bytes (Artifact, of_nat (0 + 9 + 3), payload))"
    using assms(3) [unfolded compiled(6) announced(5)] assms(6) by (rule send_artifact_Ok) simp_all
  obtain rj rest where receipt: "we_receipt env rj = Some receipt" "receipt_validate_for (we_request env) receipt art = Ok ()"
    "frame_wf (ArtifactReceipt, 3, rj)" "reader_data (wk_reader st) = frame_bytes (ArtifactReceipt, 3, rj) @ rest" "st4 = st3"
    using assms(4) by (rule await_receipt_Ok) (simp_all add: sent(6) assms(7))
  obtain root es3 xs3 co xc where fin: "wk_root st = Some root" "removal_confirmed (wh_removal host) root"
    "worker_events env host req job (0 + 8 + 2)
       [(''cleanup'', CleanupStarted), (''cleanup'', CleanupFinished (removal_proof job (wh_cleanup_at host)))] es3 xs3"
    "SnapshotBuildComplete_new (request_operation_id req) (removal_proof job (wh_cleanup_at host)) = Ok co"
    "we_complete_json env co = Some xc" "frame_wf (Complete, of_nat (0 + 9 + 4 + 2), xc)"
    "st' = advanced (st\<lparr>wk_root := None\<rparr>) (0 + 9 + 4 + 3) (0 + 8 + 2 + 2)
       ((([] @ frame_bytes (JobAccepted, of_nat 0, xa) @ frames (numbered (Suc 0) (map (Pair Event) xs)))
       @ frames (numbered (0 + 9) (map (Pair Event) xs2))
       @ frame_bytes (ArtifactDescriptor, of_nat (0 + 9 + 2), xd) @ frame_bytes (Artifact, of_nat (0 + 9 + 3), payload))
       @ frames (numbered (0 + 9 + 4) (map (Pair Event) xs3)) @ frame_bytes (Complete, of_nat (0 + 9 + 4 + 2), xc))"
    using assms(5) [unfolded receipt(5) sent(6)] assms(6) by (rule finish_build_Ok) simp_all
  define t where "t = \<lparr>t_accepted = xa, t_events = xs @ xs2, t_descriptor = xd, t_artifact = payload, t_late = xs3, t_complete = xc\<rparr>"
  define w where "w = \<lparr>run_start = start, run_start_json = json, run_descriptor_json = b, run_archive = archive, run_receipt_json = rj,
    run_descriptor = d, run_request = req, run_job_id = job, run_accepted = a, run_artifact = art, run_record = ar, run_receipt = receipt,
    run_complete = co, run_events = es @ es2, run_late = es3, run_root = root\<rparr>"
  have len: "length xs = 8" "length xs2 = 2" "length xs3 = 2"
    using worker_events_length [OF announced(4)] worker_events_length [OF sent(1)] worker_events_length [OF fin(3)]
    by (simp_all add: announcements_def Let_def)
  have out: "wk_writer st' = \<lparr>written = frames (transcript_frames t), capacity = None\<rparr>"
    unfolding transcript_data by (simp add: fin(7) t_def numbered_append len del: frame_bytes.simps)
  have "worker_events env host req job 0 (announcements d req @ artifact_events art) (es @ es2) (xs @ xs2)"
    by (rule worker_events_append [OF announced(4)]) (use sent(1) in \<open>simp add: announcements_def Let_def eval_nat_numeral del: worker_events.simps\<close>)
  then have "run_sent env host w t"
    using announced(2,3) sent(2-5) fin(3,5,6) by (simp add: run_sent_def w_def t_def del: worker_events.simps)
  moreover have "run_built env host w" if "JobRootGuard_create (wh_creation host) (we_worker_root env) job = Ok root"
    using that announced(1) compiled(1-5) fin(2,4) by (simp add: run_built_def w_def c)
  ultimately show thesis
    using fin(1,2) receipt(1-4) out by (intro that [of w t rest]) (simp_all add: w_def fin(7) del: frame_bytes.simps frame_wf.simps)
qed

lemma run_session_Ok:
  assumes "run_session env host (Session_new r \<lparr>written = [], capacity = None\<rparr>) = (Ok (), st)"
  obtains w t rest where "run_received env w (reader_data r) rest" "run_built env host w" "run_sent env host w t"
    "wk_writer st = \<lparr>written = frames (transcript_frames t), capacity = None\<rparr>" "wk_root st = None"
proof -
  let ?st0 = "Session_new r \<lparr>written = [], capacity = None\<rparr>"
  obtain start st1 d req st2 job st3 st4 out_dir st5 st6 art st7 st8 receipt st9 where s:
    "receive_start env host ?st0 = (Ok start, st1)" "receive_descriptor env host start st1 = (Ok (d, req), st2)"
    "create_root env host st2 = (Ok job, st3)" "receive_archive env host d st3 = (Ok (), st4)"
    "prepare_build env host d st4 = (Ok out_dir, st5)" "announce env host d req job st5 = (Ok (), st6)"
    "compile_build env host req job out_dir st6 = (Ok art, st7)" "send_artifact env host req art st7 = (Ok (), st8)"
    "await_receipt env host art st8 = (Ok receipt, st9)" "finish_build env host req st9 = (Ok (), st)"
    using assms by (auto simp: run_session_def and_next_Ok split: if_splits prod.splits)
  obtain json b archive root r' f where prep:
    "reader_data r = frames [(BuildRequest, 0, json), (SourceDescriptor, 1, b), (SourceArchive, 2, archive)] @ reader_data r'"
    "list_all frame_wf [(BuildRequest, 0, json), (SourceDescriptor, 1, b), (SourceArchive, 2, archive)]"
    "we_start env json = Some start" "we_descriptor env b = Some d"
    "hex_encode (env_sha256 (we_request env) b) = start_source_descriptor_sha256 start"
    "start_reconstruct_request (we_request env) start d SourceArchiveLimits_default = Ok req"
    "hex_encode (env_sha256 (we_request env) archive) = archive_sha256 (bundle_archive d)" "we_extract env d archive"
    "JobRootGuard_create (wh_creation host) (we_worker_root env) job = Ok root"
    "st5 = ?st0\<lparr>wk_reader := r', wk_input_sequence := \<lparr>next_sequence = Some 3\<rparr>,
       wk_operation_id := Some (sp_operation_id (start_parameters start)), wk_job_id := Some job, wk_root := Some root,
       wk_archive_file := f\<rparr>"
    using s(1-5) by (rule session_prepared)
  have "advanced st5 0 0 [] = st5" by (simp add: prep(10) advanced_def Session_new_def)
  with s(6) have announced: "announce env host d req job (advanced st5 0 0 []) = (Ok (), st6)" by (simp only:)
  obtain w t rest where w: "run_start w = start" "run_start_json w = json" "run_descriptor_json w = b" "run_archive w = archive"
    "run_request w = req" "run_job_id w = job" "run_artifact w = art" "run_receipt w = receipt" "run_descriptor w = d"
    "wk_root st5 = Some (run_root w)"
    "JobRootGuard_create (wh_creation host) (we_worker_root env) job = Ok (run_root w) \<Longrightarrow> run_built env host w"
    "run_sent env host w t" "we_receipt env (run_receipt_json w) = Some receipt"
    "receipt_validate_for (we_request env) receipt art = Ok ()" "frame_wf (ArtifactReceipt, 3, run_receipt_json w)"
    "reader_data (wk_reader st5) = frame_bytes (ArtifactReceipt, 3, run_receipt_json w) @ rest"
    "wk_writer st = \<lparr>written = frames (transcript_frames t), capacity = None\<rparr>" "wk_root st = None"
    using announced s(7-10)
    by (rule session_built [where start = start and json = json and b = b and archive = archive and st = st5])
      (simp_all add: prep(10))
  have "run_received env w (reader_data r) rest"
    using prep(1-8) w(1-9,13-16)
    by (simp add: run_received_def prep(10) del: frame_bytes.simps frame_wf.simps)
  moreover have "run_built env host w" using w(10,11) prep(9) by (simp add: prep(10))
  ultimately show thesis using w(12,17,18) that by blast
qed

end
