(* ===== verification/Worker_Serving.thy ===== *)
theory Worker_Serving
  imports Worker_Protocol
begin

text \<open>
  The worker session of \<open>Worker_Session\<close> does complete: when the client sent what the worker asks for, the operating
  system and the compiler answer as they should and the receipt arrives in time, the session succeeds and its output is
  the whole transcript.
\<close>

section \<open>Writing succeeds\<close>

lemma write_json_served:
  assumes "to_vec x = Some payload" "frame_wf (k, 0, payload)" "Suc n < 2 ^ 64"
  shows "write_json to_vec k x (advanced st n m b) = (Ok (), advanced st (Suc n) m (b @ frame_bytes (k, of_nat n, payload)))"
proof -
  let ?w = "\<lparr>written = b, capacity = None\<rparr>"
  have "length payload \<le> unat (maximum_payload_bytes k)" using assms(2) by simp
  with write_frame_ok [of ?w payload k "of_nat n"]
  have "write_worker_data_plane_frame ?w k (of_nat n) payload = (Ok (), \<lparr>written = b @ frame_bytes (k, of_nat n, payload), capacity = None\<rparr>)"
    by simp
  with assms(1) checked_add_of_nat [OF assms(3)] show ?thesis
    by (simp add: write_json_def advanced_def del: of_nat_Suc frame_bytes.simps)
qed

lemma emit_events_served:
  assumes "worker_events env host req job m ks es xs" "n + length ks < 2 ^ 64" "m + length ks < 2 ^ 64" "wk_job_id st = Some job"
  shows "emit_events env host req ks (advanced st n m b)
    = (Ok (), advanced st (n + length ks) (m + length ks) (b @ frames (numbered n (map (Pair Event) xs))))"
  using assms
proof (induction ks arbitrary: n m b es xs)
  case Nil
  then show ?case by simp
next
  case (Cons pk ks)
  obtain phase k where pk: "pk = (phase, k)" by (cases pk)
  from Cons.prems(1) obtain e es' x xs' where e: "es = e # es'" "xs = x # xs'"
    "RemoteBuildEvent_new (we_event env) (request_operation_id req) job (wh_event_at host (of_nat m))
       SSH_STDIO_PROVIDER_ID phase (of_nat m) k = Ok e"
    "we_event_json env e = Some x" "frame_wf (Event, 0, x)" "worker_events env host req job (Suc m) ks es' xs'"
    by (auto simp: pk)
  have next_event: "checked_add (of_nat m :: u64) 1 = Some (of_nat (Suc m))"
    using Cons.prems(3) by (intro checked_add_of_nat) simp
  have "write_json (we_event_json env) Event e (advanced st n (Suc m) b)
      = (Ok (), advanced st (Suc n) (Suc m) (b @ frame_bytes (Event, of_nat n, x)))"
    using e(4,5) Cons.prems(2) by (intro write_json_served) simp_all
  then have "emit_event env host req phase k (advanced st n m b)
      = (Ok (), advanced st (Suc n) (Suc m) (b @ frame_bytes (Event, of_nat n, x)))"
    using e(3) Cons.prems(4) next_event by (simp add: emit_event_def del: of_nat_Suc frame_bytes.simps)
  moreover have "emit_events env host req ks (advanced st (Suc n) (Suc m) (b @ frame_bytes (Event, of_nat n, x)))
      = (Ok (), advanced st (Suc n + length ks) (Suc m + length ks)
          ((b @ frame_bytes (Event, of_nat n, x)) @ frames (numbered (Suc n) (map (Pair Event) xs'))))"
    using Cons.prems(2-4) by (intro Cons.IH [OF e(6)]) simp_all
  ultimately show ?case by (simp add: pk e(2) del: frame_bytes.simps of_nat_Suc)
qed

lemma emit_event_served:
  assumes "worker_events env host req job m [(phase, k)] es [x]" "Suc n < 2 ^ 64" "Suc m < 2 ^ 64" "wk_job_id st = Some job"
  shows "emit_event env host req phase k (advanced st n m b)
    = (Ok (), advanced st (Suc n) (Suc m) (b @ frame_bytes (Event, of_nat n, x)))"
proof -
  have "emit_events env host req [(phase, k)] (advanced st n m b)
    = (Ok (), advanced st (n + length [(phase, k)]) (m + length [(phase, k)]) (b @ frames (numbered n (map (Pair Event) [x]))))"
    using assms by (intro emit_events_served [where es = es]) (simp_all del: worker_events.simps)
  then show ?thesis by (auto simp: and_next_Ok simp del: frame_bytes.simps)
qed

lemma announce_served:
  assumes "SnapshotJobAccepted_new (request_operation_id req) job (wh_accepted_at host) = Ok a" "we_accepted_json env a = Some x"
    and "frame_wf (JobAccepted, 0, x)" "worker_events env host req job m (announcements d req) es xs" "wh_build_flush host"
    and "wk_job_id st = Some job" "n < 2 ^ 32" "m < 2 ^ 32"
  shows "announce env host d req job (advanced st n m b) = (Ok (), advanced st (n + 9) (m + 8)
    (b @ frame_bytes (JobAccepted, of_nat n, x) @ frames (numbered (Suc n) (map (Pair Event) xs))))"
proof -
  have len: "length (announcements d req) = 8" by (simp add: announcements_def Let_def)
  have "write_json (we_accepted_json env) JobAccepted a (advanced st n m b)
      = (Ok (), advanced st (Suc n) m (b @ frame_bytes (JobAccepted, of_nat n, x)))"
    using assms(2,3,7) by (intro write_json_served) simp_all
  moreover have "emit_events env host req (announcements d req) (advanced st (Suc n) m (b @ frame_bytes (JobAccepted, of_nat n, x)))
      = (Ok (), advanced st (Suc n + 8) (m + 8)
          ((b @ frame_bytes (JobAccepted, of_nat n, x)) @ frames (numbered (Suc n) (map (Pair Event) xs))))"
    using emit_events_served [OF assms(4), of "Suc n"] assms(6-8) by (simp add: len)
  ultimately show ?thesis
    using assms(1,5) by (simp add: announce_def flush_step_def eval_nat_numeral del: frame_bytes.simps)
qed
text \<open>A sealed archive that stays the same regular file while it is streamed and delivers the given bytes.\<close>

definition artifact_file_serves :: "artifact_file \<Rightarrow> u64 \<Rightarrow> bytes \<Rightarrow> bool" where
  "artifact_file_serves f n payload \<longleftrightarrow>
     (case af_metadata f of None \<Rightarrow> False | Some m \<Rightarrow> \<not> md_is_symlink m \<and> md_is_file m \<and> md_len m = n)
     \<and> af_opened f \<and> af_identity f \<noteq> None \<and> af_path_identity f = af_identity f \<and> af_path_identity_after f = af_identity f
     \<and> reader_data (af_reader f) = payload"

lemma stream_artifact_served:
  assumes "artifact_file_serves f (artifact_size (ad_artifact d)) payload" "length payload = unat (artifact_size (ad_artifact d))"
    and "hex_encode (env_sha256 (we_request env) payload) = artifact_sha256 (ad_artifact d)"
    and "artifact_size (ad_artifact d) \<le> maximum_payload_bytes Artifact" "Suc n < 2 ^ 64"
  shows "stream_artifact env f d (advanced st n m b)
    = (Ok (), advanced st (Suc n) m (b @ frame_bytes (Artifact, of_nat n, payload)))"
proof -
  let ?n = "artifact_size (ad_artifact d)"
  let ?h = "\<lparr>kind = Artifact, sequence = of_nat n, payload_bytes = ?n\<rparr>" and ?w = "\<lparr>written = b, capacity = None\<rparr>"
  have data: "reader_data (af_reader f) = payload" using assms(1) by (simp add: artifact_file_serves_def)
  have len: "(of_nat (length payload) :: u64) = ?n" using assms(2) by simp
  obtain r where r: "copy_loop ?n 0 (af_reader f) (?w\<lparr>written := b @ encode_header ?h\<rparr>)
      = (Ok ?n, r, ?w\<lparr>written := b @ frame_bytes (Artifact, of_nat n, payload)\<rparr>)" "reader_data r = []"
    using copy_loop_complete [of ?n "af_reader f" "?w\<lparr>written := b @ encode_header ?h\<rparr>" 0] assms(2) data len by auto
  have stream: "write_worker_data_plane_stream ?w Artifact (of_nat n) (af_reader f) ?n
      = (Ok ?n, r, ?w\<lparr>written := b @ frame_bytes (Artifact, of_nat n, payload)\<rparr>)"
    using r(1) assms(4) by (simp add: write_worker_data_plane_stream_def WorkerDataPlaneFrameHeader_new_def Let_def not_less
        write_worker_data_plane_header_def copy_worker_data_plane_payload_def)
  have "unat ?n < 2 ^ 64" using unsigned_less [of ?n] by simp
  then have digest: "HashingReader_finish (env_sha256 (we_request env)) (drawn (af_reader f) r) = (?n, artifact_sha256 (ad_artifact d))"
    using assms(2,3) data r(2) len by (simp add: drawn_def HashingReader_finish_def lowercase_hex_is_hex_encode)
  have "advanced st (Suc n) m (b @ frame_bytes (Artifact, of_nat n, payload))
    = (advanced st n m b)\<lparr>wk_writer := ?w\<lparr>written := b @ frame_bytes (Artifact, of_nat n, payload)\<rparr>, wk_output_sequence := of_nat (Suc n)\<rparr>"
    by (simp add: advanced_def)
  with stream digest assms(1) checked_add_of_nat [OF assms(5)] show ?thesis
    by (auto simp: stream_artifact_def artifact_file_serves_def Let_def simp del: of_nat_Suc frame_bytes.simps split: option.splits)
qed

lemma send_artifact_served:
  assumes "worker_events env host req job m (artifact_events d) es xs" "we_artifact_json env d = Some x"
    and "frame_wf (ArtifactDescriptor, 0, x)" "artifact_file_serves (wh_artifact host) (artifact_size (ad_artifact d)) payload"
    and "length payload = unat (artifact_size (ad_artifact d))"
    and "hex_encode (env_sha256 (we_request env) payload) = artifact_sha256 (ad_artifact d)"
    and "artifact_size (ad_artifact d) \<le> maximum_payload_bytes Artifact" "wh_artifact_flush host"
    and "wk_job_id st = Some job" "n < 2 ^ 32" "m < 2 ^ 32"
  shows "send_artifact env host req d (advanced st n m b)
    = (Ok (), advanced st (n + 4) (m + 2) (b @ frames (numbered n (map (Pair Event) xs))
       @ frame_bytes (ArtifactDescriptor, of_nat (n + 2), x) @ frame_bytes (Artifact, of_nat (n + 3), payload)))"
proof -
  let ?b = "b @ frames (numbered n (map (Pair Event) xs))"
  let ?b' = "?b @ frame_bytes (ArtifactDescriptor, of_nat (n + 2), x)"
  have events: "emit_events env host req (artifact_events d) (advanced st n m b) = (Ok (), advanced st (n + 2) (m + 2) ?b)"
    using emit_events_served [OF assms(1), of n st b] assms(9-11) by simp
  have descriptor: "write_json (we_artifact_json env) ArtifactDescriptor d (advanced st (n + 2) (m + 2) ?b)
      = (Ok (), advanced st (Suc (n + 2)) (m + 2) ?b')"
    using assms(2,3,10) by (intro write_json_served) simp_all
  have stream: "stream_artifact env (wh_artifact host) d (advanced st (Suc (n + 2)) (m + 2) ?b')
      = (Ok (), advanced st (Suc (Suc (n + 2))) (m + 2) (?b' @ frame_bytes (Artifact, of_nat (Suc (n + 2)), payload)))"
    using assms(4-7,10) by (intro stream_artifact_served) simp_all
  have "Suc (n + 2) = n + 3" "Suc (Suc (n + 2)) = n + 4" by simp_all
  with stream have "stream_artifact env (wh_artifact host) d (advanced st (Suc (n + 2)) (m + 2) ?b')
      = (Ok (), advanced st (n + 4) (m + 2) (?b' @ frame_bytes (Artifact, of_nat (n + 3), payload)))"
    by (simp only:)
  then show ?thesis
    unfolding send_artifact_def events and_next_simps descriptor
    using assms(8) by (simp add: flush_step_def del: frame_bytes.simps of_nat_Suc of_nat_add)
qed

lemma finish_build_served:
  assumes "worker_events env host req job m
       [(''cleanup'', CleanupStarted), (''cleanup'', CleanupFinished (removal_proof job (wh_cleanup_at host)))] es xs"
    and "SnapshotBuildComplete_new (request_operation_id req) (removal_proof job (wh_cleanup_at host)) = Ok c"
    and "we_complete_json env c = Some x" "frame_wf (Complete, 0, x)" "wk_root st = Some root"
    and "removal_confirmed (wh_removal host) root" "wh_final_flush host" "wk_job_id st = Some job" "n < 2 ^ 32" "m < 2 ^ 32"
  shows "finish_build env host req (advanced st n m b) = (Ok (), advanced (st\<lparr>wk_root := None\<rparr>) (n + 3) (m + 2)
    (b @ frames (numbered n (map (Pair Event) xs)) @ frame_bytes (Complete, of_nat (n + 2), x)))"
proof -
  from assms(1) obtain e1 x1 e2 x2 where xs: "xs = [x1, x2]"
    "worker_events env host req job m [(''cleanup'', CleanupStarted)] [e1] [x1]"
    "worker_events env host req job (Suc m) [(''cleanup'', CleanupFinished (removal_proof job (wh_cleanup_at host)))] [e2] [x2]"
    by auto
  let ?b1 = "b @ frame_bytes (Event, of_nat n, x1)" and ?st = "st\<lparr>wk_root := None\<rparr>"
  let ?b2 = "?b1 @ frame_bytes (Event, of_nat (Suc n), x2)"
  obtain g where g: "root_cleanup (wh_removal host) root = (Ok (), g)" using assms(6) root_cleanup_confirmed by blast
  have 1: "emit_event env host req ''cleanup'' CleanupStarted (advanced st n m b) = (Ok (), advanced st (Suc n) (Suc m) ?b1)"
    using xs(2) assms(8-10) by (intro emit_event_served [where es = "[e1]"]) (simp_all del: worker_events.simps)
  have 2: "cleanup_root (wh_removal host) (wh_cleanup_at host) (advanced st (Suc n) (Suc m) ?b1)
      = (Ok (removal_proof job (wh_cleanup_at host)), advanced ?st (Suc n) (Suc m) ?b1)"
    using assms(5,8) g by (simp add: cleanup_root_def)
  have 3: "emit_event env host req ''cleanup'' (CleanupFinished (removal_proof job (wh_cleanup_at host))) (advanced ?st (Suc n) (Suc m) ?b1)
      = (Ok (), advanced ?st (Suc (Suc n)) (Suc (Suc m)) ?b2)"
    using xs(3) assms(8-10) by (intro emit_event_served [where es = "[e2]"]) (simp_all del: worker_events.simps)
  have 4: "write_json (we_complete_json env) Complete c (advanced ?st (Suc (Suc n)) (Suc (Suc m)) ?b2)
      = (Ok (), advanced ?st (Suc (Suc (Suc n))) (Suc (Suc m)) (?b2 @ frame_bytes (Complete, of_nat (Suc (Suc n)), x)))"
    using assms(3,4,9) by (intro write_json_served) simp_all
  show ?thesis
    unfolding finish_build_def 1 2 and_next_simps 3 assms(2) sum.case 4
    using assms(7) by (simp add: flush_step_def xs(1) eval_nat_numeral del: frame_bytes.simps of_nat_Suc)
qed

section \<open>Reading succeeds\<close>

lemma read_expected_header_served:
  assumes "reader_data (wk_reader st) = frame_bytes (k, of_nat i, payload) @ rest" "frame_wf (k, of_nat i, payload)"
    and "wk_input_sequence st = \<lparr>next_sequence = Some (of_nat i)\<rparr>" "Suc i < 2 ^ 64"
  obtains r where "read_expected_header host k st = (Ok \<lparr>kind = k, sequence = of_nat i, payload_bytes = of_nat (length payload)\<rparr>,
      st\<lparr>wk_reader := r, wk_input_sequence := \<lparr>next_sequence = Some (of_nat (Suc i))\<rparr>\<rparr>)" "reader_data r = payload @ rest"
proof -
  let ?h = "\<lparr>kind = k, sequence = of_nat i, payload_bytes = of_nat (length payload)\<rparr>"
  obtain r where r: "read_worker_data_plane_header (wk_reader st) = (Ok ?h, r)" "reader_data r = payload @ rest"
    using read_header_of_encoding [OF frame_header_wf [OF assms(2)]] assms(1) by fastforce
  moreover have "accept (wk_input_sequence st) ?h = Ok \<lparr>next_sequence = Some (of_nat (Suc i))\<rparr>"
    using assms(3) checked_add_of_nat [OF assms(4)] by (simp add: accept_def del: of_nat_Suc)
  ultimately show thesis by (intro that) (simp_all add: read_expected_header_def del: of_nat_Suc)
qed

lemma read_worker_payload_served:
  assumes "reader_data (wk_reader st) = payload @ rest" "frame_wf (k, sq, payload)" "k \<notin> {SourceArchive, Artifact}"
    and "length payload \<le> we_usize_max env"
  obtains r where "read_worker_payload env host \<lparr>kind = k, sequence = sq, payload_bytes = of_nat (length payload)\<rparr> st
      = (Ok payload, st\<lparr>wk_reader := r\<rparr>)" "reader_data r = rest"
proof -
  let ?h = "\<lparr>kind = k, sequence = sq, payload_bytes = of_nat (length payload)\<rparr>"
  have "unat (payload_bytes ?h) = length payload" using assms(2) header_payload_length by simp
  with read_payload_of_data [of ?h "we_usize_max env" "wk_reader st" payload rest] assms(1,3,4)
  obtain r where "read_worker_data_plane_payload (we_usize_max env) (wk_reader st) ?h = (Ok payload, r)" "reader_data r = rest"
    by auto
  then show thesis by (intro that [of r]) (simp_all add: read_worker_payload_def)
qed

lemma receive_start_served:
  assumes "reader_data (wk_reader st) = frame_bytes (BuildRequest, 0, json) @ rest" "frame_wf (BuildRequest, 0, json)"
    and "wk_input_sequence st = \<lparr>next_sequence = Some 0\<rparr>" "length json \<le> we_usize_max env" "we_start env json = Some start"
    and "start_source_descriptor_size start \<le> MAX_SNAPSHOT_SESSION_DESCRIPTOR_BYTES" "SnapshotBuildStart_validate start = Ok ()"
  obtains r where "receive_start env host st = (Ok start, st\<lparr>wk_reader := r, wk_input_sequence := \<lparr>next_sequence = Some 1\<rparr>,
      wk_operation_id := Some (sp_operation_id (start_parameters start))\<rparr>)" "reader_data r = rest"
proof -
  let ?h = "\<lparr>kind = BuildRequest, sequence = 0, payload_bytes = of_nat (length json)\<rparr>"
  obtain r1 where r1: "read_expected_header host BuildRequest st = (Ok ?h, st\<lparr>wk_reader := r1, wk_input_sequence := \<lparr>next_sequence = Some 1\<rparr>\<rparr>)"
    "reader_data r1 = json @ rest"
    using read_expected_header_served [of st BuildRequest 0 json rest host] assms(1-3) by auto
  let ?st = "st\<lparr>wk_reader := r1, wk_input_sequence := \<lparr>next_sequence = Some 1\<rparr>\<rparr>"
  obtain r2 where "read_worker_payload env host ?h ?st = (Ok json, ?st\<lparr>wk_reader := r2\<rparr>)" "reader_data r2 = rest"
    by (rule read_worker_payload_served [where st = ?st and payload = json and rest = rest]) (use r1(2) assms(2,4) in auto)
  with r1 assms(5-7) show thesis
    by (intro that [of r2]) (simp_all add: receive_start_def decode_session_json_payload_def not_less)
qed

lemma receive_descriptor_served:
  assumes "reader_data (wk_reader st) = frame_bytes (SourceDescriptor, 1, b) @ rest" "frame_wf (SourceDescriptor, 1, b)"
    and "wk_input_sequence st = \<lparr>next_sequence = Some 1\<rparr>" "length b \<le> we_usize_max env"
    and "of_nat (length b) = start_source_descriptor_size start"
    and "start_source_descriptor_size start \<le> MAX_SNAPSHOT_SESSION_DESCRIPTOR_BYTES"
    and "hex_encode (env_sha256 (we_request env) b) = start_source_descriptor_sha256 start" "we_descriptor env b = Some d"
    and "start_reconstruct_request (we_request env) start d SourceArchiveLimits_default = Ok req"
  obtains r where "receive_descriptor env host start st
      = (Ok (d, req), st\<lparr>wk_reader := r, wk_input_sequence := \<lparr>next_sequence = Some 2\<rparr>\<rparr>)" "reader_data r = rest"
proof -
  let ?h = "\<lparr>kind = SourceDescriptor, sequence = 1, payload_bytes = of_nat (length b)\<rparr>"
  let ?st = "\<lambda>r. st\<lparr>wk_reader := r, wk_input_sequence := \<lparr>next_sequence = Some 2\<rparr>\<rparr>"
  obtain r1 where r1: "read_expected_header host SourceDescriptor st = (Ok ?h, ?st r1)" "reader_data r1 = b @ rest"
    using read_expected_header_served [of st SourceDescriptor 1 b rest host] assms(1-3) by auto
  obtain r2 where "read_worker_payload env host ?h (?st r1) = (Ok b, (?st r1)\<lparr>wk_reader := r2\<rparr>)" "reader_data r2 = rest"
    by (rule read_worker_payload_served [where st = "?st r1" and payload = b and rest = rest]) (use r1(2) assms(2,4) in auto)
  with r1 assms(5-9) show thesis
    by (intro that [of r2]) (simp_all add: receive_descriptor_def not_less sha256_bytes_def)
qed

lemma receive_archive_served:
  assumes "reader_data (wk_reader st) = frame_bytes (SourceArchive, 2, b) @ rest" "frame_wf (SourceArchive, 2, b)"
    and "wk_input_sequence st = \<lparr>next_sequence = Some 2\<rparr>" "of_nat (length b) = archive_size (bundle_archive d)"
    and "hex_encode (env_sha256 (we_request env) b) = archive_sha256 (bundle_archive d)"
    and "wk_root st = Some root" "root_verify (wh_probe_archive host) root = Ok ()"
    and "wh_archive_created host" "wh_archive_capacity host = None" "wh_archive_synced host"
  obtains r where "receive_archive env host d st = (Ok (), st\<lparr>wk_reader := r, wk_input_sequence := \<lparr>next_sequence = Some 3\<rparr>,
      wk_archive_file := \<lparr>written = b, capacity = None\<rparr>\<rparr>)" "reader_data r = rest"
proof -
  let ?n = "of_nat (length b) :: u64"
  let ?h = "\<lparr>kind = SourceArchive, sequence = 2, payload_bytes = ?n\<rparr>"
  obtain r1 where r1: "read_expected_header host SourceArchive st
      = (Ok ?h, st\<lparr>wk_reader := r1, wk_input_sequence := \<lparr>next_sequence = Some 3\<rparr>\<rparr>)" "reader_data r1 = b @ rest"
    using read_expected_header_served [of st SourceArchive 2 b rest host] assms(1-3) by auto
  have len: "unat ?n = length b" using assms(2) header_payload_length by simp
  obtain r2 where r2: "copy_loop ?n 0 r1 \<lparr>written = [], capacity = None\<rparr> = (Ok ?n, r2, \<lparr>written = b, capacity = None\<rparr>)"
    "reader_data r2 = rest"
    using copy_loop_complete [of ?n r1 "\<lparr>written = [], capacity = None\<rparr>" 0] r1(2) len by auto
  have "unat ?n < 2 ^ 64" using unsigned_less [of ?n] by simp
  then have "length b < 2 ^ 64" using len by simp
  with r1 r2 assms(4-10) show thesis
    by (intro that [of r2]) (simp_all add: receive_archive_def with_root_def receive_source_archive_def create_private_file_def
        copy_worker_data_plane_payload_def HashingWriter_finish_def pure_step_def)
qed

lemma await_receipt_served:
  assumes "reader_data (wk_reader st) = frame_bytes (ArtifactReceipt, 3, json) @ rest" "frame_wf (ArtifactReceipt, 3, json)"
    and "wk_input_sequence st = \<lparr>next_sequence = Some 3\<rparr>" "length json \<le> we_usize_max env"
    and "wh_control_arrival host = AfterArtifactSent" "we_receipt env json = Some receipt"
    and "receipt_validate_for (we_request env) receipt d = Ok ()"
  shows "await_receipt env host d st = (Ok receipt, st)"
proof -
  let ?h = "\<lparr>kind = ArtifactReceipt, sequence = 3, payload_bytes = of_nat (length json)\<rparr>"
  obtain r where r: "read_worker_data_plane_header (wk_reader st) = (Ok ?h, r)" "reader_data r = json @ rest"
    using read_header_of_encoding [OF frame_header_wf [OF assms(2)]] assms(1) by fastforce
  have "unat (payload_bytes ?h) = length json" using assms(2) header_payload_length by simp
  with read_payload_of_data [of ?h "we_usize_max env" r json rest] r(2) assms(4)
  obtain r' where "read_worker_data_plane_payload (we_usize_max env) r ?h = (Ok json, r')" by auto
  moreover have "is_ok (accept (wk_input_sequence st) ?h)" using assms(3) by (simp add: accept_def)
  then obtain sq where "accept (wk_input_sequence st) ?h = Ok sq" by (auto simp: is_ok_conv)
  ultimately show ?thesis
    using r(1) assms(5-7)
    by (simp add: await_receipt_def wait_for_receipt_def control_message_def monitor_client_control_def pure_step_def)
qed

section \<open>A session that is served\<close>

text \<open>The declared sizes are those of the bytes, and buffered frames fit into the worker's \<open>usize\<close>.\<close>

definition upload_fits :: "worker_env \<Rightarrow> worker_run \<Rightarrow> bool" where
  "upload_fits env w \<longleftrightarrow>
     of_nat (length (run_descriptor_json w)) = start_source_descriptor_size (run_start w)
     \<and> of_nat (length (run_archive w)) = archive_size (bundle_archive (run_descriptor w))
     \<and> max (length (run_start_json w)) (max (length (run_descriptor_json w)) (length (run_receipt_json w))) \<le> we_usize_max env"

text \<open>The compiler seals the archive the descriptor names and hands over its evidence.\<close>

definition compiles :: "worker_env \<Rightarrow> worker_run \<Rightarrow> bool" where
  "compiles env w \<longleftrightarrow>
     (let out_dir = path_join (root_path (run_root w)) ARTIFACTS_DIRECTORY_NAME;
        transport = sealed_transport (ce_sealed_archive (ad_compile (run_artifact w))) in
      run_record w = \<lparr>artifact_id = UNSIGNED_ARTIFACT_ID, artifact_kind_of = KindXcarchive,
        artifact_file_name = UNSIGNED_ARCHIVE_NAME, artifact_size = archive_size transport,
        artifact_sha256 = archive_sha256 transport, artifact_media_type = Some ''application/zip''\<rparr>
      \<and> (case we_compile env (run_request w) (run_job_id w) out_dir of
          Inl _ \<Rightarrow> False
        | Inr out \<Rightarrow> validate_compile_output env (run_request w) (run_job_id w) out_dir out = Ok ()
            \<and> handoff_compile (out_handoff out) = ad_compile (run_artifact w)))"

definition worker_host_serves :: "worker_host \<Rightarrow> worker_run \<Rightarrow> worker_transcript \<Rightarrow> bool" where
  "worker_host_serves host w t \<longleftrightarrow>
     wh_reader_spawned host \<and> run_job_id w = ''ssh-'' @ wh_uuid host
     \<and> root_verify (wh_probe_archive host) (run_root w) = Ok () \<and> root_verify (wh_probe_extract host) (run_root w) = Ok ()
     \<and> clone_directory_handle (wh_probe_clone host) (wh_cloned host) (run_root w) = Ok ()
     \<and> root_verify (wh_probe_removed host) (run_root w) = Ok ()
     \<and> wh_archive_created host \<and> wh_archive_capacity host = None \<and> wh_archive_synced host
     \<and> remove_exact_file (wh_archive_metadata host) (wh_archive_removed host) = Ok ()
     \<and> wh_output_created host \<and> wh_control_spawned host \<and> wh_control_arrival host = AfterArtifactSent
     \<and> artifact_file_serves (wh_artifact host) (artifact_size (ad_artifact (run_artifact w))) (t_artifact t)
     \<and> wh_build_flush host \<and> wh_artifact_flush host \<and> wh_final_flush host"

lemma worker_events_split:
  "worker_events env host req job m (ks @ ks') es xs \<Longrightarrow>
   \<exists>es1 es2 xs1 xs2. es = es1 @ es2 \<and> xs = xs1 @ xs2 \<and> worker_events env host req job m ks es1 xs1
     \<and> worker_events env host req job (m + length ks) ks' es2 xs2"
proof (induction ks arbitrary: m es xs)
  case Nil
  then show ?case by simp
next
  case (Cons pk ks)
  obtain phase k where pk: "pk = (phase, k)" by (cases pk)
  from Cons.prems obtain e es' x xs' where e: "es = e # es'" "xs = x # xs'" "worker_events env host req job (Suc m) (ks @ ks') es' xs'"
    "worker_events env host req job m [pk] [e] [x]"
    by (auto simp: pk)
  from Cons.IH [OF e(3)] obtain es1 es2 xs1 xs2 where split: "es' = es1 @ es2" "xs' = xs1 @ xs2"
    "worker_events env host req job (Suc m) ks es1 xs1" "worker_events env host req job (Suc m + length ks) ks' es2 xs2" by auto
  from worker_events_append [OF e(4)] split(3) have "worker_events env host req job m (pk # ks) (e # es1) (x # xs1)" by fastforce
  with e(1,2) split show ?case
    by (intro exI [of _ "e # es1"] exI [of _ es2] exI [of _ "x # xs1"] exI [of _ xs2]) simp
qed

lemma prepare_build_served:
  assumes "worker_host_serves host w t" "wk_root st = Some (run_root w)" "we_extract env d (written (wk_archive_file st))"
  shows "prepare_build env host d st = (Ok (path_join (root_path (run_root w)) ARTIFACTS_DIRECTORY_NAME), st)"
  using assms by (simp add: prepare_build_def worker_host_serves_def with_root_def create_private_directory_def pure_step_def)

lemma compile_build_served:
  assumes "compiles env w" "run_built env host w" "worker_host_serves host w t"
  shows "compile_build env host (run_request w) (run_job_id w) (path_join (root_path (run_root w)) ARTIFACTS_DIRECTORY_NAME) st
    = (Ok (run_artifact w), st)"
proof -
  obtain out where out: "we_compile env (run_request w) (run_job_id w) (path_join (root_path (run_root w)) ARTIFACTS_DIRECTORY_NAME) = Ok out"
    "validate_compile_output env (run_request w) (run_job_id w) (path_join (root_path (run_root w)) ARTIFACTS_DIRECTORY_NAME) out = Ok ()"
    "handoff_compile (out_handoff out) = ad_compile (run_artifact w)"
    using assms(1) by (auto simp: compiles_def Let_def split: sum.splits)
  moreover have "\<not> compile_cancelled env host st" using assms(3) by (simp add: compile_cancelled_def worker_host_serves_def)
  moreover have "SnapshotArtifactDescriptor_new (we_request env) (request_operation_id (run_request w)) (run_record w)
      (ad_compile (run_artifact w)) = Ok (run_artifact w)"
    using assms(2) by (simp add: run_built_def)
  ultimately show ?thesis
    using assms(1) by (simp add: compile_build_def compiles_def Let_def pure_step_def)
qed

lemma reconstructed_start:
  assumes "start_reconstruct_request env s d limits = Ok req"
  shows "SnapshotBuildStart_validate s = Ok ()" "start_source_descriptor_size s \<le> MAX_SNAPSHOT_SESSION_DESCRIPTOR_BYTES"
proof -
  show valid: "SnapshotBuildStart_validate s = Ok ()" using assms by (auto simp: start_reconstruct_request_def and_then_Inr_iff)
  then show "start_source_descriptor_size s \<le> MAX_SNAPSHOT_SESSION_DESCRIPTOR_BYTES"
    unfolding SnapshotBuildStart_validate_def run_checks_Inr_iff by (auto simp: reject_if_def split: if_splits)
qed

lemma built_artifact_bound:
  assumes "run_built env host w"
  shows "artifact_size (ad_artifact (run_artifact w)) \<le> maximum_payload_bytes Artifact"
proof -
  have "SnapshotArtifactDescriptor_validate (we_request env) (run_artifact w) = Ok ()"
    using assms by (auto simp: run_built_def SnapshotArtifactDescriptor_new_def Let_def and_then_Inr_iff)
  then have "validate_artifact_record (ad_artifact (run_artifact w)) = Ok ()"
    unfolding SnapshotArtifactDescriptor_validate_def run_checks_Inr_iff by (simp add: is_ok_unit)
  then show ?thesis
    unfolding validate_artifact_record_def run_checks_Inr_iff by (auto simp: reject_if_def maximum_payload_bytes_def split: if_splits)
qed

text \<open>Everything up to the control thread.\<close>

lemma session_prepared_served:
  assumes "run_received env w (reader_data r) rest" "upload_fits env w" "run_built env host w" "worker_host_serves host w t"
  obtains st where "run_session env host (Session_new r v) =
      and_next (announce env host (run_descriptor w) (run_request w) (run_job_id w) st) (\<lambda>_ st.
      and_next (compile_build env host (run_request w) (run_job_id w) (path_join (root_path (run_root w)) ARTIFACTS_DIRECTORY_NAME) st) (\<lambda>art st.
      and_next (send_artifact env host (run_request w) art st) (\<lambda>_ st.
      and_next (await_receipt env host art st) (\<lambda>_ st. finish_build env host (run_request w) st))))"
    "wk_job_id st = Some (run_job_id w)" "wk_root st = Some (run_root w)" "wk_input_sequence st = \<lparr>next_sequence = Some 3\<rparr>"
    "reader_data (wk_reader st) = frame_bytes (ArtifactReceipt, 3, run_receipt_json w) @ rest"
    "wk_writer st = v" "wk_output_sequence st = 0" "wk_event_sequence st = 0"
proof -
  let ?st0 = "Session_new r v"
  let ?rest2 = "frame_bytes (SourceArchive, 2, run_archive w) @ frame_bytes (ArtifactReceipt, 3, run_receipt_json w) @ rest"
  let ?rest1 = "frame_bytes (SourceDescriptor, 1, run_descriptor_json w) @ ?rest2"
  have data: "reader_data r = frame_bytes (BuildRequest, 0, run_start_json w) @ ?rest1"
    and wf: "frame_wf (BuildRequest, 0, run_start_json w)" "frame_wf (SourceDescriptor, 1, run_descriptor_json w)"
      "frame_wf (SourceArchive, 2, run_archive w)"
    and parsed: "we_start env (run_start_json w) = Some (run_start w)" "we_descriptor env (run_descriptor_json w) = Some (run_descriptor w)"
      "hex_encode (env_sha256 (we_request env) (run_descriptor_json w)) = start_source_descriptor_sha256 (run_start w)"
      "start_reconstruct_request (we_request env) (run_start w) (run_descriptor w) SourceArchiveLimits_default = Ok (run_request w)"
      "hex_encode (env_sha256 (we_request env) (run_archive w)) = archive_sha256 (bundle_archive (run_descriptor w))"
      "we_extract env (run_descriptor w) (run_archive w)"
    using assms(1) by (simp_all add: run_received_def del: frame_bytes.simps frame_wf.simps)
  note start = reconstructed_start [OF parsed(4)]
  have fits: "length (run_start_json w) \<le> we_usize_max env" "length (run_descriptor_json w) \<le> we_usize_max env"
    "of_nat (length (run_descriptor_json w)) = start_source_descriptor_size (run_start w)"
    "of_nat (length (run_archive w)) = archive_size (bundle_archive (run_descriptor w))"
    using assms(2) by (simp_all add: upload_fits_def)
  have init: "wk_reader ?st0 = r" "wk_input_sequence ?st0 = \<lparr>next_sequence = Some 0\<rparr>"
    by (simp_all add: Session_new_def WorkerDataPlaneSequence_new_def)
  obtain r1 where r1: "receive_start env host ?st0 = (Ok (run_start w), ?st0\<lparr>wk_reader := r1,
      wk_input_sequence := \<lparr>next_sequence = Some 1\<rparr>, wk_operation_id := Some (sp_operation_id (start_parameters (run_start w)))\<rparr>)"
    "reader_data r1 = ?rest1"
    by (rule receive_start_served [where st = ?st0, OF _ wf(1) init(2) fits(1) parsed(1) start(2,1)]) (simp only: init(1) data)
  let ?st1 = "?st0\<lparr>wk_reader := r1, wk_input_sequence := \<lparr>next_sequence = Some 1\<rparr>,
      wk_operation_id := Some (sp_operation_id (start_parameters (run_start w)))\<rparr>"
  obtain r2 where r2: "receive_descriptor env host (run_start w) ?st1
      = (Ok (run_descriptor w, run_request w), ?st1\<lparr>wk_reader := r2, wk_input_sequence := \<lparr>next_sequence = Some 2\<rparr>\<rparr>)"
    "reader_data r2 = ?rest2"
    by (rule receive_descriptor_served [where st = ?st1, OF _ wf(2) _ fits(2,3) start(2) parsed(3,2,4)])
      (use r1(2) in \<open>simp_all del: frame_bytes.simps\<close>)
  let ?st2 = "?st1\<lparr>wk_reader := r2, wk_input_sequence := \<lparr>next_sequence = Some 2\<rparr>\<rparr>"
  let ?st3 = "?st2\<lparr>wk_job_id := Some (run_job_id w), wk_root := Some (run_root w)\<rparr>"
  have root: "create_root env host ?st2 = (Ok (run_job_id w), ?st3)"
    using assms(3,4) by (simp add: create_root_def run_built_def worker_host_serves_def Let_def)
  have answers: "root_verify (wh_probe_archive host) (run_root w) = Ok ()" "wh_archive_created host" "wh_archive_capacity host = None"
    "wh_archive_synced host"
    using assms(4) by (simp_all add: worker_host_serves_def)
  have st3: "reader_data (wk_reader ?st3) = ?rest2" "wk_input_sequence ?st3 = \<lparr>next_sequence = Some 2\<rparr>" "wk_root ?st3 = Some (run_root w)"
    using r2(2) by (simp_all del: frame_bytes.simps)
  obtain r3 where r3: "receive_archive env host (run_descriptor w) ?st3 = (Ok (), ?st3\<lparr>wk_reader := r3,
      wk_input_sequence := \<lparr>next_sequence = Some 3\<rparr>, wk_archive_file := \<lparr>written = run_archive w, capacity = None\<rparr>\<rparr>)"
    "reader_data r3 = frame_bytes (ArtifactReceipt, 3, run_receipt_json w) @ rest"
    by (rule receive_archive_served [OF st3(1) wf(3) st3(2) fits(4) parsed(5) st3(3) answers])
  let ?st4 = "?st3\<lparr>wk_reader := r3, wk_input_sequence := \<lparr>next_sequence = Some 3\<rparr>,
      wk_archive_file := \<lparr>written = run_archive w, capacity = None\<rparr>\<rparr>"
  have prep: "prepare_build env host (run_descriptor w) ?st4 = (Ok (path_join (root_path (run_root w)) ARTIFACTS_DIRECTORY_NAME), ?st4)"
    by (rule prepare_build_served [OF assms(4)]) (use parsed(6) in simp_all)
  have spawned: "wh_reader_spawned host = True" using assms(4) by (simp add: worker_host_serves_def)
  show thesis
    by (rule that [of ?st4])
      (simp_all only: run_session_def spawned not_True_eq_False if_False r1(1) r2(1) root r3(1) prep and_next_simps prod.case,
        simp_all add: r3(2) Session_new_def del: frame_bytes.simps)
qed

lemma run_session_served:
  assumes "run_received env w (reader_data r) rest" "upload_fits env w" "run_built env host w" "compiles env w"
    and "run_sent env host w t" "worker_host_serves host w t"
  obtains st where "run_session env host (Session_new r \<lparr>written = [], capacity = None\<rparr>) = (Ok (), st)"
    "wk_writer st = \<lparr>written = frames (transcript_frames t), capacity = None\<rparr>" "wk_root st = None"
proof -
  let ?out_dir = "path_join (root_path (run_root w)) ARTIFACTS_DIRECTORY_NAME"
  obtain st where prepared: "run_session env host (Session_new r \<lparr>written = [], capacity = None\<rparr>) =
      and_next (announce env host (run_descriptor w) (run_request w) (run_job_id w) st) (\<lambda>_ st.
      and_next (compile_build env host (run_request w) (run_job_id w) (path_join (root_path (run_root w)) ARTIFACTS_DIRECTORY_NAME) st) (\<lambda>art st.
      and_next (send_artifact env host (run_request w) art st) (\<lambda>_ st.
      and_next (await_receipt env host art st) (\<lambda>_ st. finish_build env host (run_request w) st))))"
    and st: "wk_job_id st = Some (run_job_id w)" "wk_root st = Some (run_root w)" "wk_input_sequence st = \<lparr>next_sequence = Some 3\<rparr>"
    "reader_data (wk_reader st) = frame_bytes (ArtifactReceipt, 3, run_receipt_json w) @ rest"
    "wk_writer st = \<lparr>written = [], capacity = None\<rparr>" "wk_output_sequence st = 0" "wk_event_sequence st = 0"
    using assms(1-3,6) by (rule session_prepared_served )
  have idle: "advanced st 0 0 [] = st" using st(5-7) by (simp add: advanced_def)
  obtain es1 es2 xs1 xs2 where events: "t_events t = xs1 @ xs2"
    "worker_events env host (run_request w) (run_job_id w) 0 (announcements (run_descriptor w) (run_request w)) es1 xs1"
    "worker_events env host (run_request w) (run_job_id w) 8 (artifact_events (run_artifact w)) es2 xs2"
  proof -
    have "worker_events env host (run_request w) (run_job_id w) 0
        (announcements (run_descriptor w) (run_request w) @ artifact_events (run_artifact w)) (run_events w) (t_events t)"
      using assms(5) unfolding run_sent_def by blast
    from worker_events_split [OF this] obtain es1 es2 xs1 xs2 where "t_events t = xs1 @ xs2"
      "worker_events env host (run_request w) (run_job_id w) 0 (announcements (run_descriptor w) (run_request w)) es1 xs1"
      "worker_events env host (run_request w) (run_job_id w) (0 + length (announcements (run_descriptor w) (run_request w)))
         (artifact_events (run_artifact w)) es2 xs2"
      by blast
    moreover have "0 + length (announcements (run_descriptor w) (run_request w)) = 8" by (simp add: announcements_def Let_def)
    ultimately show thesis using that by (simp only:)
  qed
  have len: "length xs1 = 8" "length xs2 = 2" "length (t_late t) = 2"
    using worker_events_length [OF events(2)] worker_events_length [OF events(3)] worker_events_length assms(5)
    by (fastforce simp: announcements_def Let_def run_sent_def simp del: worker_events.simps)+
  let ?b1 = "[] @ frame_bytes (JobAccepted, of_nat 0, t_accepted t) @ frames (numbered (Suc 0) (map (Pair Event) xs1))"
  let ?b2 = "?b1 @ frames (numbered (0 + 9) (map (Pair Event) xs2))
     @ frame_bytes (ArtifactDescriptor, of_nat (0 + 9 + 2), t_descriptor t) @ frame_bytes (Artifact, of_nat (0 + 9 + 3), t_artifact t)"
  let ?b3 = "?b2 @ frames (numbered (0 + 9 + 4) (map (Pair Event) (t_late t))) @ frame_bytes (Complete, of_nat (0 + 9 + 4 + 2), t_complete t)"
  have "announce env host (run_descriptor w) (run_request w) (run_job_id w) (advanced st 0 0 [])
      = (Ok (), advanced st (0 + 9) (0 + 8) ?b1)"
    using assms(3,5,6) st(1) unfolding run_built_def run_sent_def worker_host_serves_def
    by (intro announce_served [OF _ _ _ events(2)]) auto
  then have announce: "announce env host (run_descriptor w) (run_request w) (run_job_id w) st = (Ok (), advanced st (0 + 9) (0 + 8) ?b1)"
    by (simp only: idle)
  have compile: "compile_build env host (run_request w) (run_job_id w) ?out_dir x = (Ok (run_artifact w), x)" for x
    using assms(4,3,6) by (rule compile_build_served)
  have send: "send_artifact env host (run_request w) (run_artifact w) (advanced st (0 + 9) (0 + 8) ?b1)
      = (Ok (), advanced st (0 + 9 + 4) (0 + 8 + 2) ?b2)"
    using assms(5,6) st(1) built_artifact_bound [OF assms(3)] events(3) unfolding run_sent_def worker_host_serves_def
    by (intro send_artifact_served [where es = es2]) simp_all
  have receipt: "await_receipt env host (run_artifact w) (advanced st n m b) = (Ok (run_receipt w), advanced st n m b)" for n m b
    using assms(1,2,6) st(3,4)
    by (intro await_receipt_served [where json = "run_receipt_json w" and rest = rest])
      (auto simp: run_received_def worker_host_serves_def upload_fits_def)
  have finish: "finish_build env host (run_request w) (advanced st (0 + 9 + 4) (0 + 8 + 2) ?b2)
      = (Ok (), advanced (st\<lparr>wk_root := None\<rparr>) (0 + 9 + 4 + 3) (0 + 8 + 2 + 2) ?b3)"
    using assms(3,5,6) st(1,2) unfolding run_built_def run_sent_def worker_host_serves_def
    by (intro finish_build_served [where es = "run_late w" and job = "run_job_id w"]) auto
  have "run_session env host (Session_new r \<lparr>written = [], capacity = None\<rparr>)
      = (Ok (), advanced (st\<lparr>wk_root := None\<rparr>) (0 + 9 + 4 + 3) (0 + 8 + 2 + 2) ?b3)"
    unfolding prepared by (simp only: announce compile send receipt finish and_next_simps)
  moreover have "?b3 = frames (transcript_frames t)"
    unfolding transcript_data by (simp add: events(1) numbered_append len del: frame_bytes.simps)
  ultimately show thesis using that by simp
qed

text \<open>
  C19 [worker_served]: a worker session completes. When the client's upload and receipt arrive in order and check out, the
  job directory is created and stays the worker's own, the compiler seals an archive whose evidence names this job,
  request and source, that file stays what it is while it is streamed, and the removal of the directory is confirmed,
  then serving the session succeeds, the whole transcript and nothing else has been sent, and no job directory is left.
\<close>

theorem worker_session_succeeds:
  assumes "run_received env w (reader_data r) rest" "upload_fits env w" "run_built env host w" "compiles env w"
    and "run_sent env host w t" "worker_host_serves host w t"
  shows "\<exists>st. serve_snapshot_session env host r \<lparr>written = [], capacity = None\<rparr> = (Ok (), st)
    \<and> written (wk_writer st) = frames (transcript_frames t) \<and> wk_root st = None"
proof -
  obtain st where "run_session env host (Session_new r \<lparr>written = [], capacity = None\<rparr>) = (Ok (), st)"
    "wk_writer st = \<lparr>written = frames (transcript_frames t), capacity = None\<rparr>" "wk_root st = None"
    using assms by (rule run_session_served)
  then show ?thesis by (simp add: serve_snapshot_session_def)
qed

section \<open>A session\<close>

abbreviation ferry_job :: string where "ferry_job \<equiv> ''ssh-1''"

definition ferry_evidence :: CompilePhaseEvidence where
  "ferry_evidence = example_evidence\<lparr>ce_job_id := ferry_job\<rparr>"

definition ferry_artifact :: SnapshotArtifactDescriptor where
  "ferry_artifact =
     \<lparr>ad_schema_version = 1, ad_protocol_version = CURRENT_PROTOCOL_VERSION, ad_operation_id = ''op-1'', ad_job_id = ferry_job,
      ad_artifact = \<lparr>artifact_id = ''unsigned-xcarchive'', artifact_kind_of = KindXcarchive,
        artifact_file_name = ''unsigned-archive.zip'', artifact_size = 3, artifact_sha256 = zero_hex,
        artifact_media_type = Some ''application/zip''\<rparr>,
      ad_compile = ferry_evidence\<rparr>"

definition ferry_accepted :: SnapshotJobAccepted where
  "ferry_accepted = example_accepted\<lparr>ja_job_id := ferry_job\<rparr>"

definition ferry_complete :: SnapshotBuildComplete where
  "ferry_complete = example_complete\<lparr>bc_job_id := ferry_job, bc_cleanup := removal_proof ferry_job 9\<rparr>"

definition ferry_receipt :: SnapshotArtifactReceipt where
  "ferry_receipt = example_receipt\<lparr>rc_job_id := ferry_job, rc_artifact_id := ''unsigned-xcarchive''\<rparr>"

lemma ferry_identifiers:
  "validate_identifier f ferry_job = Ok ()" "validate_identifier f ''unsigned-xcarchive'' = Ok ()"
  "validate_identifier f ''operation'' = Ok ()" "validate_identifier f ''accepted'' = Ok ()" "validate_identifier f ''source'' = Ok ()"
  "validate_identifier f ''artifact'' = Ok ()" "validate_identifier f ''cleanup'' = Ok ()"
  unfolding validate_identifier_Ok by code_simp+

lemma ferry_artifact_valid: "SnapshotArtifactDescriptor_validate example_env ferry_artifact = Ok ()"
proof -
  have "\<not> has_control ''unsigned-archive.zip''" "\<not> has_control ''application/zip''" by (rule no_control_ascii, simp)+
  moreover have "suffix ''.zip'' (to_ascii_lowercase ''unsigned-archive.zip'')" by code_simp
  ultimately have "validate_artifact_record (ad_artifact ferry_artifact) = Ok ()"
    using ferry_identifiers zero_hex_valid
    unfolding validate_artifact_record_def run_checks_Inr_iff
    by (simp add: ferry_artifact_def validate_portable_component_with_limit_def MAX_ARTIFACT_FILE_NAME_BYTES_def
        MAX_WORKER_DATA_PLANE_ARTIFACT_BYTES_def validate_public_text_def MAX_MEDIA_TYPE_BYTES_def)
  moreover have "validate_compile_evidence example_env ferry_evidence = Ok ()"
    using example_evidence_valid ferry_identifiers session_identifiers
    unfolding validate_compile_evidence_def run_checks_Inr_iff Let_def ferry_evidence_def by simp
  ultimately show ?thesis
    using session_identifiers ferry_identifiers current_negotiated
    unfolding SnapshotArtifactDescriptor_validate_def run_checks_Inr_iff
    by (simp add: ferry_artifact_def require_schema_def SNAPSHOT_SESSION_SCHEMA_VERSION_def)
      (simp add: ferry_evidence_def example_evidence_def)
qed

lemma ferry_messages:
  "SnapshotJobAccepted_new ''op-1'' ferry_job 7 = Ok ferry_accepted"
  "SnapshotBuildComplete_new ''op-1'' (removal_proof ferry_job 9) = Ok ferry_complete"
  "SnapshotArtifactDescriptor_new example_env ''op-1'' (ad_artifact ferry_artifact) ferry_evidence = Ok ferry_artifact"
  "receipt_validate_for example_env ferry_receipt ferry_artifact = Ok ()"
proof -
  show "SnapshotJobAccepted_new ''op-1'' ferry_job 7 = Ok ferry_accepted"
    "SnapshotBuildComplete_new ''op-1'' (removal_proof ferry_job 9) = Ok ferry_complete"
    using session_identifiers ferry_identifiers current_negotiated
    by (simp_all add: SnapshotJobAccepted_new_def SnapshotJobAccepted_validate_def SnapshotBuildComplete_new_def
        SnapshotBuildComplete_validate_def ferry_accepted_def ferry_complete_def example_accepted_def example_complete_def
        require_schema_def SNAPSHOT_SESSION_SCHEMA_VERSION_def reject_if_def Let_def)
  have "SnapshotArtifactDescriptor_validate example_env \<lparr>ad_schema_version = 1, ad_protocol_version = CURRENT_PROTOCOL_VERSION,
      ad_operation_id = ''op-1'', ad_job_id = ce_job_id ferry_evidence, ad_artifact = ad_artifact ferry_artifact, ad_compile = ferry_evidence\<rparr> = Ok ()"
    using ferry_artifact_valid by (simp add: ferry_artifact_def) (simp add: ferry_evidence_def)
  then show "SnapshotArtifactDescriptor_new example_env ''op-1'' (ad_artifact ferry_artifact) ferry_evidence = Ok ferry_artifact"
    by (simp add: SnapshotArtifactDescriptor_new_def SNAPSHOT_SESSION_SCHEMA_VERSION_def Let_def)
      (simp add: ferry_artifact_def ferry_evidence_def)
  have "receipt_validate_for example_env example_receipt example_artifact = Ok ()"
    using example_receipt_new example_artifact_valid
    by (auto simp: SnapshotArtifactReceipt_new_def Let_def and_then_Inr_iff)
  then have path: "ProtocolPath_validate (env_url_parse example_env) example_path = Ok ()"
    unfolding receipt_validate_for_def run_checks_Inr_iff by (simp add: example_receipt_def is_ok_unit)
  show "receipt_validate_for example_env ferry_receipt ferry_artifact = Ok ()"
    using path ferry_artifact_valid ferry_identifiers session_identifiers zero_hex_valid current_negotiated
    unfolding receipt_validate_for_def run_checks_Inr_iff
    by (simp add: ferry_receipt_def example_receipt_def require_schema_def SNAPSHOT_SESSION_SCHEMA_VERSION_def)
      (simp add: ferry_artifact_def example_path_def)
qed

definition ferry_kinds :: "(string \<times> RemoteBuildEventKind) list" where
  "ferry_kinds = (announcements example_bundle snapshot_request @ artifact_events ferry_artifact)
     @ [(''cleanup'', CleanupStarted), (''cleanup'', CleanupFinished (removal_proof ferry_job 9))]"

definition ferry_event :: "nat \<Rightarrow> RemoteBuildEvent" where
  "ferry_event n =
     \<lparr>event_protocol_version = CURRENT_PROTOCOL_VERSION, event_operation_id = ''op-1'', event_job_id = ferry_job, timestamp_ms = 5,
      event_provider = SSH_STDIO_PROVIDER_ID, event_phase = fst (ferry_kinds ! n), event_sequence = of_nat n,
      event_kind = snd (ferry_kinds ! n)\<rparr>"

definition ferry_line :: "nat \<Rightarrow> bytes" where
  "ferry_line n = replicate (Suc n) (CHR ''e'')"

definition ferry_event_env :: event_env where
  "ferry_event_env =
     \<lparr>event_url_parse = (\<lambda>_. None), to_value = (\<lambda>_. Ok JNull), to_text = (\<lambda>_. Ok ''{}''),
      from_text = (\<lambda>s. Ok (ferry_event (length s - 1)))\<rparr>"

abbreviation ferry_path :: string where "ferry_path \<equiv> path_join ''/w'' (''rustferry-compile-'' @ ferry_job)"

definition ferry_output :: SnapshotCompileOutput where
  "ferry_output =
     \<lparr>out_handoff = \<lparr>handoff_schema_version = COMPILE_HANDOFF_SCHEMA_VERSION, handoff_request = snapshot_request,
        handoff_compile = ferry_evidence\<rparr>,
      out_artifact_path = path_join (path_join ferry_path ARTIFACTS_DIRECTORY_NAME) UNSIGNED_ARCHIVE_NAME\<rparr>"

text \<open>A codec that knows the messages of this session.\<close>

definition known :: "'a \<Rightarrow> 'a \<Rightarrow> bytes option" where
  "known m x = (if x = m then Some ''{}'' else None)"

definition ferry_worker_env :: worker_env where
  "ferry_worker_env =
     \<lparr>we_request = example_env, we_event = ferry_event_env, we_usize_max = 2 ^ 32, we_worker_root = ''/w'',
      we_start = (\<lambda>_. Some snapshot_start), we_descriptor = (\<lambda>_. Some example_bundle), we_receipt = (\<lambda>_. Some ferry_receipt),
      we_accepted_json = known ferry_accepted,
      we_event_json = (\<lambda>e. let n = unat (event_sequence e) in if e = ferry_event n then Some (ferry_line n) else None),
      we_artifact_json = known ferry_artifact, we_complete_json = known ferry_complete, we_error_json = (\<lambda>_. None),
      we_extract = (\<lambda>_ _. True), we_compile = (\<lambda>_ _ _. Ok ferry_output)\<rparr>"

definition ferry_root :: JobRootGuard where
  "ferry_root =
     \<lparr>root_worker_root = ''/w'', root_worker_root_identity = (1, 1), root_name = ''rustferry-compile-'' @ ferry_job,
      root_path = ferry_path, root_directory = True, root_identity = Some (1, 2), root_owned = True\<rparr>"

definition ferry_probe :: root_probe where
  "ferry_probe =
     \<lparr>rp_open_worker_root = Some (1, 1), rp_named_worker_root = Some (1, 1), rp_open_job_root = Some (1, 2),
      rp_named_job_root = Some (1, 2), rp_path_job_root = Some (1, 2)\<rparr>"

definition ferry_creation :: root_creation where
  "ferry_creation =
     \<lparr>jc_root = \<lparr>wr_canonical = Some ''/w'', wr_metadata = Some \<lparr>entry_is_dir = True, entry_is_symlink = False\<rparr>, wr_mode = 0\<rparr>,
      jc_open_root = True, jc_root_identity = Some (1, 1), jc_root_path_identity = Some (1, 1), jc_created = True,
      jc_identity = Some (1, 2), jc_named = Some \<lparr>entry_is_dir = True, entry_is_symlink = False\<rparr>,
      jc_opened = Some \<lparr>entry_is_dir = True, entry_is_symlink = False\<rparr>, jc_path_identity = Some (1, 2), jc_marker_json = True,
      jc_marker_created = True, jc_marker_written = True, jc_directory_synced = True\<rparr>"

definition ferry_removal :: root_removal where
  "ferry_removal = \<lparr>rr_open_identity = Some (1, 2), rr_remove = TreeRemoved, rr_unlinked = Some True, rr_sync = True\<rparr>"

definition ferry_file :: artifact_file where
  "ferry_file =
     \<lparr>af_metadata = Some (example_metadata 3), af_opened = True, af_identity = Some (1, 3), af_path_identity = Some (1, 3),
      af_reader = [Chunk ''ab'', Chunk ''c''], af_path_identity_after = Some (1, 3)\<rparr>"

definition ferry_worker_host :: worker_host where
  "ferry_worker_host =
     \<lparr>wh_reader_spawned = True, wh_timed_out = False, wh_uuid = ''1'', wh_creation = ferry_creation, wh_probe_archive = ferry_probe,
      wh_archive_created = True, wh_archive_capacity = None, wh_archive_synced = True, wh_probe_extract = ferry_probe,
      wh_probe_clone = ferry_probe, wh_cloned = True, wh_archive_metadata = Some (example_metadata 10), wh_archive_removed = True,
      wh_probe_removed = ferry_probe, wh_output_created = True, wh_control_spawned = True, wh_accepted_at = 7,
      wh_event_at = (\<lambda>_. 5), wh_build_flush = True, wh_control_arrival = AfterArtifactSent, wh_artifact = ferry_file,
      wh_artifact_flush = True, wh_removal = ferry_removal, wh_cleanup_at = 9, wh_final_flush = True,
      wh_failure_removal = ferry_removal, wh_failure_cleanup_at = 9, wh_failure_flush = True\<rparr>"

definition ferry_run :: worker_run where
  "ferry_run =
     \<lparr>run_start = snapshot_start, run_start_json = ''{}'', run_descriptor_json = ''{}'', run_archive = ''0123456789'',
      run_receipt_json = ''{}'', run_descriptor = example_bundle, run_request = snapshot_request, run_job_id = ferry_job,
      run_accepted = ferry_accepted, run_artifact = ferry_artifact, run_record = ad_artifact ferry_artifact,
      run_receipt = ferry_receipt, run_complete = ferry_complete, run_events = map ferry_event [0..<10],
      run_late = map ferry_event [10..<12], run_root = ferry_root\<rparr>"

definition ferry_transcript :: worker_transcript where
  "ferry_transcript =
     \<lparr>t_accepted = ''{}'', t_events = map ferry_line [0..<10], t_descriptor = ''{}'', t_artifact = ''abc'',
      t_late = map ferry_line [10..<12], t_complete = ''{}''\<rparr>"

abbreviation ferry_input :: reader where
  "ferry_input \<equiv> [Chunk (frames [(BuildRequest, 0, ''{}''), (SourceDescriptor, 1, ''{}''), (SourceArchive, 2, ''0123456789''),
     (ArtifactReceipt, 3, ''{}'')])]"

lemma ferry_events:
  "ks = take (length ks) (drop m ferry_kinds) \<Longrightarrow> m + length ks \<le> 12 \<Longrightarrow>
   worker_events ferry_worker_env ferry_worker_host snapshot_request ferry_job m ks
     (map ferry_event [m..<m + length ks]) (map ferry_line [m..<m + length ks])"
proof (induction ks arbitrary: m)
  case Nil
  then show ?case by simp
next
  case (Cons pk ks)
  obtain phase k where pk: "pk = (phase, k)" by (cases pk)
  have len: "length ferry_kinds = 12" by (simp add: ferry_kinds_def announcements_def Let_def)
  then have "drop m ferry_kinds = ferry_kinds ! m # drop (Suc m) ferry_kinds" using Cons.prems(2) by (intro Cons_nth_drop_Suc [symmetric]) simp
  with Cons.prems(1) have at: "ferry_kinds ! m = (phase, k)" and rest: "ks = take (length ks) (drop (Suc m) ferry_kinds)" by (auto simp: pk)
  have valid: "validate_identifier ''phase'' (fst x) = Ok () \<and> validate_event_payload (\<lambda>_. None) (snd x) = Ok ()"
    if "x \<in> set ferry_kinds" for x
    using that ferry_identifiers session_identifiers
    by (auto simp: ferry_kinds_def announcements_def Let_def validate_event_payload_def reject_if_def)
  have "(phase, k) \<in> set ferry_kinds" using at Cons.prems(2) len nth_mem [of m ferry_kinds] by simp
  with valid [of "(phase, k)"] have "RemoteBuildEvent_new ferry_event_env ''op-1'' ferry_job 5 SSH_STDIO_PROVIDER_ID phase (of_nat m) k
      = Ok (ferry_event m)"
    using session_identifiers ferry_identifiers current_negotiated
    by (simp add: RemoteBuildEvent_new_def RemoteBuildEvent_validate_def ferry_event_env_def ferry_event_def at Let_def
        SSH_STDIO_PROVIDER_ID_def)
  moreover have "m < 2 ^ 64" using Cons.prems(2) by simp
  then have "unat (event_sequence (ferry_event m)) = m" by (simp add: ferry_event_def unat_of_nat)
  then have "we_event_json ferry_worker_env (ferry_event m) = Some (ferry_line m)" by (simp add: ferry_worker_env_def)
  moreover have "frame_wf (Event, 0, ferry_line m)"
    using Cons.prems(2) by (simp add: ferry_line_def maximum_payload_bytes_def MAX_EVENT_LINE_BYTES_def)
  moreover have "[m..<m + length (pk # ks)] = m # [Suc m..<Suc m + length ks]" by (simp add: upt_conv_Cons del: upt_Suc)
  moreover have "we_event ferry_worker_env = ferry_event_env" "wh_event_at ferry_worker_host = (\<lambda>_. 5)"
    "request_operation_id snapshot_request = ''op-1''"
    by (simp_all add: ferry_worker_env_def ferry_worker_host_def snapshot_request_def example_request_def)
  ultimately show ?case using Cons.IH [OF rest] Cons.prems(2) by (simp add: pk del: upt_Suc frame_wf.simps)
qed

lemma ferry_reconstructed:
  "start_reconstruct_request example_env snapshot_start example_bundle SourceArchiveLimits_default = Ok snapshot_request"
proof -
  have "SourceBundleDescriptor_validate ascii_unicode zero_digest example_bundle SourceArchiveLimits_default = Ok ()"
    using example_manifest_valid
    unfolding SourceBundleDescriptor_validate_def run_checks_Inr_iff
    by (simp add: example_bundle_def SourceBundleDescriptor_new_def zero_sha256_valid validate_archive_limits_def
        check_supported_depth_def SourceArchiveLimits_default_def)
      (simp add: SourceLimits_default_def MAX_SUPPORTED_DEPTH_def)
  moreover have "env_unicode example_env = ascii_unicode" "env_sha256 example_env = zero_digest" by (simp_all add: example_env_def)
  ultimately show ?thesis
    using snapshot_reconstructed by (auto simp: start_reconstruct_request_def and_then_Inr_iff reconstruct_request_Ok split: if_splits)
qed

lemma ferry_received: "run_received ferry_worker_env ferry_run (reader_data ferry_input) []"
proof -
  have "frame_wf (BuildRequest, 0, ''{}'')" "frame_wf (SourceDescriptor, 1, ''{}'')" "frame_wf (SourceArchive, 2, ''0123456789'')"
    "frame_wf (ArtifactReceipt, 3, ''{}'')"
    by (simp_all add: maximum_payload_bytes_def MAX_WORKER_DATA_PLANE_REQUEST_BYTES_def MAX_SOURCE_BUNDLE_DESCRIPTOR_BYTES_def
        MAX_WORKER_DATA_PLANE_SOURCE_BYTES_def MAX_WORKER_DATA_PLANE_CONTROL_BYTES_def)
  moreover have "hex_encode (env_sha256 example_env x) = zero_hex" for x by (simp add: example_env_def zero_template)
  moreover have "archive_sha256 (bundle_archive example_bundle) = zero_hex" "start_source_descriptor_sha256 snapshot_start = zero_hex"
    by (simp_all add: example_bundle_def SourceBundleDescriptor_new_def snapshot_start_def)
  ultimately show ?thesis
    using ferry_reconstructed ferry_messages(4)
    by (simp add: run_received_def ferry_run_def ferry_worker_env_def del: frame_bytes.simps frame_wf.simps)
qed

lemma ferry_fits: "upload_fits ferry_worker_env ferry_run"
  by (simp add: upload_fits_def ferry_run_def ferry_worker_env_def snapshot_start_def example_bundle_def SourceBundleDescriptor_new_def)

lemma ferry_created: "JobRootGuard_create ferry_creation ''/w'' ferry_job = Ok ferry_root"
proof -
  have "is_absolute ''/w''" "path_components ''/w'' \<noteq> []" by code_simp+
  then have "validate_worker_root (jc_root ferry_creation) ''/w'' = Ok ()"
    by (simp add: validate_worker_root_def ferry_creation_def)
  then show ?thesis
    by (simp add: JobRootGuard_create_def Let_def)
      (simp add: ferry_creation_def ferry_root_def plain_directory_def create_private_file_def sync_directory_def Let_def)
qed

lemma ferry_built: "run_built ferry_worker_env ferry_worker_host ferry_run"
proof -
  have digest: "canonical_request_sha256 example_env snapshot_request = Ok zero_hex"
    using snapshot_request_valid
    by (simp add: canonical_request_sha256_def canonical_request_bytes_def request_to_vec_def zero_template)
      (simp add: example_env_def zero_template)
  have "manifest_sha256 (source snapshot_request) = zero_hex"
    by (simp add: snapshot_request_def example_request_def build_manifest_def Let_def manifest_digest_def hex_digest_def
        lowercase_hex_def [symmetric] lowercase_hex_is_hex_encode zero_template)
  moreover have "request_operation_id snapshot_request = ''op-1''" by (simp add: snapshot_request_def example_request_def)
  moreover have "removal_confirmed ferry_removal ferry_root" by (simp add: removal_confirmed_def ferry_removal_def ferry_root_def)
  moreover have "ad_compile ferry_artifact = ferry_evidence" by (simp add: ferry_artifact_def)
  moreover have "ce_job_id ferry_evidence = ferry_job" "ce_provider ferry_evidence = SSH_STDIO_PROVIDER_ID"
    "ce_source_sha256 ferry_evidence = zero_hex" "ce_request_sha256 ferry_evidence = zero_hex"
    by (simp_all add: ferry_evidence_def example_evidence_def SSH_PROVIDER_ID_def SSH_STDIO_PROVIDER_ID_def)
  ultimately show ?thesis
    using ferry_messages(1-3) ferry_created digest by (simp add: run_built_def ferry_run_def ferry_worker_env_def ferry_worker_host_def)
qed

lemma ferry_compiles: "compiles ferry_worker_env ferry_run"
proof -
  have "run_record ferry_run = ad_artifact ferry_artifact" "run_artifact ferry_run = ferry_artifact" "run_request ferry_run = snapshot_request"
    "run_job_id ferry_run = ferry_job" "root_path (run_root ferry_run) = ferry_path"
    by (simp_all add: ferry_run_def ferry_root_def)
  note fields = this
  have out: "we_compile ferry_worker_env x y z = Ok ferry_output" for x y z by (simp add: ferry_worker_env_def)
  have built: "ce_job_id ferry_evidence = ferry_job" "ce_provider ferry_evidence = SSH_STDIO_PROVIDER_ID"
    "ce_source_sha256 ferry_evidence = manifest_sha256 (source snapshot_request)"
    "canonical_request_sha256 (we_request ferry_worker_env) snapshot_request = Ok (ce_request_sha256 ferry_evidence)"
    using ferry_built by (simp_all add: run_built_def fields) (simp_all add: ferry_artifact_def)
  have "validate_compile_output ferry_worker_env snapshot_request ferry_job (path_join ferry_path ARTIFACTS_DIRECTORY_NAME) ferry_output = Ok ()"
    using built by (simp add: validate_compile_output_def ferry_output_def Let_def)
  moreover have "handoff_compile (out_handoff ferry_output) = ad_compile ferry_artifact" by (simp add: ferry_output_def ferry_artifact_def)
  moreover have "sealed_transport (ce_sealed_archive ferry_evidence) = \<lparr>archive_size = 3, archive_sha256 = zero_hex\<rparr>"
    by (simp add: ferry_evidence_def example_evidence_def)
  ultimately show ?thesis
    by (simp add: compiles_def fields out Let_def)
      (simp add: ferry_artifact_def UNSIGNED_ARTIFACT_ID_def UNSIGNED_ARCHIVE_NAME_def)
qed

lemma ferry_sent: "run_sent ferry_worker_env ferry_worker_host ferry_run ferry_transcript"
proof -
  let ?first = "announcements example_bundle snapshot_request @ artifact_events ferry_artifact"
  let ?late = "[(''cleanup'', CleanupStarted), (''cleanup'', CleanupFinished (removal_proof ferry_job 9))]"
  have len: "length ?first = 10" by (simp add: announcements_def Let_def)
  have "worker_events ferry_worker_env ferry_worker_host snapshot_request ferry_job 0 ?first (map ferry_event [0..<10]) (map ferry_line [0..<10])"
    using ferry_events [of ?first 0] len unfolding ferry_kinds_def by (simp only: append_eq_conv_conj take_append) simp
  moreover have "worker_events ferry_worker_env ferry_worker_host snapshot_request ferry_job 10 ?late (map ferry_event [10..<12]) (map ferry_line [10..<12])"
    using ferry_events [of ?late 10] len by (simp add: ferry_kinds_def del: worker_events.simps)
  moreover have "frame_wf (JobAccepted, 0, ''{}'')" "frame_wf (ArtifactDescriptor, 0, ''{}'')" "frame_wf (Complete, 0, ''{}'')"
    by (simp_all add: maximum_payload_bytes_def MAX_SOURCE_BUNDLE_DESCRIPTOR_BYTES_def MAX_WORKER_DATA_PLANE_RESULT_BYTES_def
        MAX_WORKER_DATA_PLANE_CONTROL_BYTES_def)
  moreover have "hex_encode (env_sha256 example_env ''abc'') = zero_hex" by (simp add: example_env_def zero_template)
  moreover have "artifact_size (ad_artifact ferry_artifact) = 3" "artifact_sha256 (ad_artifact ferry_artifact) = zero_hex"
    by (simp_all add: ferry_artifact_def)
  moreover have "wh_cleanup_at ferry_worker_host = 9" by (simp add: ferry_worker_host_def)
  moreover have "we_accepted_json ferry_worker_env = known ferry_accepted" "we_artifact_json ferry_worker_env = known ferry_artifact"
    "we_complete_json ferry_worker_env = known ferry_complete" "we_request ferry_worker_env = example_env"
    by (simp_all add: ferry_worker_env_def)
  ultimately show ?thesis
    by (simp add: run_sent_def ferry_run_def ferry_transcript_def known_def del: worker_events.simps frame_wf.simps)
qed

lemma ferry_host_serves: "worker_host_serves ferry_worker_host ferry_run ferry_transcript"
proof -
  have "artifact_size (ad_artifact ferry_artifact) = 3" by (simp add: ferry_artifact_def)
  then show ?thesis
    by (simp add: worker_host_serves_def ferry_worker_host_def ferry_run_def ferry_transcript_def)
      (simp add: root_verify_def clone_directory_handle_def ferry_probe_def ferry_root_def remove_exact_file_def example_metadata_def
        artifact_file_serves_def ferry_file_def)
qed

theorem worker_session_succeeds_witness:
  "\<exists>st. serve_snapshot_session ferry_worker_env ferry_worker_host ferry_input \<lparr>written = [], capacity = None\<rparr> = (Ok (), st)
    \<and> written (wk_writer st) = frames (transcript_frames ferry_transcript) \<and> wk_root st = None"
  using worker_session_succeeds [OF ferry_received ferry_fits ferry_built ferry_compiles ferry_sent ferry_host_serves] .

end
