(* ===== verification/End_To_End.thy ===== *)
theory End_To_End
  imports Worker_Serving
begin

text \<open>
  The client of \<open>Ssh_Session\<close> and the worker of \<open>Worker_Session\<close> together: a worker session that succeeds on what the
  client uploads sends exactly what the client requires, so both complete with the same job, artifact and events.
\<close>

section \<open>The laws the two programs share\<close>

text \<open>
  Both programs use the same digests, clocks apart the same event rules, and one JSON codec: what one side encodes the
  other decodes to the same message. \<open>serde_json\<close> writes UTF-8, and parsing from a reader and from a slice agree on the
  bytes consumed. Control payloads fit into the client's \<open>usize\<close>, which has at least 32 bits.
\<close>

definition same_wire :: "session_env \<Rightarrow> worker_env \<Rightarrow> bool" where
  "same_wire c w \<longleftrightarrow> we_request w = ev_request c \<and> we_event w = ev_event c \<and> 2 ^ 32 - 1 \<le> ev_usize_max c
     \<and> (\<forall>x b. ev_start_json c x = Some b \<longrightarrow> we_start w b = Some x)
     \<and> (\<forall>r d b. ev_descriptor c r = (Some d, b) \<longrightarrow> we_descriptor w b = Some d)
     \<and> (\<forall>x b. we_accepted_json w x = Some b \<longrightarrow> ev_accepted c b = Some x)
     \<and> (\<forall>x b. we_artifact_json w x = Some b \<longrightarrow> ev_artifact c b = Some x)
     \<and> (\<forall>x b. we_complete_json w x = Some b \<longrightarrow> ev_complete c b = Some x)
     \<and> (\<forall>e b. we_event_json w e = Some b \<longrightarrow> utf8_valid b \<and> from_text (ev_event c) b = Ok e)"

lemma control_frame_payload:
  assumes "same_wire c w" "frame_wf (k, sq, payload)" "k \<in> {JobAccepted, ArtifactDescriptor, Complete}"
  shows "control_payload c k payload"
proof -
  have "length payload \<le> 128 * 1024 * 1024"
    using assms(2,3) by (auto simp: maximum_payload_bytes_def MAX_WORKER_DATA_PLANE_CONTROL_BYTES_def
        MAX_WORKER_DATA_PLANE_RESULT_BYTES_def MAX_SOURCE_BUNDLE_DESCRIPTOR_BYTES_def)
  moreover have "2 ^ 32 - 1 \<le> ev_usize_max c" using assms(1) by (simp add: same_wire_def)
  ultimately show ?thesis using assms(2,3) by (auto simp: control_payload_def)
qed

text \<open>The limits of the two sides differ, the request they reconstruct does not.\<close>

lemma reconstruction_ignores_limits:
  assumes "start_reconstruct_request env s d l = Ok r" "start_reconstruct_request env s d l' = Ok r'"
  shows "r = r'"
  using assms by (auto simp: start_reconstruct_request_def reconstruct_request_def and_then_Inr_iff Let_def split: if_splits)

lemma negotiated_current: "negotiate CURRENT_PROTOCOL_VERSION v = Ok u \<Longrightarrow> u = CURRENT_PROTOCOL_VERSION"
  by (auto simp: negotiate_def CURRENT_PROTOCOL_VERSION_def ProtocolVersion_new_def split: if_splits)

text \<open>What the client prepared: it parsed a descriptor whose digest the start declares.\<close>

lemma prepare_request_descriptor:
  assumes "prepare_request c host start limits = Ok p"
  obtains d b req where "ev_descriptor c (pass_reader (h_descriptor_parse host)) = (Some d, b)"
    "hex_encode (env_sha256 (ev_request c) b) = start_source_descriptor_sha256 start"
    "start_reconstruct_request (ev_request c) start d limits = Ok req"
    "canonical_request_sha256 (ev_request c) req = Ok (pr_request_sha256 p)" "pr_source_sha256 p = manifest_sha256 (source req)"
    "pr_operation_id p = request_operation_id req" "pr_protocol_version p = CURRENT_PROTOCOL_VERSION" "pr_start p = start"
proof -
  obtain d req where s: "parse_validated_descriptor (env_sha256 (ev_request c)) (ev_descriptor c) (h_descriptor_parse host)
      (start_source_descriptor_size start) (start_source_descriptor_sha256 start) = Ok d"
    "start_reconstruct_request (ev_request c) start d limits = Ok req"
    "canonical_request_sha256 (ev_request c) req = Ok (pr_request_sha256 p)" "pr_source_sha256 p = manifest_sha256 (source req)"
    "pr_operation_id p = request_operation_id req" "negotiate CURRENT_PROTOCOL_VERSION (request_protocol_version req) = Ok (pr_protocol_version p)"
    "pr_start p = start"
    using assms by (auto simp: prepare_request_def Let_def and_then_Inr_iff split: if_splits)
  from s(1) obtain b where "ev_descriptor c (pass_reader (h_descriptor_parse host)) = (Some d, b)"
    "hex_encode (env_sha256 (ev_request c) b) = start_source_descriptor_sha256 start"
    by (auto simp: parse_validated_descriptor_def HashingReader_finish_def lowercase_hex_is_hex_encode
        split: option.splits if_splits prod.splits)
  with s(2-5,7) negotiated_current [OF s(6)] that show thesis by blast
qed

section \<open>What the worker sends is what the client requires\<close>

lemma worker_event_own:
  assumes "RemoteBuildEvent_new (we_event w) (request_operation_id req) job at SSH_STDIO_PROVIDER_ID phase n k = Ok e"
    and "we_event_json w e = Some x" "frame_wf (Event, 0, x)" "same_wire c w"
    and "pr_operation_id p = request_operation_id req" "pr_protocol_version p = CURRENT_PROTOCOL_VERSION" "ja_job_id a = job"
  shows "decode_line_bytes (ev_event c) x = Ok e \<and> own_event c p a e \<and> event_sequence e = n
    \<and> length x \<le> min MAX_EVENT_LINE_BYTES (ev_usize_max c)"
proof -
  have wire: "we_event w = ev_event c" "2 ^ 32 - 1 \<le> ev_usize_max c" "utf8_valid x" "from_text (ev_event c) x = Ok e"
    using assms(2,4) by (auto simp: same_wire_def)
  have e: "RemoteBuildEvent_validate (ev_event c) e = Ok ()" "event_protocol_version e = CURRENT_PROTOCOL_VERSION"
    "event_operation_id e = request_operation_id req" "event_job_id e = job" "event_provider e = SSH_PROVIDER_ID" "event_sequence e = n"
    using assms(1) wire(1) by (auto simp: RemoteBuildEvent_new_def Let_def and_then_Inr_iff SSH_STDIO_PROVIDER_ID_def SSH_PROVIDER_ID_def)
  have "length x \<le> MAX_EVENT_LINE_BYTES"
    using assms(3) by (simp add: maximum_payload_bytes_def MAX_EVENT_LINE_BYTES_def)
  moreover from this wire(2) have "length x \<le> ev_usize_max c" by (simp add: MAX_EVENT_LINE_BYTES_def)
  ultimately show ?thesis
    using e wire(3,4) assms(5-7) by (simp add: decode_line_bytes_def decode_line_def own_event_def)
qed

lemma worker_events_own:
  assumes "same_wire c w" "pr_operation_id p = request_operation_id req" "pr_protocol_version p = CURRENT_PROTOCOL_VERSION"
    and "ja_job_id a = job"
  shows "worker_events w host req job m ks es xs \<Longrightarrow> event_payloads c p a m xs es"
proof (induction ks arbitrary: m es xs)
  case Nil
  then show ?case by (simp add: event_payloads_def)
next
  case (Cons pk ks)
  obtain phase k where pk: "pk = (phase, k)" by (cases pk)
  from Cons.prems obtain e es' x xs' where e: "es = e # es'" "xs = x # xs'"
    "RemoteBuildEvent_new (we_event w) (request_operation_id req) job (wh_event_at host (of_nat m))
       SSH_STDIO_PROVIDER_ID phase (of_nat m) k = Ok e"
    "we_event_json w e = Some x" "frame_wf (Event, 0, x)" "worker_events w host req job (Suc m) ks es' xs'"
    by (auto simp: pk)
  from worker_event_own [OF e(3-5) assms] Cons.IH [OF e(6)] show ?case by (simp add: e(1,2) event_payloads_Cons)
qed

text \<open>The upload the worker read is the upload the client wrote.\<close>

lemma received_upload:
  assumes "run_received w run input rest" "upload c start fs" "prefix (frames fs) input" "same_wire c w"
  shows "fs = [(BuildRequest, 0, run_start_json run), (SourceDescriptor, 1, run_descriptor_json run),
      (SourceArchive, 2, run_archive run)]" "run_start run = start"
proof -
  let ?gs = "[(BuildRequest, 0, run_start_json run), (SourceDescriptor, 1, run_descriptor_json run), (SourceArchive, 2, run_archive run)]"
  obtain more where more: "input = frames fs @ more" using assms(3) by (auto simp: prefix_def)
  have len: "length fs = length ?gs" and wf: "\<forall>f \<in> set fs. frame_wf f"
    using assms(2) by (auto simp: upload_def list_all_iff)
  have gs: "\<forall>f \<in> set ?gs. frame_wf f"
    and eq: "concat (map frame_bytes fs) @ more = concat (map frame_bytes ?gs)
        @ (frame_bytes (ArtifactReceipt, 3, run_receipt_json run) @ rest)"
    using assms(1) more by (simp_all add: run_received_def frames_def del: frame_bytes.simps frame_wf.simps)
  from frames.cancel_list [OF len wf gs eq] show fs: "fs = ?gs" ..
  with assms(2) have "ev_start_json c start = Some (run_start_json run)" by (simp add: upload_def)
  then have "we_start w (run_start_json run) = Some start" using assms(4) by (simp add: same_wire_def)
  with assms(1) show "run_start run = start" by (simp add: run_received_def)
qed

text \<open>The descriptor bytes a list of upload frames carries.\<close>

definition uploaded_descriptor :: "frame list \<Rightarrow> bytes" where
  "uploaded_descriptor fs = (case fs of [_, (_, _, b), _] \<Rightarrow> b | _ \<Rightarrow> [])"

lemma new_messages:
  "SnapshotJobAccepted_new op job at = Ok a \<Longrightarrow> SnapshotJobAccepted_validate a = Ok () \<and> ja_operation_id a = op \<and> ja_job_id a = job
     \<and> ja_protocol_version a = CURRENT_PROTOCOL_VERSION"
  "SnapshotArtifactDescriptor_new env op r e = Ok d \<Longrightarrow> SnapshotArtifactDescriptor_validate env d = Ok () \<and> ad_operation_id d = op
     \<and> ad_job_id d = ce_job_id e \<and> ad_protocol_version d = CURRENT_PROTOCOL_VERSION"
  "SnapshotBuildComplete_new op cl = Ok b \<Longrightarrow> SnapshotBuildComplete_validate b = Ok () \<and> bc_operation_id b = op
     \<and> bc_job_id b = cleanup_job_id cl \<and> bc_protocol_version b = CURRENT_PROTOCOL_VERSION"
  by (auto simp: SnapshotJobAccepted_new_def SnapshotArtifactDescriptor_new_def SnapshotBuildComplete_new_def Let_def and_then_Inr_iff)

lemma run_built_messages:
  assumes "run_built w host run"
  shows "SnapshotJobAccepted_validate (run_accepted run) = Ok ()" "ja_operation_id (run_accepted run) = request_operation_id (run_request run)"
    "ja_job_id (run_accepted run) = run_job_id run" "ja_protocol_version (run_accepted run) = CURRENT_PROTOCOL_VERSION"
    "SnapshotArtifactDescriptor_validate (we_request w) (run_artifact run) = Ok ()"
    "ad_operation_id (run_artifact run) = request_operation_id (run_request run)" "ad_job_id (run_artifact run) = run_job_id run"
    "ad_protocol_version (run_artifact run) = CURRENT_PROTOCOL_VERSION"
    "SnapshotBuildComplete_validate (run_complete run) = Ok ()"
    "bc_operation_id (run_complete run) = request_operation_id (run_request run)" "bc_job_id (run_complete run) = run_job_id run"
    "bc_protocol_version (run_complete run) = CURRENT_PROTOCOL_VERSION"
  using assms by (auto simp: run_built_def dest: new_messages)

lemma run_sent_length:
  assumes "run_sent w host run t"
  shows "length (run_events run) = 10" "length (t_events t) = 10" "length (run_late run) = 2" "length (t_late t) = 2"
  using assms worker_events_length by (fastforce simp: run_sent_def announcements_def Let_def simp del: worker_events.simps)+

text \<open>The transcript of a run follows the protocol, for a client that prepared the same request.\<close>

lemma run_follows:
  assumes "same_wire c w" "run_built w host run" "run_sent w host run t"
    and p: "pr_operation_id p = request_operation_id (run_request run)" "pr_protocol_version p = CURRENT_PROTOCOL_VERSION"
      "canonical_request_sha256 (ev_request c) (run_request run) = Ok (pr_request_sha256 p)"
      "pr_source_sha256 p = manifest_sha256 (source (run_request run))"
  shows "worker_follows c p t (run_accepted run) (run_artifact run) (run_complete run) (run_events run) (run_late run)"
proof -
  note messages = run_built_messages [OF assms(2)]
  have wire: "we_request w = ev_request c" using assms(1) by (simp add: same_wire_def)
  have events: "event_payloads c p (run_accepted run) 0 (t_events t) (run_events run)"
    "event_payloads c p (run_accepted run) 10 (t_late t) (run_late run)"
    using assms(3) worker_events_own [OF assms(1) p(1,2) messages(3)] unfolding run_sent_def by blast+
  note len = run_sent_length [OF assms(3)]
  have json: "ev_accepted c (t_accepted t) = Some (run_accepted run)" "ev_artifact c (t_descriptor t) = Some (run_artifact run)"
    "ev_complete c (t_complete t) = Some (run_complete run)"
    using assms(1,3) by (auto simp: same_wire_def run_sent_def simp del: worker_events.simps frame_wf.simps)
  have control: "control_payload c JobAccepted (t_accepted t)" "control_payload c ArtifactDescriptor (t_descriptor t)"
    "control_payload c Complete (t_complete t)"
    using assms(3) control_frame_payload [OF assms(1)] unfolding run_sent_def by blast+
  have compile: "ce_request_sha256 (ad_compile (run_artifact run)) = pr_request_sha256 p"
    "ce_source_sha256 (ad_compile (run_artifact run)) = pr_source_sha256 p" "ce_provider (ad_compile (run_artifact run)) = SSH_PROVIDER_ID"
    using assms(2) p(3,4) wire by (auto simp: run_built_def SSH_PROVIDER_ID_def SSH_STDIO_PROVIDER_ID_def)
  have artifact: "length (t_artifact t) = unat (artifact_size (ad_artifact (run_artifact run)))"
    "hex_encode (env_sha256 (ev_request c) (t_artifact t)) = artifact_sha256 (ad_artifact (run_artifact run))"
    using assms(3) wire by (simp_all add: run_sent_def del: worker_events.simps frame_wf.simps)
  have "run_events run \<noteq> []" using len(1) by auto
  then show ?thesis
    unfolding worker_follows_def
    using json control messages [unfolded wire] p(1,2) events compile artifact len by simp
qed

lemma worker_conforms:
  assumes "same_wire c w" "prepare_request c host start limits = Ok p" "upload c start fs"
    and "run_session w whost (Session_new rw \<lparr>written = [], capacity = None\<rparr>) = (Ok (), wst)"
    and "prefix (frames fs) (reader_data rw)"
    and "inj_on (env_sha256 (ev_request c)) {uploaded_descriptor fs, snd (ev_descriptor c (pass_reader (h_descriptor_parse host)))}"
  obtains run t where "run_built w whost run" "run_sent w whost run t"
    "worker_follows c p t (run_accepted run) (run_artifact run) (run_complete run) (run_events run) (run_late run)"
    "wk_writer wst = \<lparr>written = frames (transcript_frames t), capacity = None\<rparr>" "wk_root wst = None"
proof -
  obtain run t rest where r: "run_received w run (reader_data rw) rest" "run_built w whost run" "run_sent w whost run t"
    "wk_writer wst = \<lparr>written = frames (transcript_frames t), capacity = None\<rparr>" "wk_root wst = None"
    using assms(4) by (rule run_session_Ok)
  have fs: "fs = [(BuildRequest, 0, run_start_json run), (SourceDescriptor, 1, run_descriptor_json run),
      (SourceArchive, 2, run_archive run)]" "run_start run = start"
    using received_upload [OF r(1) assms(3,5,1)] by simp_all
  obtain d b req where p: "ev_descriptor c (pass_reader (h_descriptor_parse host)) = (Some d, b)"
    "hex_encode (env_sha256 (ev_request c) b) = start_source_descriptor_sha256 start"
    "start_reconstruct_request (ev_request c) start d limits = Ok req"
    "canonical_request_sha256 (ev_request c) req = Ok (pr_request_sha256 p)" "pr_source_sha256 p = manifest_sha256 (source req)"
    "pr_operation_id p = request_operation_id req" "pr_protocol_version p = CURRENT_PROTOCOL_VERSION" "pr_start p = start"
    using assms(2) by (rule prepare_request_descriptor)
  have wire: "we_request w = ev_request c" "we_descriptor w b = Some d" using assms(1) p(1) by (auto simp: same_wire_def)
  have "env_sha256 (ev_request c) (run_descriptor_json run) = env_sha256 (ev_request c) b"
  proof (rule hex_encode_inject)
    have "hex_encode (env_sha256 (we_request w) (run_descriptor_json run)) = start_source_descriptor_sha256 (run_start run)"
      using r(1) by (simp add: run_received_def)
    with p(2) wire(1) fs(2) show "hex_encode (env_sha256 (ev_request c) (run_descriptor_json run)) = hex_encode (env_sha256 (ev_request c) b)"
      by simp
  qed
  then have "run_descriptor_json run = b"
    by (rule inj_onD [OF assms(6)]) (simp_all add: fs(1) p(1) uploaded_descriptor_def)
  with r(1) wire(2) have "run_descriptor run = d" by (simp add: run_received_def)
  with r(1) fs(2) wire(1) have "start_reconstruct_request (ev_request c) start d SourceArchiveLimits_default = Ok (run_request run)"
    by (simp add: run_received_def)
  with p(3) have req: "run_request run = req" by (rule reconstruction_ignores_limits [symmetric])
  have "worker_follows c p t (run_accepted run) (run_artifact run) (run_complete run) (run_events run) (run_late run)"
    using p(4-7) by (intro run_follows [OF assms(1) r(2,3)]) (simp_all add: req)
  with r that show thesis by blast
qed

section \<open>Both complete\<close>

text \<open>
  C2 [end_to_end]: client and worker complete together. Let both sides share their codecs, let the client have prepared the
  request and written its upload, and let a worker session that reads this upload, followed by anything, succeed. Then
  its output, delivered to the client in whatever pieces, is a session the client completes: for every receipt its host
  and its verifier stand for, the client's run succeeds with exactly the acceptance, artifact and completion the worker
  sent, hands on the worker's twelve events in order, and authorizes the commit; and the job directory the worker
  created was removed, confirmed through the handle opened at creation. The descriptor the client parsed and the one it
  uploaded must not collide under SHA-256.
\<close>

theorem client_and_worker_complete_together:
  assumes "same_wire c w" "prepare_request c host start limits = Ok p" "validate_new_link (h_new_link host) = Ok ()"
    and "write_request_frames c host p (session_start rc sp) = (Ok (), cst)" "h_request_flush host"
    and "upload c start fs" "written (cs_writer cst) = frames fs" "prefix (frames fs) (reader_data rw)"
    and "inj_on (env_sha256 (ev_request c)) {uploaded_descriptor fs, snd (ev_descriptor c (pass_reader (h_descriptor_parse host)))}"
    and "run_session w whost (Session_new rw \<lparr>written = [], capacity = None\<rparr>) = (Ok (), wst)"
    and "reader_data rc = written (wk_writer wst) @ rest" "armed sp"
  shows "\<exists>run t. run_built w whost run \<and> run_sent w whost run t \<and> written (wk_writer wst) = frames (transcript_frames t)
    \<and> wk_root wst = None \<and> (\<forall>receipt. host_serves c host (run_artifact run) receipt sp \<longrightarrow>
         (\<exists>st. run_snapshot_session c host start limits (session_start rc sp)
              = (Ok \<lparr>out_accepted = run_accepted run, out_artifact = run_artifact run, out_receipt = receipt,
                     out_complete = run_complete run\<rparr>, st)
           \<and> cs_events st = run_events run @ run_late run \<and> commit_authorized (cs_spool st)))"
proof -
  obtain run t where conforms: "run_built w whost run" "run_sent w whost run t"
    "worker_follows c p t (run_accepted run) (run_artifact run) (run_complete run) (run_events run) (run_late run)"
    "wk_writer wst = \<lparr>written = frames (transcript_frames t), capacity = None\<rparr>" "wk_root wst = None"
    using assms(1,2,6,10,8,9) by (rule worker_conforms)
  have "\<exists>st. run_snapshot_session c host start limits (session_start rc sp)
      = (Ok \<lparr>out_accepted = run_accepted run, out_artifact = run_artifact run, out_receipt = receipt, out_complete = run_complete run\<rparr>, st)
    \<and> cs_events st = run_events run @ run_late run \<and> commit_authorized (cs_spool st)"
    if serves: "host_serves c host (run_artifact run) receipt sp" for receipt
  proof -
    have up: "fst (write_request_frames c host p (session_start rc sp)) = Ok ()" using assms(4) by simp
    have data: "reader_data rc = frames (transcript_frames t) @ rest" using assms(11) conforms(4) by simp
    obtain st where st: "run_snapshot_session_uncommitted c host start limits (session_start rc sp)
        = (Ok \<lparr>out_accepted = run_accepted run, out_artifact = run_artifact run, out_receipt = receipt, out_complete = run_complete run\<rparr>, st)"
      "cs_events st = run_events run @ run_late run" "publication (cs_spool st) \<noteq> None" "armed (cs_spool st) = armed sp"
      by (rule run_uncommitted_served [OF assms(2,3) up assms(5) conforms(3) serves data])
    then have "authorize_commit (cs_spool st) = (Ok (), (cs_spool st)\<lparr>commit_authorized := True\<rparr>)"
      using assms(12) by (auto simp: authorize_commit_def)
    with st show ?thesis by (simp add: run_snapshot_session_def run_snapshot_session_deferred_def)
  qed
  moreover have "written (wk_writer wst) = frames (transcript_frames t)" using conforms(4) by simp
  ultimately show ?thesis using conforms(1,2,5) by blast
qed

section \<open>A build\<close>

definition ferry_session_env :: session_env where
  "ferry_session_env = example_session_env\<lparr>ev_event := ferry_event_env, ev_usize_max := 2 ^ 32, ev_accepted := (\<lambda>_. Some ferry_accepted),
     ev_artifact := (\<lambda>_. Some ferry_artifact), ev_complete := (\<lambda>_. Some ferry_complete),
     ev_start_json := known snapshot_start\<rparr>"

lemma ferry_wire: "same_wire ferry_session_env ferry_worker_env"
proof -
  have "utf8_valid (ferry_line n)" for n by (rule utf8_valid_ascii) (simp add: is_ascii_def ferry_line_def)
  moreover have "length (ferry_line n) - 1 = n" for n by (simp add: ferry_line_def)
  ultimately show ?thesis
    by (auto simp: same_wire_def ferry_session_env_def ferry_worker_env_def example_session_env_def ferry_event_env_def known_def Let_def
        split: if_splits)
qed

lemma ferry_prepared: "prepare_request ferry_session_env example_host snapshot_start git_snapshot_archive_limits = Ok example_prepared"
  using example_prepared_ok by (simp add: prepare_request_def ferry_session_env_def Let_def)

lemma ferry_uploaded:
  "write_request_frames ferry_session_env example_host example_prepared (session_start r sp)
   = (Ok (), (session_start r sp)\<lparr>cs_writer := \<lparr>written = frames example_upload, capacity = None\<rparr>\<rparr>)"
proof -
  have "ev_start_json ferry_session_env (pr_start example_prepared) = ev_start_json example_session_env (pr_start example_prepared)"
    by (simp add: ferry_session_env_def example_session_env_def known_def example_prepared_def)
  moreover have "ev_request ferry_session_env = ev_request example_session_env" by (simp add: ferry_session_env_def)
  ultimately show ?thesis
    using example_upload_frames [of r sp] by (simp add: write_request_frames_def write_json_frame_def stream_step_def)
qed

lemma ferry_upload: "upload ferry_session_env snapshot_start example_upload"
proof -
  have "list_all frame_wf example_upload"
    by (simp add: maximum_payload_bytes_def MAX_WORKER_DATA_PLANE_REQUEST_BYTES_def MAX_SOURCE_BUNDLE_DESCRIPTOR_BYTES_def
        MAX_WORKER_DATA_PLANE_SOURCE_BYTES_def)
  moreover have "hex_encode (env_sha256 (ev_request ferry_session_env) x) = zero_hex" for x
    by (simp add: ferry_session_env_def example_session_env_def example_env_def zero_template)
  moreover have "ev_start_json ferry_session_env snapshot_start = Some ''{}''" by (simp add: ferry_session_env_def known_def)
  ultimately show ?thesis
    unfolding upload_def
    by (intro exI [of _ "''{}''"] exI [of _ "''{}''"] exI [of _ "''0123456789''"])
      (simp add: snapshot_start_def del: frame_wf.simps)
qed

lemma ferry_client_serves: "host_serves ferry_session_env example_host ferry_artifact ferry_receipt example_spool"
proof -
  have new: "SnapshotArtifactReceipt_new example_env ferry_artifact example_path = Ok ferry_receipt"
    using ferry_messages(4) ferry_artifact_valid
    by (simp add: SnapshotArtifactReceipt_new_def Let_def SNAPSHOT_SESSION_SCHEMA_VERSION_def)
      (simp add: ferry_receipt_def example_receipt_def ferry_artifact_def)
  have "rc_local_path ferry_receipt = rc_local_path example_receipt" "ad_artifact example_artifact = (ad_artifact example_artifact)"
    "artifact_size (ad_artifact ferry_artifact) = artifact_size (ad_artifact example_artifact)"
    "artifact_sha256 (ad_artifact ferry_artifact) = artifact_sha256 (ad_artifact example_artifact)"
    by (simp_all add: ferry_receipt_def ferry_artifact_def example_artifact_def)
  moreover have "rc_local_path example_receipt = example_path" by (simp add: example_receipt_def)
  ultimately show ?thesis
    using example_host_serves new by (simp add: host_serves_def ferry_session_env_def) (simp add: example_session_env_def)
qed

lemma ferry_worker_run:
  obtains wst where "run_session ferry_worker_env ferry_worker_host (Session_new ferry_input \<lparr>written = [], capacity = None\<rparr>) = (Ok (), wst)"
    "wk_writer wst = \<lparr>written = frames (transcript_frames ferry_transcript), capacity = None\<rparr>"
  using ferry_received ferry_fits ferry_built ferry_compiles ferry_sent ferry_host_serves by (rule run_session_served)

theorem client_and_worker_complete_together_witness:
  "\<exists>out st. run_snapshot_session ferry_session_env example_host snapshot_start git_snapshot_archive_limits
      (session_start [Chunk (frames (transcript_frames ferry_transcript))] example_spool) = (Ok out, st)
    \<and> out_artifact out = ferry_artifact \<and> length (cs_events st) = 12 \<and> commit_authorized (cs_spool st)"
proof -
  let ?rc = "[Chunk (frames (transcript_frames ferry_transcript))]"
  obtain wst where wst: "run_session ferry_worker_env ferry_worker_host (Session_new ferry_input \<lparr>written = [], capacity = None\<rparr>) = (Ok (), wst)"
    "wk_writer wst = \<lparr>written = frames (transcript_frames ferry_transcript), capacity = None\<rparr>"
    by (rule ferry_worker_run)
  have upload: "written (cs_writer ((session_start ?rc example_spool)\<lparr>cs_writer := \<lparr>written = frames example_upload, capacity = None\<rparr>\<rparr>))
      = frames example_upload" by simp
  have input: "prefix (frames example_upload) (reader_data ferry_input)" by (simp add: prefix_def del: frame_bytes.simps)
  have "inj_on (env_sha256 (ev_request ferry_session_env))
      {uploaded_descriptor example_upload, snd (ev_descriptor ferry_session_env (pass_reader (h_descriptor_parse example_host)))}"
    by (simp add: uploaded_descriptor_def ferry_session_env_def example_session_env_def example_host_def example_pass_def)
  note collision = this
  have reply: "reader_data ?rc = written (wk_writer wst) @ []" by (simp add: wst(2))
  from client_and_worker_complete_together [OF ferry_wire ferry_prepared example_host_links(1) ferry_uploaded example_host_links(2)
      ferry_upload upload input collision wst(1) reply example_host_links(3)]
  obtain run t where run: "run_sent ferry_worker_env ferry_worker_host run t"
    and served: "\<And>receipt. host_serves ferry_session_env example_host (run_artifact run) receipt example_spool \<Longrightarrow>
      \<exists>st. run_snapshot_session ferry_session_env example_host snapshot_start git_snapshot_archive_limits (session_start ?rc example_spool)
          = (Ok \<lparr>out_accepted = run_accepted run, out_artifact = run_artifact run, out_receipt = receipt, out_complete = run_complete run\<rparr>, st)
        \<and> cs_events st = run_events run @ run_late run \<and> commit_authorized (cs_spool st)"
    by blast
  have "we_artifact_json ferry_worker_env (run_artifact run) \<noteq> None" using run by (simp add: run_sent_def)
  then have art: "run_artifact run = ferry_artifact" by (auto simp: ferry_worker_env_def known_def split: if_splits)
  with served [of ferry_receipt] ferry_client_serves run_sent_length [OF run] show ?thesis by fastforce
qed

end
