(* ===== verification/Worker_Answer.thy ===== *)
theory Worker_Answer
  imports Worker_Serving
begin

text \<open>
  How a worker session ends: with the completed transcript, or with one error frame after everything it had already
  written; and what the two say about the job directory.
\<close>

section \<open>Output is framed\<close>

text \<open>
  Every step of the worker appends whole frames to its output. The one exception is an artifact whose file ends early: its
  header stays behind with what the file delivered, fewer bytes than it announced, and the step has then failed.
\<close>

definition torn_artifact :: "artifact_file \<Rightarrow> bytes \<Rightarrow> bool" where
  "torn_artifact f t \<longleftrightarrow> (\<exists>sq n p. t = encode_header \<lparr>kind = Artifact, sequence = sq, payload_bytes = n\<rparr> @ p
     \<and> prefix p (reader_data (af_reader f)) \<and> length p < unat n)"

definition framed :: "artifact_file \<Rightarrow> worker_session \<Rightarrow> 'a worker_result \<Rightarrow> bool" where
  "framed f st x \<longleftrightarrow> (capacity (wk_writer st) = None \<longrightarrow> capacity (wk_writer (snd x)) = None
     \<and> (\<exists>fs t. list_all frame_wf fs \<and> written (wk_writer (snd x)) = written (wk_writer st) @ frames fs @ t
          \<and> (t = [] \<or> \<not> is_ok (fst x) \<and> torn_artifact f t)))"

named_theorems framing \<open>steps of the worker that write whole frames\<close>

lemma framed_silent: "wk_writer st' = wk_writer st \<Longrightarrow> framed af st (res, st')"
  by (auto simp: framed_def frames_def intro!: exI [of _ "[]"])

lemma framed_whole:
  "frame_wf f \<Longrightarrow> written (wk_writer st') = written (wk_writer st) @ frame_bytes f \<Longrightarrow>
   capacity (wk_writer st') = capacity (wk_writer st) \<Longrightarrow> framed af st (res, st')"
  by (auto simp: framed_def frames_def simp del: frame_bytes.simps frame_wf.simps intro!: exI [of _ "[f]"])

lemma framed_torn:
  "torn_artifact af t \<Longrightarrow> written (wk_writer st') = written (wk_writer st) @ t \<Longrightarrow>
   capacity (wk_writer st') = capacity (wk_writer st) \<Longrightarrow> \<not> is_ok res \<Longrightarrow> framed af st (res, st')"
  by (auto simp: framed_def frames_def intro!: exI [of _ "[]"] exI [of _ t])

lemma framed_simps [simp]:
  "framed af st (res, st)" "framed af st (res, st\<lparr>wk_reader := r\<rparr>)" "framed af st (res, st\<lparr>wk_reader := r, wk_input_sequence := q\<rparr>)"
  "framed af st (res, st\<lparr>wk_operation_id := i\<rparr>)" "framed af st (res, st\<lparr>wk_job_id := j, wk_root := g\<rparr>)" "framed af st (res, st\<lparr>wk_root := g\<rparr>)"
  "framed af st (res, st\<lparr>wk_reader := r, wk_archive_file := f\<rparr>)"
  by (simp_all add: framed_silent)

lemma framed_and_next [framing]:
  assumes "framed af st x" "\<And>a st'. framed af st' (f a st')"
  shows "framed af st (and_next x f)"
proof (cases x)
  case (Pair res st1)
  show ?thesis
  proof (cases res)
    case (Inl e)
    with assms(1) Pair show ?thesis by (simp add: framed_def)
  next
    case (Inr a)
    show ?thesis unfolding framed_def
    proof (intro impI)
      assume none: "capacity (wk_writer st) = None"
      obtain fs where fs: "capacity (wk_writer st1) = None" "list_all frame_wf fs"
        "written (wk_writer st1) = written (wk_writer st) @ frames fs"
        using assms(1) none Pair Inr by (auto simp: framed_def)
      obtain gs t where gs: "capacity (wk_writer (snd (f a st1))) = None" "list_all frame_wf gs"
        "written (wk_writer (snd (f a st1))) = written (wk_writer st1) @ frames gs @ t"
        "t = [] \<or> \<not> is_ok (fst (f a st1)) \<and> torn_artifact af t"
        using assms(2) [of st1 a] fs(1) unfolding framed_def by blast
      with fs Pair Inr show "capacity (wk_writer (snd (and_next x f))) = None \<and> (\<exists>fs t. list_all frame_wf fs
          \<and> written (wk_writer (snd (and_next x f))) = written (wk_writer st) @ frames fs @ t
          \<and> (t = [] \<or> \<not> is_ok (fst (and_next x f)) \<and> torn_artifact af t))"
        by (auto simp: frames_def intro!: exI [of _ "fs @ gs"] exI [of _ t])
    qed
  qed
qed

lemma pure_step_framed [framing]: "framed af st (pure_step x st)"
  by (simp add: pure_step_def)

lemma write_json_framed [framing]: "framed af st (write_json to_vec k x st)"
proof (cases "capacity (wk_writer st)")
  case None
  note frame = write_frame_unlimited [OF None, of k "wk_output_sequence st"]
  show ?thesis
    by (auto simp: write_json_def simp del: frame_bytes.simps frame_wf.simps split: option.split prod.split sum.split
        dest!: frame intro: framed_silent framed_whole)
qed (simp add: framed_def)

lemma emit_event_framed [framing]: "framed af st (emit_event env host req phase k st)"
proof -
  have "framed af st (write_json to_vec Event e (st\<lparr>wk_event_sequence := n\<rparr>))" for to_vec and e :: RemoteBuildEvent and n
    using write_json_framed [of af "st\<lparr>wk_event_sequence := n\<rparr>" to_vec Event e] by (simp add: framed_def)
  then show ?thesis by (simp add: emit_event_def split: option.split sum.split)
qed

lemma emit_events_framed [framing]: "framed af st (emit_events env host req ks st)"
proof (induction ks arbitrary: st)
  case Nil
  then show ?case by simp
next
  case (Cons pk ks)
  obtain phase k where "pk = (phase, k)" by (cases pk)
  then show ?case using Cons by (simp add: framed_and_next emit_event_framed)
qed

lemma copy_loop_capacity: "capacity w = None \<Longrightarrow> capacity (snd (snd (copy_loop remaining copied r w))) = None"
proof (induction remaining copied r w rule: copy_loop.induct)
  case (1 remaining copied r w)
  then show ?case
    by (subst copy_loop.simps) (auto simp: Let_def write_all_def split: prod.split option.split)
qed

lemma write_stream_framed:
  assumes "capacity w = None" "write_worker_data_plane_stream w Artifact sq (af_reader af) n = (res, r', w')"
  shows "capacity w' = None \<and> (w' = w \<or> (\<exists>f. frame_wf f \<and> written w' = written w @ frame_bytes f)
    \<or> \<not> is_ok res \<and> (\<exists>t. written w' = written w @ t \<and> torn_artifact af t))"
proof (cases "maximum_payload_bytes Artifact < n")
  case False
  let ?h = "encode_header \<lparr>kind = Artifact, sequence = sq, payload_bytes = n\<rparr>"
  let ?w = "w\<lparr>written := written w @ ?h\<rparr>"
  have loop: "copy_loop n 0 (af_reader af) ?w = (res, r', w')"
    using assms False by (simp add: write_worker_data_plane_stream_def WorkerDataPlaneFrameHeader_new_def Let_def
        write_worker_data_plane_header_def copy_worker_data_plane_payload_def)
  then have cap: "capacity w' = None" using copy_loop_capacity [of ?w n 0 "af_reader af"] assms(1) by simp
  obtain k where k: "k \<le> unat n" "k \<le> length (reader_data (af_reader af))" "written w' = (written w @ ?h) @ take k (reader_data (af_reader af))"
    "is_ok res \<Longrightarrow> k = unat n"
    using copy_loop_safe [OF loop] by (auto simp: is_ok_conv)
  show ?thesis
  proof (cases "k = unat n")
    case True
    with k False have "written w' = written w @ frame_bytes (Artifact, sq, take k (reader_data (af_reader af)))"
      "frame_wf (Artifact, sq, take k (reader_data (af_reader af)))"
      by (simp_all add: min_def word_le_nat_alt not_less)
    with cap show ?thesis by blast
  next
    case short: False
    then have "torn_artifact af (?h @ take k (reader_data (af_reader af)))" using k(1,2) unfolding torn_artifact_def by (intro exI conjI) (auto simp: take_is_prefix)
    with cap k(3,4) short show ?thesis by auto
  qed
next
  case True
  with assms show ?thesis by (simp add: write_worker_data_plane_stream_def WorkerDataPlaneFrameHeader_new_def Let_def)
qed

lemma stream_artifact_framed [framing]: "framed af st (stream_artifact env af d st)"
proof (cases "capacity (wk_writer st)")
  case None
  let ?n = "artifact_size (ad_artifact d)"
  obtain res r w where run: "write_worker_data_plane_stream (wk_writer st) Artifact (wk_output_sequence st) (af_reader af) ?n = (res, r, w)"
    by (metis prod_cases3)
  have result: "framed af st (res', st')" if "wk_writer st' = w" "is_ok res' \<Longrightarrow> is_ok res" for st' and res' :: "SessionFailure + unit"
    using write_stream_framed [OF None run] that None framed_silent [of st' st af res'] framed_whole [of _ st' st af res']
      framed_torn [of af _ st' st res'] by metis
  show ?thesis
    by (auto simp: stream_artifact_def Let_def run split: option.split sum.split intro!: result)
qed (simp add: framed_def)

section \<open>Steps that do not write\<close>

lemma silent_steps [framing]:
  "framed af st (read_expected_header host k st)" "framed af st (read_worker_payload env host h st)"
  "framed af st (cleanup_root a at st)" "framed af st (create_root env host st)" "framed af st (with_root g st)"
  "framed af st (flush_step flushed st)"
  by (auto simp: read_expected_header_def read_worker_payload_def cleanup_root_def create_root_def with_root_def flush_step_def Let_def
      split: prod.split sum.split option.split )

lemma receive_steps [framing]:
  "framed af st (receive_start env host st)" "framed af st (receive_descriptor env host start st)"
  "framed af st (receive_archive env host d st)" "framed af st (prepare_build env host d st)"
proof -
  have "framed af st (receive_source_archive env host h d st)" for h st
    unfolding receive_source_archive_def
    by (auto simp: Let_def split: prod.split sum.split intro!: framing)
  note archive = this
  show "framed af st (receive_start env host st)"
    unfolding receive_start_def decode_session_json_payload_def
    by (auto split: option.split intro!: framing)
  show "framed af st (receive_descriptor env host start st)"
    unfolding receive_descriptor_def
    by (auto split: option.split sum.split intro!: framing)
  show "framed af st (receive_archive env host d st)"
    unfolding receive_archive_def by (auto intro!: framing archive)
  show "framed af st (prepare_build env host d st)"
    unfolding prepare_build_def by (auto intro!: framing)
qed

lemma build_steps [framing]:
  "framed af st (announce env host d req job st)" "framed af st (compile_build env host req job out_dir st)"
  "framed (wh_artifact host) st (send_artifact env host req art st)" "framed af st (await_receipt env host art st)"
  "framed af st (finish_build env host req st)"
  unfolding announce_def compile_build_def send_artifact_def await_receipt_def finish_build_def
  by (auto simp: Let_def split: option.split sum.split intro!: framing)

lemma run_session_framed: "framed (wh_artifact host) st (run_session env host st)"
  unfolding run_session_def by (auto split: prod.split intro!: framing)

section \<open>How a session ends\<close>

text \<open>
  What an error answer says about the job directory: a removal proof stands only behind a confirmed removal; without one
  the worker either owned no directory when it failed or says that its removal failed.
\<close>

definition honest_error :: "worker_host \<Rightarrow> worker_session \<Rightarrow> SessionFailure \<Rightarrow> SnapshotSessionError \<Rightarrow> bool" where
  "honest_error host st failure e \<longleftrightarrow>
     se_operation_id e = wk_operation_id st \<and> se_job_id e = wk_job_id st \<and>
     (case wk_root st of
        None \<Rightarrow> se_cleanup e = None \<and> se_code e = failure_code failure
      | Some root \<Rightarrow>
          if \<not> root_owned root then se_cleanup e = None \<and> se_code e = failure_code failure
          else if removal_confirmed (wh_failure_removal host) root \<and> wk_job_id st \<noteq> None
          then se_cleanup e = Some (removal_proof (the (wk_job_id st)) (wh_failure_cleanup_at host)) \<and> se_code e = failure_code failure
          else se_cleanup e = None \<and> se_code e = ''worker_cleanup_failed'')"

lemma finish_failure_Ok:
  assumes "finish_failure env host failure st = (Ok (), st')" "capacity (wk_writer st) = None"
  obtains e x where "honest_error host st failure e" "SnapshotSessionError_validate e = Ok ()" "we_error_json env e = Some x"
    "wk_writer st' = (wk_writer st)\<lparr>written := written (wk_writer st) @ frame_bytes (FrameError, wk_output_sequence st, x)\<rparr>"
proof -
  let ?owned = "case wk_root st of None \<Rightarrow> False | Some root \<Rightarrow> root_owned root"
  let ?clean = "cleanup_root (wh_failure_removal host) (wh_failure_cleanup_at host) st"
  define tri where "tri = (if ?owned then (case ?clean of (Inr cl, st') \<Rightarrow> (failure, Some cl, st')
      | (Inl _, st') \<Rightarrow> (failure_cleanup ''worker_cleanup_failed'', None, st')) else (failure, None, st))"
  obtain f cl st1 where tri: "tri = (f, cl, st1)" by (metis prod_cases3)
  have same: "wk_writer st1 = wk_writer st" "wk_output_sequence st1 = wk_output_sequence st" "wk_operation_id st1 = wk_operation_id st"
    "wk_job_id st1 = wk_job_id st"
    using tri by (auto simp: tri_def cleanup_root_def split: if_splits option.splits prod.splits sum.splits)
  obtain e st2 where e: "SnapshotSessionError_new (wk_operation_id st1) (wk_job_id st1) (failure_code f) (failure_message f)
      (failure_retryable f) cl = Ok e" "write_json (we_error_json env) FrameError e st1 = (Ok (), st2)" "st' = st2"
    using assms(1) tri unfolding finish_failure_def tri_def [symmetric] by (auto split: sum.splits prod.splits if_splits)
  then have fields: "se_operation_id e = wk_operation_id st" "se_job_id e = wk_job_id st" "se_code e = failure_code f" "se_cleanup e = cl"
    "SnapshotSessionError_validate e = Ok ()"
    using same(3,4) by (auto simp: SnapshotSessionError_new_def Let_def and_then_Inr_iff)
  obtain x where x: "we_error_json env e = Some x"
    "wk_writer st2 = (wk_writer st)\<lparr>written := written (wk_writer st) @ frame_bytes (FrameError, wk_output_sequence st, x)\<rparr>"
    using e(2) same(1,2) write_frame_unlimited [OF assms(2), of FrameError "wk_output_sequence st"]
    by (fastforce simp: write_json_def split: option.splits prod.splits sum.splits)
  have "honest_error host st failure e"
  proof (cases ?owned)
    case False
    with tri fields show ?thesis by (auto simp: tri_def honest_error_def split: option.splits)
  next
    case True
    then obtain root where root: "wk_root st = Some root" "root_owned root" by (auto split: option.splits)
    have clean: "?clean = (Ok c, s) \<Longrightarrow> removal_confirmed (wh_failure_removal host) root \<and> wk_job_id st \<noteq> None
        \<and> c = removal_proof (the (wk_job_id st)) (wh_failure_cleanup_at host)" for c s
      using root(1) by (auto elim!: cleanup_root_Ok)
    moreover have "is_ok (fst ?clean)" if "removal_confirmed (wh_failure_removal host) root" "wk_job_id st \<noteq> None"
      using that root(1) root_cleanup_confirmed [of "wh_failure_removal host" root]
      by (auto simp: cleanup_root_def split: prod.splits sum.splits)
    ultimately show ?thesis
      using True tri fields root
      by (cases ?clean; cases "fst ?clean"; cases "wk_job_id st") (auto simp: tri_def honest_error_def failure_cleanup_def)
  qed
  with x fields(5) e(3) that show thesis by simp
qed

text \<open>
  C4 [worker_answer]: a worker session that ends with an answer says the truth about its job directory. Serving a session
  succeeds in exactly two ways. Either the run succeeded: the output is the whole transcript, whose completion stands
  behind a confirmed removal, and no directory is left. Or the run failed, and the output is what the run had written
  followed by one error frame that names the operation and the job as far as they were known. What the run had written is
  a sequence of whole frames, except that an artifact whose file ended early leaves its header with the bytes the file
  gave, fewer than announced, and the error frame then stands behind that torn frame. The error frame carries a removal proof exactly when
  the worker still owned a job directory when it failed and the removal it then made was confirmed through the handle
  opened at creation; where that removal was not confirmed the failure is reported as a cleanup failure, whatever it was
  before. A run that never created its directory, or that failed after its own regular removal, answers without a proof.
\<close>

theorem worker_answer_is_honest:
  assumes "serve_snapshot_session env host r \<lparr>written = [], capacity = None\<rparr> = (Ok (), st)"
  shows "(\<exists>run t rest. run_received env run (reader_data r) rest \<and> run_built env host run \<and> run_sent env host run t
        \<and> written (wk_writer st) = frames (transcript_frames t) \<and> wk_root st = None)
    \<or> (\<exists>failure st0 e x fs torn. run_session env host (Session_new r \<lparr>written = [], capacity = None\<rparr>) = (Err failure, st0)
        \<and> honest_error host st0 failure e \<and> we_error_json env e = Some x
        \<and> list_all frame_wf fs \<and> (torn = [] \<or> torn_artifact (wh_artifact host) torn) \<and> written (wk_writer st0) = frames fs @ torn
        \<and> written (wk_writer st) = frames fs @ torn @ frame_bytes (FrameError, wk_output_sequence st0, x))"
proof (cases "run_session env host (Session_new r \<lparr>written = [], capacity = None\<rparr>)")
  case (Pair res st0)
  show ?thesis
  proof (cases res)
    case (Inr u)
    then have "run_session env host (Session_new r \<lparr>written = [], capacity = None\<rparr>) = (Ok (), st)"
      using Pair assms by (simp add: serve_snapshot_session_def)
    then show ?thesis by (rule run_session_Ok) auto
  next
    case (Inl failure)
    with Pair assms have fin: "finish_failure env host failure st0 = (Ok (), st)" by (simp add: serve_snapshot_session_def)
    obtain fs torn where st0: "capacity (wk_writer st0) = None" "list_all frame_wf fs" "written (wk_writer st0) = frames fs @ torn"
      "torn = [] \<or> torn_artifact (wh_artifact host) torn"
      using run_session_framed [of host "Session_new r \<lparr>written = [], capacity = None\<rparr>" env] Pair
      by (auto simp: framed_def Session_new_def)
    from fin st0(1) obtain e x where "honest_error host st0 failure e" "we_error_json env e = Some x"
      "wk_writer st = (wk_writer st0)\<lparr>written := written (wk_writer st0) @ frame_bytes (FrameError, wk_output_sequence st0, x)\<rparr>"
      by (rule finish_failure_Ok)
    with Pair Inl st0 show ?thesis
      by (intro disjI2 exI [of _ failure] exI [of _ st0] exI [of _ e] exI [of _ x] exI [of _ fs] exI [of _ torn])
        (simp del: frame_bytes.simps)
  qed
qed

section \<open>A silent client\<close>

definition silent_env :: worker_env where
  "silent_env = ferry_worker_env\<lparr>we_error_json := (\<lambda>_. Some ''{}'')\<rparr>"

lemma silent_run:
  "run_session silent_env ferry_worker_host (Session_new [] w) = (Err (failure_frame EmptyInput), Session_new [] w)"
proof -
  have "read_worker_data_plane_header [] = (Err EmptyInput, [])" by code_simp
  then show ?thesis
    by (simp add: run_session_def receive_start_def read_expected_header_def frame_failure_def ferry_worker_host_def Session_new_def)
qed

lemma silent_served:
  "\<exists>st. serve_snapshot_session silent_env ferry_worker_host [] \<lparr>written = [], capacity = None\<rparr> = (Ok (), st)"
proof -
  let ?st = "Session_new [] \<lparr>written = [], capacity = None\<rparr>" and ?f = "failure_frame EmptyInput"
  have st: "?st = advanced ?st 0 0 []" by (rule Session_new_advanced)
  have "\<not> has_control ''snapshot worker transport could not complete''" by (rule no_control_ascii) simp
  moreover have "validate_public_identifier ''session_input_truncated'' MAX_PUBLIC_ERROR_CODE_BYTES event = Ok ()" for event
    by (simp add: validate_public_identifier_def MAX_PUBLIC_ERROR_CODE_BYTES_def) code_simp
  ultimately obtain e where
    e: "SnapshotSessionError_new None None (failure_code ?f) (failure_message ?f) (failure_retryable ?f) None = Ok e"
    using current_negotiated
    by (simp add: SnapshotSessionError_new_def SnapshotSessionError_validate_def failure_frame_def failure_output_def Let_def
        require_schema_def validate_optional_def validate_public_text_def MAX_PUBLIC_ERROR_MESSAGE_BYTES_def reject_if_def)
  have "frame_wf (FrameError, 0, ''{}'')" by (simp add: maximum_payload_bytes_def MAX_WORKER_DATA_PLANE_CONTROL_BYTES_def)
  then obtain st' where "write_json (we_error_json silent_env) FrameError e ?st = (Ok (), st')"
    using write_json_served [of "we_error_json silent_env" e "''{}''" FrameError 0 ?st 0 "[]"] st by (simp add: silent_env_def)
  with e have "finish_failure silent_env ferry_worker_host ?f ?st = (Ok (), st')"
    by (simp add: finish_failure_def Session_new_def ferry_worker_host_def)
  then show ?thesis by (simp add: serve_snapshot_session_def silent_run)
qed

theorem worker_answer_is_honest_witness:
  "\<exists>st e. serve_snapshot_session silent_env ferry_worker_host [] \<lparr>written = [], capacity = None\<rparr> = (Ok (), st)
    \<and> honest_error ferry_worker_host (Session_new [] \<lparr>written = [], capacity = None\<rparr>) (failure_frame EmptyInput) e
    \<and> se_job_id e = None \<and> se_cleanup e = None \<and> written (wk_writer st) = frame_bytes (FrameError, 0, ''{}'')"
proof -
  obtain st where st: "serve_snapshot_session silent_env ferry_worker_host [] \<lparr>written = [], capacity = None\<rparr> = (Ok (), st)"
    using silent_served by blast
  have "encode_header h \<noteq> []" for h using length_encode_header [of h] by fastforce
  then have "\<not> run_received silent_env run (reader_data []) rest" for run rest by (simp add: run_received_def)
  with worker_answer_is_honest [OF st] obtain e x fs torn where e:
    "honest_error ferry_worker_host (Session_new [] \<lparr>written = [], capacity = None\<rparr>) (failure_frame EmptyInput) e"
    "we_error_json silent_env e = Some x"
    "written (wk_writer (Session_new [] \<lparr>written = [], capacity = None\<rparr>)) = frames fs @ torn"
    "written (wk_writer st) = frames fs @ torn
       @ frame_bytes (FrameError, wk_output_sequence (Session_new [] \<lparr>written = [], capacity = None\<rparr>), x)"
    by (auto simp: silent_run simp del: frame_bytes.simps)
  have "x = ''{}''" using e(2) by (simp add: silent_env_def)
  then have "written (wk_writer st) = frame_bytes (FrameError, 0, ''{}'')" using e(3,4) by (simp add: Session_new_def)
  moreover have "se_job_id e = None" "se_cleanup e = None" using e(1) by (simp_all add: honest_error_def Session_new_def)
  ultimately show ?thesis using st e(1) by blast
qed

section \<open>A torn artifact\<close>

text \<open>
  When the sealed file delivers fewer bytes than its size said, the frame that was announced stays short, and the error
  answer is written behind it: on the wire its bytes fall into the payload the artifact header declared.
\<close>

lemma copy_loop_short:
  "length (reader_data r) < unat remaining \<Longrightarrow> capacity w = None \<Longrightarrow>
   \<exists>e r'. copy_loop remaining copied r w = (Err e, r', w\<lparr>written := written w @ reader_data r\<rparr>) \<and> e \<in> {Io, TruncatedPayload}"
proof (induction remaining copied r w rule: copy_loop.induct)
  case (1 remaining copied r w)
  let ?n = "unat (min remaining (16 * 1024))"
  have rem: "remaining \<noteq> 0" using 1(2) by auto
  show ?case
  proof (cases "reader_data r = []")
    case True
    then show ?thesis
      using rem read_some_no_data [of r ?n] by (subst copy_loop.simps) (auto simp: Let_def)
  next
    case False
    then have pos: "0 < ?n" using rem by (simp add: min_def unat_gt_0)
    obtain b r1 where b: "read_some ?n r = (Some b, r1)" "b \<noteq> []" "reader_data r = b @ reader_data r1"
      using read_some_data [OF pos] False by blast
    have le: "length b \<le> unat remaining" using chunk_bound b(1) by blast
    let ?rem = "remaining - of_nat (length b)" and ?w = "w\<lparr>written := written w @ b\<rparr>"
    have "unat ?rem = unat remaining - length b" using le by (rule unat_sub_count)
    then have short: "length (reader_data r1) < unat ?rem" using 1(2) b(3) by simp
    have w1: "write_all b w = (True, ?w)" "capacity ?w = None" using 1(3) by simp_all
    from 1(1) [OF rem refl b(1) [symmetric] refl b(2) w1(1) [symmetric] refl short w1(2)]
    obtain e r' where "copy_loop ?rem (copied + of_nat (length b)) r1 ?w = (Err e, r', ?w\<lparr>written := written ?w @ reader_data r1\<rparr>)"
      "e \<in> {Io, TruncatedPayload}" by blast
    then show ?thesis using rem b w1(1) by (subst copy_loop.simps) (simp add: Let_def)
  qed
qed

theorem torn_artifact_hides_the_error:
  assumes "artifact_file_serves f (artifact_size (ad_artifact d)) payload" "length payload < unat (artifact_size (ad_artifact d))"
    and "\<not> maximum_payload_bytes Artifact < artifact_size (ad_artifact d)"
    and "stream_artifact env f d (advanced st n m b) = (res, st1)" "res = Err failure"
    and "finish_failure env host failure st1 = (Ok (), st2)"
  shows "\<exists>x. written (wk_writer st2) = b
      @ encode_header \<lparr>kind = Artifact, sequence = of_nat n, payload_bytes = artifact_size (ad_artifact d)\<rparr>
      @ payload @ frame_bytes (FrameError, of_nat n, x)"
proof -
  let ?n = "artifact_size (ad_artifact d)"
  let ?h = "\<lparr>kind = Artifact, sequence = of_nat n, payload_bytes = ?n\<rparr>" and ?w = "\<lparr>written = b, capacity = None\<rparr>"
  have data: "reader_data (af_reader f) = payload" using assms(1) by (simp add: artifact_file_serves_def)
  obtain e r where "copy_loop ?n 0 (af_reader f) (?w\<lparr>written := b @ encode_header ?h\<rparr>)
      = (Err e, r, ?w\<lparr>written := (b @ encode_header ?h) @ payload\<rparr>)"
    using copy_loop_short [of "af_reader f" ?n "?w\<lparr>written := b @ encode_header ?h\<rparr>" 0] assms(2) data by auto
  then have "write_worker_data_plane_stream ?w Artifact (of_nat n) (af_reader f) ?n
      = (Err e, r, ?w\<lparr>written := (b @ encode_header ?h) @ payload\<rparr>)"
    using assms(3) by (simp add: write_worker_data_plane_stream_def WorkerDataPlaneFrameHeader_new_def Let_def
        write_worker_data_plane_header_def copy_worker_data_plane_payload_def)
  then have st1: "st1 = (advanced st n m b)\<lparr>wk_writer := ?w\<lparr>written := (b @ encode_header ?h) @ payload\<rparr>\<rparr>"
    using assms(1,4,5) by (auto simp: stream_artifact_def artifact_file_serves_def split: option.splits)
  then have "capacity (wk_writer st1) = None" by simp
  with assms(6) obtain x where
    "wk_writer st2 = (wk_writer st1)\<lparr>written := written (wk_writer st1) @ frame_bytes (FrameError, wk_output_sequence st1, x)\<rparr>"
    by (rule finish_failure_Ok)
  then show ?thesis by (auto simp: st1)
qed

end
