(* ===== verification/Spec2Isabelle.thy ===== *)
theory Spec2Isabelle
  imports Redaction Source_Contents Provisioning Ssh_Provider Ssh_Process End_To_End Worker_Answer
begin

text \<open>
  \<^bold>\<open>Rustferry: the remote build protocol\<close>

  Rustferry builds iOS and Android applications from Rust crates, and can do so on a remote machine: a client
  packs the sources, sends them with a build request to a worker, reads the worker's events, receives the
  built artifact, verifies it and acknowledges it. This development models the part of the repository that
  decides what is sent, accepted, redacted, signed and kept: the crate
  \<^verbatim>\<open>src/crates/rustferry-remote\<close>, the snapshot session of \<^verbatim>\<open>src/crates/rustferry-ssh\<close> and its counterpart in
  \<^verbatim>\<open>src/crates/rustferry-worker-macos\<close>.

  \<^bold>\<open>Parts and theories\<close>

  \<^item> \<open>Ferry_Prelude\<close>, \<open>Rust_Text\<close>, \<open>Rust_Io\<close>, \<open>Json_Value\<close>: what the sources use of Rust and its standard
    library. \<open>Result\<close> is a sum whose left side is the error, integers are words of their width, a \<open>str\<close> is the
    list of its UTF-8 bytes, a B-tree map is its association list in ascending key order, a reader is the list of
    what its successive \<open>read\<close> calls deliver, a writer the bytes it took. The locales \<open>lifecycle\<close>,
    \<open>chunked_filter\<close>, \<open>self_delimiting\<close> and \<open>nonempty_code\<close> state the contracts that several parts fulfil.
  \<^item> \<open>Secrets\<close> (\<^verbatim>\<open>secret.rs\<close>) and \<open>Redaction\<close> (\<^verbatim>\<open>redaction.rs\<close>): secret values, secret references, and the
    central redactor with its drain loop. The streaming redactor refines leftmost-longest replacement on the
    whole stream, ends on every input and lets no registered secret through, secrets that the marker itself shows
    excepted.
  \<^item> \<open>Source_Manifest\<close>, \<open>Source_Contents\<close>, \<open>Git_Snapshot\<close> (\<^verbatim>\<open>source.rs\<close>): portable and sensitive paths,
    manifests with their limits and digest, the credential scan, and the snapshot descriptor. An accepted
    manifest is a file tree of portable paths within every limit, and its digest determines it unless the digest
    inputs of two manifests collide.
  \<^item> \<open>Signing\<close> (\<^verbatim>\<open>signing.rs\<close>): modes, the status lifecycle, teams, devices, entitlements, profiles, plan
    validation, the signing order, the canonical target graph and validation reports.
  \<^item> \<open>Provisioning\<close> (\<^verbatim>\<open>profile.rs\<close>): the bounded traversal and the field parser of decoded provisioning
    profiles, and the validation of a profile for one target. Traversal, parser and validation are each proved to
    be exact, and together they bind a signing request to the decoded document.
  \<^item> \<open>Artifact_Manifest\<close> (\<^verbatim>\<open>artifact.rs\<close>): manifests and product expectations.
  \<^item> \<open>Protocol\<close>, \<open>Build_Request\<close>, \<open>Build_Events\<close> (\<^verbatim>\<open>protocol.rs\<close>, \<^verbatim>\<open>error.rs\<close>): versions, the job lifecycle, wire
    paths, requests with their canonical digests, results, and events with their line codec.
  \<^item> \<open>Provider\<close> (\<^verbatim>\<open>provider.rs\<close>, \<^verbatim>\<open>cancellation.rs\<close>): capabilities, handshake and the cancellation token.
  \<^item> \<open>Stdio\<close> (\<^verbatim>\<open>stdio.rs\<close>) and \<open>Data_Plane\<close> (\<^verbatim>\<open>data_plane.rs\<close>): the one-request control plane and the
    length-framed transport, over readers that deliver their bytes in arbitrary pieces or fail.
  \<^item> \<open>Snapshot_Session\<close> (\<^verbatim>\<open>snapshot_session.rs\<close>, \<^verbatim>\<open>handoff.rs\<close>): the messages of one framed build.
  \<^item> \<open>Artifact_Spool\<close>, \<open>Ssh_Session\<close>, \<open>Ssh_Protocol\<close> (\<^verbatim>\<open>rustferry-ssh/src/session.rs\<close>): the client of one framed
    build, its artifact spool, and what the client guarantees: what it sends on every path, what a successful
    session establishes, and that a worker which follows the protocol is served.
  \<^item> \<open>Ssh_Config\<close>, \<open>Ssh_Transport\<close>, \<open>Ssh_Provider\<close> (\<^verbatim>\<open>rustferry-ssh/src/config.rs\<close>, \<^verbatim>\<open>transport.rs\<close>, \<^verbatim>\<open>provider.rs\<close>): the
    endpoint with its pinned host key and its identity file, the OpenSSH invocation and the exchange with its
    deadline, and the provider on top. The argument list of an invocation is exactly the one for the configured
    endpoint with the pinned key as its only trust; how OpenSSH itself reads it is not modelled. An exchange ends, with its
    child seen to exit or killed, and returns complete responses only, and a handshake promises only what both sides
    have. The locale
    \<open>bounded_runner\<close> is what the provider relies on in a runner; the process runner fulfils it.
  \<^item> \<open>Ssh_Process\<close> (\<^verbatim>\<open>rustferry-ssh/src/process_session.rs\<close>): the snapshot session over one OpenSSH process, with its abort
    controller, interruptible reader and writer. Reading through the channel loses nothing, and the artifact is
    authorized only after the process exited with status zero. A panic of one of the caller's callbacks leaves the state
    that the session has reached at that call.
  \<^item> \<open>Worker_Root\<close>, \<open>Worker_Session\<close> (\<^verbatim>\<open>rustferry-worker-macos/src/snapshot_session.rs\<close>): the worker of one framed
    build, its deadline reader and the guard of its job directory. \<open>Worker_Protocol\<close> shows what a successful run has
    read and sent, \<open>Worker_Serving\<close> that a run with a cooperating host succeeds, \<open>Worker_Answer\<close> that the last frame
    says the truth about the job directory and stands behind whole frames, or behind one torn artifact.
  \<^item> \<open>End_To_End\<close>: client and worker together. What a successful worker run sends is what the client requires, so
    both complete with the same messages.

  Every operation is one definition with the source's name (a method carries its type's name where two types
  have a method of that name); guards and early returns are in the order of the source.

  \<^bold>\<open>Parameters\<close>

  Code outside the repository is an argument of the definitions that use it: SHA-256, the derived JSON
  serializers and deserializers, the URL parser, Unicode normalization and case tables, and the artifact
  verifier that the caller passes, the \<open>base64\<close> engines and temporary files. What the operating system answers (metadata, opens, renames, syncs) is an
  argument too, and nothing is assumed of it except where a statement says so. Theorems that rest on such an
  argument name what they assume of it and have a witness.

  \<^bold>\<open>Loops\<close>

  Loops are recursive functions with a termination proof: a reading loop consumes bytes, a copying loop its
  declared remainder, a scan moves its offset. The drain loop of the redactor may run forever on a redactor
  that registration cannot build; it is a partial function whose result \<open>None\<close> means that it does not return,
  and it is proved to return for every registered redactor. A loop that polls a process takes the list of what its
  turns observe; when the list ends before the loop does, its result is \<open>None\<close>, and the loop is proved to have
  returned once a turn sees the deadline. No fuel is used.

  \<^bold>\<open>Not modelled\<close>

  The scan of the file system and the ZIP transport in \<^verbatim>\<open>source.rs\<close>, the inspection of Mach-O files and ZIP
  archives in \<^verbatim>\<open>artifact.rs\<close>, the GitHub provider, the command-line tool, the job store, device deployment, the
  worker's use of Xcode, codesign and the keychain, and the platform back ends: their behaviour is mostly that
  of external programs and of the file system. \<open>Display\<close> and \<open>Debug\<close> texts are left out where nothing depends on
  them.
\<close>

end
